(* ===== verification/Prelude.thy ===== *)
theory Prelude
  imports "HOL-Library.Word" "HOL-Library.AList" "HOL-Library.Char_ord" "HOL-Library.List_Lexorder"
begin

text \<open>
  Shared vocabulary of the development: Go's bytes, strings, integers, durations, maps and
  results, the part of the Go standard library (strings, time, crypto/rand) that every component
  uses, the simplification collections, and the generic invariant interface of a component whose
  operations are run one after another.
\<close>

unbundle bit_operations_syntax

named_theorems go_string \<open>equations of the modelled functions of package strings\<close>
named_theorems go_map \<open>lookup, update and delete of modelled Go maps\<close>
named_theorems go_time \<open>conversions and comparisons of times and durations\<close>
named_theorems handler_simps \<open>equations that evaluate the handlers of the API server\<close>

section \<open>Bytes, strings and machine integers\<close>

type_synonym byte = "8 word"
type_synonym bytes = "byte list"
type_synonym u32 = "32 word"
type_synonym u64 = "64 word"

text \<open>
  A Go string is a sequence of bytes and so is \<open>string\<close>: an Isabelle \<open>char\<close> is one of 256 values.
  \<open>str_bytes\<close> is the conversion \<open>[]byte(s)\<close> and \<open>bytes_str\<close> the conversion \<open>string(b)\<close>.
\<close>

definition str_bytes :: "string \<Rightarrow> bytes" where
  "str_bytes s = map (\<lambda>c. of_nat (of_char c)) s"

definition bytes_str :: "bytes \<Rightarrow> string" where
  "bytes_str b = map (\<lambda>x. char_of (unat x)) b"

lemma unat_of_char [simp]: "unat (of_nat (of_char c) :: byte) = of_char c"
proof -
  have "(of_char c :: nat) < 256" by (rule nat_of_char_less_256)
  then show ?thesis by (simp add: unat_of_nat)
qed

lemma bytes_str_bytes [simp, go_string]: "bytes_str (str_bytes s) = s"
  by (induction s) (simp_all add: bytes_str_def str_bytes_def)

lemma str_bytes_str [simp, go_string]: "str_bytes (bytes_str b) = b"
proof (induction b)
  case (Cons x xs)
  have "unat x < 2 ^ LENGTH(8)" by (rule unsigned_less)
  then have "unat x < 256" by simp
  then have "of_nat (of_char (char_of (unat x) :: char)) = x" by (simp add: of_char_of)
  with Cons show ?case by (simp add: bytes_str_def str_bytes_def)
qed (simp add: bytes_str_def str_bytes_def)

lemma length_str_bytes [simp]: "length (str_bytes s) = length s"
  by (simp add: str_bytes_def)

lemma length_bytes_str [simp]: "length (bytes_str b) = length b"
  by (simp add: bytes_str_def)

lemma str_bytes_inject [simp]: "str_bytes s = str_bytes t \<longleftrightarrow> s = t"
  by (metis bytes_str_bytes)

lemma bytes_str_inject [simp]: "bytes_str s = bytes_str t \<longleftrightarrow> s = t"
  by (metis str_bytes_str)

lemma str_bytes_Nil_iff [simp]: "str_bytes s = [] \<longleftrightarrow> s = []"
  by (simp add: str_bytes_def)

lemma bytes_str_Nil_iff [simp]: "bytes_str s = [] \<longleftrightarrow> s = []"
  by (simp add: bytes_str_def)

text \<open>Go's \<open>int\<close> and \<open>int64\<close> are 64 bits wide and wrap; arithmetic that can leave the range is
  written through \<open>int64\<close>.\<close>

definition int64 :: "int \<Rightarrow> int" where
  "int64 x = (x + 2 ^ 63) mod 2 ^ 64 - 2 ^ 63"

lemma int64_id: "- (2 ^ 63) \<le> x \<Longrightarrow> x < 2 ^ 63 \<Longrightarrow> int64 x = x"
  by (simp add: int64_def)

lemma int64_range: "- (2 ^ 63) \<le> int64 x \<and> int64 x < 2 ^ 63"
proof -
  have "0 \<le> (x + 2 ^ 63) mod 2 ^ 64" and "(x + 2 ^ 63) mod 2 ^ 64 < (2 :: int) ^ 64"
    by simp_all
  then show ?thesis by (simp add: int64_def)
qed

section \<open>Results\<close>

text \<open>A fallible Go function returns a value, returns an error or panics.\<close>

datatype ('e, 'a) result = Ok 'a | Err 'e | Panic

fun is_ok :: "('e, 'a) result \<Rightarrow> bool" where
  "is_ok (Ok _) = True"
| "is_ok _ = False"

lemma is_ok_iff: "is_ok r \<longleftrightarrow> (\<exists>x. r = Ok x)"
  by (cases r) auto

section \<open>crypto/rand\<close>

text \<open>
  The random source is an explicit argument: the bytes the operating system will still deliver.
  \<open>rand.Read\<close> of a buffer of \<open>n\<close> bytes takes the next \<open>n\<close> of them and fails when fewer are left.
\<close>

type_synonym entropy = bytes

definition rand_read :: "nat \<Rightarrow> entropy \<Rightarrow> (bytes \<times> entropy) option" where
  "rand_read n e = (if length e < n then None else Some (take n e, drop n e))"

lemma rand_read_length: "rand_read n e = Some (b, e') \<Longrightarrow> length b = n"
  by (auto simp: rand_read_def split: if_splits)

section \<open>Package time\<close>

text \<open>A \<open>time.Time\<close> is its number of nanoseconds since the Unix epoch, a \<open>time.Duration\<close> is a
  64-bit number of nanoseconds. \<open>Sub\<close> saturates at the range of a duration.\<close>

type_synonym gotime = int
type_synonym duration = int

abbreviation Second :: duration where "Second \<equiv> 1000000000"
abbreviation Minute :: duration where "Minute \<equiv> 60000000000"
abbreviation Hour :: duration where "Hour \<equiv> 3600000000000"

definition time_Unix :: "gotime \<Rightarrow> int" where
  "time_Unix t = t div Second"

definition time_ofUnix :: "int \<Rightarrow> gotime" where
  "time_ofUnix s = s * Second"

definition time_Sub :: "gotime \<Rightarrow> gotime \<Rightarrow> duration" where
  "time_Sub t u = max (- (2 ^ 63)) (min (2 ^ 63 - 1) (t - u))"

definition time_Truncate_s :: "gotime \<Rightarrow> gotime" where
  "time_Truncate_s t = t - t mod Second"

lemma time_Sub_gt [go_time]: "d < 2 ^ 63 - 1 \<Longrightarrow> - (2 ^ 63) \<le> d \<Longrightarrow> (time_Sub t u > d) = (t - u > d)"
  by (auto simp: time_Sub_def)

lemma time_Truncate_le [go_time]: "time_Truncate_s t \<le> t"
  by (simp add: time_Truncate_s_def)

lemma time_Truncate_gt [go_time]: "t < time_Truncate_s t + Second"
proof -
  have "t mod Second < Second" by simp
  then show ?thesis by (simp add: time_Truncate_s_def)
qed

section \<open>Package strings\<close>

fun has_prefix :: "string \<Rightarrow> string \<Rightarrow> bool" where
  "has_prefix s [] = True"
| "has_prefix [] (p # ps) = False"
| "has_prefix (c # s) (p # ps) = (c = p \<and> has_prefix s ps)"

definition trim_prefix :: "string \<Rightarrow> string \<Rightarrow> string" where
  "trim_prefix s p = (if has_prefix s p then drop (length p) s else s)"

definition trim_suffix :: "string \<Rightarrow> string \<Rightarrow> string" where
  "trim_suffix s p = (if has_prefix (rev s) (rev p) then take (length s - length p) s else s)"

text \<open>\<open>strings.Split\<close> and \<open>strings.Join\<close> with a one-byte separator; \<open>strings.SplitN\<close> stops after
  \<open>n\<close> parts and leaves the rest in the last one.\<close>

fun split_on :: "char \<Rightarrow> string \<Rightarrow> string list" where
  "split_on sep [] = [[]]"
| "split_on sep (c # s) =
     (if c = sep then [] # split_on sep s
      else (case split_on sep s of [] \<Rightarrow> [[c]] | p # ps \<Rightarrow> (c # p) # ps))"

fun splitn_on :: "nat \<Rightarrow> char \<Rightarrow> string \<Rightarrow> string list" where
  "splitn_on 0 sep s = []"
| "splitn_on (Suc 0) sep s = [s]"
| "splitn_on (Suc (Suc n)) sep [] = [[]]"
| "splitn_on (Suc (Suc n)) sep (c # s) =
     (if c = sep then [] # splitn_on (Suc n) sep s
      else (case splitn_on (Suc (Suc n)) sep s of [] \<Rightarrow> [[c]] | p # ps \<Rightarrow> (c # p) # ps))"

fun join_with :: "string \<Rightarrow> string list \<Rightarrow> string" where
  "join_with sep [] = []"
| "join_with sep [x] = x"
| "join_with sep (x # y # xs) = x @ sep @ join_with sep (y # xs)"

lemma has_prefix_append [simp, go_string]: "has_prefix (p @ s) p"
  by (induction p) auto

lemma has_prefix_iff: "has_prefix s p \<longleftrightarrow> (\<exists>t. s = p @ t)"
  by (induction s p rule: has_prefix.induct) auto

lemma trim_prefix_append [simp, go_string]: "trim_prefix (p @ s) p = s"
  by (simp add: trim_prefix_def)

lemma split_on_not_Nil [simp]: "split_on sep s \<noteq> []"
  by (induction s) (auto split: list.splits)

lemma split_on_no_sep [go_string]: "sep \<notin> set s \<Longrightarrow> split_on sep s = [s]"
  by (induction s) auto

lemma split_on_append [go_string]:
  "sep \<notin> set s \<Longrightarrow> split_on sep (s @ sep # t) = s # split_on sep t"
  by (induction s) auto

lemma splitn_on_not_Nil [simp]: "splitn_on (Suc n) sep s \<noteq> []"
  by (induction "Suc n" sep s arbitrary: n rule: splitn_on.induct) (auto split: list.splits)

lemma splitn_on_append [go_string]:
  "sep \<notin> set s \<Longrightarrow> splitn_on (Suc (Suc n)) sep (s @ sep # t) = s # splitn_on (Suc n) sep t"
  by (induction s) auto

lemma join_split [simp]: "join_with [sep] (split_on sep s) = s"
proof (induction s)
  case (Cons c s)
  obtain p ps where split: "split_on sep s = p # ps" by (cases "split_on sep s") auto
  with Cons.IH show ?case by (cases ps) auto
qed simp

lemma length_split_on_join:
  "\<forall>p \<in> set ps. sep \<notin> set p \<Longrightarrow> ps \<noteq> [] \<Longrightarrow> split_on sep (join_with [sep] ps) = ps"
proof (induction ps rule: induct_list012)
  case (3 x y zs)
  then show ?case using split_on_append [of sep x "join_with [sep] (y # zs)"] by simp
qed (auto simp: split_on_no_sep)

text \<open>
  \<open>strings.TrimSpace\<close>: the length in bytes of the white space rune a string starts with, 0 when it
  starts with none. Besides the ASCII space characters these are the runes of
  \<open>unicode.IsSpace\<close> in their UTF-8 form; at the right end the same byte patterns are matched
  backwards.
\<close>

definition ascii_space :: "nat \<Rightarrow> bool" where
  "ascii_space c \<longleftrightarrow> c = 32 \<or> (9 \<le> c \<and> c \<le> 13)"

definition space2 :: "nat \<Rightarrow> nat \<Rightarrow> bool" where
  "space2 a b \<longleftrightarrow> a = 0xC2 \<and> (b = 0x85 \<or> b = 0xA0)"

definition space3 :: "nat \<Rightarrow> nat \<Rightarrow> nat \<Rightarrow> bool" where
  "space3 a b c \<longleftrightarrow>
     a = 0xE1 \<and> b = 0x9A \<and> c = 0x80 \<or>
     a = 0xE2 \<and> b = 0x80 \<and> (0x80 \<le> c \<and> c \<le> 0x8A \<or> c = 0xA8 \<or> c = 0xA9 \<or> c = 0xAF) \<or>
     a = 0xE2 \<and> b = 0x81 \<and> c = 0x9F \<or>
     a = 0xE3 \<and> b = 0x80 \<and> c = 0x80"

fun trim_left :: "string \<Rightarrow> string" where
  "trim_left [] = []"
| "trim_left (a # s) =
     (if ascii_space (of_char a) then trim_left s
      else case s of
        b # s' \<Rightarrow>
          (if space2 (of_char a) (of_char b) then trim_left s'
           else case s' of
             c # s'' \<Rightarrow>
               (if space3 (of_char a) (of_char b) (of_char c) then trim_left s'' else a # s)
           | [] \<Rightarrow> a # s)
      | [] \<Rightarrow> a # s)"

fun trim_right_rev :: "string \<Rightarrow> string" where
  "trim_right_rev [] = []"
| "trim_right_rev (c # s) =
     (if ascii_space (of_char c) then trim_right_rev s
      else case s of
        b # s' \<Rightarrow>
          (if space2 (of_char b) (of_char c) then trim_right_rev s'
           else case s' of
             a # s'' \<Rightarrow>
               (if space3 (of_char a) (of_char b) (of_char c) then trim_right_rev s'' else c # s)
           | [] \<Rightarrow> c # s)
      | [] \<Rightarrow> c # s)"

definition trim_space :: "string \<Rightarrow> string" where
  "trim_space s = rev (trim_right_rev (rev (trim_left s)))"

text \<open>
  \<open>strings.ToUpper\<close>, as far as the result is compared with ASCII constants: the ASCII letters, and
  the two non-ASCII runes whose upper case is an ASCII letter (dotless i and long s).
\<close>

definition upper_char :: "char \<Rightarrow> char" where
  "upper_char c = (let n = of_char c :: nat in if 97 \<le> n \<and> n \<le> 122 then char_of (n - 32) else c)"

fun to_upper :: "string \<Rightarrow> string" where
  "to_upper [] = []"
| "to_upper [c] = [upper_char c]"
| "to_upper (a # b # s) =
     (if (of_char a :: nat) = 0xC4 \<and> (of_char b :: nat) = 0xB1 then CHR ''I'' # to_upper s
      else if (of_char a :: nat) = 0xC5 \<and> (of_char b :: nat) = 0xBF then CHR ''S'' # to_upper s
      else upper_char a # to_upper (b # s))"

text \<open>\<open>strings.TrimRight\<close> with a cutset of ASCII characters.\<close>

definition trim_right_set :: "string \<Rightarrow> string \<Rightarrow> string" where
  "trim_right_set s cutset = rev (dropWhile (\<lambda>c. c \<in> set cutset) (rev s))"

section \<open>Maps\<close>

text \<open>
  A Go map is an association list with distinct keys; the order of the list stands for the order in
  which \<open>range\<close> visits the entries, which Go leaves open.
\<close>

type_synonym ('k, 'v) gomap = "('k \<times> 'v) list"

abbreviation gm_get :: "('k, 'v) gomap \<Rightarrow> 'k \<Rightarrow> 'v option" where "gm_get \<equiv> map_of"
abbreviation gm_put :: "'k \<Rightarrow> 'v \<Rightarrow> ('k, 'v) gomap \<Rightarrow> ('k, 'v) gomap" where "gm_put \<equiv> AList.update"
abbreviation gm_del :: "'k \<Rightarrow> ('k, 'v) gomap \<Rightarrow> ('k, 'v) gomap" where "gm_del \<equiv> AList.delete"

definition gm_keys :: "('k, 'v) gomap \<Rightarrow> 'k list" where
  "gm_keys m = map fst m"

definition gm_ok :: "('k, 'v) gomap \<Rightarrow> bool" where
  "gm_ok m \<longleftrightarrow> distinct (map fst m)"

definition gm_filter :: "('k \<Rightarrow> 'v \<Rightarrow> bool) \<Rightarrow> ('k, 'v) gomap \<Rightarrow> ('k, 'v) gomap" where
  "gm_filter p m = filter (\<lambda>(k, v). p k v) m"

lemma gm_get_put [simp, go_map]: "gm_get (gm_put k v m) = (gm_get m)(k \<mapsto> v)"
  by (simp add: update_conv')

lemma gm_get_del [simp, go_map]: "gm_get (gm_del k m) = (gm_get m)(k := None)"
  by (simp add: delete_conv')

lemma gm_ok_Nil [simp]: "gm_ok []"
  by (simp add: gm_ok_def)

lemma gm_ok_put [simp]: "gm_ok m \<Longrightarrow> gm_ok (gm_put k v m)"
  by (simp add: gm_ok_def distinct_update)

lemma gm_ok_del [simp]: "gm_ok m \<Longrightarrow> gm_ok (gm_del k m)"
  by (simp add: gm_ok_def distinct_delete)

lemma gm_ok_filter [simp]: "gm_ok m \<Longrightarrow> gm_ok (gm_filter p m)"
  by (induction m) (auto simp: gm_ok_def gm_filter_def)

lemma gm_get_filter [go_map]:
  "gm_ok m \<Longrightarrow> gm_get (gm_filter p m) k =
     (case gm_get m k of None \<Rightarrow> None | Some v \<Rightarrow> if p k v then Some v else None)"
proof (induction m)
  case (Cons kv m)
  obtain k' v' where kv: "kv = (k', v')" by (cases kv)
  from Cons.prems kv have fresh: "k' \<notin> fst ` set m" by (simp add: gm_ok_def)
  then have none: "map_of m k' = None" by (simp add: map_of_eq_None_iff)
  from Cons.prems kv have "gm_ok m" by (simp add: gm_ok_def)
  with Cons.IH kv none show ?case by (auto simp: gm_filter_def split: option.splits)
qed (simp add: gm_filter_def)

lemma gm_fold_put:
  "distinct (map fst xs) \<Longrightarrow> gm_get (fold (\<lambda>(k, v) m. gm_put k v m) xs m) k =
     (case map_of xs k of None \<Rightarrow> gm_get m k | Some x \<Rightarrow> Some x)"
proof (induction xs arbitrary: m)
  case (Cons kv xs)
  obtain a b where kv: "kv = (a, b)" by (cases kv)
  have "map_of xs a = None" using Cons.prems kv by (simp add: map_of_eq_None_iff)
  then show ?case using Cons kv by (auto split: option.splits)
qed simp

lemma gm_keys_iff: "k \<in> set (gm_keys m) \<longleftrightarrow> gm_get m k \<noteq> None"
  by (simp add: gm_keys_def map_of_eq_None_iff)

lemma length_put_le: "length (gm_put k v m) \<le> Suc (length m)"
  by (induction m) auto

lemma length_put_fresh: "gm_get m k = None \<Longrightarrow> length (gm_put k v m) = Suc (length m)"
  by (induction m) (auto split: if_splits)

section \<open>Components run operation by operation\<close>

text \<open>
  The contract every stateful component offers: a step function for one operation and an invariant
  that each step keeps. A relation between the states before and after (what is never lost) is
  lifted to whole runs as well.
\<close>

locale op_system =
  fixes step :: "'op \<Rightarrow> 's \<Rightarrow> 's"
    and inv :: "'s \<Rightarrow> bool"
    and ext :: "'s \<Rightarrow> 's \<Rightarrow> bool"
  assumes step_inv: "inv s \<Longrightarrow> inv (step x s)"
    and step_ext: "inv s \<Longrightarrow> ext s (step x s)"
    and ext_refl: "ext s s"
    and ext_trans: "ext s t \<Longrightarrow> ext t u \<Longrightarrow> ext s u"
begin

lemma run_inv: "inv s \<Longrightarrow> inv (fold step xs s)"
  by (induction xs arbitrary: s) (auto simp: step_inv)

lemma run_ext: "inv s \<Longrightarrow> ext s (fold step xs s)"
proof (induction xs arbitrary: s)
  case Nil
  show ?case by (simp add: ext_refl)
next
  case (Cons x xs)
  then have "ext (step x s) (fold step xs (step x s))" by (simp add: step_inv)
  with Cons.prems show ?case using step_ext ext_trans by fastforce
qed

end

end
