(* ===== verification/Encoding.thy ===== *)
theory Encoding
  imports Prelude
begin

text \<open>
  The byte encodings of the standard library that the program uses: \<open>encoding/base64\<close> (the padded
  standard alphabet and the unpadded URL alphabet), \<open>encoding/hex\<close> and the big-endian integers of
  \<open>encoding/binary\<close>, each with its round trip. A failing \<open>DecodeString\<close> still returns the bytes it
  had decoded, which several handlers go on to use, so the base64 decoder returns a pair.
\<close>

section \<open>encoding/base64\<close>

datatype b64_enc = StdEncoding | RawURLEncoding

definition b64_char :: "b64_enc \<Rightarrow> nat \<Rightarrow> char" where
  "b64_char e n =
     (if n < 26 then char_of (65 + n)
      else if n < 52 then char_of (71 + n)
      else if n < 62 then char_of (n - 4)
      else if n = 62 then (if e = StdEncoding then CHR ''+'' else CHR ''-'')
      else (if e = StdEncoding then CHR ''/'' else CHR ''_''))"

definition b64_val :: "b64_enc \<Rightarrow> char \<Rightarrow> nat option" where
  "b64_val e c =
     (let n = of_char c :: nat in
      if 65 \<le> n \<and> n \<le> 90 then Some (n - 65)
      else if 97 \<le> n \<and> n \<le> 122 then Some (n - 71)
      else if 48 \<le> n \<and> n \<le> 57 then Some (n + 4)
      else if c = (if e = StdEncoding then CHR ''+'' else CHR ''-'') then Some 62
      else if c = (if e = StdEncoding then CHR ''/'' else CHR ''_'') then Some 63
      else None)"

definition pad_str :: "b64_enc \<Rightarrow> nat \<Rightarrow> string" where
  "pad_str e n = (if e = StdEncoding then replicate n (CHR ''='') else [])"

text \<open>Three octets and four sextets are the two ways to cut the same 24-bit number.\<close>

definition pack3 :: "nat \<Rightarrow> nat \<Rightarrow> nat \<Rightarrow> nat" where
  "pack3 x y z = x * 65536 + y * 256 + z"

definition pack4 :: "nat \<Rightarrow> nat \<Rightarrow> nat \<Rightarrow> nat \<Rightarrow> nat" where
  "pack4 p q r t = p * 262144 + q * 4096 + r * 64 + t"

definition sextet :: "nat \<Rightarrow> nat \<Rightarrow> nat" where
  "sextet i v = v div 64 ^ i mod 64"

definition octet :: "nat \<Rightarrow> nat \<Rightarrow> byte" where
  "octet i v = of_nat (v div 256 ^ i mod 256)"

fun b64_encode :: "b64_enc \<Rightarrow> bytes \<Rightarrow> string" where
  "b64_encode e [] = []"
| "b64_encode e [x] =
     (let v = pack3 (unat x) 0 0 in
      [b64_char e (sextet 3 v), b64_char e (sextet 2 v)] @ pad_str e 2)"
| "b64_encode e [x, y] =
     (let v = pack3 (unat x) (unat y) 0 in
      [b64_char e (sextet 3 v), b64_char e (sextet 2 v), b64_char e (sextet 1 v)] @ pad_str e 1)"
| "b64_encode e (x # y # z # bs) =
     (let v = pack3 (unat x) (unat y) (unat z) in
      [b64_char e (sextet 3 v), b64_char e (sextet 2 v), b64_char e (sextet 1 v),
       b64_char e (sextet 0 v)] @ b64_encode e bs)"

text \<open>One quantum of four characters at a time. The result is the bytes decoded before the first
  corrupt quantum, and whether the input was correct; after a padded quantum nothing may follow, but
  the bytes of that quantum are delivered in any case.\<close>

fun b64_quanta :: "b64_enc \<Rightarrow> string \<Rightarrow> bytes \<times> bool" where
  "b64_quanta e [] = ([], True)"
| "b64_quanta e [a] = ([], False)"
| "b64_quanta e [a, b] =
     (if e = StdEncoding then ([], False)
      else case (b64_val e a, b64_val e b) of
        (Some p, Some q) \<Rightarrow> ([octet 2 (pack4 p q 0 0)], True)
      | _ \<Rightarrow> ([], False))"
| "b64_quanta e [a, b, c] =
     (if e = StdEncoding then ([], False)
      else case (b64_val e a, b64_val e b, b64_val e c) of
        (Some p, Some q, Some r) \<Rightarrow>
          ([octet 2 (pack4 p q r 0), octet 1 (pack4 p q r 0)], True)
      | _ \<Rightarrow> ([], False))"
| "b64_quanta e (a # b # c # d # s) =
     (case (b64_val e a, b64_val e b) of
        (Some p, Some q) \<Rightarrow>
          (if e = StdEncoding \<and> c = CHR ''='' then
             (if d = CHR ''='' then ([octet 2 (pack4 p q 0 0)], s = []) else ([], False))
           else case b64_val e c of
             None \<Rightarrow> ([], False)
           | Some r \<Rightarrow>
               (if e = StdEncoding \<and> d = CHR ''='' then
                  ([octet 2 (pack4 p q r 0), octet 1 (pack4 p q r 0)], s = [])
                else case b64_val e d of
                  None \<Rightarrow> ([], False)
                | Some t \<Rightarrow>
                    (let v = pack4 p q r t; (bs, ok) = b64_quanta e s in
                     (octet 2 v # octet 1 v # octet 0 v # bs, ok))))
      | _ \<Rightarrow> ([], False))"

definition is_crlf :: "char \<Rightarrow> bool" where
  "is_crlf c \<longleftrightarrow> (of_char c :: nat) = 10 \<or> (of_char c :: nat) = 13"

text \<open>\<open>DecodeString\<close> skips carriage returns and newlines wherever they stand.\<close>

definition b64_decode_part :: "b64_enc \<Rightarrow> string \<Rightarrow> bytes \<times> bool" where
  "b64_decode_part e s = b64_quanta e (filter (\<lambda>c. \<not> is_crlf c) s)"

definition b64_decode :: "b64_enc \<Rightarrow> string \<Rightarrow> bytes option" where
  "b64_decode e s = (let (bs, ok) = b64_decode_part e s in if ok then Some bs else None)"

definition b64_decode_lax :: "b64_enc \<Rightarrow> string \<Rightarrow> bytes" where
  "b64_decode_lax e s = fst (b64_decode_part e s)"

abbreviation b64std :: "bytes \<Rightarrow> string" where "b64std \<equiv> b64_encode StdEncoding"
abbreviation b64url :: "bytes \<Rightarrow> string" where "b64url \<equiv> b64_encode RawURLEncoding"
abbreviation b64std_dec :: "string \<Rightarrow> bytes option" where "b64std_dec \<equiv> b64_decode StdEncoding"
abbreviation b64url_dec :: "string \<Rightarrow> bytes option" where "b64url_dec \<equiv> b64_decode RawURLEncoding"
abbreviation b64std_lax :: "string \<Rightarrow> bytes" where "b64std_lax \<equiv> b64_decode_lax StdEncoding"

lemma of_b64_char:
  "n < 64 \<Longrightarrow> (of_char (b64_char e n) :: nat) =
     (if n < 26 then 65 + n else if n < 52 then 71 + n else if n < 62 then n - 4
      else if n = 62 then (if e = StdEncoding then 43 else 45)
      else (if e = StdEncoding then 47 else 95))"
  by (auto simp: b64_char_def of_char_of)

lemma b64_val_char [simp]: "n < 64 \<Longrightarrow> b64_val e (b64_char e n) = Some n"
  by (cases e) (auto simp: b64_val_def of_b64_char Let_def b64_char_def)

lemma b64_char_not [simp]:
  assumes "n < 64"
  shows "\<not> is_crlf (b64_char e n)" "b64_char e n \<noteq> CHR ''=''" "b64_char e n \<noteq> CHR ''.''"
proof -
  have "(of_char (b64_char e n) :: nat) \<notin> {10, 13, of_char (CHR ''=''), of_char (CHR ''.'')}"
    using assms by (auto simp: of_b64_char)
  then show "\<not> is_crlf (b64_char e n)" "b64_char e n \<noteq> CHR ''=''" "b64_char e n \<noteq> CHR ''.''"
    by (auto simp: is_crlf_def)
qed

lemma unat_byte [simp]: "unat (x :: byte) < 256"
proof -
  have "unat x < 2 ^ LENGTH(8)" by (rule unsigned_less)
  then show ?thesis by simp
qed

lemma sextet_less [simp]: "sextet i v < 64"
  by (simp add: sextet_def)

lemma pack3_less: "x < 256 \<Longrightarrow> y < 256 \<Longrightarrow> z < 256 \<Longrightarrow> pack3 x y z < 262144 * 64"
  by (simp add: pack3_def)

lemma pack4_sextets:
  assumes "v < 262144 * 64"
  shows "pack4 (sextet 3 v) (sextet 2 v) (sextet 1 v) (sextet 0 v) = v"
proof -
  define a b c where "a = v div 64" and "b = a div 64" and "c = b div 64"
  have v: "v = a * 64 + v mod 64" and a: "a = b * 64 + a mod 64" and b: "b = c * 64 + b mod 64"
    unfolding a_def b_def c_def by simp_all
  have pows: "v div 64 ^ 2 = b" "v div 64 ^ 3 = c"
    unfolding a_def b_def c_def by (simp_all flip: div_mult2_eq)
  have "c < 64" using assms unfolding a_def b_def c_def
    by (simp add: less_mult_imp_div_less flip: div_mult2_eq)
  then have "sextet 3 v = c" unfolding sextet_def pows by simp
  moreover have "sextet 2 v = b mod 64" unfolding sextet_def pows by simp
  moreover have "sextet 1 v = a mod 64" "sextet 0 v = v mod 64" by (simp_all add: sextet_def a_def)
  ultimately show ?thesis unfolding pack4_def using v a b by linarith
qed

lemma pack3_low_sextets:
  "sextet 0 (pack3 x y 0) = 0" "sextet 1 (pack3 x 0 0) = 0" "sextet 0 (pack3 x 0 0) = 0"
proof -
  have "pack3 x y 0 = (x * 1024 + y * 4) * 64" by (simp add: pack3_def)
  then show "sextet 0 (pack3 x y 0) = 0" by (simp only: sextet_def) simp
  have "pack3 x 0 0 = (x * 16 * 64) * 64" by (simp add: pack3_def)
  then show "sextet 1 (pack3 x 0 0) = 0" by (simp only: sextet_def) simp
  have "pack3 x 0 0 = (x * 1024) * 64" by (simp add: pack3_def)
  then show "sextet 0 (pack3 x 0 0) = 0" by (simp only: sextet_def) simp
qed

lemma octets_pack3:
  assumes "y < 256" "z < 256"
  shows "octet 2 (pack3 (unat x) y z) = x" "octet 1 (pack3 x' y z) = of_nat y"
    "octet 0 (pack3 x' y z) = of_nat z"
proof -
  have "pack3 (unat x) y z div 256 ^ 2 = unat x"
    using assms by (intro div_nat_eqI) (simp_all add: pack3_def)
  then show "octet 2 (pack3 (unat x) y z) = x" by (simp add: octet_def)
  have "pack3 x' y z div 256 ^ 1 = x' * 256 + y"
    using assms by (intro div_nat_eqI) (simp_all add: pack3_def)
  then show "octet 1 (pack3 x' y z) = of_nat y" using assms by (simp add: octet_def)
  have "pack3 x' y z = (x' * 256 + y) * 256 + z" by (simp add: pack3_def)
  then have "pack3 x' y z mod 256 = z" using assms(2) by (simp only: mod_mult_self3) simp
  then show "octet 0 (pack3 x' y z) = of_nat z" by (simp add: octet_def)
qed

lemma b64_quanta_encode: "b64_quanta e (b64_encode e bs) = (bs, True)"
proof (induction e bs rule: b64_encode.induct)
  case (2 e x)
  have "pad_str StdEncoding 2 = ''==''" by (simp add: pad_str_def numeral_2_eq_2)
  then show ?case using pack4_sextets [OF pack3_less, of "unat x" 0 0]
    by (cases e) (simp_all add: Let_def pad_str_def [of RawURLEncoding] pack3_low_sextets octets_pack3
      del: One_nat_def)
next
  case (3 e x y)
  have "pad_str StdEncoding 1 = ''=''" by (simp add: pad_str_def)
  then show ?case using pack4_sextets [OF pack3_less, of "unat x" "unat y" 0]
    by (cases e) (simp_all add: Let_def pad_str_def [of RawURLEncoding] pack3_low_sextets octets_pack3
      del: One_nat_def)
next
  case (4 e x y z bs)
  then have "b64_quanta e (b64_encode e bs) = (bs, True)" by (simp add: Let_def)
  then show ?case using pack4_sextets [OF pack3_less, of "unat x" "unat y" "unat z"]
    by (simp add: Let_def octets_pack3 del: One_nat_def)
qed simp

lemma b64_encode_chars: "c \<in> set (b64_encode e bs) \<Longrightarrow> \<not> is_crlf c \<and> c \<noteq> CHR ''.''"
proof (induction e bs rule: b64_encode.induct)
  case (2 e x)
  then show ?case by (auto simp: Let_def pad_str_def is_crlf_def [of "CHR ''=''"] split: if_splits)
next
  case (3 e x y)
  then show ?case by (auto simp: Let_def pad_str_def is_crlf_def [of "CHR ''=''"] split: if_splits)
next
  case (4 e x y z bs)
  then show ?case by (auto simp: Let_def)
qed simp

lemma filter_b64_encode [simp]: "filter (\<lambda>c. \<not> is_crlf c) (b64_encode e bs) = b64_encode e bs"
  using b64_encode_chars by (auto simp: filter_id_conv)

lemma b64_roundtrip [simp, go_string]: "b64_decode e (b64_encode e bs) = Some bs"
  by (simp add: b64_decode_def b64_decode_part_def b64_quanta_encode)

lemma b64_roundtrip_lax [simp, go_string]: "b64_decode_lax e (b64_encode e bs) = bs"
  by (simp add: b64_decode_lax_def b64_decode_part_def b64_quanta_encode)

lemma b64_encode_no_dot [simp]: "CHR ''.'' \<notin> set (b64_encode e bs)"
  using b64_encode_chars by blast

lemma b64_encode_inj [simp]: "b64_encode e x = b64_encode e y \<longleftrightarrow> x = y"
  by (metis b64_roundtrip option.inject)

lemma b64_encode_Nil_iff [simp]: "b64_encode e bs = [] \<longleftrightarrow> bs = []"
  by (cases "(e, bs)" rule: b64_encode.cases) (simp_all add: Let_def)

section \<open>encoding/hex\<close>

definition hex_digit :: "nat \<Rightarrow> char" where
  "hex_digit n = (if n < 10 then char_of (48 + n) else char_of (87 + n))"

definition hex_val :: "char \<Rightarrow> nat option" where
  "hex_val c =
     (let n = of_char c :: nat in
      if 48 \<le> n \<and> n \<le> 57 then Some (n - 48)
      else if 97 \<le> n \<and> n \<le> 102 then Some (n - 87)
      else if 65 \<le> n \<and> n \<le> 70 then Some (n - 55)
      else None)"

definition hex_encode :: "bytes \<Rightarrow> string" where
  "hex_encode bs = concat (map (\<lambda>x. [hex_digit (unat x div 16), hex_digit (unat x mod 16)]) bs)"

fun hex_decode :: "string \<Rightarrow> bytes option" where
  "hex_decode [] = Some []"
| "hex_decode [a] = None"
| "hex_decode (a # b # s) =
     (case (hex_val a, hex_val b, hex_decode s) of
        (Some p, Some q, Some bs) \<Rightarrow> Some (of_nat (p * 16 + q) # bs)
      | _ \<Rightarrow> None)"

lemma of_hex_digit: "n < 16 \<Longrightarrow> (of_char (hex_digit n) :: nat) = (if n < 10 then 48 + n else 87 + n)"
  by (simp add: hex_digit_def of_char_of)

lemma hex_val_digit [simp]: "n < 16 \<Longrightarrow> hex_val (hex_digit n) = Some n"
  by (simp add: hex_val_def of_hex_digit)

lemma hex_roundtrip [simp, go_string]: "hex_decode (hex_encode bs) = Some bs"
proof (induction bs)
  case (Cons x bs)
  define p q where "p = unat x div 16" and "q = unat x mod 16"
  have "p < 16" unfolding p_def by (rule less_mult_imp_div_less) simp
  have "q < 16" unfolding q_def by simp
  have "p * 16 + q = unat x" unfolding p_def q_def by (rule div_mult_mod_eq)
  then have x: "of_nat (p * 16 + q) = x" by (simp only:) simp
  have "hex_encode (x # bs) = hex_digit p # hex_digit q # hex_encode bs"
    unfolding hex_encode_def p_def q_def list.map concat.simps by (simp only: append_Cons append_Nil)
  then show ?case using Cons \<open>p < 16\<close> \<open>q < 16\<close> by (simp only: hex_decode.simps hex_val_digit) (simp add: x del: of_nat_add of_nat_mult)
qed (simp add: hex_encode_def)

lemma hex_encode_inj [simp]: "hex_encode x = hex_encode y \<longleftrightarrow> x = y"
  by (metis hex_roundtrip option.inject)

lemma length_hex_encode [simp]: "length (hex_encode bs) = 2 * length bs"
  by (induction bs) (simp_all add: hex_encode_def)

section \<open>encoding/binary\<close>

text \<open>\<open>binary.BigEndian\<close> writes the most significant byte first.\<close>

definition be_bytes :: "nat \<Rightarrow> 'a :: len word \<Rightarrow> bytes" where
  "be_bytes n x = map (\<lambda>i. ucast (drop_bit (8 * i) x)) (rev [0..<n])"

definition be32 :: "u32 \<Rightarrow> bytes" where
  "be32 x = be_bytes 4 x"

definition be64 :: "u64 \<Rightarrow> bytes" where
  "be64 x = be_bytes 8 x"

lemma be_bytes_inj:
  fixes x y :: "'a :: len word"
  assumes "be_bytes n x = be_bytes n y" and "LENGTH('a) \<le> 8 * n"
  shows "x = y"
proof (rule bit_word_eqI)
  fix i assume i: "i < LENGTH('a)"
  then have k: "i div 8 < n" using assms(2) by linarith
  have "\<forall>k \<in> {0..<n}. ucast (drop_bit (8 * k) x) = (ucast (drop_bit (8 * k) y) :: byte)"
    using assms(1) unfolding be_bytes_def map_eq_conv set_rev set_upt .
  with k have "bit (ucast (drop_bit (8 * (i div 8)) x) :: byte) (i mod 8) =
      bit (ucast (drop_bit (8 * (i div 8)) y) :: byte) (i mod 8)" by simp
  then show "bit x i = bit y i" using i by (simp add: bit_simps)
qed

lemma length_be_bytes: "length (be_bytes n x) = n"
  by (simp add: be_bytes_def)

lemma length_be32 [simp]: "length (be32 x) = 4"
  by (simp add: be32_def length_be_bytes)

lemma length_be64 [simp]: "length (be64 x) = 8"
  by (simp add: be64_def length_be_bytes)

lemma be64_inj [simp]: "be64 x = be64 y \<longleftrightarrow> x = y"
  unfolding be64_def by (auto dest: be_bytes_inj)

lemma be32_inj [simp]: "be32 x = be32 y \<longleftrightarrow> x = y"
  unfolding be32_def by (auto dest: be_bytes_inj)

end
