(* ===== verification/Crypto.thy ===== *)
theory Crypto
  imports Encoding
begin

text \<open>
  The cryptographic primitives and the wrapper packages \<open>internal/kem\<close>, \<open>internal/dsa\<close>,
  \<open>internal/slhdsa\<close> and \<open>internal/kdf\<close>. The primitives themselves (ML-KEM, ML-DSA, SLH-DSA,
  SHA-256, HMAC, HKDF, Argon2id, AES-GCM) are not code of the repository: they are the fields of the
  record \<open>crypto\<close>, an argument of every definition that reaches them. What the program relies on is
  stated by the predicates \<open>kem_correct\<close>, \<open>dsa_correct\<close>, \<open>slh_correct\<close>, \<open>gcm_correct\<close> and
  \<open>hash_sizes\<close>, which are hypotheses of the theorems that need them; \<open>toy_crypto\<close> satisfies all of them.
\<close>

section \<open>The primitives\<close>

record crypto =
  sha256 :: "bytes \<Rightarrow> bytes"
  hmac :: "bytes \<Rightarrow> bytes \<Rightarrow> bytes"
  hkdf :: "bytes \<Rightarrow> bytes \<Rightarrow> bytes \<Rightarrow> nat \<Rightarrow> bytes"
  argon2id :: "nat \<Rightarrow> bytes \<Rightarrow> bytes \<Rightarrow> bytes"
  gcm_seal :: "bytes \<Rightarrow> bytes \<Rightarrow> bytes \<Rightarrow> bytes \<Rightarrow> bytes"
  gcm_open :: "bytes \<Rightarrow> bytes \<Rightarrow> bytes \<Rightarrow> bytes \<Rightarrow> bytes option"
  mlkem_ek :: "int \<Rightarrow> bytes \<Rightarrow> bytes"
  mlkem_ek_ok :: "int \<Rightarrow> bytes \<Rightarrow> bool"
  mlkem_encap :: "int \<Rightarrow> bytes \<Rightarrow> bytes \<Rightarrow> bytes \<times> bytes"
  mlkem_decap :: "int \<Rightarrow> bytes \<Rightarrow> bytes \<Rightarrow> bytes option"
  mldsa_keys :: "int \<Rightarrow> bytes \<Rightarrow> bytes \<times> bytes"
  mldsa_pk_ok :: "int \<Rightarrow> bytes \<Rightarrow> bool"
  mldsa_sk_ok :: "int \<Rightarrow> bytes \<Rightarrow> bool"
  mldsa_sign :: "int \<Rightarrow> bytes \<Rightarrow> bytes \<Rightarrow> bytes"
  mldsa_verify :: "int \<Rightarrow> bytes \<Rightarrow> bytes \<Rightarrow> bytes \<Rightarrow> bool"
  slh_keys :: "string \<Rightarrow> bytes \<Rightarrow> bytes \<times> bytes"
  slh_public :: "string \<Rightarrow> bytes \<Rightarrow> bytes"
  slh_pk_ok :: "string \<Rightarrow> bytes \<Rightarrow> bool"
  slh_sk_ok :: "string \<Rightarrow> bytes \<Rightarrow> bool"
  slh_sig_ok :: "string \<Rightarrow> bytes \<Rightarrow> bool"
  slh_sign :: "string \<Rightarrow> bytes \<Rightarrow> bytes \<Rightarrow> bytes \<Rightarrow> bytes"
  slh_verify :: "string \<Rightarrow> bytes \<Rightarrow> bytes \<Rightarrow> bytes \<Rightarrow> bool"

text \<open>
  The order of the arguments: \<open>hmac key msg\<close>; \<open>hkdf secret salt info len\<close>; \<open>argon2id time password salt\<close>
  (both callers use 64 MiB and 4 threads);
  \<open>gcm_seal key nonce plaintext aad\<close> and \<open>gcm_open key nonce ciphertext aad\<close>; \<open>mlkem_ek level seed\<close>
  is the encapsulation key that belongs to a 64-byte decapsulation seed, \<open>mlkem_encap level ek rnd\<close>
  the pair (shared secret, ciphertext); \<open>mldsa_keys level seed\<close> and \<open>slh_keys name rnd\<close> are pairs
  (public, private) in their serialised form.
\<close>

definition hash_sizes :: "crypto \<Rightarrow> bool" where
  "hash_sizes cr \<longleftrightarrow>
     (\<forall>m. length (sha256 cr m) = 32) \<and> (\<forall>k m. length (hmac cr k m) = 32) \<and>
     (\<forall>s t i n. length (hkdf cr s t i n) = n) \<and> (\<forall>t p s. length (argon2id cr t p s) = 32)"

definition gcm_correct :: "crypto \<Rightarrow> bool" where
  "gcm_correct cr \<longleftrightarrow>
     (\<forall>k n pt aad. gcm_open cr k n (gcm_seal cr k n pt aad) aad = Some pt \<and>
        length (gcm_seal cr k n pt aad) = length pt + 16)"

definition kem_correct :: "crypto \<Rightarrow> bool" where
  "kem_correct cr \<longleftrightarrow>
     (\<forall>l seed. length seed = 64 \<longrightarrow> mlkem_ek_ok cr l (mlkem_ek cr l seed)) \<and>
     (\<forall>l seed rnd ss ct. length seed = 64 \<longrightarrow> length rnd = 32 \<longrightarrow>
        mlkem_encap cr l (mlkem_ek cr l seed) rnd = (ss, ct) \<longrightarrow>
        mlkem_decap cr l seed ct = Some ss \<and> length ss = 32 \<and> ct \<noteq> [])"

definition dsa_correct :: "crypto \<Rightarrow> bool" where
  "dsa_correct cr \<longleftrightarrow>
     (\<forall>l seed pk sk. length seed = 32 \<longrightarrow> mldsa_keys cr l seed = (pk, sk) \<longrightarrow>
        mldsa_pk_ok cr l pk \<and> mldsa_sk_ok cr l sk \<and>
        (\<forall>m. mldsa_verify cr l pk m (mldsa_sign cr l sk m) \<and> mldsa_sign cr l sk m \<noteq> []))"

definition slh_correct :: "crypto \<Rightarrow> bool" where
  "slh_correct cr \<longleftrightarrow>
     (\<forall>nm rnd pk sk. slh_keys cr nm rnd = (pk, sk) \<longrightarrow>
        slh_pk_ok cr nm pk \<and> slh_sk_ok cr nm sk \<and> slh_public cr nm sk = pk \<and>
        (\<forall>m r. slh_sig_ok cr nm (slh_sign cr nm sk m r) \<and> slh_sign cr nm sk m r \<noteq> [] \<and>
           slh_verify cr nm pk m (slh_sign cr nm sk m r)))"

text \<open>Two inputs that refute the collision resistance of SHA-256 or of HMAC.\<close>

definition sha_collision :: "crypto \<Rightarrow> bytes \<Rightarrow> bytes \<Rightarrow> bool" where
  "sha_collision cr x y \<longleftrightarrow> x \<noteq> y \<and> sha256 cr x = sha256 cr y"

definition hmac_collision :: "crypto \<Rightarrow> bytes \<times> bytes \<Rightarrow> bytes \<times> bytes \<Rightarrow> bool" where
  "hmac_collision cr x y \<longleftrightarrow>
     x \<noteq> y \<and> hmac cr (fst x) (snd x) = hmac cr (fst y) (snd y)"

lemma hash_sizesD [simp]:
  assumes "hash_sizes cr"
  shows "length (sha256 cr m) = 32" "length (hmac cr k m) = 32" "length (hkdf cr s t i n) = n"
    "length (argon2id cr tm p s) = 32"
  using assms by (auto simp: hash_sizes_def)

lemma gcm_correctD [simp]:
  assumes "gcm_correct cr"
  shows "gcm_open cr k n (gcm_seal cr k n pt aad) aad = Some pt"
    "length (gcm_seal cr k n pt aad) = length pt + 16"
  using assms by (auto simp: gcm_correct_def)

lemma kem_correct_ek: "kem_correct cr \<Longrightarrow> length seed = 64 \<Longrightarrow> mlkem_ek_ok cr l (mlkem_ek cr l seed)"
  by (simp add: kem_correct_def)

lemma kem_correct_decap:
  "kem_correct cr \<Longrightarrow> length seed = 64 \<Longrightarrow> length rnd = 32 \<Longrightarrow>
     mlkem_encap cr l (mlkem_ek cr l seed) rnd = (ss, ct) \<Longrightarrow>
     mlkem_decap cr l seed ct = Some ss \<and> length ss = 32 \<and> ct \<noteq> []"
  unfolding kem_correct_def by blast

text \<open>\<open>aes.NewCipher\<close> accepts keys of 16, 24 and 32 bytes; the \<open>Open\<close> and \<open>Seal\<close> of a GCM panic
  on a nonce that is not 12 bytes long.\<close>

definition aes_key_ok :: "bytes \<Rightarrow> bool" where
  "aes_key_ok k \<longleftrightarrow> length k = 16 \<or> length k = 24 \<or> length k = 32"

lemma aes_key_ok_32 [simp]: "length k = 32 \<Longrightarrow> aes_key_ok k"
  by (simp add: aes_key_ok_def)

section \<open>internal/kem\<close>

datatype kem_error = KemUnsupportedLevel int | KemGenerate | KemNilKey | KemDecapsulationFailed | KemParse

text \<open>The struct holds a level and one of two pointers; the constructors of the package set the
  pointer the level names, so a key is one of two cases.\<close>

datatype encap_key = EK768 bytes | EK1024 bytes
datatype decap_key = DK768 bytes | DK1024 bytes

definition kem_level_String :: "int \<Rightarrow> string" where
  "kem_level_String l = (if l = 1024 then ''ML-KEM-1024'' else ''ML-KEM-768'')"

fun ek_Bytes :: "encap_key \<Rightarrow> bytes" where
  "ek_Bytes (EK768 b) = b"
| "ek_Bytes (EK1024 b) = b"

fun dk_Bytes :: "decap_key \<Rightarrow> bytes" where
  "dk_Bytes (DK768 s) = s"
| "dk_Bytes (DK1024 s) = s"

fun ek_Level :: "encap_key \<Rightarrow> int" where
  "ek_Level (EK768 b) = 768"
| "ek_Level (EK1024 b) = 1024"

fun dk_Level :: "decap_key \<Rightarrow> int" where
  "dk_Level (DK768 s) = 768"
| "dk_Level (DK1024 s) = 1024"

fun dk_EncapsulationKey :: "crypto \<Rightarrow> decap_key \<Rightarrow> encap_key" where
  "dk_EncapsulationKey cr (DK768 s) = EK768 (mlkem_ek cr 768 s)"
| "dk_EncapsulationKey cr (DK1024 s) = EK1024 (mlkem_ek cr 1024 s)"

definition kem_GenerateKey :: "int \<Rightarrow> entropy \<Rightarrow> (kem_error, decap_key \<times> entropy) result" where
  "kem_GenerateKey level e =
     (if level = 768 then
        (case rand_read 64 e of None \<Rightarrow> Err KemGenerate | Some (s, e') \<Rightarrow> Ok (DK768 s, e'))
      else if level = 1024 then
        (case rand_read 64 e of None \<Rightarrow> Err KemGenerate | Some (s, e') \<Rightarrow> Ok (DK1024 s, e'))
      else Err (KemUnsupportedLevel level))"

text \<open>\<open>Encapsulate\<close> of the standard library returns no error: without randomness it crashes.\<close>

definition kem_Encapsulate ::
    "crypto \<Rightarrow> encap_key option \<Rightarrow> entropy \<Rightarrow> (kem_error, bytes \<times> bytes \<times> entropy) result" where
  "kem_Encapsulate cr ek e =
     (case ek of
        None \<Rightarrow> Err KemNilKey
      | Some k \<Rightarrow>
          (case rand_read 32 e of
             None \<Rightarrow> Panic
           | Some (r, e') \<Rightarrow>
               (case mlkem_encap cr (ek_Level k) (ek_Bytes k) r of (ss, ct) \<Rightarrow> Ok (ss, ct, e'))))"

definition kem_Decapsulate :: "crypto \<Rightarrow> decap_key option \<Rightarrow> bytes \<Rightarrow> (kem_error, bytes) result" where
  "kem_Decapsulate cr dk ct =
     (case dk of
        None \<Rightarrow> Err KemDecapsulationFailed
      | Some k \<Rightarrow>
          (case mlkem_decap cr (dk_Level k) (dk_Bytes k) ct of
             None \<Rightarrow> Err KemDecapsulationFailed
           | Some ss \<Rightarrow> Ok ss))"

definition kem_ParseEncapsulationKey :: "crypto \<Rightarrow> int \<Rightarrow> bytes \<Rightarrow> (kem_error, encap_key) result" where
  "kem_ParseEncapsulationKey cr level b =
     (if level = 768 then (if mlkem_ek_ok cr 768 b then Ok (EK768 b) else Err KemParse)
      else if level = 1024 then (if mlkem_ek_ok cr 1024 b then Ok (EK1024 b) else Err KemParse)
      else Err (KemUnsupportedLevel level))"

definition kem_ParseDecapsulationKey :: "int \<Rightarrow> bytes \<Rightarrow> (kem_error, decap_key) result" where
  "kem_ParseDecapsulationKey level seed =
     (if level = 768 then (if length seed = 64 then Ok (DK768 seed) else Err KemParse)
      else if level = 1024 then (if length seed = 64 then Ok (DK1024 seed) else Err KemParse)
      else Err (KemUnsupportedLevel level))"

definition dk_ok :: "decap_key \<Rightarrow> bool" where
  "dk_ok dk \<longleftrightarrow> length (dk_Bytes dk) = 64"

lemma kem_GenerateKey_ok: "kem_GenerateKey l e = Ok (dk, e') \<Longrightarrow> dk_ok dk \<and> dk_Level dk = l"
  by (auto simp: kem_GenerateKey_def dk_ok_def dest: rand_read_length split: if_splits option.splits)

lemma kem_ParseDecapsulationKey_Bytes [simp]:
  "dk_ok dk \<Longrightarrow> kem_ParseDecapsulationKey (dk_Level dk) (dk_Bytes dk) = Ok dk"
  by (cases dk) (auto simp: kem_ParseDecapsulationKey_def dk_ok_def)

lemma kem_ParseEncapsulationKey_Bytes:
  "kem_correct cr \<Longrightarrow> dk_ok dk \<Longrightarrow>
     kem_ParseEncapsulationKey cr (dk_Level dk) (ek_Bytes (dk_EncapsulationKey cr dk))
       = Ok (dk_EncapsulationKey cr dk)"
  by (cases dk) (auto simp: kem_ParseEncapsulationKey_def dk_ok_def kem_correct_ek)

lemma ek_Level_EncapsulationKey [simp]: "ek_Level (dk_EncapsulationKey cr dk) = dk_Level dk"
  by (cases dk) simp_all

lemma ek_Bytes_EncapsulationKey:
  "ek_Bytes (dk_EncapsulationKey cr dk) = mlkem_ek cr (dk_Level dk) (dk_Bytes dk)"
  by (cases dk) simp_all

lemma kem_Encapsulate_Decapsulate:
  assumes "kem_correct cr" and "dk_ok dk"
    and "kem_Encapsulate cr (Some (dk_EncapsulationKey cr dk)) e = Ok (ss, ct, e')"
  shows "kem_Decapsulate cr (Some dk) ct = Ok ss" and "length ss = 32" and "ct \<noteq> []"
proof -
  obtain r where r: "rand_read 32 e = Some (r, e')"
    and enc: "mlkem_encap cr (dk_Level dk) (mlkem_ek cr (dk_Level dk) (dk_Bytes dk)) r = (ss, ct)"
    using assms(3) by (auto simp: kem_Encapsulate_def ek_Bytes_EncapsulationKey
      split: option.splits prod.splits)
  have "mlkem_decap cr (dk_Level dk) (dk_Bytes dk) ct = Some ss \<and> length ss = 32 \<and> ct \<noteq> []"
    using kem_correct_decap [OF assms(1) _ rand_read_length [OF r] enc] assms(2)
    by (simp add: dk_ok_def)
  then show "kem_Decapsulate cr (Some dk) ct = Ok ss" "length ss = 32" "ct \<noteq> []"
    by (simp_all add: kem_Decapsulate_def)
qed

section \<open>internal/dsa\<close>

datatype dsa_error = DsaUnsupportedLevel int | DsaGenerate | DsaNilKey | DsaParse

text \<open>A key of the wrapper is its level and the key of the scheme in its serialised form:
  \<open>MarshalBinary\<close> of an ML-DSA key does not fail and \<open>UnmarshalBinary\<close> inverts it.\<close>

record dsa_public = pk_level :: int
  pk_bytes :: bytes

record dsa_private = sk_level :: int
  sk_bytes :: bytes

definition dsa_schemeFor :: "int \<Rightarrow> (dsa_error, int) result" where
  "dsa_schemeFor level =
     (if level = 44 \<or> level = 65 \<or> level = 87 then Ok level else Err (DsaUnsupportedLevel level))"

definition dsa_GenerateKey ::
    "crypto \<Rightarrow> int \<Rightarrow> entropy \<Rightarrow> (dsa_error, dsa_public \<times> dsa_private \<times> entropy) result" where
  "dsa_GenerateKey cr level e =
     (case dsa_schemeFor level of
        Ok sch \<Rightarrow>
          (case rand_read 32 e of
             None \<Rightarrow> Err DsaGenerate
           | Some (seed, e') \<Rightarrow>
               (case mldsa_keys cr sch seed of
                  (pk, sk) \<Rightarrow> Ok (\<lparr>pk_level = level, pk_bytes = pk\<rparr>,
                                 \<lparr>sk_level = level, sk_bytes = sk\<rparr>, e')))
      | Err er \<Rightarrow> Err er
      | Panic \<Rightarrow> Panic)"

definition dsa_Sign :: "crypto \<Rightarrow> dsa_private option \<Rightarrow> bytes \<Rightarrow> (dsa_error, bytes) result" where
  "dsa_Sign cr sk msg =
     (case sk of
        None \<Rightarrow> Err DsaNilKey
      | Some k \<Rightarrow> Ok (mldsa_sign cr (sk_level k) (sk_bytes k) msg))"

definition dsa_Verify :: "crypto \<Rightarrow> dsa_public option \<Rightarrow> bytes \<Rightarrow> bytes \<Rightarrow> bool" where
  "dsa_Verify cr pk msg sig =
     (case pk of
        None \<Rightarrow> False
      | Some k \<Rightarrow> if length sig = 0 then False else mldsa_verify cr (pk_level k) (pk_bytes k) msg sig)"

definition dsa_ParsePrivateKey :: "crypto \<Rightarrow> int \<Rightarrow> bytes \<Rightarrow> (dsa_error, dsa_private) result" where
  "dsa_ParsePrivateKey cr level b =
     (case dsa_schemeFor level of
        Ok sch \<Rightarrow>
          (if mldsa_sk_ok cr sch b then Ok \<lparr>sk_level = level, sk_bytes = b\<rparr> else Err DsaParse)
      | Err er \<Rightarrow> Err er
      | Panic \<Rightarrow> Panic)"

definition dsa_ParsePublicKey :: "crypto \<Rightarrow> int \<Rightarrow> bytes \<Rightarrow> (dsa_error, dsa_public) result" where
  "dsa_ParsePublicKey cr level b =
     (case dsa_schemeFor level of
        Ok sch \<Rightarrow>
          (if mldsa_pk_ok cr sch b then Ok \<lparr>pk_level = level, pk_bytes = b\<rparr> else Err DsaParse)
      | Err er \<Rightarrow> Err er
      | Panic \<Rightarrow> Panic)"

text \<open>A key pair is one that key generation can have returned.\<close>

definition dsa_pair :: "crypto \<Rightarrow> dsa_public \<Rightarrow> dsa_private \<Rightarrow> bool" where
  "dsa_pair cr pk sk \<longleftrightarrow>
     pk_level pk = sk_level sk \<and> pk_level pk \<in> {44, 65, 87} \<and>
     (\<exists>seed. length seed = 32 \<and> mldsa_keys cr (pk_level pk) seed = (pk_bytes pk, sk_bytes sk))"

lemma dsa_GenerateKey_pair:
  "dsa_GenerateKey cr l e = Ok (pk, sk, e') \<Longrightarrow> dsa_pair cr pk sk \<and> pk_level pk = l"
  by (auto simp: dsa_GenerateKey_def dsa_schemeFor_def dsa_pair_def dest: rand_read_length
      split: result.splits option.splits prod.splits if_splits)

lemma dsa_Sign_Verify:
  assumes "dsa_correct cr" and "dsa_pair cr pk sk" and "dsa_Sign cr (Some sk) msg = Ok sig"
  shows "dsa_Verify cr (Some pk) msg sig" and "sig \<noteq> []"
  using assms by (auto simp: dsa_Sign_def dsa_Verify_def dsa_pair_def dsa_correct_def)

lemma dsa_Parse_pair:
  assumes "dsa_correct cr" and "dsa_pair cr pk sk"
  shows "dsa_ParsePublicKey cr (pk_level pk) (pk_bytes pk) = Ok pk"
    and "dsa_ParsePrivateKey cr (sk_level sk) (sk_bytes sk) = Ok sk"
  using assms by (auto simp: dsa_ParsePublicKey_def dsa_ParsePrivateKey_def dsa_schemeFor_def
      dsa_pair_def dsa_correct_def)

lemma dsa_Verify_empty [simp]: "\<not> dsa_Verify cr pk msg []"
  by (simp add: dsa_Verify_def split: option.splits)

section \<open>internal/slhdsa\<close>

datatype slh_error = SlhUnsupportedLevel | SlhUnknownLevel string | SlhGenerate | SlhNilKey | SlhSign | SlhParse

datatype slh_level = Level128f | Level128s | Level192f | Level192s | Level256f | Level256s

fun slh_paramSetName :: "slh_level \<Rightarrow> string" where
  "slh_paramSetName Level128f = ''SLH-DSA-SHA2-128f''"
| "slh_paramSetName Level128s = ''SLH-DSA-SHA2-128s''"
| "slh_paramSetName Level192f = ''SLH-DSA-SHA2-192f''"
| "slh_paramSetName Level192s = ''SLH-DSA-SHA2-192s''"
| "slh_paramSetName Level256f = ''SLH-DSA-SHA2-256f''"
| "slh_paramSetName Level256s = ''SLH-DSA-SHA2-256s''"

definition slh_ParseLevel :: "string \<Rightarrow> (slh_error, slh_level) result" where
  "slh_ParseLevel s =
     (if s = [] \<or> s = ''128f'' then Ok Level128f
      else if s = ''128s'' then Ok Level128s
      else if s = ''192f'' then Ok Level192f
      else if s = ''192s'' then Ok Level192s
      else if s = ''256f'' then Ok Level256f
      else if s = ''256s'' then Ok Level256s
      else Err (SlhUnknownLevel s))"

record slh_pub = spk_level :: slh_level
  spk_name :: string
  spk_bytes :: bytes

record slh_priv = ssk_level :: slh_level
  ssk_name :: string
  ssk_bytes :: bytes

definition slh_Public :: "crypto \<Rightarrow> slh_priv \<Rightarrow> slh_pub" where
  "slh_Public cr sk =
     \<lparr>spk_level = ssk_level sk, spk_name = ssk_name sk,
      spk_bytes = slh_public cr (ssk_name sk) (ssk_bytes sk)\<rparr>"

text \<open>Key generation reads the three 32-byte seeds of FIPS 205, signing one 32-byte randomiser; the
  names of the six levels are the six parameter sets the library knows.\<close>

definition slh_GenerateKey ::
    "crypto \<Rightarrow> slh_level \<Rightarrow> entropy \<Rightarrow> (slh_error, slh_pub \<times> slh_priv \<times> entropy) result" where
  "slh_GenerateKey cr level e =
     (let nm = slh_paramSetName level in
      case rand_read 96 e of
        None \<Rightarrow> Err SlhGenerate
      | Some (rnd, e') \<Rightarrow>
          (case slh_keys cr nm rnd of
             (pk, sk) \<Rightarrow> Ok (\<lparr>spk_level = level, spk_name = nm, spk_bytes = pk\<rparr>,
                            \<lparr>ssk_level = level, ssk_name = nm, ssk_bytes = sk\<rparr>, e')))"

definition slh_Sign ::
    "crypto \<Rightarrow> slh_priv option \<Rightarrow> bytes \<Rightarrow> entropy \<Rightarrow> (slh_error, bytes \<times> entropy) result" where
  "slh_Sign cr sk msg e =
     (case sk of
        None \<Rightarrow> Err SlhNilKey
      | Some k \<Rightarrow>
          (case rand_read 32 e of
             None \<Rightarrow> Err SlhSign
           | Some (r, e') \<Rightarrow> Ok (slh_sign cr (ssk_name k) (ssk_bytes k) msg r, e')))"

definition slh_Verify :: "crypto \<Rightarrow> slh_pub option \<Rightarrow> bytes \<Rightarrow> bytes \<Rightarrow> bool" where
  "slh_Verify cr pk msg sigBytes =
     (case pk of
        None \<Rightarrow> False
      | Some k \<Rightarrow>
          if length sigBytes = 0 then False
          else if \<not> slh_sig_ok cr (spk_name k) sigBytes then False
          else slh_verify cr (spk_name k) (spk_bytes k) msg sigBytes)"

definition slh_ParsePrivateKey :: "crypto \<Rightarrow> slh_level \<Rightarrow> bytes \<Rightarrow> (slh_error, slh_priv) result" where
  "slh_ParsePrivateKey cr level b =
     (let nm = slh_paramSetName level in
      if slh_sk_ok cr nm b then Ok \<lparr>ssk_level = level, ssk_name = nm, ssk_bytes = b\<rparr> else Err SlhParse)"

definition slh_ParsePublicKey :: "crypto \<Rightarrow> slh_level \<Rightarrow> bytes \<Rightarrow> (slh_error, slh_pub) result" where
  "slh_ParsePublicKey cr level b =
     (let nm = slh_paramSetName level in
      if slh_pk_ok cr nm b then Ok \<lparr>spk_level = level, spk_name = nm, spk_bytes = b\<rparr> else Err SlhParse)"

lemma slh_GenerateKey_Sign_Verify:
  assumes "slh_correct cr" and "slh_GenerateKey cr l e = Ok (pk, sk, e')"
    and "slh_Sign cr (Some sk) msg e1 = Ok (sig, e2)"
  shows "slh_Verify cr (Some pk) msg sig" and "slh_Public cr sk = pk"
    and "slh_ParsePrivateKey cr l (ssk_bytes sk) = Ok sk"
    and "slh_ParsePublicKey cr l (spk_bytes pk) = Ok pk"
  using assms
  by (auto simp: slh_GenerateKey_def slh_Sign_def slh_Verify_def slh_correct_def slh_Public_def
      slh_ParsePrivateKey_def slh_ParsePublicKey_def Let_def split: option.splits prod.splits)

section \<open>internal/kdf\<close>

datatype kdf_error = KdfInvalidKeyLen | KdfLengthMismatch | KdfEmptyPassword | KdfShortSalt | KdfRandom

definition DeriveHKDF :: "crypto \<Rightarrow> bytes \<Rightarrow> bytes \<Rightarrow> bytes \<Rightarrow> int \<Rightarrow> (kdf_error, bytes) result" where
  "DeriveHKDF cr secret salt info keyLen =
     (if keyLen \<le> 0 \<or> keyLen > 255 * 32 then Err KdfInvalidKeyLen
      else Ok (hkdf cr secret salt info (nat keyLen)))"

fun hkdf_keys :: "crypto \<Rightarrow> bytes \<Rightarrow> bytes \<Rightarrow> (bytes \<times> int) list \<Rightarrow> (kdf_error, bytes list) result" where
  "hkdf_keys cr secret salt [] = Ok []"
| "hkdf_keys cr secret salt ((info, len) # rest) =
     (case DeriveHKDF cr secret salt info len of
        Ok k \<Rightarrow>
          (case hkdf_keys cr secret salt rest of
             Ok ks \<Rightarrow> Ok (k # ks)
           | Err er \<Rightarrow> Err er
           | Panic \<Rightarrow> Panic)
      | Err er \<Rightarrow> Err er
      | Panic \<Rightarrow> Panic)"

definition DeriveHKDFMulti ::
    "crypto \<Rightarrow> bytes \<Rightarrow> bytes \<Rightarrow> bytes list \<Rightarrow> int list \<Rightarrow> (kdf_error, bytes list) result" where
  "DeriveHKDFMulti cr secret salt infos lens =
     (if length infos \<noteq> length lens then Err KdfLengthMismatch
      else hkdf_keys cr secret salt (zip infos lens))"

definition DeriveArgon2id :: "crypto \<Rightarrow> bytes \<Rightarrow> bytes \<Rightarrow> (kdf_error, bytes) result" where
  "DeriveArgon2id cr password salt =
     (if length password = 0 then Err KdfEmptyPassword
      else if length salt < 16 then Err KdfShortSalt
      else Ok (argon2id cr 2 password salt))"

definition NewSalt :: "entropy \<Rightarrow> (kdf_error, bytes \<times> entropy) result" where
  "NewSalt e = (case rand_read 32 e of None \<Rightarrow> Err KdfRandom | Some (s, e') \<Rightarrow> Ok (s, e'))"

definition DomainSalt :: "crypto \<Rightarrow> string \<Rightarrow> bytes" where
  "DomainSalt cr label = sha256 cr (str_bytes (''qs-domain-salt-v1:'' @ label))"

lemma hkdf_keys_eq:
  "hkdf_keys cr secret salt xs =
     (if list_all (\<lambda>(i, n). 0 < n \<and> n \<le> 8160) xs
      then Ok (map (\<lambda>(i, n). hkdf cr secret salt i (nat n)) xs) else Err KdfInvalidKeyLen)"
proof (induction xs)
  case (Cons x xs)
  then show ?case by (cases x) (simp add: DeriveHKDF_def)
qed simp

section \<open>A concrete instance\<close>

text \<open>A small instance of the primitives that satisfies every law; the concrete runs use it.\<close>

definition toy_fit :: "nat \<Rightarrow> bytes \<Rightarrow> bytes" where
  "toy_fit n b = take n (b @ replicate n 0)"

definition toy_tag :: "bytes \<Rightarrow> bytes \<Rightarrow> bytes \<Rightarrow> bytes \<Rightarrow> bytes" where
  "toy_tag k n pt aad = toy_fit 16 (take 4 (rev pt) @ take 4 n @ take 4 aad @ k)"

definition toy_crypto :: crypto where
  "toy_crypto =
     \<lparr>sha256 = toy_fit 32,
      hmac = (\<lambda>k m. toy_fit 32 (take 24 m @ k)),
      hkdf = (\<lambda>s t i n. toy_fit n (rev (take 8 (rev i)) @ s)),
      argon2id = (\<lambda>t p s. toy_fit 32 (take 16 p @ s)),
      gcm_seal = (\<lambda>k n pt aad. pt @ toy_tag k n pt aad),
      gcm_open = (\<lambda>k n ct aad.
        if length ct < 16 then None
        else (let pt = take (length ct - 16) ct in
              if drop (length ct - 16) ct = toy_tag k n pt aad then Some pt else None)),
      mlkem_ek = (\<lambda>l s. toy_fit 40 s),
      mlkem_ek_ok = (\<lambda>l b. length b = 40),
      mlkem_encap = (\<lambda>l ek r. (r, r)),
      mlkem_decap = (\<lambda>l s ct. if length ct = 32 then Some ct else None),
      mldsa_keys = (\<lambda>l s. (s, s)),
      mldsa_pk_ok = (\<lambda>l b. length b = 32),
      mldsa_sk_ok = (\<lambda>l b. length b = 32),
      mldsa_sign = (\<lambda>l sk m. toy_fit 48 (sk @ m)),
      mldsa_verify = (\<lambda>l pk m s. s = toy_fit 48 (pk @ m)),
      slh_keys = (\<lambda>nm r. (r, r)),
      slh_public = (\<lambda>nm sk. sk),
      slh_pk_ok = (\<lambda>nm b. True),
      slh_sk_ok = (\<lambda>nm b. True),
      slh_sig_ok = (\<lambda>nm b. True),
      slh_sign = (\<lambda>nm sk m r. 1 # m),
      slh_verify = (\<lambda>nm pk m s. s = 1 # m)\<rparr>"

lemma length_toy_fit [simp]: "length (toy_fit n b) = n"
  by (simp add: toy_fit_def)

lemma toy_hash_sizes [simp]: "hash_sizes toy_crypto"
  by (simp add: hash_sizes_def toy_crypto_def)

lemma toy_gcm_correct [simp]: "gcm_correct toy_crypto"
  by (simp add: gcm_correct_def toy_crypto_def toy_tag_def Let_def)

lemma toy_kem_correct [simp]: "kem_correct toy_crypto"
  by (auto simp: kem_correct_def toy_crypto_def)

lemma toy_fit_not_Nil [simp]: "toy_fit n b = [] \<longleftrightarrow> n = 0"
  using length_toy_fit [of n b] by (metis length_0_conv)

lemma toy_dsa_correct [simp]: "dsa_correct toy_crypto"
  by (simp add: dsa_correct_def toy_crypto_def)

lemma toy_slh_correct [simp]: "slh_correct toy_crypto"
  by (simp add: slh_correct_def toy_crypto_def)

end
