(* ===== verification/Json.thy ===== *)
theory Json
  imports Encoding
begin

text \<open>
  The part of \<open>encoding/json\<close> the program relies on: the compact encoder of \<open>json.Marshal\<close> (Go's
  escapes, invalid UTF-8 replaced by U+FFFD), a decoder to JSON values, and the rules by which
  \<open>json.Unmarshal\<close> fills the fields of a struct. The main result is the round trip: decoding what
  was encoded returns the value with its strings made valid UTF-8.
\<close>

datatype jval =
    JNull | JBool bool | JInt int | JFloat string | JStr string
  | JArr "jval list" | JObj "(string \<times> jval) list"

section \<open>UTF-8\<close>

definition code :: "char \<Rightarrow> nat" where
  "code c = of_char c"

definition cont_byte :: "nat \<Rightarrow> nat \<Rightarrow> char \<Rightarrow> bool" where
  "cont_byte lo hi c \<longleftrightarrow> lo \<le> code c \<and> code c \<le> hi"

abbreviation "contb \<equiv> cont_byte 0x80 0xBF"

text \<open>The length in bytes of the valid encoding a non-empty string starts with, 0 when it starts
  with none.\<close>

fun tail2 :: "nat \<Rightarrow> nat \<Rightarrow> string \<Rightarrow> nat" where
  "tail2 lo hi (b # s) = (if cont_byte lo hi b then 2 else 0)"
| "tail2 lo hi _ = 0"

fun tail3 :: "nat \<Rightarrow> nat \<Rightarrow> string \<Rightarrow> nat" where
  "tail3 lo hi (b # c # s) = (if cont_byte lo hi b \<and> contb c then 3 else 0)"
| "tail3 lo hi _ = 0"

fun tail4 :: "nat \<Rightarrow> nat \<Rightarrow> string \<Rightarrow> nat" where
  "tail4 lo hi (b # c # d # s) = (if cont_byte lo hi b \<and> contb c \<and> contb d then 4 else 0)"
| "tail4 lo hi _ = 0"

fun utf8_len :: "string \<Rightarrow> nat" where
  "utf8_len [] = 0"
| "utf8_len (a # s) =
     (let x = code a in
      if x < 0x80 then 1
      else if x < 0xC2 then 0
      else if x \<le> 0xDF then tail2 0x80 0xBF s
      else if x = 0xE0 then tail3 0xA0 0xBF s
      else if x = 0xED then tail3 0x80 0x9F s
      else if x \<le> 0xEF then tail3 0x80 0xBF s
      else if x = 0xF0 then tail4 0x90 0xBF s
      else if x \<le> 0xF3 then tail4 0x80 0xBF s
      else if x = 0xF4 then tail4 0x80 0x8F s
      else 0)"

definition replacement :: string where
  "replacement = map char_of [0xEF, 0xBF, 0xBD :: nat]"

text \<open>The next rune: the bytes it takes and whether they are valid.\<close>

definition rune_width :: "string \<Rightarrow> nat" where
  "rune_width s = (if utf8_len s = 0 then 1 else utf8_len s)"

lemma rune_width_pos [simp]: "0 < rune_width s"
  by (simp add: rune_width_def)

function sanitize :: "string \<Rightarrow> string" where
  "sanitize s =
     (if s = [] then []
      else (if utf8_len s = 0 then replacement else take (utf8_len s) s) @ sanitize (drop (rune_width s) s))"
  by auto
termination by (relation "measure length") auto

declare sanitize.simps [simp del]

definition valid_utf8 :: "string \<Rightarrow> bool" where
  "valid_utf8 s \<longleftrightarrow> sanitize s = s"

section \<open>Encoding strings\<close>

definition hex4 :: "nat \<Rightarrow> string" where
  "hex4 n = [hex_digit (n div 4096), hex_digit (n div 256 mod 16), hex_digit (n div 16 mod 16),
             hex_digit (n mod 16)]"

definition u_esc :: "nat \<Rightarrow> string" where
  "u_esc n = CHR 0x5C # CHR ''u'' # hex4 n"

definition esc_ascii :: "char \<Rightarrow> string" where
  "esc_ascii c =
     (let n = code c in
      if n = 0x22 \<or> n = 0x5C then [CHR 0x5C, c]
      else if n = 8 then [CHR 0x5C, CHR ''b'']
      else if n = 12 then [CHR 0x5C, CHR ''f'']
      else if n = 10 then [CHR 0x5C, CHR ''n'']
      else if n = 13 then [CHR 0x5C, CHR ''r'']
      else if n = 9 then [CHR 0x5C, CHR ''t'']
      else if n < 32 \<or> n = 0x3C \<or> n = 0x3E \<or> n = 0x26 then u_esc n
      else [c])"

definition line_sep :: "nat \<Rightarrow> string" where
  "line_sep n = map char_of [0xE2, 0x80, n]"

definition esc_rune :: "string \<Rightarrow> string" where
  "esc_rune s =
     (if utf8_len s = 0 then u_esc 0xFFFD
      else if utf8_len s = 1 then esc_ascii (hd s)
      else if take (utf8_len s) s = line_sep 0xA8 then u_esc 0x2028
      else if take (utf8_len s) s = line_sep 0xA9 then u_esc 0x2029
      else take (utf8_len s) s)"

function esc :: "string \<Rightarrow> string" where
  "esc s = (if s = [] then [] else esc_rune s @ esc (drop (rune_width s) s))"
  by auto
termination by (relation "measure length") auto

declare esc.simps [simp del]

definition quote :: "string \<Rightarrow> string" where
  "quote s = CHR 0x22 # esc s @ [CHR 0x22]"

section \<open>Decoding strings\<close>

text \<open>A code point as UTF-8; surrogates and values beyond U+10FFFF become U+FFFD.\<close>

definition utf8_enc :: "nat \<Rightarrow> string" where
  "utf8_enc n =
     (if n < 0x80 then [char_of n]
      else if n < 0x800 then map char_of [0xC0 + n div 64, 0x80 + n mod 64]
      else if 0xD800 \<le> n \<and> n \<le> 0xDFFF \<or> 0x10FFFF < n then replacement
      else if n < 0x10000 then map char_of [0xE0 + n div 4096, 0x80 + n div 64 mod 64, 0x80 + n mod 64]
      else map char_of [0xF0 + n div 262144, 0x80 + n div 4096 mod 64, 0x80 + n div 64 mod 64,
                        0x80 + n mod 64])"

fun hex4_val :: "string \<Rightarrow> (nat \<times> string) option" where
  "hex4_val (a # b # c # d # s) =
     (case (hex_val a, hex_val b, hex_val c, hex_val d) of
        (Some p, Some q, Some r, Some t) \<Rightarrow> Some (p * 4096 + q * 256 + r * 16 + t, s)
      | _ \<Rightarrow> None)"
| "hex4_val _ = None"

datatype str_step = StrEnd string | StrBad | StrPart string string

definition surrogate_low :: "nat \<Rightarrow> bool" where
  "surrogate_low n \<longleftrightarrow> 0xDC00 \<le> n \<and> n < 0xE000"

definition dec_unicode :: "nat \<Rightarrow> string \<Rightarrow> str_step" where
  "dec_unicode r s =
     (if 0xD800 \<le> r \<and> r < 0xE000 then
        (case s of
           a # b # s2 \<Rightarrow>
             (if a = CHR 0x5C \<and> b = CHR ''u'' then
                (case hex4_val s2 of
                   Some (r2, s3) \<Rightarrow>
                     (if r < 0xDC00 \<and> surrogate_low r2
                      then StrPart (utf8_enc (0x10000 + (r - 0xD800) * 1024 + (r2 - 0xDC00))) s3
                      else StrPart replacement s)
                 | None \<Rightarrow> StrPart replacement s)
              else StrPart replacement s)
         | _ \<Rightarrow> StrPart replacement s)
      else StrPart (utf8_enc r) s)"

definition dec_escape :: "string \<Rightarrow> str_step" where
  "dec_escape s =
     (case s of
        [] \<Rightarrow> StrBad
      | e # s' \<Rightarrow>
          (if e = CHR 0x22 \<or> e = CHR 0x5C \<or> e = CHR ''/'' then StrPart [e] s'
           else if e = CHR ''b'' then StrPart [char_of (8 :: nat)] s'
           else if e = CHR ''f'' then StrPart [char_of (12 :: nat)] s'
           else if e = CHR ''n'' then StrPart [char_of (10 :: nat)] s'
           else if e = CHR ''r'' then StrPart [char_of (13 :: nat)] s'
           else if e = CHR ''t'' then StrPart [char_of (9 :: nat)] s'
           else if e = CHR ''u'' then
             (case hex4_val s' of None \<Rightarrow> StrBad | Some (r, s2) \<Rightarrow> dec_unicode r s2)
           else StrBad))"

definition dec_step :: "string \<Rightarrow> str_step" where
  "dec_step s =
     (case s of
        [] \<Rightarrow> StrBad
      | c # s' \<Rightarrow>
          (if c = CHR 0x22 then StrEnd s'
           else if c = CHR 0x5C then dec_escape s'
           else if code c < 32 then StrBad
           else if utf8_len s = 0 then StrPart replacement s'
           else StrPart (take (utf8_len s) s) (drop (utf8_len s) s)))"

lemma hex4_val_length: "hex4_val s = Some (r, s') \<Longrightarrow> length s' < length s"
  by (induction s rule: hex4_val.induct) (auto split: option.splits)

lemma dec_unicode_length: "dec_unicode r s = StrPart out s' \<Longrightarrow> length s' \<le> length s"
  by (auto simp: dec_unicode_def split: if_splits list.splits option.splits dest!: hex4_val_length)

lemma dec_step_length: "dec_step s = StrPart out s' \<Longrightarrow> length s' < length s"
  by (auto simp: dec_step_def dec_escape_def split: list.splits if_splits option.splits
      dest!: hex4_val_length dec_unicode_length)

function dec_str :: "string \<Rightarrow> (string \<times> string) option" where
  "dec_str s =
     (case dec_step s of
        StrEnd s' \<Rightarrow> Some ([], s')
      | StrBad \<Rightarrow> None
      | StrPart out s' \<Rightarrow>
          (case dec_str s' of None \<Rightarrow> None | Some (t, s'') \<Rightarrow> Some (out @ t, s'')))"
  by auto
termination by (relation "measure length") (auto dest: dec_step_length)

declare dec_str.simps [simp del]

section \<open>The round trip of strings\<close>

lemma code_char_of [simp]: "n < 256 \<Longrightarrow> code (char_of n) = n"
  by (simp add: code_def of_char_of)

lemma char_of_code [simp]: "char_of (code c) = c"
  by (simp add: code_def)

lemma code_eq_iff: "code c = code d \<longleftrightarrow> c = d"
  by (metis char_of_code)

lemma code_less [simp]: "code c < 256"
  by (simp add: code_def)

lemma hex4_val_hex4 [simp]:
  assumes "n < 65536"
  shows "hex4_val (hex4 n @ t) = Some (n, t)"
proof -
  define a b c d where "a = n div 4096" and "b = n div 256 mod 16" and "c = n div 16 mod 16"
    and "d = n mod 16"
  have "a < 16" unfolding a_def using assms by (simp add: less_mult_imp_div_less)
  moreover have "b < 16" "c < 16" "d < 16" unfolding b_def c_def d_def by simp_all
  moreover have "a * 4096 + b * 256 + c * 16 + d = n"
  proof -
    define p q where "p = n div 16" and "q = p div 16"
    have "n div 256 = q" "n div 4096 = q div 16"
      unfolding p_def q_def by (simp_all flip: div_mult2_eq)
    moreover have "n = p * 16 + d" "p = q * 16 + c" "q = q div 16 * 16 + b"
      using calculation unfolding p_def q_def d_def c_def b_def by simp_all
    ultimately show ?thesis unfolding a_def by linarith
  qed
  ultimately show ?thesis by (simp add: hex4_def flip: a_def b_def c_def d_def)
qed

lemma dec_step_u_esc:
  assumes "n < 65536" "\<not> (0xD800 \<le> n \<and> n < 0xE000)"
  shows "dec_step (u_esc n @ t) = StrPart (utf8_enc n) t"
  using assms by (auto simp: u_esc_def dec_step_def dec_escape_def dec_unicode_def code_def)

lemma dec_step_esc_ascii:
  assumes "code c < 0x80"
  shows "dec_step (esc_ascii c @ t) = StrPart [c] t"
proof -
  consider "code c = 0x22 \<or> code c = 0x5C" | "code c \<in> {8, 12, 10, 13, 9}"
    | "code c \<notin> {0x22, 0x5C, 8, 12, 10, 13, 9}" "code c < 32 \<or> code c = 0x3C \<or> code c = 0x3E \<or> code c = 0x26"
    | "code c \<notin> {0x22, 0x5C, 0x3C, 0x3E, 0x26}" "32 \<le> code c" by fastforce
  then show ?thesis
  proof cases
    case 1
    then have "c = CHR 0x22 \<or> c = CHR 0x5C" unfolding code_eq_iff [symmetric] by (simp add: code_def)
    then show ?thesis by (auto simp: esc_ascii_def dec_step_def dec_escape_def code_def)
  next
    case 2
    then obtain n where "c = char_of n" "n \<in> {8, 12, 10, 13, 9 :: nat}" by (metis char_of_code)
    then show ?thesis by (auto simp: esc_ascii_def dec_step_def dec_escape_def code_def)
  next
    case 3
    then have "esc_ascii c = u_esc (code c)" by (auto simp: esc_ascii_def)
    then show ?thesis using assms by (simp add: dec_step_u_esc utf8_enc_def)
  next
    case 4
    then have "esc_ascii c = [c]" and "c \<noteq> CHR 0x22" and "c \<noteq> CHR 0x5C"
      by (auto simp: esc_ascii_def code_def)
    then show ?thesis using assms 4 by (simp add: dec_step_def)
  qed
qed

lemma tail_take:
  "tail2 lo hi s \<noteq> 0 \<Longrightarrow> tail2 lo hi s = 2 \<and> 1 \<le> length s \<and> tail2 lo hi (take 1 s @ t) = 2"
  "tail3 lo hi s \<noteq> 0 \<Longrightarrow> tail3 lo hi s = 3 \<and> 2 \<le> length s \<and> tail3 lo hi (take 2 s @ t) = 3"
  "tail4 lo hi s \<noteq> 0 \<Longrightarrow> tail4 lo hi s = 4 \<and> 3 \<le> length s \<and> tail4 lo hi (take 3 s @ t) = 4"
proof -
  show "tail2 lo hi s \<noteq> 0 \<Longrightarrow> tail2 lo hi s = 2 \<and> 1 \<le> length s \<and> tail2 lo hi (take 1 s @ t) = 2"
    by (cases "(lo, hi, s)" rule: tail2.cases) (auto split: if_splits)
  show "tail3 lo hi s \<noteq> 0 \<Longrightarrow> tail3 lo hi s = 3 \<and> 2 \<le> length s \<and> tail3 lo hi (take 2 s @ t) = 3"
    by (cases "(lo, hi, s)" rule: tail3.cases) (auto split: if_splits)
  show "tail4 lo hi s \<noteq> 0 \<Longrightarrow> tail4 lo hi s = 4 \<and> 3 \<le> length s \<and> tail4 lo hi (take 3 s @ t) = 4"
    by (cases "(lo, hi, s)" rule: tail4.cases) (auto split: if_splits)
qed

text \<open>The tail of a multi-byte rune by its first byte.\<close>

definition rune_tail :: "nat \<Rightarrow> string \<Rightarrow> nat" where
  "rune_tail x s =
     (if x \<le> 0xDF then tail2 0x80 0xBF s
      else if x = 0xE0 then tail3 0xA0 0xBF s
      else if x = 0xED then tail3 0x80 0x9F s
      else if x \<le> 0xEF then tail3 0x80 0xBF s
      else if x = 0xF0 then tail4 0x90 0xBF s
      else if x \<le> 0xF3 then tail4 0x80 0xBF s
      else if x = 0xF4 then tail4 0x80 0x8F s
      else 0)"

lemma rune_tail_take:
  assumes "rune_tail x s \<noteq> 0"
  shows "2 \<le> rune_tail x s \<and> rune_tail x s - 1 \<le> length s \<and>
    rune_tail x (take (rune_tail x s - 1) s @ t) = rune_tail x s"
proof -
  consider "x \<le> 0xDF" | "x = 0xE0" | "x = 0xED" | "0xDF < x" "x \<le> 0xEF" "x \<noteq> 0xE0" "x \<noteq> 0xED"
    | "x = 0xF0" | "0xF0 < x" "x \<le> 0xF3" | "x = 0xF4" | "0xF4 < x" by linarith
  then show ?thesis
  proof cases
    case 1
    then have "rune_tail x u = tail2 0x80 0xBF u" for u by (simp add: rune_tail_def)
    with tail_take(1) [of "0x80" "0xBF" s t] assms show ?thesis by simp
  next
    case 2
    then have "rune_tail x u = tail3 0xA0 0xBF u" for u by (simp add: rune_tail_def)
    with tail_take(2) [of "0xA0" "0xBF" s t] assms show ?thesis by simp
  next
    case 3
    then have "rune_tail x u = tail3 0x80 0x9F u" for u by (simp add: rune_tail_def)
    with tail_take(2) [of "0x80" "0x9F" s t] assms show ?thesis by simp
  next
    case 4
    then have "rune_tail x u = tail3 0x80 0xBF u" for u by (simp add: rune_tail_def)
    with tail_take(2) [of "0x80" "0xBF" s t] assms show ?thesis by simp
  next
    case 5
    then have "rune_tail x u = tail4 0x90 0xBF u" for u by (simp add: rune_tail_def)
    with tail_take(3) [of "0x90" "0xBF" s t] assms show ?thesis by simp
  next
    case 6
    then have "rune_tail x u = tail4 0x80 0xBF u" for u by (simp add: rune_tail_def)
    with tail_take(3) [of "0x80" "0xBF" s t] assms show ?thesis by simp
  next
    case 7
    then have "rune_tail x u = tail4 0x80 0x8F u" for u by (simp add: rune_tail_def)
    with tail_take(3) [of "0x80" "0x8F" s t] assms show ?thesis by simp
  qed (use assms in \<open>simp add: rune_tail_def\<close>)
qed

lemma utf8_len_Cons:
  "utf8_len (a # s) = (if code a < 0x80 then 1 else if code a < 0xC2 then 0 else rune_tail (code a) s)"
  by (simp add: rune_tail_def Let_def)

declare utf8_len.simps(2) [simp del]

lemma utf8_len_take:
  assumes "utf8_len s \<noteq> 0"
  shows "utf8_len (take (utf8_len s) s @ t) = utf8_len s" and "s \<noteq> []"
    and "utf8_len s \<le> length s" and "(utf8_len s = 1) = (code (hd s) < 0x80)" and "utf8_len s \<noteq> 1 \<Longrightarrow> 0xC2 \<le> code (hd s)"
proof -
  show "s \<noteq> []" using assms by auto
  then obtain a r where s: "s = a # r" by (cases s) auto
  have "take (utf8_len s) s @ t = a # (take (utf8_len s - 1) r @ t)"
    using s assms by (cases "utf8_len s") auto
  then show "utf8_len (take (utf8_len s) s @ t) = utf8_len s"
    using assms s rune_tail_take [of "code a" r t] by (auto simp: utf8_len_Cons split: if_splits)
  show "utf8_len s \<le> length s"
    using assms s rune_tail_take [of "code a" r t] by (auto simp: utf8_len_Cons split: if_splits)
  show "(utf8_len s = 1) = (code (hd s) < 0x80)"
    using assms s rune_tail_take [of "code a" r t] by (auto simp: utf8_len_Cons split: if_splits)
  show "utf8_len s \<noteq> 1 \<Longrightarrow> 0xC2 \<le> code (hd s)"
    using assms s by (auto simp: utf8_len_Cons split: if_splits)
qed

lemma dec_step_esc_rune:
  assumes "s \<noteq> []"
  shows "dec_step (esc_rune s @ t) =
    StrPart (if utf8_len s = 0 then replacement else take (utf8_len s) s) t"
proof -
  obtain a r where s: "s = a # r" using assms by (cases s) auto
  consider "utf8_len s = 0" | "utf8_len s = 1" | "utf8_len s \<notin> {0, 1}" by auto
  then show ?thesis
  proof cases
    case 1
    then show ?thesis by (simp add: esc_rune_def dec_step_u_esc utf8_enc_def replacement_def)
  next
    case 2
    then show ?thesis using s utf8_len_take(4) [of s]
      by (simp add: esc_rune_def dec_step_esc_ascii)
  next
    case 3
    let ?r = "take (utf8_len s) s"
    have raw: "dec_step (?r @ t) = StrPart ?r t"
    proof -
      have hd: "0xC2 \<le> code a" using 3 utf8_len_take(5) [of s] s by simp
      then have "a \<noteq> CHR 0x22" "a \<noteq> CHR 0x5C" by (auto simp: code_def)
      moreover obtain r' where "?r = a # r'" using 3 s by (cases "utf8_len s") auto
      moreover have "utf8_len (?r @ t) = utf8_len s" using 3 utf8_len_take(1) [of s t] by simp
      moreover have "length ?r = utf8_len s" using 3 utf8_len_take(3) [of s] by simp
      moreover have "take (utf8_len s) (?r @ t) = ?r" "drop (utf8_len s) (?r @ t) = t"
        using 3 utf8_len_take(3) [of s] by simp_all
      ultimately show ?thesis using hd 3 by (simp add: dec_step_def)
    qed
    moreover have "dec_step (u_esc 0x2028 @ t) = StrPart (line_sep 0xA8) t"
      "dec_step (u_esc 0x2029 @ t) = StrPart (line_sep 0xA9) t"
      by (simp_all add: dec_step_u_esc utf8_enc_def line_sep_def)
    ultimately show ?thesis using 3 by (auto simp: esc_rune_def)
  qed
qed

lemma dec_str_esc: "dec_str (esc s @ CHR 0x22 # rest) = Some (sanitize s, rest)"
proof (induction s rule: esc.induct)
  case (1 s)
  show ?case
  proof (cases "s = []")
    case True
    then show ?thesis by (simp add: esc.simps sanitize.simps dec_str.simps [of "CHR 0x22 # rest"] dec_step_def)
  next
    case False
    let ?t = "esc (drop (rune_width s) s) @ CHR 0x22 # rest"
    have "dec_str (esc_rune s @ ?t) =
        Some ((if utf8_len s = 0 then replacement else take (utf8_len s) s) @ sanitize (drop (rune_width s) s), rest)"
      using 1 [OF False] dec_step_esc_rune [OF False, of ?t] by (simp add: dec_str.simps [of "esc_rune s @ ?t"])
    then show ?thesis using False by (simp add: esc.simps [of s] sanitize.simps [of s])
  qed
qed

lemma utf8_len_replacement: "utf8_len (replacement @ t) = 3"
  by (simp add: replacement_def utf8_len_Cons rune_tail_def cont_byte_def)

lemma sanitize_take:
  assumes "utf8_len s \<noteq> 0"
  shows "sanitize (take (utf8_len s) s @ t) = take (utf8_len s) s @ sanitize t"
  using assms utf8_len_take(1) [of s t] utf8_len_take(2,3) [of s]
  by (subst sanitize.simps) (auto simp: rune_width_def)

lemma sanitize_replacement: "sanitize (replacement @ t) = replacement @ sanitize t"
proof -
  have "take 3 (replacement @ t) = replacement" "drop 3 (replacement @ t) = t"
    by (simp_all add: replacement_def)
  then show ?thesis using utf8_len_replacement [of t] sanitize_take [of "replacement @ t" t] by simp
qed

text \<open>Making a string valid twice changes nothing, and valid strings come back unchanged.\<close>

lemma sanitize_sanitize [simp]: "sanitize (sanitize s) = sanitize s"
proof (induction s rule: sanitize.induct)
  case (1 s)
  then show ?case
    by (cases "s = []"; cases "utf8_len s = 0")
      (simp_all add: sanitize.simps [of s] sanitize.simps [of "[]"] sanitize_take sanitize_replacement)
qed

lemma valid_sanitize [simp]: "valid_utf8 (sanitize s)"
  by (simp add: valid_utf8_def)

lemma sanitize_Nil_iff [simp]: "sanitize s = [] \<longleftrightarrow> s = []"
proof (cases s)
  case (Cons a r)
  have "(if utf8_len s = 0 then replacement else take (utf8_len s) s) \<noteq> []"
    using Cons by (simp add: replacement_def)
  then show ?thesis using Cons by (subst sanitize.simps) simp
qed (simp add: sanitize.simps)

lemma sanitize_Nil [simp]: "sanitize [] = []"
  by simp

lemma valid_utf8_Nil [simp]: "valid_utf8 []"
  by (simp add: valid_utf8_def)

lemma sanitize_ascii: "list_all (\<lambda>c. code c < 0x80) s \<Longrightarrow> sanitize s = s"
proof (induction s)
  case (Cons a s)
  then have "utf8_len (a # s) = 1" by (simp add: utf8_len_Cons)
  with Cons show ?case by (simp add: sanitize.simps [of "a # s"] rune_width_def)
qed (simp add: sanitize.simps)

lemma valid_ascii: "list_all (\<lambda>c. code c < 0x80) s \<Longrightarrow> valid_utf8 s"
  by (simp add: valid_utf8_def sanitize_ascii)

section \<open>Encoding values\<close>

function dec_digits :: "nat \<Rightarrow> string" where
  "dec_digits n = (if n < 10 then [char_of (48 + n)] else dec_digits (n div 10) @ [char_of (48 + n mod 10)])"
  by auto
termination by (relation "measure id") auto

declare dec_digits.simps [simp del]

definition dec_int :: "int \<Rightarrow> string" where
  "dec_int i = (if i < 0 then CHR ''-'' # dec_digits (nat (- i)) else dec_digits (nat i))"

fun json_enc :: "jval \<Rightarrow> string" where
  "json_enc JNull = ''null''"
| "json_enc (JBool b) = (if b then ''true'' else ''false'')"
| "json_enc (JInt i) = dec_int i"
| "json_enc (JFloat s) = s"
| "json_enc (JStr s) = quote s"
| "json_enc (JArr vs) = ''['' @ join_with '','' (map json_enc vs) @ '']''"
| "json_enc (JObj kvs) =
     CHR 0x7B # join_with '','' (map (\<lambda>(k, v). quote k @ '':'' @ json_enc v) kvs) @ [CHR 0x7D]"

fun json_sanitize :: "jval \<Rightarrow> jval" where
  "json_sanitize (JStr s) = JStr (sanitize s)"
| "json_sanitize (JArr vs) = JArr (map json_sanitize vs)"
| "json_sanitize (JObj kvs) = JObj (map (\<lambda>(k, v). (sanitize k, json_sanitize v)) kvs)"
| "json_sanitize v = v"

text \<open>\<open>MarshalIndent\<close>: the same text with a line break and an indentation \<open>nl d\<close> at depth \<open>d\<close> around
  the elements, and \<open>sp\<close> after a colon; the compact form is the case where both are empty.\<close>

fun json_pretty :: "(nat \<Rightarrow> string) \<Rightarrow> string \<Rightarrow> nat \<Rightarrow> jval \<Rightarrow> string" where
  "json_pretty nl sp d JNull = ''null''"
| "json_pretty nl sp d (JBool b) = (if b then ''true'' else ''false'')"
| "json_pretty nl sp d (JInt i) = dec_int i"
| "json_pretty nl sp d (JFloat s) = s"
| "json_pretty nl sp d (JStr s) = quote s"
| "json_pretty nl sp d (JArr vs) =
     (if vs = [] then ''[]''
      else ''['' @ nl (Suc d) @ join_with ('','' @ nl (Suc d)) (map (json_pretty nl sp (Suc d)) vs) @ nl d @ '']'')"
| "json_pretty nl sp d (JObj kvs) =
     (if kvs = [] then [CHR 0x7B, CHR 0x7D]
      else CHR 0x7B # nl (Suc d) @
        join_with ('','' @ nl (Suc d)) (map (\<lambda>(k, v). quote k @ '':'' @ sp @ json_pretty nl sp (Suc d) v) kvs) @
        nl d @ [CHR 0x7D])"

definition indent2 :: "nat \<Rightarrow> string" where
  "indent2 d = CHR 0x0A # replicate (2 * d) (CHR '' '')"

definition json_indent :: "jval \<Rightarrow> string" where
  "json_indent v = json_pretty indent2 '' '' 0 v"

section \<open>Decoding values\<close>

definition is_ws :: "char \<Rightarrow> bool" where
  "is_ws c \<longleftrightarrow> code c = 32 \<or> code c = 9 \<or> code c = 10 \<or> code c = 13"

definition skip_ws :: "string \<Rightarrow> string" where
  "skip_ws s = dropWhile is_ws s"

definition is_digit :: "char \<Rightarrow> bool" where
  "is_digit c \<longleftrightarrow> 48 \<le> code c \<and> code c \<le> 57"

definition digits_val :: "string \<Rightarrow> nat" where
  "digits_val s = foldl (\<lambda>n c. 10 * n + (code c - 48)) 0 s"

text \<open>A number literal: an optional minus sign, an integer part without a leading zero, and an
  optional fraction and exponent. Only literals without fraction and exponent are integers.\<close>

definition take_digits :: "string \<Rightarrow> string \<times> string" where
  "take_digits s = (takeWhile is_digit s, dropWhile is_digit s)"

definition dec_frac :: "string \<Rightarrow> (string \<times> string) option" where
  "dec_frac s =
     (case s of
        c # r \<Rightarrow>
          (if c = CHR ''.'' then
             (let (ds, r') = take_digits r in
              if ds = [] then None else Some (CHR ''.'' # ds, r'))
           else Some ([], s))
      | [] \<Rightarrow> Some ([], []))"

definition dec_exp :: "string \<Rightarrow> (string \<times> string) option" where
  "dec_exp s =
     (case s of
        c # r \<Rightarrow>
          (if c = CHR ''e'' \<or> c = CHR ''E'' then
             (let (sg, r1) = (case r of
                  d # r' \<Rightarrow> if d = CHR ''+'' \<or> d = CHR ''-'' then ([d], r') else ([], r)
                | [] \<Rightarrow> ([], r));
                  (ds, r2) = take_digits r1 in
              if ds = [] then None else Some (c # sg @ ds, r2))
           else Some ([], s))
      | [] \<Rightarrow> Some ([], []))"

definition dec_number :: "string \<Rightarrow> (jval \<times> string) option" where
  "dec_number s =
     (let (neg, r) = (case s of c # r \<Rightarrow> if c = CHR ''-'' then (True, r) else (False, s) | [] \<Rightarrow> (False, s));
          (ds, r1) = take_digits r in
      if ds = [] \<or> (hd ds = CHR ''0'' \<and> length ds > 1) then None
      else case dec_frac r1 of
        None \<Rightarrow> None
      | Some (fr, r2) \<Rightarrow>
          (case dec_exp r2 of
             None \<Rightarrow> None
           | Some (ex, r3) \<Rightarrow>
               if fr = [] \<and> ex = []
               then Some (JInt (if neg then - int (digits_val ds) else int (digits_val ds)), r3)
               else Some (JFloat ((if neg then ''-'' else []) @ ds @ fr @ ex), r3)))"

fun strip_lit :: "string \<Rightarrow> string \<Rightarrow> string option" where
  "strip_lit [] s = Some s"
| "strip_lit (p # ps) (c # s) = (if p = c then strip_lit ps s else None)"
| "strip_lit (p # ps) [] = None"

text \<open>The decoder proper, with a fuel argument that bounds the nesting; \<open>json_Unmarshal\<close> starts it
  with more fuel than the input has characters, and refuses text after the value.\<close>

fun dec_value :: "nat \<Rightarrow> string \<Rightarrow> (jval \<times> string) option"
  and dec_elems :: "nat \<Rightarrow> string \<Rightarrow> (jval list \<times> string) option"
  and dec_members :: "nat \<Rightarrow> string \<Rightarrow> ((string \<times> jval) list \<times> string) option" where
  "dec_value 0 s = None"
| "dec_value (Suc n) s =
     (case skip_ws s of
        [] \<Rightarrow> None
      | c # r \<Rightarrow>
          (if c = CHR 0x7B then
             (case skip_ws r of
                [] \<Rightarrow> None
              | d # r' \<Rightarrow>
                  (if d = CHR 0x7D then Some (JObj [], r')
                   else map_option (\<lambda>(kvs, t). (JObj kvs, t)) (dec_members n r)))
           else if c = CHR ''['' then
             (case skip_ws r of
                [] \<Rightarrow> None
              | d # r' \<Rightarrow>
                  (if d = CHR '']'' then Some (JArr [], r')
                   else map_option (\<lambda>(vs, t). (JArr vs, t)) (dec_elems n r)))
           else if c = CHR 0x22 then map_option (\<lambda>(t, u). (JStr t, u)) (dec_str r)
           else if c = CHR ''n'' then map_option (\<lambda>t. (JNull, t)) (strip_lit ''ull'' r)
           else if c = CHR ''t'' then map_option (\<lambda>t. (JBool True, t)) (strip_lit ''rue'' r)
           else if c = CHR ''f'' then map_option (\<lambda>t. (JBool False, t)) (strip_lit ''alse'' r)
           else dec_number (c # r)))"
| "dec_elems 0 s = None"
| "dec_elems (Suc n) s =
     (case dec_value n s of
        None \<Rightarrow> None
      | Some (v, r) \<Rightarrow>
          (case skip_ws r of
             [] \<Rightarrow> None
           | d # r' \<Rightarrow>
               (if d = CHR '']'' then Some ([v], r')
                else if d = CHR '','' then map_option (\<lambda>(vs, t). (v # vs, t)) (dec_elems n r')
                else None)))"
| "dec_members 0 s = None"
| "dec_members (Suc n) s =
     (case skip_ws s of
        [] \<Rightarrow> None
      | q # r \<Rightarrow>
          (if q \<noteq> CHR 0x22 then None
           else case dec_str r of
             None \<Rightarrow> None
           | Some (k, r1) \<Rightarrow>
               (case skip_ws r1 of
                  [] \<Rightarrow> None
                | e # r2 \<Rightarrow>
                    (if e \<noteq> CHR '':'' then None
                     else case dec_value n r2 of
                       None \<Rightarrow> None
                     | Some (v, r3) \<Rightarrow>
                         (case skip_ws r3 of
                            [] \<Rightarrow> None
                          | d # r' \<Rightarrow>
                              (if d = CHR 0x7D then Some ([(k, v)], r')
                               else if d = CHR '','' then
                                 map_option (\<lambda>(kvs, t). ((k, v) # kvs, t)) (dec_members n r')
                               else None))))))"

definition json_Unmarshal :: "string \<Rightarrow> jval option" where
  "json_Unmarshal s =
     (case dec_value (length s + 3) s of
        None \<Rightarrow> None
      | Some (v, r) \<Rightarrow> if skip_ws r = [] then Some v else None)"

section \<open>The round trip of values\<close>

text \<open>Values without floating point literals, which the program's structs do not have.\<close>

fun json_wf :: "jval \<Rightarrow> bool" where
  "json_wf (JFloat s) = False"
| "json_wf (JArr vs) = (\<forall>v \<in> set vs. json_wf v)"
| "json_wf (JObj kvs) = (\<forall>kv \<in> set kvs. json_wf (snd kv))"
| "json_wf v = True"

definition json_stop :: "string \<Rightarrow> bool" where
  "json_stop s \<longleftrightarrow> s = [] \<or> hd s \<in> {CHR '','', CHR '']'', CHR 0x7D} \<or> is_ws (hd s)"

lemma dec_digits_digit: "c \<in> set (dec_digits n) \<Longrightarrow> is_digit c"
proof (induction n rule: dec_digits.induct)
  case (1 n)
  then show ?case
    by (subst (asm) (2) dec_digits.simps) (auto simp: is_digit_def split: if_splits)
qed

lemma digits_val_snoc: "digits_val (s @ [c]) = 10 * digits_val s + (code c - 48)"
  by (simp add: digits_val_def)

lemma digits_val_dec_digits [simp]: "digits_val (dec_digits n) = n"
proof (induction n rule: dec_digits.induct)
  case (1 n)
  then show ?case
    by (subst dec_digits.simps) (auto simp: digits_val_snoc digits_val_def [of "[c]" for c])
qed

lemma dec_digits_not_Nil [simp]: "dec_digits n \<noteq> []"
  by (subst dec_digits.simps) simp

lemma hd_dec_digits: "0 < n \<Longrightarrow> hd (dec_digits n) \<noteq> CHR ''0''"
proof (induction n rule: dec_digits.induct)
  case (1 n)
  have "char_of (48 + n) \<noteq> CHR ''0''" if "0 < n" "n < 10"
    unfolding code_eq_iff [symmetric] using that by (simp add: code_def)
  then show ?case using 1 by (subst dec_digits.simps) (auto simp: hd_append)
qed

lemma dec_digits_leading: "hd (dec_digits n) = CHR ''0'' \<Longrightarrow> length (dec_digits n) \<le> 1"
proof (cases "n = 0")
  case True
  then show ?thesis by (simp add: dec_digits.simps)
qed (use hd_dec_digits in auto)

lemma json_stop_simps:
  assumes "json_stop s"
  shows "dropWhile is_digit s = s" "takeWhile is_digit s = []"
    "dec_frac s = Some ([], s)" "dec_exp s = Some ([], s)"
  using assms by (cases s; auto simp: json_stop_def is_ws_def is_digit_def code_def dec_frac_def dec_exp_def)+

lemma take_digits_dec: "json_stop t \<Longrightarrow> take_digits (dec_digits n @ t) = (dec_digits n, t)"
  using dec_digits_digit json_stop_simps(1,2) [of t]
  by (auto simp: take_digits_def takeWhile_append dropWhile_append)

lemma dec_number_int: "json_stop t \<Longrightarrow> dec_number (dec_int i @ t) = Some (JInt i, t)"
proof -
  assume t: "json_stop t"
  have lead: "\<not> (hd (dec_digits n) = CHR ''0'' \<and> 1 < length (dec_digits n))" for n
    using dec_digits_leading by fastforce
  obtain c r where cr: "dec_digits (nat i) @ t = c # r" "is_digit c"
    by (metis append_Cons dec_digits_digit dec_digits_not_Nil list.exhaust list.set_intros(1))
  then have "c \<noteq> CHR ''-''" by (auto simp: is_digit_def code_def)
  then have nonneg: "(case dec_digits (nat i) @ t of c # r \<Rightarrow> if c = CHR ''-'' then (True, r)
      else (False, dec_digits (nat i) @ t) | [] \<Rightarrow> (False, dec_digits (nat i) @ t)) =
      (False, dec_digits (nat i) @ t)" using cr by simp
  show ?thesis
  proof (cases "i < 0")
    case True
    then show ?thesis using t lead [of "nat (- i)"]
      by (simp add: dec_int_def dec_number_def take_digits_dec json_stop_simps)
  next
    case False
    then show ?thesis using t lead [of "nat i"] nonneg
      by (simp add: dec_int_def dec_number_def take_digits_dec json_stop_simps)
  qed
qed

lemma skip_ws_Cons: "\<not> is_ws c \<Longrightarrow> skip_ws (c # s) = c # s"
  by (simp add: skip_ws_def)

lemma skip_ws_skip [simp]: "list_all is_ws w \<Longrightarrow> skip_ws (w @ s) = skip_ws s"
  by (induction w) (auto simp: skip_ws_def)

lemma dec_value_skip [simp]: "list_all is_ws w \<Longrightarrow> dec_value n (w @ s) = dec_value n s"
  by (cases n) simp_all

lemma dec_members_skip [simp]: "list_all is_ws w \<Longrightarrow> dec_members n (w @ s) = dec_members n s"
  by (cases n) simp_all

lemma dec_elems_skip [simp]: "list_all is_ws w \<Longrightarrow> dec_elems n (w @ s) = dec_elems n s"
  by (cases n) simp_all

lemma is_ws_lits [simp]:
  "\<not> is_ws (CHR 0x7B)" "\<not> is_ws (CHR 0x7D)" "\<not> is_ws (CHR ''['')" "\<not> is_ws (CHR '']'')"
  "\<not> is_ws (CHR 0x22)" "\<not> is_ws (CHR '','')" "\<not> is_ws (CHR '':'')" "\<not> is_ws (CHR ''n'')"
  "\<not> is_ws (CHR ''t'')" "\<not> is_ws (CHR ''f'')" "\<not> is_ws (CHR ''-'')"
  by (simp_all add: is_ws_def code_def)

lemma dec_int_head: "\<exists>c r. dec_int i = c # r \<and> \<not> is_ws c \<and> (is_digit c \<or> c = CHR ''-'')"
proof (cases "i < 0")
  case False
  obtain c r where "dec_digits (nat i) = c # r" by (cases "dec_digits (nat i)") auto
  moreover from this have "is_digit c" using dec_digits_digit [of c "nat i"] by simp
  ultimately show ?thesis using False by (auto simp: dec_int_def is_digit_def is_ws_def)
qed (simp add: dec_int_def)

lemma json_stop_lits [simp]: "json_stop (CHR '','' # s)" "json_stop (CHR '']'' # s)"
  "json_stop (CHR 0x7D # s)" "json_stop []"
  by (simp_all add: json_stop_def)

lemma json_stop_ws [simp]: "list_all is_ws w \<Longrightarrow> json_stop s \<Longrightarrow> json_stop (w @ s)"
  by (cases w) (auto simp: json_stop_def)

lemma join_head: "xs \<noteq> [] \<Longrightarrow> hd xs = c # r \<Longrightarrow> \<exists>r'. join_with sep xs = c # r'"
  by (cases xs; cases "tl xs") auto

text \<open>The layout is white space only; then the decoder reads back every value.\<close>

locale json_layout =
  fixes nl :: "nat \<Rightarrow> string" and sp :: string
  assumes nl_ws [simp]: "list_all is_ws (nl d)" and sp_ws [simp]: "list_all is_ws sp"
begin

definition enc :: "nat \<Rightarrow> jval \<Rightarrow> string" where
  "enc d v = json_pretty nl sp d v"

definition enc_member :: "nat \<Rightarrow> string \<times> jval \<Rightarrow> string" where
  "enc_member d kv = quote (fst kv) @ '':'' @ sp @ enc d (snd kv)"

lemma enc_JArr: "vs \<noteq> [] \<Longrightarrow> enc d (JArr vs) =
    ''['' @ nl (Suc d) @ join_with ('','' @ nl (Suc d)) (map (enc (Suc d)) vs) @ nl d @ '']''"
  by (simp add: enc_def [abs_def])

lemma enc_JObj: "kvs \<noteq> [] \<Longrightarrow> enc d (JObj kvs) =
    CHR 0x7B # nl (Suc d) @ join_with ('','' @ nl (Suc d)) (map (enc_member (Suc d)) kvs) @ nl d @ [CHR 0x7D]"
  by (simp add: enc_member_def enc_def case_prod_unfold cong: map_cong)

lemma enc_head:
  assumes "json_wf v"
  obtains c r where "enc d v = c # r" "\<not> is_ws c" "c \<noteq> CHR '']''" "c \<noteq> CHR 0x7D"
proof (cases v)
  case (JInt i)
  obtain c r where c: "dec_int i = c # r" "\<not> is_ws c" "is_digit c \<or> c = CHR ''-''"
    using dec_int_head by blast
  then have "c \<noteq> CHR '']''" "c \<noteq> CHR 0x7D" by (auto simp: is_digit_def code_def)
  with c JInt show thesis using that by (simp add: enc_def)
next
  case (JBool b)
  then show thesis using that by (cases b) (auto simp: enc_def)
next
  case (JArr vs)
  then show thesis using that by (cases "vs = []") (auto simp: enc_def)
next
  case (JObj kvs)
  then show thesis using that by (cases "kvs = []") (auto simp: enc_def)
qed (use assms that in \<open>auto simp: quote_def enc_def\<close>)

text \<open>The statement for one value, for all fuel that covers its text and every continuation.\<close>

definition value_back :: "nat \<Rightarrow> jval \<Rightarrow> bool" where
  "value_back d v \<longleftrightarrow> (\<forall>n rest. length (enc d v) + 1 \<le> n \<longrightarrow> json_stop rest \<longrightarrow>
     dec_value n (enc d v @ rest) = Some (json_sanitize v, rest))"

lemma value_backD:
  "value_back d v \<Longrightarrow> length (enc d v) + 1 \<le> n \<Longrightarrow> json_stop rest \<Longrightarrow>
     dec_value n (enc d v @ rest) = Some (json_sanitize v, rest)"
  by (simp add: value_back_def)

lemma value_backI:
  assumes "\<And>m rest. length (enc d v) \<le> m \<Longrightarrow> json_stop rest \<Longrightarrow>
    dec_value (Suc m) (enc d v @ rest) = Some (json_sanitize v, rest)"
  shows "value_back d v"
  unfolding value_back_def
proof (intro allI impI)
  fix n rest assume "length (enc d v) + 1 \<le> n" "json_stop rest"
  then show "dec_value n (enc d v @ rest) = Some (json_sanitize v, rest)"
    using assms by (cases n) simp_all
qed

lemma dec_elems_back:
  assumes "\<forall>v \<in> set vs. value_back d v" "vs \<noteq> []" "list_all is_ws w"
    and "length (join_with ('','' @ nl d) (map (enc d) vs)) + 2 \<le> n"
  shows "dec_elems n (join_with ('','' @ nl d) (map (enc d) vs) @ w @ CHR '']'' # rest) =
    Some (map json_sanitize vs, rest)"
  using assms
proof (induction vs arbitrary: n rule: induct_list012)
  case (2 v)
  then obtain m where m: "n = Suc m" "length (enc d v) + 1 \<le> m" by (cases n) auto
  then show ?case using 2 value_backD [of d v m "w @ CHR '']'' # rest"] by (simp add: skip_ws_Cons)
next
  case (3 v v' vs)
  let ?more = "join_with ('','' @ nl d) (map (enc d) (v' # vs))"
  obtain m where m: "n = Suc m" "length (enc d v) + 1 \<le> m" "length ?more + 2 \<le> m"
    using 3 by (cases n) auto
  have "dec_elems m (?more @ w @ CHR '']'' # rest) = Some (map json_sanitize (v' # vs), rest)"
    using "3.IH"(2) [of m] 3 m by simp
  then show ?case
    using m 3 value_backD [of d v m "CHR '','' # nl d @ ?more @ w @ CHR '']'' # rest"]
    by (simp add: skip_ws_Cons)
qed simp

lemma dec_members_step:
  assumes "value_back d v" "length (enc d v) + 1 \<le> m" "list_all is_ws w"
  shows "dec_members (Suc m) (enc_member d (k, v) @ CHR '','' # s) =
      map_option (\<lambda>(kvs, t). ((sanitize k, json_sanitize v) # kvs, t)) (dec_members m s)"
    and "dec_members (Suc m) (enc_member d (k, v) @ w @ CHR 0x7D # s) =
      Some ([(sanitize k, json_sanitize v)], s)"
  using assms value_backD [OF assms(1,2), of "CHR '','' # s"] value_backD [OF assms(1,2), of "w @ CHR 0x7D # s"]
    dec_str_esc [of k "CHR '':'' # sp @ enc d v @ CHR '','' # s"]
    dec_str_esc [of k "CHR '':'' # sp @ enc d v @ w @ CHR 0x7D # s"]
  by (simp_all add: enc_member_def quote_def skip_ws_Cons)

lemma dec_members_back:
  assumes "\<forall>kv \<in> set kvs. value_back d (snd kv)" "kvs \<noteq> []" "list_all is_ws w"
    and "length (join_with ('','' @ nl d) (map (enc_member d) kvs)) + 2 \<le> n"
  shows "dec_members n (join_with ('','' @ nl d) (map (enc_member d) kvs) @ w @ CHR 0x7D # rest) =
    Some (map (\<lambda>(k, v). (sanitize k, json_sanitize v)) kvs, rest)"
  using assms
proof (induction kvs arbitrary: n rule: induct_list012)
  case (2 kv)
  obtain k v where kv: "kv = (k, v)" by (cases kv)
  with 2 obtain m where m: "n = Suc m" "length (enc d v) + 1 \<le> m"
    by (cases n) (auto simp: enc_member_def)
  then show ?case using 2 kv dec_members_step(2) [of d v m w k rest] by simp
next
  case (3 kv kv' kvs)
  let ?more = "join_with ('','' @ nl d) (map (enc_member d) (kv' # kvs))"
  obtain k v where kv: "kv = (k, v)" by (cases kv)
  have "length (enc d v) + 2 + length ?more \<le> length (join_with ('','' @ nl d) (map (enc_member d) (kv # kv' # kvs)))"
    by (simp add: kv enc_member_def)
  then have "length (enc d v) + 2 + length ?more + 2 \<le> n" using "3.prems"(4) by linarith
  then obtain m where m: "n = Suc m" "length (enc d v) + 1 \<le> m" "length ?more + 2 \<le> m"
    by (cases n) auto
  have "dec_members m (?more @ w @ CHR 0x7D # rest) =
      Some (map (\<lambda>(k, v). (sanitize k, json_sanitize v)) (kv' # kvs), rest)"
    using "3.IH"(2) [of m] 3 m by simp
  moreover have "value_back d v" using 3 kv by simp
  ultimately have "dec_members n (enc_member d kv @ CHR '','' # nl d @ ?more @ w @ CHR 0x7D # rest) =
      Some (map (\<lambda>(k, v). (sanitize k, json_sanitize v)) (kv # kv' # kvs), rest)"
    using dec_members_step(1) [of d v m w k] m kv "3.prems"(3) by (simp only: m(1) kv) simp
  then show ?case by simp
qed simp

lemma value_back: "json_wf v \<Longrightarrow> value_back d v"
proof (induction v arbitrary: d rule: json_sanitize.induct [case_names str arr obj null bool int float])
  case (str s)
  have "dec_value (Suc m) (quote s @ rest) = Some (JStr (sanitize s), rest)" for m rest
    using dec_str_esc [of s rest] by (simp add: quote_def skip_ws_Cons)
  then show ?case by (intro value_backI) (simp add: enc_def)
next
  case (arr vs)
  then have all: "\<forall>v \<in> set vs. value_back (Suc d) v" by auto
  have "dec_value (Suc m) (enc d (JArr vs) @ rest) = Some (json_sanitize (JArr vs), rest)"
    if m: "length (enc d (JArr vs)) \<le> m" for m rest
  proof (cases "vs = []")
    case False
    let ?j = "join_with ('','' @ nl (Suc d)) (map (enc (Suc d)) vs)"
    have "json_wf (hd vs)" using arr False by (auto intro: list.set_sel)
    then obtain c r where "enc (Suc d) (hd vs) = c # r" "\<not> is_ws c" "c \<noteq> CHR '']''"
      by (rule enc_head)
    then obtain r' where j: "?j = c # r'" "\<not> is_ws c" "c \<noteq> CHR '']''"
      using join_head [of "map (enc (Suc d)) vs" c r] False by (auto simp: hd_map)
    have "dec_elems m (?j @ nl d @ CHR '']'' # rest) = Some (map json_sanitize vs, rest)"
      using dec_elems_back [OF all False] m unfolding enc_JArr [OF False] by simp
    then show ?thesis using j unfolding enc_JArr [OF False] by (simp add: skip_ws_Cons)
  qed (simp add: skip_ws_Cons enc_def)
  then show ?case by (rule value_backI)
next
  case (obj kvs)
  then have all: "\<forall>kv \<in> set kvs. value_back (Suc d) (snd kv)" by auto
  have "dec_value (Suc m) (enc d (JObj kvs) @ rest) = Some (json_sanitize (JObj kvs), rest)"
    if m: "length (enc d (JObj kvs)) \<le> m" for m rest
  proof (cases "kvs = []")
    case False
    let ?j = "join_with ('','' @ nl (Suc d)) (map (enc_member (Suc d)) kvs)"
    have "\<exists>r. enc_member (Suc d) (hd kvs) = CHR 0x22 # r" by (simp add: enc_member_def quote_def)
    then obtain r' where j: "?j = CHR 0x22 # r'"
      using join_head [of "map (enc_member (Suc d)) kvs" "CHR 0x22"] False by (auto simp: hd_map)
    have "dec_members m (?j @ nl d @ CHR 0x7D # rest) =
        Some (map (\<lambda>(k, v). (sanitize k, json_sanitize v)) kvs, rest)"
      using dec_members_back [OF all False] m unfolding enc_JObj [OF False] by simp
    then show ?thesis using j unfolding enc_JObj [OF False] by (simp add: skip_ws_Cons)
  qed (simp add: skip_ws_Cons enc_def)
  then show ?case by (rule value_backI)
next
  case (int i)
  show ?case
  proof (rule value_backI)
    fix m rest assume rest: "json_stop rest"
    obtain c r where c: "dec_int i = c # r" "\<not> is_ws c" "is_digit c \<or> c = CHR ''-''"
      using dec_int_head by blast
    then have lits: "c \<noteq> CHR 0x7B" "c \<noteq> CHR ''[''" "c \<noteq> CHR 0x22" "c \<noteq> CHR ''n''" "c \<noteq> CHR ''t''"
      "c \<noteq> CHR ''f''" by (auto simp: is_digit_def code_def)
    show "dec_value (Suc m) (enc d (JInt i) @ rest) = Some (json_sanitize (JInt i), rest)"
      using c lits dec_number_int [OF rest, of i] by (simp add: skip_ws_Cons enc_def)
  qed
qed (auto intro!: value_backI simp: skip_ws_Cons enc_def)

lemma unmarshal_back: "json_wf v \<Longrightarrow> json_Unmarshal (enc d v) = Some (json_sanitize v)"
  using value_backD [OF value_back, of v d "length (enc d v) + 3" "[]"]
  by (simp add: json_Unmarshal_def skip_ws_def)

end

interpretation compact: json_layout "\<lambda>_. []" "[]"
  by unfold_locales simp_all

interpretation indented: json_layout indent2 "'' ''"
  by unfold_locales (simp_all add: indent2_def is_ws_def code_def list_all_iff)

lemma json_pretty_compact: "json_pretty (\<lambda>_. []) [] d v = json_enc v"
proof (induction v arbitrary: d rule: json_sanitize.induct)
  case (3 kvs)
  then have "map (\<lambda>(k, v). quote k @ CHR '':'' # json_pretty (\<lambda>_. []) [] (Suc d) v) kvs =
      map (\<lambda>(k, v). quote k @ CHR '':'' # json_enc v) kvs"
    by (intro map_cong refl) (auto simp: case_prod_unfold)
  then show ?case by (simp del: map_eq_conv)
qed (auto cong: map_cong)

lemma json_roundtrip: "json_wf v \<Longrightarrow> json_Unmarshal (json_enc v) = Some (json_sanitize v)"
  using compact.unmarshal_back [of v 0] by (simp add: compact.enc_def json_pretty_compact)

lemma json_indent_roundtrip: "json_wf v \<Longrightarrow> json_Unmarshal (json_indent v) = Some (json_sanitize v)"
  using indented.unmarshal_back [of v 0] by (simp add: indented.enc_def json_indent_def)

lemma json_enc_inj:
  "json_wf v \<Longrightarrow> json_wf w \<Longrightarrow> json_enc v = json_enc w \<Longrightarrow> json_sanitize v = json_sanitize w"
  using json_roundtrip [of v] json_roundtrip [of w] by simp

section \<open>Filling struct fields\<close>

text \<open>
  \<open>Unmarshal\<close> matches a member to a field by name, first exactly, then up to case folding (which for
  ASCII names also identifies the Kelvin sign with K and the long s with S); the last member wins and
  \<open>null\<close> leaves a field as it is. A member of the wrong type makes the whole call fail.
\<close>

definition fold_code :: "nat \<Rightarrow> nat" where
  "fold_code n = (if 97 \<le> n \<and> n \<le> 122 then n - 32 else n)"

fun fold_codes :: "nat list \<Rightarrow> nat list" where
  "fold_codes (a # b # c # s) =
     (if a = 0xE2 \<and> b = 0x84 \<and> c = 0xAA then 75 # fold_codes s
      else if a = 0xC5 \<and> b = 0xBF then 83 # fold_codes (c # s)
      else fold_code a # fold_codes (b # c # s))"
| "fold_codes [a, b] = (if a = 0xC5 \<and> b = 0xBF then [83] else [fold_code a, fold_code b])"
| "fold_codes [a] = [fold_code a]"
| "fold_codes [] = []"

definition fold_name :: "string \<Rightarrow> nat list" where
  "fold_name s = fold_codes (map of_char s)"

definition field_vals :: "string \<Rightarrow> (string \<times> jval) list \<Rightarrow> jval list" where
  "field_vals f kvs = map snd (filter (\<lambda>kv. fold_name (fst kv) = fold_name f \<and> snd kv \<noteq> JNull) kvs)"

fun as_str :: "jval \<Rightarrow> string option" where
  "as_str (JStr s) = Some s"
| "as_str _ = None"

fun as_int64 :: "jval \<Rightarrow> int option" where
  "as_int64 (JInt i) = (if - (2 ^ 63) \<le> i \<and> i < 2 ^ 63 then Some i else None)"
| "as_int64 _ = None"

fun as_bool :: "jval \<Rightarrow> bool option" where
  "as_bool (JBool b) = Some b"
| "as_bool _ = None"

fun as_strs :: "jval \<Rightarrow> string list option" where
  "as_strs (JArr vs) =
     those (map (\<lambda>v. case v of JNull \<Rightarrow> Some [] | JStr s \<Rightarrow> Some s | _ \<Rightarrow> None) vs)"
| "as_strs _ = None"

fun as_obj :: "jval \<Rightarrow> (string \<times> jval) list option" where
  "as_obj (JObj kvs) = Some kvs"
| "as_obj JNull = Some []"
| "as_obj _ = None"

definition get_field :: "(jval \<Rightarrow> 'a option) \<Rightarrow> 'a \<Rightarrow> string \<Rightarrow> (string \<times> jval) list \<Rightarrow> 'a option" where
  "get_field conv zero f kvs =
     (case those (map conv (field_vals f kvs)) of
        None \<Rightarrow> None
      | Some vs \<Rightarrow> Some (if vs = [] then zero else last vs))"

abbreviation "str_field \<equiv> get_field as_str []"
abbreviation "bool_field \<equiv> get_field as_bool False"
abbreviation "int_field \<equiv> get_field as_int64 0"
abbreviation "strs_field \<equiv> get_field as_strs []"

lemma field_vals_Nil [simp]: "field_vals f [] = []"
  by (simp add: field_vals_def)

lemma field_vals_Cons [simp]:
  "field_vals f ((k, v) # kvs) =
     (if fold_name k = fold_name f \<and> v \<noteq> JNull then v # field_vals f kvs else field_vals f kvs)"
  by (simp add: field_vals_def)

lemma those_map_Some [simp]: "those (map Some xs) = Some xs"
  by (induction xs) auto

lemma those_map_Some_fun [simp]: "those (map (\<lambda>x. Some (f x)) xs) = Some (map f xs)"
  by (induction xs) auto

definition int64_ok :: "int \<Rightarrow> bool" where
  "int64_ok i \<longleftrightarrow> - (2 ^ 63) \<le> i \<and> i < 2 ^ 63"

lemmas field_simps_go = get_field_def fold_name_def fold_code_def

lemma json_object_back:
  "json_wf (JObj kvs) \<Longrightarrow> Option.bind (json_Unmarshal (json_enc (JObj kvs))) as_obj =
     Some (map (\<lambda>(k, v). (sanitize k, json_sanitize v)) kvs)"
  by (subst json_roundtrip) (simp_all del: json_enc.simps)

lemma those_Some_iff: "those xs = Some ys \<longleftrightarrow> xs = map Some ys"
proof (induction xs arbitrary: ys)
  case (Cons x xs)
  then show ?case by (cases x; cases ys) (auto simp: map_option_case split: option.splits)
qed auto

lemma b64_encode_ascii: "list_all (\<lambda>c. code c < 0x80) (b64_encode en bs)"
proof -
  have ch: "code (b64_char en n) < 0x80" if "n < 64" for en n
    using that by (auto simp: code_def of_b64_char)
  have pad: "list_all (\<lambda>c. code c < 0x80) (pad_str en n)" for en n
    by (simp add: pad_str_def list_all_iff code_def)
  show ?thesis by (induction en bs rule: b64_encode.induct) (simp_all add: Let_def ch pad)
qed

lemma valid_b64 [simp]: "valid_utf8 (b64_encode en bs)"
  by (rule valid_ascii [OF b64_encode_ascii])

lemma hex_encode_ascii: "list_all (\<lambda>c. code c < 0x80) (hex_encode bs)"
proof (induction bs)
  case (Cons b bs)
  have "unat b div 16 < 16" by (rule less_mult_imp_div_less) simp
  then have "code (hex_digit (unat b div 16)) < 0x80" "code (hex_digit (unat b mod 16)) < 0x80"
    using of_hex_digit [of "unat b div 16"] of_hex_digit [of "unat b mod 16"] mod_less_divisor [of 16 "unat b"]
    by (simp_all add: code_def del: mod_less_divisor)
  with Cons show ?case by (simp add: hex_encode_def)
qed (simp add: hex_encode_def)

lemma sanitize_hex [simp]: "sanitize (hex_encode bs) = hex_encode bs"
  by (rule sanitize_ascii [OF hex_encode_ascii])

lemma valid_hex [simp]: "valid_utf8 (hex_encode bs)"
  by (simp add: valid_utf8_def)

lemma those_map_back:
  assumes "those (map f xs) = Some ys" "\<And>x y. x \<in> set xs \<Longrightarrow> f x = Some y \<Longrightarrow> P y \<and> g (h y) = Some x"
  shows "(\<forall>y \<in> set ys. P y) \<and> those (map g (map h ys)) = Some xs"
proof -
  have eq: "map f xs = map Some ys" using assms(1) by (simp add: those_Some_iff)
  then have len: "length xs = length ys" by (metis length_map)
  have nth: "f (xs ! i) = Some (ys ! i)" if "i < length ys" for i
    using eq that len by (metis nth_map)
  then have each: "P (ys ! i) \<and> g (h (ys ! i)) = Some (xs ! i)" if "i < length ys" for i
    using assms(2) [of "xs ! i" "ys ! i"] nth [OF that] that len by simp
  then have "map g (map h ys) = map Some xs" by (simp add: list_eq_iff_nth_eq len)
  then show ?thesis using each by (auto simp: those_Some_iff in_set_conv_nth)
qed

end
