(* ===== verification/AuditLog.thy ===== *)
theory AuditLog
  imports Crypto Json
begin

text \<open>
  \<open>internal/audit/audit.go\<close>: the hash-chained, signed audit log. A \<open>logger\<close> is the struct \<open>Logger\<close>
  without its mutex (one operation at a time); \<open>audit_Log\<close> takes the clock reading as an argument.
\<close>

record entry =
  e_seq :: u64
  e_ts :: int
  e_service :: string
  e_actor :: string
  e_action :: string
  e_result :: string
  e_resource :: string
  e_prev :: string
  e_hash :: string
  e_sig :: string

datatype integrity_msg = MsgEmpty | MsgPrevHash nat | MsgHash nat | MsgSignature nat | MsgIntact nat

record integrity =
  ir_valid :: bool
  ir_entries :: nat
  ir_broken :: bool
  ir_broken_at :: nat
  ir_msg :: integrity_msg

record logger =
  lg_service :: string
  lg_pk :: dsa_public
  lg_sk :: dsa_private
  lg_entries :: "entry list"
  lg_prev :: string

datatype audit_error = AuditKeygen dsa_error | AuditSign dsa_error | AuditIndex

definition genesisHash :: "crypto \<Rightarrow> string" where
  "genesisHash cr = hex_encode (sha256 cr (str_bytes ''quantum-shield-audit-genesis-v1''))"

text \<open>The canonical form that is hashed: the fields in the order of the struct, \<open>resource\<close> left out
  when empty.\<close>

definition canonical :: "entry \<Rightarrow> jval" where
  "canonical e = JObj
     ([(''seq'', JInt (uint (e_seq e))), (''ts'', JInt (e_ts e)), (''service'', JStr (e_service e)),
       (''actor'', JStr (e_actor e)), (''action'', JStr (e_action e)), (''result'', JStr (e_result e))]
      @ (if e_resource e = [] then [] else [(''resource'', JStr (e_resource e))])
      @ [(''prev_hash'', JStr (e_prev e))])"

definition entry_text :: "entry \<Rightarrow> bytes" where
  "entry_text e = str_bytes (json_enc (canonical e))"

definition entryHash :: "crypto \<Rightarrow> entry \<Rightarrow> string" where
  "entryHash cr e = hex_encode (sha256 cr (entry_text e))"

definition NewLogger :: "crypto \<Rightarrow> string \<Rightarrow> entropy \<Rightarrow> (audit_error, logger \<times> entropy) result" where
  "NewLogger cr service e =
     (case dsa_GenerateKey cr 65 e of
        Ok (pk, sk, e') \<Rightarrow>
          Ok (\<lparr>lg_service = service, lg_pk = pk, lg_sk = sk, lg_entries = [], lg_prev = genesisHash cr\<rparr>, e')
      | Err er \<Rightarrow> Err (AuditKeygen er)
      | Panic \<Rightarrow> Panic)"

definition audit_Log ::
    "crypto \<Rightarrow> string \<Rightarrow> string \<Rightarrow> string \<Rightarrow> string \<Rightarrow> gotime \<Rightarrow> logger \<Rightarrow> (audit_error, logger) result" where
  "audit_Log cr actor action res resource now l =
     (let e = \<lparr>e_seq = of_nat (length (lg_entries l)), e_ts = now, e_service = lg_service l,
               e_actor = actor, e_action = action, e_result = res, e_resource = resource,
               e_prev = lg_prev l, e_hash = [], e_sig = []\<rparr>;
          e1 = e\<lparr>e_hash := entryHash cr e\<rparr>
      in case dsa_Sign cr (Some (lg_sk l)) (str_bytes (e_hash e1)) of
        Ok sig \<Rightarrow>
          (let e2 = e1\<lparr>e_sig := hex_encode sig\<rparr>
           in Ok (l\<lparr>lg_entries := lg_entries l @ [e2], lg_prev := e_hash e2\<rparr>))
      | Err er \<Rightarrow> Err (AuditSign er)
      | Panic \<Rightarrow> Panic)"

definition audit_Entries :: "logger \<Rightarrow> entry list" where
  "audit_Entries l = lg_entries l"

definition audit_Count :: "logger \<Rightarrow> nat" where
  "audit_Count l = length (lg_entries l)"

definition broken :: "nat \<Rightarrow> nat \<Rightarrow> integrity_msg \<Rightarrow> integrity" where
  "broken cnt i msg =
     \<lparr>ir_valid = False, ir_entries = cnt, ir_broken = True, ir_broken_at = i, ir_msg = msg\<rparr>"

fun verify_from :: "crypto \<Rightarrow> dsa_public \<Rightarrow> nat \<Rightarrow> nat \<Rightarrow> string \<Rightarrow> entry list \<Rightarrow> integrity" where
  "verify_from cr pk cnt i prevHash [] =
     \<lparr>ir_valid = True, ir_entries = cnt, ir_broken = False, ir_broken_at = 0, ir_msg = MsgIntact cnt\<rparr>"
| "verify_from cr pk cnt i prevHash (e # rest) =
     (if e_prev e \<noteq> prevHash then broken cnt i (MsgPrevHash i)
      else if entryHash cr e \<noteq> e_hash e then broken cnt i (MsgHash i)
      else case hex_decode (e_sig e) of
        None \<Rightarrow> broken cnt i (MsgSignature i)
      | Some sig \<Rightarrow>
          (if \<not> dsa_Verify cr (Some pk) (str_bytes (e_hash e)) sig then broken cnt i (MsgSignature i)
           else verify_from cr pk cnt (i + 1) (e_hash e) rest))"

definition VerifyChain :: "crypto \<Rightarrow> logger \<Rightarrow> integrity" where
  "VerifyChain cr l =
     (if length (lg_entries l) = 0
      then \<lparr>ir_valid = True, ir_entries = 0, ir_broken = False, ir_broken_at = 0, ir_msg = MsgEmpty\<rparr>
      else verify_from cr (lg_pk l) (length (lg_entries l)) 0 (genesisHash cr) (lg_entries l))"

text \<open>The index of \<open>TamperEntry\<close> is an \<open>int\<close>: only the upper bound is checked, so a negative index
  panics.\<close>

definition TamperEntry :: "logger \<Rightarrow> int \<Rightarrow> string \<Rightarrow> (audit_error, logger) result" where
  "TamperEntry l index newActor =
     (if index \<ge> int (length (lg_entries l)) then Err AuditIndex
      else if index < 0 then Panic
      else Ok (l\<lparr>lg_entries := (lg_entries l)[nat index := (lg_entries l ! nat index)\<lparr>e_actor := newActor\<rparr>]\<rparr>))"

section \<open>What verification checks\<close>

definition entry_ok :: "crypto \<Rightarrow> dsa_public \<Rightarrow> string \<Rightarrow> entry \<Rightarrow> bool" where
  "entry_ok cr pk prev e \<longleftrightarrow>
     e_prev e = prev \<and> entryHash cr e = e_hash e \<and>
     (\<exists>sig. hex_decode (e_sig e) = Some sig \<and> dsa_Verify cr (Some pk) (str_bytes (e_hash e)) sig)"

fun chain_ok :: "crypto \<Rightarrow> dsa_public \<Rightarrow> string \<Rightarrow> entry list \<Rightarrow> bool" where
  "chain_ok cr pk prev [] = True"
| "chain_ok cr pk prev (e # es) = (entry_ok cr pk prev e \<and> chain_ok cr pk (e_hash e) es)"

fun head_hash :: "string \<Rightarrow> entry list \<Rightarrow> string" where
  "head_hash prev [] = prev"
| "head_hash prev (e # es) = head_hash (e_hash e) es"

lemma verify_from_valid_iff: "ir_valid (verify_from cr pk n i prev es) \<longleftrightarrow> chain_ok cr pk prev es"
  by (induction cr pk n i prev es rule: verify_from.induct)
    (auto simp: broken_def entry_ok_def split: option.splits)

lemma VerifyChain_valid_iff:
  "ir_valid (VerifyChain cr l) \<longleftrightarrow> chain_ok cr (lg_pk l) (genesisHash cr) (lg_entries l)"
  by (simp add: VerifyChain_def verify_from_valid_iff)

lemma verify_from_entries: "ir_entries (verify_from cr pk n i prev es) = n"
  by (induction cr pk n i prev es rule: verify_from.induct) (auto simp: broken_def split: option.splits)

lemma chain_ok_append:
  "chain_ok cr pk prev (es @ fs) \<longleftrightarrow> chain_ok cr pk prev es \<and> chain_ok cr pk (head_hash prev es) fs"
  by (induction es arbitrary: prev) auto

lemma head_hash_append: "head_hash prev (es @ fs) = head_hash (head_hash prev es) fs"
  by (induction es arbitrary: prev) auto

lemma entryHash_cong [simp]: "entryHash cr (e\<lparr>e_hash := h\<rparr>) = entryHash cr e"
  "entryHash cr (e\<lparr>e_sig := s\<rparr>) = entryHash cr e"
  by (simp_all add: entryHash_def entry_text_def canonical_def)
section \<open>A log run operation by operation\<close>

record log_op =
  lo_actor :: string
  lo_action :: string
  lo_result :: string
  lo_resource :: string
  lo_now :: gotime

definition log_step :: "crypto \<Rightarrow> log_op \<Rightarrow> logger \<Rightarrow> logger" where
  "log_step cr x l =
     (case audit_Log cr (lo_actor x) (lo_action x) (lo_result x) (lo_resource x) (lo_now x) l of
        Ok l' \<Rightarrow> l'
      | _ \<Rightarrow> l)"

text \<open>The invariant of a logger: its chain verifies, the running hash is the head of the chain, the
  sequence numbers count from zero, and signatures made with its private key verify.\<close>

definition logger_inv :: "crypto \<Rightarrow> logger \<Rightarrow> bool" where
  "logger_inv cr l \<longleftrightarrow>
     chain_ok cr (lg_pk l) (genesisHash cr) (lg_entries l) \<and>
     lg_prev l = head_hash (genesisHash cr) (lg_entries l) \<and>
     map e_seq (lg_entries l) = map of_nat [0..<length (lg_entries l)] \<and>
     dsa_correct cr \<and> dsa_pair cr (lg_pk l) (lg_sk l)"

definition logger_ext :: "logger \<Rightarrow> logger \<Rightarrow> bool" where
  "logger_ext l l' \<longleftrightarrow> lg_pk l' = lg_pk l \<and> (\<exists>es. lg_entries l' = lg_entries l @ es)"

lemma audit_Log_Ok:
  assumes "logger_inv cr l"
  obtains e where "audit_Log cr actor action res resource now l =
      Ok (l\<lparr>lg_entries := lg_entries l @ [e], lg_prev := e_hash e\<rparr>)"
    "entry_ok cr (lg_pk l) (lg_prev l) e" "e_seq e = of_nat (length (lg_entries l))" "e_actor e = actor"
    "e_ts e = now"
proof -
  define e where "e = \<lparr>e_seq = of_nat (length (lg_entries l)), e_ts = now, e_service = lg_service l,
               e_actor = actor, e_action = action, e_result = res, e_resource = resource,
               e_prev = lg_prev l, e_hash = [], e_sig = []\<rparr>"
  define h where "h = entryHash cr e"
  define sig where "sig = mldsa_sign cr (sk_level (lg_sk l)) (sk_bytes (lg_sk l)) (str_bytes h)"
  let ?e = "e\<lparr>e_hash := h, e_sig := hex_encode sig\<rparr>"
  have sign: "dsa_Sign cr (Some (lg_sk l)) (str_bytes h) = Ok sig" by (simp add: dsa_Sign_def sig_def)
  have "dsa_Verify cr (Some (lg_pk l)) (str_bytes h) sig"
    using dsa_Sign_Verify(1) [OF _ _ sign] assms by (simp add: logger_inv_def)
  then have ok: "entry_ok cr (lg_pk l) (lg_prev l) ?e"
    unfolding entry_ok_def by (simp add: h_def) (simp add: e_def)
  have log: "audit_Log cr actor action res resource now l =
      Ok (l\<lparr>lg_entries := lg_entries l @ [?e], lg_prev := e_hash ?e\<rparr>)"
    unfolding audit_Log_def Let_def e_def [symmetric] using sign by (simp add: h_def [symmetric])
  have seq: "e_seq ?e = of_nat (length (lg_entries l))" "e_actor ?e = actor" "e_ts ?e = now"
    by (simp_all add: e_def)
  show thesis by (rule that [OF log ok seq])
qed

lemma log_step_Ok:
  assumes "logger_inv cr l"
  obtains e where "log_step cr x l = l\<lparr>lg_entries := lg_entries l @ [e], lg_prev := e_hash e\<rparr>"
    "entry_ok cr (lg_pk l) (lg_prev l) e" "e_seq e = of_nat (length (lg_entries l))"
    "e_actor e = lo_actor x"
proof -
  obtain e where e: "audit_Log cr (lo_actor x) (lo_action x) (lo_result x) (lo_resource x) (lo_now x) l =
      Ok (l\<lparr>lg_entries := lg_entries l @ [e], lg_prev := e_hash e\<rparr>)"
    "entry_ok cr (lg_pk l) (lg_prev l) e" "e_seq e = of_nat (length (lg_entries l))"
    "e_actor e = lo_actor x"
    using audit_Log_Ok [OF assms] by blast
  then have "log_step cr x l = l\<lparr>lg_entries := lg_entries l @ [e], lg_prev := e_hash e\<rparr>"
    by (simp add: log_step_def)
  then show thesis using e(2,3,4) by (rule that)
qed

lemma log_step_inv: "logger_inv cr l \<Longrightarrow> logger_inv cr (log_step cr x l)"
  by (rule log_step_Ok [of cr l x]) (auto simp: logger_inv_def chain_ok_append head_hash_append)

lemma log_step_ext: "logger_inv cr l \<Longrightarrow> logger_ext l (log_step cr x l)"
  by (rule log_step_Ok [of cr l x]) (auto simp: logger_ext_def)

interpretation audit_log: op_system "log_step cr" "logger_inv cr" logger_ext
  for cr
proof
  show "logger_ext s t \<Longrightarrow> logger_ext t u \<Longrightarrow> logger_ext s u" for s t u
    by (auto simp: logger_ext_def)
qed (simp_all add: log_step_inv log_step_ext, simp add: logger_ext_def)

lemma log_step_length: "logger_inv cr l \<Longrightarrow> length (lg_entries (log_step cr x l)) = Suc (length (lg_entries l))"
  by (rule log_step_Ok [of cr l x]) auto

lemma log_run_length:
  "logger_inv cr l \<Longrightarrow> length (lg_entries (fold (log_step cr) xs l)) = length (lg_entries l) + length xs"
  by (induction xs arbitrary: l) (auto simp: log_step_inv log_step_length)

lemma NewLogger_inv:
  "dsa_correct cr \<Longrightarrow> NewLogger cr service e = Ok (l, e') \<Longrightarrow> logger_inv cr l \<and> lg_entries l = []"
  by (auto simp: NewLogger_def logger_inv_def dest: dsa_GenerateKey_pair split: result.splits)

text \<open>C8. Whatever is logged on a fresh logger, in any order and at any times, the chain verifies, the
  reported number of entries is the number of calls, the sequence numbers are 0, 1, 2, ..., and the
  entries logged so far are never changed by later calls.\<close>

theorem audit_chain_valid:
  assumes "dsa_correct cr" and "NewLogger cr service e = Ok (l0, e')"
    and l: "l = fold (log_step cr) xs l0"
  shows "ir_valid (VerifyChain cr l) \<and> ir_entries (VerifyChain cr l) = length xs \<and>
    map e_seq (lg_entries l) = map of_nat [0..<length xs] \<and>
    (\<exists>es. lg_entries (fold (log_step cr) ys l) = lg_entries l @ es)"
proof -
  have inv0: "logger_inv cr l0" "lg_entries l0 = []" using NewLogger_inv [OF assms(1,2)] by auto
  have inv: "logger_inv cr l" unfolding l by (rule audit_log.run_inv [OF inv0(1)])
  have len: "length (lg_entries l) = length xs" using log_run_length [OF inv0(1)] inv0(2) l by simp
  have "ir_entries (VerifyChain cr l) = length xs"
    using len by (simp add: VerifyChain_def verify_from_entries)
  moreover have "logger_ext l (fold (log_step cr) ys l)" by (rule audit_log.run_ext [OF inv])
  ultimately show ?thesis using inv len
    by (auto simp: VerifyChain_valid_iff logger_inv_def logger_ext_def)
qed

section \<open>The head hash commits to the log\<close>

definition same_content :: "entry \<Rightarrow> entry \<Rightarrow> bool" where
  "same_content e f \<longleftrightarrow>
     e_seq e = e_seq f \<and> e_ts e = e_ts f \<and> sanitize (e_service e) = sanitize (e_service f) \<and>
     sanitize (e_actor e) = sanitize (e_actor f) \<and> sanitize (e_action e) = sanitize (e_action f) \<and>
     sanitize (e_result e) = sanitize (e_result f) \<and> sanitize (e_resource e) = sanitize (e_resource f)"

lemma canonical_wf [simp]: "json_wf (canonical e)"
  by (simp add: canonical_def)

lemma canonical_eq_iff:
  "json_sanitize (canonical e) = json_sanitize (canonical f) \<longleftrightarrow>
     same_content e f \<and> sanitize (e_prev e) = sanitize (e_prev f)"
proof -
  have "uint (e_seq e) = uint (e_seq f) \<longleftrightarrow> e_seq e = e_seq f" by (simp add: word_uint_eq_iff)
  moreover have "[] = sanitize s \<longleftrightarrow> s = []" for s by (metis sanitize_Nil_iff)
  ultimately show ?thesis
    by (cases "e_resource e = []"; cases "e_resource f = []") (auto simp: canonical_def same_content_def)
qed

lemma entry_text_eq: "entry_text e = entry_text f \<Longrightarrow> same_content e f \<and> sanitize (e_prev e) = sanitize (e_prev f)"
  using json_enc_inj [of "canonical e" "canonical f"] by (simp add: entry_text_def canonical_eq_iff)

lemma head_hash_snoc: "head_hash prev (es @ [e]) = e_hash e"
  by (simp add: head_hash_append)

lemma head_hash_hex:
  "chain_ok cr pk (genesisHash cr) es \<Longrightarrow> sanitize (head_hash (genesisHash cr) es) = head_hash (genesisHash cr) es"
proof (cases es rule: rev_cases)
  case (snoc fs e)
  assume "chain_ok cr pk (genesisHash cr) es"
  then have "e_hash e = entryHash cr e" using snoc by (simp add: chain_ok_append entry_ok_def)
  then have "sanitize (e_hash e) = e_hash e" by (simp add: entryHash_def)
  with snoc show ?thesis by (simp add: head_hash_snoc)
qed (simp add: genesisHash_def)

definition genesis_text :: bytes where
  "genesis_text = str_bytes ''quantum-shield-audit-genesis-v1''"

lemma entry_text_not_genesis: "entry_text e \<noteq> genesis_text"
  by (simp add: entry_text_def genesis_text_def canonical_def)

definition log_collision :: "crypto \<Rightarrow> entry list \<Rightarrow> entry list \<Rightarrow> bool" where
  "log_collision cr es fs \<longleftrightarrow>
     (\<exists>x \<in> insert genesis_text (entry_text ` set es). \<exists>y \<in> insert genesis_text (entry_text ` set fs).
        sha_collision cr x y)"

lemma log_collision_mono:
  "log_collision cr es fs \<Longrightarrow> set es \<subseteq> set es' \<Longrightarrow> set fs \<subseteq> set fs' \<Longrightarrow> log_collision cr es' fs'"
  unfolding log_collision_def by blast

lemma head_commits:
  assumes "chain_ok cr pk (genesisHash cr) es" "chain_ok cr pk' (genesisHash cr) fs"
    and "head_hash (genesisHash cr) es = head_hash (genesisHash cr) fs"
  shows "map entry_text es = map entry_text fs \<or> log_collision cr es fs"
  using assms
proof (induction es arbitrary: fs rule: rev_induct)
  case Nil
  show ?case
  proof (cases fs rule: rev_cases)
    case (snoc fs' f)
    then have "entryHash cr f = genesisHash cr" using Nil by (simp add: head_hash_snoc chain_ok_append entry_ok_def)
    then have "sha_collision cr genesis_text (entry_text f)" using entry_text_not_genesis
      by (simp add: entryHash_def genesisHash_def sha_collision_def flip: genesis_text_def) metis
    then show ?thesis using snoc unfolding log_collision_def by auto
  qed simp
next
  case (snoc e es)
  show ?case
  proof (cases fs rule: rev_cases)
    case Nil
    then have "entryHash cr e = genesisHash cr"
      using snoc.prems by (simp add: head_hash_snoc chain_ok_append entry_ok_def)
    then have "sha_collision cr (entry_text e) genesis_text" using entry_text_not_genesis
      by (simp add: entryHash_def genesisHash_def sha_collision_def flip: genesis_text_def)
    then show ?thesis unfolding log_collision_def by auto
  next
    case (snoc fs' f)
    note fs = this
    have ok: "chain_ok cr pk (genesisHash cr) es" "chain_ok cr pk' (genesisHash cr) fs'"
      "e_prev e = head_hash (genesisHash cr) es" "e_prev f = head_hash (genesisHash cr) fs'"
      "entryHash cr e = entryHash cr f"
      using snoc.prems fs by (auto simp: chain_ok_append entry_ok_def head_hash_snoc)
    show ?thesis
    proof (cases "entry_text e = entry_text f")
      case True
      then have "sanitize (e_prev e) = sanitize (e_prev f)" using entry_text_eq [OF True] by simp
      then have "head_hash (genesisHash cr) es = head_hash (genesisHash cr) fs'"
        unfolding ok(3,4) head_hash_hex [OF ok(1)] head_hash_hex [OF ok(2)] by -
      with snoc.IH [OF ok(1,2)] True show ?thesis
        unfolding fs by (auto intro: log_collision_mono)
    next
      case False
      then have "sha_collision cr (entry_text e) (entry_text f)" using ok(5) by (simp add: sha_collision_def entryHash_def)
      then show ?thesis unfolding fs log_collision_def by auto
    qed
  qed
qed

text \<open>An entry as a reader of its JSON sees it, without the signature: invalid UTF-8 bytes are read as
  the replacement character, which is also how they are hashed.\<close>

definition as_read :: "entry \<Rightarrow> entry" where
  "as_read e = e\<lparr>e_service := sanitize (e_service e), e_actor := sanitize (e_actor e),
     e_action := sanitize (e_action e), e_result := sanitize (e_result e),
     e_resource := sanitize (e_resource e), e_sig := []\<rparr>"

definition utf8_entry :: "entry \<Rightarrow> bool" where
  "utf8_entry e \<longleftrightarrow> valid_utf8 (e_service e) \<and> valid_utf8 (e_actor e) \<and> valid_utf8 (e_action e) \<and>
     valid_utf8 (e_result e) \<and> valid_utf8 (e_resource e)"

definition without_sig :: "entry \<Rightarrow> entry" where
  "without_sig e = e\<lparr>e_sig := []\<rparr>"

lemma as_read_utf8: "utf8_entry e \<Longrightarrow> as_read e = without_sig e"
  by (cases e) (simp add: utf8_entry_def as_read_def without_sig_def valid_utf8_def)

lemma map_as_read_utf8: "list_all utf8_entry es \<Longrightarrow> map as_read es = map without_sig es"
  by (induction es) (simp_all add: as_read_utf8)

lemma as_read_eqI:
  "same_content e f \<Longrightarrow> e_prev e = e_prev f \<Longrightarrow> e_hash e = e_hash f \<Longrightarrow> as_read e = as_read f"
  by (cases e; cases f) (simp add: as_read_def same_content_def)

text \<open>Equal hashed texts on chains from the same start give equal link and hash fields too.\<close>

lemma chain_as_read:
  assumes "chain_ok cr pk prev es" "chain_ok cr pk' prev fs" "map entry_text es = map entry_text fs"
  shows "map as_read es = map as_read fs"
  using assms
proof (induction es arbitrary: prev fs)
  case (Cons e es)
  then obtain f fs' where fs: "fs = f # fs'" by (cases fs) auto
  then have texts: "entry_text e = entry_text f" and links: "e_prev e = e_prev f" and
    hash: "entryHash cr e = e_hash e" "entryHash cr f = e_hash f"
    using Cons.prems by (simp_all add: entry_ok_def)
  have "e_hash e = e_hash f" using texts by (simp add: entryHash_def flip: hash)
  moreover have "map as_read es = map as_read fs'"
    by (rule Cons.IH [of "e_hash e" fs']) (use Cons.prems fs calculation in simp_all)
  ultimately show ?case using fs links entry_text_eq [OF texts] by (simp add: as_read_eqI)
qed simp

text \<open>C9. The hash of the last entry fixes the whole log as a reader of its JSON sees it: if two logs
  verify (each under the public key of its own logger) and end in the same hash, then they have the
  same number of entries, and entry by entry the same sequence number, timestamp, previous hash and
  hash, and the same service, actor, action, result and resource after every invalid UTF-8 byte has
  been replaced; so when all of these texts are valid UTF-8 the logs are equal but for the signatures.
  Otherwise two different hashed texts with the same SHA-256 value can be read off the two logs. The
  signatures are not hashed, and invalid bytes are hashed as their replacement: the next theorem shows
  that such bytes can be changed unnoticed.\<close>

theorem audit_head_commits:
  assumes "ir_valid (VerifyChain cr l1)" "ir_valid (VerifyChain cr l2)"
    and "head_hash (genesisHash cr) (lg_entries l1) = head_hash (genesisHash cr) (lg_entries l2)"
  shows "log_collision cr (lg_entries l1) (lg_entries l2) \<or>
    map as_read (lg_entries l1) = map as_read (lg_entries l2) \<and>
    (list_all utf8_entry (lg_entries l1) \<and> list_all utf8_entry (lg_entries l2) \<longrightarrow>
      map without_sig (lg_entries l1) = map without_sig (lg_entries l2))"
proof -
  note ok = assms(1,2) [unfolded VerifyChain_valid_iff]
  have "map entry_text (lg_entries l1) = map entry_text (lg_entries l2) \<or>
      log_collision cr (lg_entries l1) (lg_entries l2)" by (rule head_commits [OF ok assms(3)])
  then show ?thesis using chain_as_read [OF ok] map_as_read_utf8 by metis
qed

text \<open>The hashed text does not cover every byte: \<open>json.Marshal\<close> writes every invalid UTF-8 byte
  as the same escape, so replacing a field by another one with the same JSON text (a different
  invalid byte, say) leaves every check of a verifying log valid, although the entry was modified.\<close>

theorem audit_tamper_invalid_utf8:
  assumes "ir_valid (VerifyChain cr l)" and "i < length (lg_entries l)"
    and "esc newActor = esc (e_actor (lg_entries l ! i))"
    and "TamperEntry l (int i) newActor = Ok l'"
  shows "ir_valid (VerifyChain cr l') \<and> e_actor (lg_entries l' ! i) = newActor"
proof -
  let ?e = "lg_entries l ! i"
  have "json_enc (canonical (?e\<lparr>e_actor := newActor\<rparr>)) = json_enc (canonical ?e)"
    using assms(3) by (simp add: canonical_def quote_def)
  then have ok: "entry_ok cr pk prev (?e\<lparr>e_actor := newActor\<rparr>) = entry_ok cr pk prev ?e" for pk prev
    by (simp add: entry_ok_def entryHash_def entry_text_def)
  have l': "l' = l\<lparr>lg_entries := (lg_entries l)[i := ?e\<lparr>e_actor := newActor\<rparr>]\<rparr>"
    using assms(2,4) by (simp add: TamperEntry_def)
  have split: "lg_entries l = take i (lg_entries l) @ ?e # drop (Suc i) (lg_entries l)"
    using assms(2) by (simp add: id_take_nth_drop)
  have "chain_ok cr (lg_pk l) (genesisHash cr) (take i (lg_entries l) @ ?e\<lparr>e_actor := newActor\<rparr> # drop (Suc i) (lg_entries l))"
    using assms(1) unfolding VerifyChain_valid_iff by (subst (asm) split) (simp add: chain_ok_append ok)
  then have "ir_valid (VerifyChain cr l')"
    using l' assms(2) by (simp add: VerifyChain_valid_iff upd_conv_take_nth_drop)
  moreover have "e_actor (lg_entries l' ! i) = newActor" using l' assms(2) by simp
  ultimately show ?thesis ..
qed

section \<open>Concrete runs\<close>

definition demo_op :: "string \<Rightarrow> log_op" where
  "demo_op actor = \<lparr>lo_actor = actor, lo_action = ''sign'', lo_result = ''ok'', lo_resource = [], lo_now = 5\<rparr>"

lemma demo_logger:
  obtains l where "NewLogger toy_crypto ''svc'' (replicate 32 k) = Ok (l, [])" "logger_inv toy_crypto l"
    "lg_entries l = []" "lg_service l = ''svc''" "lg_prev l = genesisHash toy_crypto"
proof -
  have "is_ok (NewLogger toy_crypto ''svc'' (replicate 32 k))"
    by (simp add: NewLogger_def dsa_GenerateKey_def dsa_schemeFor_def rand_read_def split: prod.splits)
  then obtain l e where run: "NewLogger toy_crypto ''svc'' (replicate 32 k) = Ok (l, e)"
    by (auto simp: is_ok_iff)
  then have "e = []" "lg_service l = ''svc''" "lg_prev l = genesisHash toy_crypto"
    by (auto simp: NewLogger_def dsa_GenerateKey_def dsa_schemeFor_def rand_read_def split: prod.splits)
  with run NewLogger_inv [OF toy_dsa_correct run] that show thesis by blast
qed

lemma demo_entry:
  assumes "logger_inv toy_crypto l" "lg_entries l = []" "lg_service l = ''svc''" "lg_prev l = genesisHash toy_crypto"
  obtains e where "lg_entries (log_step toy_crypto (demo_op actor) l) = [e]" "e_actor e = actor"
    "e_prev e = genesisHash toy_crypto" "entryHash toy_crypto e = e_hash e"
    "canonical e = JObj [(''seq'', JInt 0), (''ts'', JInt 5), (''service'', JStr ''svc''), (''actor'', JStr actor),
       (''action'', JStr ''sign''), (''result'', JStr ''ok''), (''prev_hash'', JStr (genesisHash toy_crypto))]"
proof -
  obtain e where e: "log_step toy_crypto (demo_op actor) l = l\<lparr>lg_entries := lg_entries l @ [e], lg_prev := e_hash e\<rparr>"
    "entry_ok toy_crypto (lg_pk l) (lg_prev l) e" and
    c: "canonical e = JObj [(''seq'', JInt 0), (''ts'', JInt 5), (''service'', JStr ''svc''), (''actor'', JStr actor),
       (''action'', JStr ''sign''), (''result'', JStr ''ok''), (''prev_hash'', JStr (genesisHash toy_crypto))]"
    and a: "e_actor e = actor"
  proof -
    obtain e where e: "log_step toy_crypto (demo_op actor) l = l\<lparr>lg_entries := lg_entries l @ [e], lg_prev := e_hash e\<rparr>"
      "entry_ok toy_crypto (lg_pk l) (lg_prev l) e" by (rule log_step_Ok [OF assms(1)])
    have "lg_entries (log_step toy_crypto (demo_op actor) l) = [e]" using e assms(2) by simp
    then have "canonical e = JObj [(''seq'', JInt 0), (''ts'', JInt 5), (''service'', JStr ''svc''), (''actor'', JStr actor),
       (''action'', JStr ''sign''), (''result'', JStr ''ok''), (''prev_hash'', JStr (genesisHash toy_crypto))]"
      "e_actor e = actor"
      using assms by (auto simp: log_step_def audit_Log_def Let_def demo_op_def canonical_def dsa_Sign_def split: result.splits)
    with e that show thesis by blast
  qed
  show thesis by (rule that [of e]) (use e c a assms in \<open>simp_all add: entry_ok_def\<close>)
qed

theorem audit_chain_valid_witness:
  "case NewLogger toy_crypto ''svc'' (replicate 32 0) of
     Ok (l0, e) \<Rightarrow> ir_valid (VerifyChain toy_crypto (fold (log_step toy_crypto) [demo_op ''alice'', demo_op ''bob''] l0))
   | _ \<Rightarrow> False"
proof -
  obtain l where l: "NewLogger toy_crypto ''svc'' (replicate 32 0) = Ok (l, [])" by (rule demo_logger)
  show ?thesis unfolding l result.case prod.case
    using audit_chain_valid [OF toy_dsa_correct l refl] by blast
qed

text \<open>Two loggers with different keys log one operation each, whose actors are different invalid bytes:
  the logs differ, end in the same hash, and read the same.\<close>

theorem audit_head_commits_witness:
  "case (NewLogger toy_crypto ''svc'' (replicate 32 0), NewLogger toy_crypto ''svc'' (replicate 32 1)) of
     (Ok (k1, _), Ok (k2, _)) \<Rightarrow>
       (let es = lg_entries (log_step toy_crypto (demo_op [char_of (0xFF :: nat)]) k1);
            fs = lg_entries (log_step toy_crypto (demo_op [char_of (0xFE :: nat)]) k2)
        in es \<noteq> fs \<and> map as_read es = map as_read fs)
   | _ \<Rightarrow> False"
proof -
  let ?a = "[char_of (0xFF :: nat)]" and ?b = "[char_of (0xFE :: nat)]"
  obtain k1 where k1: "NewLogger toy_crypto ''svc'' (replicate 32 0) = Ok (k1, [])" "logger_inv toy_crypto k1"
    "lg_entries k1 = []" "lg_service k1 = ''svc''" "lg_prev k1 = genesisHash toy_crypto" by (rule demo_logger)
  obtain k2 where k2: "NewLogger toy_crypto ''svc'' (replicate 32 1) = Ok (k2, [])" "logger_inv toy_crypto k2"
    "lg_entries k2 = []" "lg_service k2 = ''svc''" "lg_prev k2 = genesisHash toy_crypto" by (rule demo_logger)
  let ?l1 = "log_step toy_crypto (demo_op ?a) k1" and ?l2 = "log_step toy_crypto (demo_op ?b) k2"
  obtain e where e: "lg_entries ?l1 = [e]" "e_actor e = ?a" "entryHash toy_crypto e = e_hash e"
    "canonical e = JObj [(''seq'', JInt 0), (''ts'', JInt 5), (''service'', JStr ''svc''), (''actor'', JStr ?a),
       (''action'', JStr ''sign''), (''result'', JStr ''ok''), (''prev_hash'', JStr (genesisHash toy_crypto))]"
    by (rule demo_entry [OF k1(2-)])
  obtain f where f: "lg_entries ?l2 = [f]" "e_actor f = ?b" "entryHash toy_crypto f = e_hash f"
    "canonical f = JObj [(''seq'', JInt 0), (''ts'', JInt 5), (''service'', JStr ''svc''), (''actor'', JStr ?b),
       (''action'', JStr ''sign''), (''result'', JStr ''ok''), (''prev_hash'', JStr (genesisHash toy_crypto))]"
    by (rule demo_entry [OF k2(2-)])
  have len: "utf8_len ?a = 0" "utf8_len ?b = 0" by (simp_all add: utf8_len_Cons rune_tail_def)
  then have "esc ?a = esc ?b"
    by (simp add: esc.simps [of ?a] esc.simps [of ?b] esc_rune_def rune_width_def)
  then have same: "entry_text e = entry_text f" by (simp add: entry_text_def e(4) f(4) quote_def)
  then have hash: "e_hash e = e_hash f" by (simp add: entryHash_def flip: e(3) f(3))
  have "sha256 toy_crypto (entry_text f) \<noteq> sha256 toy_crypto genesis_text"
    by (simp add: entry_text_def f(4) str_bytes_def genesis_text_def toy_crypto_def toy_fit_def)
  then have "\<not> log_collision toy_crypto [e] [f]"
    using same by (auto simp: log_collision_def sha_collision_def)
  moreover have "ir_valid (VerifyChain toy_crypto ?l1)" "ir_valid (VerifyChain toy_crypto ?l2)"
    using log_step_inv [OF k1(2)] log_step_inv [OF k2(2)] by (simp_all add: VerifyChain_valid_iff logger_inv_def)
  ultimately have "map as_read [e] = map as_read [f]"
    using audit_head_commits [of toy_crypto ?l1 ?l2] hash unfolding e(1) f(1) by simp
  then show ?thesis using e(2) f(2) by (auto simp: k1(1) k2(1) e(1) f(1) Let_def)
qed

theorem audit_tamper_invalid_utf8_witness:
  "case NewLogger toy_crypto ''svc'' (replicate 32 0) of
     Ok (l0, e) \<Rightarrow>
       (case TamperEntry (log_step toy_crypto (demo_op [char_of (0xFF :: nat)]) l0) 0 [char_of (0xFE :: nat)] of
          Ok l' \<Rightarrow> ir_valid (VerifyChain toy_crypto l') \<and> e_actor (lg_entries l' ! 0) = [char_of (0xFE :: nat)]
        | _ \<Rightarrow> False)
   | _ \<Rightarrow> False"
proof -
  obtain l where l: "NewLogger toy_crypto ''svc'' (replicate 32 0) = Ok (l, [])" "logger_inv toy_crypto l"
    "lg_entries l = []" by (rule demo_logger)
  let ?x = "demo_op [char_of (0xFF :: nat)]" and ?new = "[char_of (0xFE :: nat)]"
  let ?l = "log_step toy_crypto ?x l"
  have valid: "ir_valid (VerifyChain toy_crypto ?l)"
    using log_step_inv [OF l(2)] by (simp add: VerifyChain_valid_iff logger_inv_def)
  obtain e where "?l = l\<lparr>lg_entries := lg_entries l @ [e], lg_prev := e_hash e\<rparr>" "e_actor e = lo_actor ?x"
    using log_step_Ok [OF l(2)] by metis
  then have one: "length (lg_entries ?l) = 1" "e_actor (lg_entries ?l ! 0) = [char_of (0xFF :: nat)]"
    using l(3) by (simp_all add: demo_op_def)
  have len: "utf8_len [char_of (0xFF :: nat)] = 0" "utf8_len ?new = 0"
    by (simp_all add: utf8_len_Cons rune_tail_def)
  have esc: "esc ?new = esc [char_of (0xFF :: nat)]"
    using len by (simp add: esc.simps [of ?new] esc.simps [of "[char_of (0xFF :: nat)]"] esc_rune_def rune_width_def)
  obtain l' where t: "TamperEntry ?l 0 ?new = Ok l'" using one(1) by (simp add: TamperEntry_def)
  have "ir_valid (VerifyChain toy_crypto l') \<and> e_actor (lg_entries l' ! 0) = ?new"
    by (rule audit_tamper_invalid_utf8 [OF valid]) (use one t esc in simp_all)
  then show ?thesis using t by (simp add: l(1))
qed

end
