(* ===== verification/Storage.thy ===== *)
theory Storage
  imports Prelude
begin

text \<open>
  What several components share: the files of package \<open>os\<close> with the write-to-temp-then-rename scheme
  they all use for persistence, and the interface of a revocation list (tokens in \<open>internal/auth\<close>,
  certificates in \<open>internal/ca\<close>).
\<close>

section \<open>Files\<close>

type_synonym files = "(string, string) gomap"

text \<open>What the disk does on the next replacement of a file: it succeeds, writing the temporary file
  fails after a part of the data, or the rename fails.\<close>

datatype disk = DiskOk | WriteFails string | RenameFails

definition tmp_path :: "string \<Rightarrow> string" where
  "tmp_path path = path @ ''.tmp''"

text \<open>\<open>cleanup\<close> says whether the code removes the temporary file when the rename fails.\<close>

definition replace_file :: "bool \<Rightarrow> disk \<Rightarrow> string \<Rightarrow> string \<Rightarrow> files \<Rightarrow> bool \<times> files" where
  "replace_file cleanup d path content fs =
     (case d of
        WriteFails part \<Rightarrow> (False, gm_put (tmp_path path) part fs)
      | RenameFails \<Rightarrow>
          (False, if cleanup then gm_del (tmp_path path) (gm_put (tmp_path path) content fs)
                  else gm_put (tmp_path path) content fs)
      | DiskOk \<Rightarrow>
          (True, gm_put path content (gm_del (tmp_path path) (gm_put (tmp_path path) content fs))))"

lemma tmp_path_neq [simp]: "tmp_path p \<noteq> p" "p \<noteq> tmp_path p"
  by (simp_all add: tmp_path_def)

lemma replace_file_atomic:
  "replace_file cleanup d path content fs = (ok, fs') \<Longrightarrow>
     gm_get fs' path = (if ok then Some content else gm_get fs path)"
  by (auto simp: replace_file_def split: disk.splits if_splits)

lemma replace_file_other:
  "replace_file cleanup d path content fs = (ok, fs') \<Longrightarrow> q \<noteq> path \<Longrightarrow> q \<noteq> tmp_path path \<Longrightarrow>
     gm_get fs' q = gm_get fs q"
  by (auto simp: replace_file_def split: disk.splits if_splits)

section \<open>Revocation lists\<close>

text \<open>The promise of a revocation list: a request names at most one key; after it exactly that key and
  what was revoked before is revoked. Clients rely on the consequence for any sequence of requests.\<close>

locale revocation =
  fixes revoke :: "'r \<Rightarrow> 's \<Rightarrow> 's"
    and revoked :: "'s \<Rightarrow> 'k \<Rightarrow> bool"
    and key_of :: "'r \<Rightarrow> 'k option"
  assumes revoked_revoke: "revoked (revoke r s) j \<longleftrightarrow> key_of r = Some j \<or> revoked s j"
begin

lemma revoked_fold: "revoked (fold revoke rs s) j \<longleftrightarrow> revoked s j \<or> Some j \<in> key_of ` set rs"
  by (induction rs arbitrary: s) (auto simp: revoked_revoke)

lemma revocation_permanent: "revoked s j \<Longrightarrow> revoked (fold revoke rs s) j"
  by (simp add: revoked_fold)

end

end
