(* ===== verification/Auth.thy ===== *)
theory Auth
  imports Crypto Json Storage
begin

text \<open>
  \<open>internal/auth/auth.go\<close>: signed tokens with a persistent revocation list. The state is the record
  \<open>authority\<close> (the struct \<open>Authority\<close> without its locks and the pruner's channel); the background
  goroutine is the operation \<open>pruneExpired\<close> run at an arbitrary time.
\<close>

record token_header =
  h_typ :: string
  h_alg :: string
  h_ver :: string

record claims =
  c_sub :: string
  c_iss :: string
  c_iat :: int
  c_exp :: int
  c_roles :: "string list"
  c_jti :: string
  c_extra :: "(string \<times> jval) list"

record token =
  t_header :: token_header
  t_claims :: claims

record revokedEntry =
  re_jti :: string
  re_exp :: int

record authority =
  au_issuer :: string
  au_ttl :: duration
  au_level :: int
  au_pk :: dsa_public
  au_sk :: dsa_private
  au_revoked :: "(string, int) gomap"
  au_path :: string

datatype auth_error =
    AuthFailed | EmptySubject | NoRoles | JtiRandom | AuthSign dsa_error | AuthKeygen dsa_error
  | RevocationParse

definition tokenVersion :: string where "tokenVersion = ''QST-1''"
definition defaultTTL :: duration where "defaultTTL = 3600 * Second"

definition algName :: "int \<Rightarrow> string" where
  "algName level =
     (if level = 44 then ''ML-DSA-44'' else if level = 65 then ''ML-DSA-65''
      else if level = 87 then ''ML-DSA-87'' else ''ML-DSA-65'')"

definition NewAuthority ::
    "crypto \<Rightarrow> string \<Rightarrow> duration \<Rightarrow> int \<Rightarrow> entropy \<Rightarrow> (auth_error, authority \<times> entropy) result" where
  "NewAuthority cr issuer ttl level e =
     (case dsa_GenerateKey cr level e of
        Ok (pk, sk, e') \<Rightarrow>
          Ok (\<lparr>au_issuer = issuer, au_ttl = (if ttl = 0 then defaultTTL else ttl), au_level = level,
               au_pk = pk, au_sk = sk, au_revoked = [], au_path = []\<rparr>, e')
      | Err er \<Rightarrow> Err (AuthKeygen er)
      | Panic \<Rightarrow> Panic)"

section \<open>JSON of header and claims\<close>

definition enc_header :: "token_header \<Rightarrow> jval" where
  "enc_header h = JObj [(''typ'', JStr (h_typ h)), (''alg'', JStr (h_alg h)), (''ver'', JStr (h_ver h))]"

definition enc_claims :: "claims \<Rightarrow> jval" where
  "enc_claims c = JObj
     ([(''sub'', JStr (c_sub c)), (''iss'', JStr (c_iss c)), (''iat'', JInt (c_iat c)),
       (''exp'', JInt (c_exp c)), (''roles'', JArr (map JStr (c_roles c))), (''jti'', JStr (c_jti c))]
      @ (if c_extra c = [] then [] else [(''extra'', JObj (sort_key fst (c_extra c)))]))"

definition dec_header :: "string \<Rightarrow> token_header option" where
  "dec_header s =
     (case Option.bind (json_Unmarshal s) as_obj of
        None \<Rightarrow> None
      | Some kvs \<Rightarrow>
          (case (str_field ''typ'' kvs, str_field ''alg'' kvs, str_field ''ver'' kvs) of
             (Some t, Some a, Some v) \<Rightarrow> Some \<lparr>h_typ = t, h_alg = a, h_ver = v\<rparr>
           | _ \<Rightarrow> None))"

text \<open>A map field merges the members it is given into one map.\<close>

definition merge_members :: "(string \<times> jval) list \<Rightarrow> (string \<times> jval) list" where
  "merge_members kvs = fold (\<lambda>(k, v) m. gm_put k v m) kvs []"

definition dec_claims :: "string \<Rightarrow> claims option" where
  "dec_claims s =
     (case Option.bind (json_Unmarshal s) as_obj of
        None \<Rightarrow> None
      | Some kvs \<Rightarrow>
          (case (str_field ''sub'' kvs, str_field ''iss'' kvs, int_field ''iat'' kvs, int_field ''exp'' kvs,
                 strs_field ''roles'' kvs, str_field ''jti'' kvs, those (map as_obj (field_vals ''extra'' kvs))) of
             (Some sub, Some iss, Some iat, Some ex, Some roles, Some jti, Some extra) \<Rightarrow>
               Some \<lparr>c_sub = sub, c_iss = iss, c_iat = iat, c_exp = ex, c_roles = roles, c_jti = jti,
                     c_extra = merge_members (concat extra)\<rparr>
           | _ \<Rightarrow> None))"

section \<open>Tokens\<close>

definition token_text :: "string \<Rightarrow> bytes \<Rightarrow> string" where
  "token_text signingInput sig = signingInput @ ''.'' @ b64url sig"

definition json_b64 :: "jval \<Rightarrow> string" where
  "json_b64 v = b64url (str_bytes (json_enc v))"

definition issue_header :: "authority \<Rightarrow> token_header" where
  "issue_header a = \<lparr>h_typ = ''QST'', h_alg = algName (au_level a), h_ver = tokenVersion\<rparr>"

definition issue_claims ::
    "authority \<Rightarrow> string \<Rightarrow> string list \<Rightarrow> (string \<times> jval) list \<Rightarrow> gotime \<Rightarrow> bytes \<Rightarrow> claims" where
  "issue_claims a subject roles extra now jtiRaw =
     \<lparr>c_sub = subject, c_iss = au_issuer a, c_iat = time_Unix now, c_exp = time_Unix (now + au_ttl a),
      c_roles = roles, c_jti = b64url jtiRaw, c_extra = extra\<rparr>"

definition signing_input :: "token_header \<Rightarrow> claims \<Rightarrow> string" where
  "signing_input h c = json_b64 (enc_header h) @ ''.'' @ json_b64 (enc_claims c)"

definition auth_Issue ::
    "crypto \<Rightarrow> authority \<Rightarrow> string \<Rightarrow> string list \<Rightarrow> (string \<times> jval) list \<Rightarrow> gotime \<Rightarrow> entropy
      \<Rightarrow> (auth_error, string \<times> entropy) result" where
  "auth_Issue cr a subject roles extra now e =
     (if subject = [] then Err EmptySubject
      else if length roles = 0 then Err NoRoles
      else case rand_read 16 e of
        None \<Rightarrow> Err JtiRandom
      | Some (jtiRaw, e') \<Rightarrow>
          (let signingInput = signing_input (issue_header a) (issue_claims a subject roles extra now jtiRaw)
           in case dsa_Sign cr (Some (au_sk a)) (str_bytes signingInput) of
             Ok sig \<Rightarrow> Ok (token_text signingInput sig, e')
           | Err er \<Rightarrow> Err (AuthSign er)
           | Panic \<Rightarrow> Panic))"

definition auth_Verify :: "crypto \<Rightarrow> authority \<Rightarrow> string \<Rightarrow> gotime \<Rightarrow> (auth_error, token) result" where
  "auth_Verify cr a tokenStr now =
     (case split_on CHR ''.'' tokenStr of
        [hdrB64, payB64, sigB64] \<Rightarrow>
          (case Option.bind (b64url_dec hdrB64) (\<lambda>b. dec_header (bytes_str b)) of
             None \<Rightarrow> Err AuthFailed
           | Some hdr \<Rightarrow>
               (if h_typ hdr \<noteq> ''QST'' \<or> h_ver hdr \<noteq> tokenVersion then Err AuthFailed
                else case Option.bind (b64url_dec payB64) (\<lambda>b. dec_claims (bytes_str b)) of
                  None \<Rightarrow> Err AuthFailed
                | Some cl \<Rightarrow>
                    (case b64url_dec sigB64 of
                       None \<Rightarrow> Err AuthFailed
                     | Some sig \<Rightarrow>
                         (if \<not> dsa_Verify cr (Some (au_pk a)) (str_bytes (hdrB64 @ ''.'' @ payB64)) sig
                          then Err AuthFailed
                          else if time_Unix now > c_exp cl then Err AuthFailed
                          else if c_jti cl = [] then Err AuthFailed
                          else if gm_get (au_revoked a) (c_jti cl) \<noteq> None then Err AuthFailed
                          else Ok \<lparr>t_header = hdr, t_claims = cl\<rparr>))))
      | _ \<Rightarrow> Err AuthFailed)"

text \<open>\<open>extractJTIAndExp\<close> reads the payload without verifying anything; it fails to the empty id.\<close>

definition extractJTIAndExp :: "string \<Rightarrow> string \<times> int" where
  "extractJTIAndExp tokenStr =
     (case splitn_on 3 CHR ''.'' tokenStr of
        [p0, p1, p2] \<Rightarrow>
          (case b64url_dec p1 of
             None \<Rightarrow> ([], 0)
           | Some payJSON \<Rightarrow>
               (case Option.bind (json_Unmarshal (bytes_str payJSON)) as_obj of
                  None \<Rightarrow> ([], 0)
                | Some kvs \<Rightarrow>
                    (case (str_field ''jti'' kvs, int_field ''exp'' kvs) of
                       (Some jti, Some ex) \<Rightarrow> (jti, ex)
                     | _ \<Rightarrow> ([], 0))))
      | _ \<Rightarrow> ([], 0))"

section \<open>The revocation list and its file\<close>

definition enc_entries :: "revokedEntry list \<Rightarrow> jval" where
  "enc_entries es = JArr (map (\<lambda>e. JObj [(''jti'', JStr (re_jti e)), (''exp'', JInt (re_exp e))]) es)"

definition dec_entry :: "jval \<Rightarrow> revokedEntry option" where
  "dec_entry v =
     (case as_obj v of
        None \<Rightarrow> None
      | Some kvs \<Rightarrow>
          (case (str_field ''jti'' kvs, int_field ''exp'' kvs) of
             (Some j, Some ex) \<Rightarrow> Some \<lparr>re_jti = j, re_exp = ex\<rparr>
           | _ \<Rightarrow> None))"

definition dec_entries :: "string \<Rightarrow> revokedEntry list option" where
  "dec_entries s =
     (case json_Unmarshal s of
        Some (JArr vs) \<Rightarrow> those (map dec_entry vs)
      | Some JNull \<Rightarrow> Some []
      | _ \<Rightarrow> None)"

definition snapshotLocked :: "authority \<Rightarrow> revokedEntry list" where
  "snapshotLocked a = map (\<lambda>(j, x). \<lparr>re_jti = j, re_exp = x\<rparr>) (au_revoked a)"

definition persistRevocation :: "disk \<Rightarrow> string \<Rightarrow> revokedEntry list \<Rightarrow> files \<Rightarrow> files" where
  "persistRevocation d path es fs = snd (replace_file True d path (json_enc (enc_entries es)) fs)"

definition persist_if_configured :: "disk \<Rightarrow> authority \<Rightarrow> files \<Rightarrow> files" where
  "persist_if_configured d a fs =
     (if au_path a \<noteq> [] then persistRevocation d (au_path a) (snapshotLocked a) fs else fs)"

definition revoke_jti :: "string \<Rightarrow> int \<Rightarrow> authority \<Rightarrow> authority" where
  "revoke_jti j x a = a\<lparr>au_revoked := gm_put j x (au_revoked a)\<rparr>"

definition auth_Revoke :: "disk \<Rightarrow> string \<Rightarrow> authority \<times> files \<Rightarrow> authority \<times> files" where
  "auth_Revoke d tokenStr s =
     (case s of (a, fs) \<Rightarrow>
        (case extractJTIAndExp tokenStr of (jti, ex) \<Rightarrow>
           (if jti = [] then (a, fs)
            else let a' = revoke_jti jti ex a in (a', persist_if_configured d a' fs))))"

definition auth_IsRevoked :: "authority \<Rightarrow> string \<Rightarrow> bool" where
  "auth_IsRevoked a tokenStr =
     (case extractJTIAndExp tokenStr of (jti, ex) \<Rightarrow>
        if jti = [] then False else gm_get (au_revoked a) jti \<noteq> None)"

definition loadRevocation :: "string \<Rightarrow> gotime \<Rightarrow> files \<Rightarrow> authority \<Rightarrow> (auth_error, authority) result" where
  "loadRevocation path now fs a =
     (case gm_get fs path of
        None \<Rightarrow> Ok a
      | Some content \<Rightarrow>
          (case dec_entries content of
             None \<Rightarrow> Err RevocationParse
           | Some es \<Rightarrow>
               Ok (fold (\<lambda>e a. if re_exp e > 0 \<and> re_exp e < time_Unix now then a
                              else revoke_jti (re_jti e) (re_exp e) a) es a)))"

definition SetRevocationFile :: "string \<Rightarrow> gotime \<Rightarrow> files \<Rightarrow> authority \<Rightarrow> (auth_error, authority) result" where
  "SetRevocationFile path now fs a =
     (case loadRevocation path now fs a of
        Ok a' \<Rightarrow> Ok (a'\<lparr>au_path := path\<rparr>)
      | Err er \<Rightarrow> Err er
      | Panic \<Rightarrow> Panic)"

definition auth_pruneExpired :: "disk \<Rightarrow> gotime \<Rightarrow> authority \<times> files \<Rightarrow> authority \<times> files" where
  "auth_pruneExpired d now s =
     (case s of (a, fs) \<Rightarrow>
        (let a' = a\<lparr>au_revoked := gm_filter (\<lambda>j x. \<not> (x > 0 \<and> x < time_Unix now)) (au_revoked a)\<rparr>
         in (a', persist_if_configured d a' fs)))"

section \<open>Decoding what was encoded\<close>

lemma sanitize_names [simp]:
  "sanitize ''typ'' = ''typ''" "sanitize ''alg'' = ''alg''" "sanitize ''ver'' = ''ver''"
  "sanitize ''sub'' = ''sub''" "sanitize ''iss'' = ''iss''" "sanitize ''iat'' = ''iat''"
  "sanitize ''exp'' = ''exp''" "sanitize ''roles'' = ''roles''" "sanitize ''jti'' = ''jti''"
  "sanitize ''extra'' = ''extra''"
  by (simp_all add: sanitize_ascii code_def)

lemma dec_header_enc:
  "dec_header (json_enc (enc_header h)) =
     Some \<lparr>h_typ = sanitize (h_typ h), h_alg = sanitize (h_alg h), h_ver = sanitize (h_ver h)\<rparr>"
  unfolding dec_header_def enc_header_def by (subst json_object_back) (simp_all add: field_simps_go)

definition sane_members :: "(string \<times> jval) list \<Rightarrow> (string \<times> jval) list" where
  "sane_members kvs = map (\<lambda>(k, v). (sanitize k, json_sanitize v)) kvs"

definition sane_claims :: "claims \<Rightarrow> claims" where
  "sane_claims c = \<lparr>c_sub = sanitize (c_sub c), c_iss = sanitize (c_iss c), c_iat = c_iat c, c_exp = c_exp c,
     c_roles = map sanitize (c_roles c), c_jti = sanitize (c_jti c),
     c_extra = merge_members (sane_members (sort_key fst (c_extra c)))\<rparr>"

lemma as_strs_JStr: "as_strs (JArr (map JStr xs)) = Some xs"
  by (simp add: comp_def)

lemma map_sanitize_JStr: "map json_sanitize (map JStr xs) = map JStr (map sanitize xs)"
  by simp

lemma dec_claims_enc:
  assumes "int64_ok (c_iat c)" "int64_ok (c_exp c)" "\<forall>kv \<in> set (c_extra c). json_wf (snd kv)"
  shows "dec_claims (json_enc (enc_claims c)) = Some (sane_claims c)"
proof -
  let ?extra = "if c_extra c = [] then [] else [(''extra'', JObj (sort_key fst (c_extra c)))]"
  have "json_wf (enc_claims c)" using assms(3) by (auto simp: enc_claims_def)
  then have obj: "Option.bind (json_Unmarshal (json_enc (enc_claims c))) as_obj =
    Some ([(''sub'', JStr (sanitize (c_sub c))), (''iss'', JStr (sanitize (c_iss c))), (''iat'', JInt (c_iat c)),
       (''exp'', JInt (c_exp c)), (''roles'', JArr (map JStr (map sanitize (c_roles c)))),
       (''jti'', JStr (sanitize (c_jti c)))]
      @ (if c_extra c = [] then [] else [(''extra'', JObj (sane_members (sort_key fst (c_extra c))))]))"
    unfolding enc_claims_def by (subst json_object_back) (auto simp: sane_members_def)
  show ?thesis
    unfolding dec_claims_def obj using assms(1,2)
    by (simp add: field_simps_go as_strs_JStr sane_claims_def int64_ok_def comp_def
        sane_members_def merge_members_def)
qed

lemma json_b64_dec: "b64url_dec (json_b64 v) = Some (str_bytes (json_enc v))"
  by (simp add: json_b64_def)

lemma json_b64_no_dot [simp]: "CHR ''.'' \<notin> set (json_b64 v)"
  by (simp add: json_b64_def)

lemma split_token: "CHR ''.'' \<notin> set a \<Longrightarrow> CHR ''.'' \<notin> set b \<Longrightarrow> CHR ''.'' \<notin> set c \<Longrightarrow>
  split_on CHR ''.'' (a @ ''.'' @ b @ ''.'' @ c) = [a, b, c]"
  by (simp add: split_on_append split_on_no_sep)

lemma splitn_token: "CHR ''.'' \<notin> set a \<Longrightarrow> CHR ''.'' \<notin> set b \<Longrightarrow>
  splitn_on 3 CHR ''.'' (a @ ''.'' @ b @ ''.'' @ c) = [a, b, c]"
  by (simp add: numeral_3_eq_3 splitn_on_append)

section \<open>Issue\<close>

lemma auth_Issue_Ok:
  assumes "auth_Issue cr a subject roles extra now e = Ok (tok, e')"
  obtains jtiRaw sig where "subject \<noteq> []" "roles \<noteq> []"
    "rand_read 16 e = Some (jtiRaw, e')"
    "tok = signing_input (issue_header a) (issue_claims a subject roles extra now jtiRaw) @ ''.'' @ b64url sig"
    "dsa_Sign cr (Some (au_sk a))
       (str_bytes (signing_input (issue_header a) (issue_claims a subject roles extra now jtiRaw))) = Ok sig"
  using assms
  by (auto simp: auth_Issue_def token_text_def Let_def split: if_splits option.splits result.splits)

text \<open>What \<open>Verify\<close> and \<open>extractJTIAndExp\<close> see of an issued token.\<close>

definition issued :: "crypto \<Rightarrow> authority \<Rightarrow> string \<Rightarrow> claims \<Rightarrow> bool" where
  "issued cr a tok c \<longleftrightarrow>
     (\<exists>sig. tok = signing_input (issue_header a) c @ ''.'' @ b64url sig \<and>
       dsa_Verify cr (Some (au_pk a)) (str_bytes (signing_input (issue_header a) c)) sig) \<and>
     int64_ok (c_iat c) \<and> int64_ok (c_exp c) \<and> (\<forall>kv \<in> set (c_extra c). json_wf (snd kv)) \<and>
     c_jti c \<noteq> [] \<and> valid_utf8 (c_jti c)"

lemma issued_Issue:
  assumes "dsa_correct cr" "dsa_pair cr (au_pk a) (au_sk a)"
    and "auth_Issue cr a subject roles extra now e = Ok (tok, e')"
    and "int64_ok (time_Unix now)" "int64_ok (time_Unix (now + au_ttl a))" "\<forall>kv \<in> set extra. json_wf (snd kv)"
  obtains jtiRaw where "rand_read 16 e = Some (jtiRaw, e')"
    "issued cr a tok (issue_claims a subject roles extra now jtiRaw)"
proof -
  obtain jtiRaw sig where rnd: "rand_read 16 e = Some (jtiRaw, e')"
    and tok: "tok = signing_input (issue_header a) (issue_claims a subject roles extra now jtiRaw) @ ''.'' @ b64url sig"
    and sig: "dsa_Sign cr (Some (au_sk a))
       (str_bytes (signing_input (issue_header a) (issue_claims a subject roles extra now jtiRaw))) = Ok sig"
    using auth_Issue_Ok [OF assms(3)] by metis
  have "jtiRaw \<noteq> []" using rand_read_length [OF rnd] by auto
  then have "issued cr a tok (issue_claims a subject roles extra now jtiRaw)"
    unfolding issued_def using tok dsa_Sign_Verify(1) [OF assms(1,2) sig] assms(4-6)
    by (auto simp: issue_claims_def valid_ascii b64_encode_ascii)
  then show thesis by (rule that [OF rnd])
qed

lemma sane_jti: "valid_utf8 (c_jti c) \<Longrightarrow> c_jti (sane_claims c) = c_jti c"
  by (simp add: sane_claims_def valid_utf8_def)

lemma signing_input_split:
  "split_on CHR ''.'' (signing_input h c @ ''.'' @ b64url sig) =
     [json_b64 (enc_header h), json_b64 (enc_claims c), b64url sig]"
  "splitn_on 3 CHR ''.'' (signing_input h c @ ''.'' @ b64url sig) =
     [json_b64 (enc_header h), json_b64 (enc_claims c), b64url sig]"
  using split_token [of "json_b64 (enc_header h)" "json_b64 (enc_claims c)" "b64url sig"]
    splitn_token [of "json_b64 (enc_header h)" "json_b64 (enc_claims c)" "b64url sig"]
  by (simp_all add: signing_input_def)

lemma issue_header_back: "dec_header (json_enc (enc_header (issue_header a))) = Some (issue_header a)"
  by (simp add: dec_header_enc issue_header_def algName_def tokenVersion_def sanitize_ascii code_def)

lemma auth_Verify_issued:
  assumes "issued cr a tok c"
  shows "auth_Verify cr (a\<lparr>au_revoked := m, au_path := p\<rparr>) tok now =
    (if time_Unix now \<le> c_exp c \<and> gm_get m (c_jti c) = None
     then Ok \<lparr>t_header = issue_header a, t_claims = sane_claims c\<rparr> else Err AuthFailed)"
proof -
  obtain sig where tok: "tok = signing_input (issue_header a) c @ ''.'' @ b64url sig"
    and ver: "dsa_Verify cr (Some (au_pk a)) (str_bytes (signing_input (issue_header a) c)) sig"
    using assms unfolding issued_def by blast
  have cl: "dec_claims (json_enc (enc_claims c)) = Some (sane_claims c)"
    using assms by (simp add: dec_claims_enc issued_def)
  have same: "c_exp (sane_claims c) = c_exp c" "c_jti (sane_claims c) = c_jti c" "c_jti c \<noteq> []"
    using assms sane_jti [of c] by (auto simp: sane_claims_def issued_def)
  have names: "h_typ (issue_header a) = ''QST''" "h_ver (issue_header a) = tokenVersion"
    by (simp_all add: issue_header_def)
  show ?thesis
    unfolding auth_Verify_def tok signing_input_split using ver
    by (simp add: json_b64_dec issue_header_back cl same names signing_input_def)
qed

lemma extract_issued:
  assumes "issued cr a tok c"
  shows "extractJTIAndExp tok = (c_jti c, c_exp c)"
proof -
  obtain sig where tok: "tok = signing_input (issue_header a) c @ ''.'' @ b64url sig"
    using assms unfolding issued_def by blast
  have "dec_claims (json_enc (enc_claims c)) = Some (sane_claims c)"
    using assms by (simp add: dec_claims_enc issued_def)
  then obtain kvs where kvs: "Option.bind (json_Unmarshal (json_enc (enc_claims c))) as_obj = Some kvs"
    "str_field ''jti'' kvs = Some (c_jti (sane_claims c))" "int_field ''exp'' kvs = Some (c_exp (sane_claims c))"
    unfolding dec_claims_def
    by (auto split: option.splits) (metis claims.select_convs(4) claims.select_convs(6))
  moreover have "c_exp (sane_claims c) = c_exp c" "c_jti (sane_claims c) = c_jti c"
    using assms sane_jti [of c] by (auto simp: sane_claims_def issued_def)
  ultimately show ?thesis
    unfolding extractJTIAndExp_def tok signing_input_split by (simp add: json_b64_dec)
qed

section \<open>The revocation list\<close>

type_synonym auth_state = "authority \<times> files"

definition auth_revoked :: "auth_state \<Rightarrow> string \<Rightarrow> bool" where
  "auth_revoked s j \<longleftrightarrow> gm_get (au_revoked (fst s)) j \<noteq> None"

definition token_key :: "string \<Rightarrow> string option" where
  "token_key tok = (if fst (extractJTIAndExp tok) = [] then None else Some (fst (extractJTIAndExp tok)))"

definition revoke_request :: "disk \<times> string \<Rightarrow> auth_state \<Rightarrow> auth_state" where
  "revoke_request r s = auth_Revoke (fst r) (snd r) s"

interpretation tokens: revocation revoke_request auth_revoked "\<lambda>r. token_key (snd r)"
  by unfold_locales
    (auto simp: revoke_request_def auth_Revoke_def auth_revoked_def token_key_def revoke_jti_def Let_def
      split: prod.splits)

lemma auth_Verify_Ok:
  assumes "auth_Verify cr a tok now = Ok t"
  obtains hdrB64 payB64 sigB64 payJSON sig where
    "tok = hdrB64 @ ''.'' @ payB64 @ ''.'' @ sigB64" "split_on CHR ''.'' tok = [hdrB64, payB64, sigB64]"
    "b64url_dec payB64 = Some payJSON" "dec_claims (bytes_str payJSON) = Some (t_claims t)"
    "b64url_dec sigB64 = Some sig"
    "dsa_Verify cr (Some (au_pk a)) (str_bytes (hdrB64 @ ''.'' @ payB64)) sig"
    "time_Unix now \<le> c_exp (t_claims t)" "c_jti (t_claims t) \<noteq> []"
    "gm_get (au_revoked a) (c_jti (t_claims t)) = None"
    "h_typ (t_header t) = ''QST''" "h_ver (t_header t) = tokenVersion"
proof -
  obtain hb pb sb where sp: "split_on CHR ''.'' tok = [hb, pb, sb]"
    using assms by (auto simp: auth_Verify_def split: list.splits)
  obtain hdr where h: "h_typ hdr = ''QST''" "h_ver hdr = tokenVersion"
    "Option.bind (b64url_dec hb) (\<lambda>b. dec_header (bytes_str b)) = Some hdr"
    using assms by (auto simp: auth_Verify_def sp split: option.splits if_splits)
  obtain cl where c: "Option.bind (b64url_dec pb) (\<lambda>b. dec_claims (bytes_str b)) = Some cl"
    using assms h by (auto simp: auth_Verify_def sp split: option.splits)
  obtain sig where s: "b64url_dec sb = Some sig"
    using assms h c by (auto simp: auth_Verify_def sp split: option.splits)
  have rest: "dsa_Verify cr (Some (au_pk a)) (str_bytes (hb @ ''.'' @ pb)) sig" "time_Unix now \<le> c_exp cl"
    "c_jti cl \<noteq> []" "gm_get (au_revoked a) (c_jti cl) = None" "t = \<lparr>t_header = hdr, t_claims = cl\<rparr>"
    using assms h c s by (auto simp: auth_Verify_def sp split: if_splits)
  have "tok = hb @ ''.'' @ pb @ ''.'' @ sb" using join_split [of "CHR ''.''" tok] sp by simp
  moreover obtain payJSON where "b64url_dec pb = Some payJSON" "dec_claims (bytes_str payJSON) = Some cl"
    using c by (auto simp: bind_eq_Some_conv)
  ultimately show thesis using that sp s rest h by simp
qed

lemma split_parts_no_sep: "p \<in> set (split_on sep s) \<Longrightarrow> sep \<notin> set p"
  by (induction s arbitrary: p) (auto split: if_splits list.splits)

lemma splitn_of_split:
  assumes "split_on CHR ''.'' tok = [x, y, z]"
  shows "splitn_on 3 CHR ''.'' tok = [x, y, z]"
proof -
  have "CHR ''.'' \<notin> set x" "CHR ''.'' \<notin> set y"
    using split_parts_no_sep [of _ "CHR ''.''" tok] assms by auto
  moreover have "tok = x @ ''.'' @ y @ ''.'' @ z" using join_split [of "CHR ''.''" tok] assms by simp
  ultimately show ?thesis using splitn_token by simp
qed

text \<open>The claims of the payload and the unverified extraction agree on id and expiry.\<close>

lemma extract_payload:
  assumes "splitn_on 3 CHR ''.'' tok = [x, y, z]" "b64url_dec y = Some b" "dec_claims (bytes_str b) = Some c"
  shows "extractJTIAndExp tok = (c_jti c, c_exp c)"
proof -
  obtain kvs where "Option.bind (json_Unmarshal (bytes_str b)) as_obj = Some kvs"
    "str_field ''jti'' kvs = Some (c_jti c)" "int_field ''exp'' kvs = Some (c_exp c)"
    using assms(3) unfolding dec_claims_def by (auto split: option.splits)
  then show ?thesis unfolding extractJTIAndExp_def assms(1) by (simp add: assms(2))
qed

lemma auth_Verify_extract:
  assumes "auth_Verify cr a tok now = Ok t"
  shows "extractJTIAndExp tok = (c_jti (t_claims t), c_exp (t_claims t))"
proof -
  obtain hb pb sb payJSON where *: "split_on CHR ''.'' tok = [hb, pb, sb]"
    "b64url_dec pb = Some payJSON" "dec_claims (bytes_str payJSON) = Some (t_claims t)"
    using assms by (rule auth_Verify_Ok)
  show ?thesis by (rule extract_payload [OF splitn_of_split [OF *(1)] *(2,3)])
qed

section \<open>Revoking and pruning\<close>

datatype auth_op = OpRevoke disk string | OpPrune disk gotime

fun auth_step :: "auth_op \<Rightarrow> auth_state \<Rightarrow> auth_state" where
  "auth_step (OpRevoke d tok) s = auth_Revoke d tok s"
| "auth_step (OpPrune d now) s = auth_pruneExpired d now s"

lemma auth_step_keys:
  "au_pk (fst (auth_step x s)) = au_pk (fst s) \<and> au_level (fst (auth_step x s)) = au_level (fst s) \<and>
   (gm_ok (au_revoked (fst s)) \<longrightarrow> gm_ok (au_revoked (fst (auth_step x s))))"
  by (cases x; cases s) (auto simp: auth_Revoke_def auth_pruneExpired_def revoke_jti_def Let_def split: prod.splits)

lemma length_b64url: "length (b64url bs) = (4 * length bs + 2) div 3"
proof (induction "RawURLEncoding" bs rule: b64_encode.induct)
  case (4 x y z bs)
  then show ?case by (simp add: Let_def)
qed (simp_all add: Let_def pad_str_def)

lemma b64url_16: "length j = 16 \<Longrightarrow> length (b64url j) = 22"
  by (simp add: length_b64url)

lemma auth_step_frame: "\<exists>m. fst (auth_step x s) = (fst s)\<lparr>au_revoked := m\<rparr>"
proof (cases s)
  case (Pair a fs)
  have "\<exists>m. a = a\<lparr>au_revoked := m\<rparr>" by (rule exI [of _ "au_revoked a"]) simp
  then show ?thesis using Pair
    by (cases x) (auto simp: auth_Revoke_def auth_pruneExpired_def revoke_jti_def Let_def split: prod.splits)
qed

lemma auth_run_frame: "\<exists>m. fst (fold auth_step xs s) = (fst s)\<lparr>au_revoked := m\<rparr>"
proof (induction xs arbitrary: s)
  case Nil
  show ?case by (rule exI [of _ "au_revoked (fst s)"]) simp
next
  case (Cons x xs)
  obtain m where m: "fst (auth_step x s) = (fst s)\<lparr>au_revoked := m\<rparr>" using auth_step_frame by blast
  obtain m' where "fst (fold auth_step xs (auth_step x s)) = (fst (auth_step x s))\<lparr>au_revoked := m'\<rparr>"
    using Cons.IH by blast
  then show ?case using m by (intro exI [of _ m']) simp
qed

text \<open>The recorded expiry of an id is the genuine one, or the id has expired by \<open>t\<close> anyway.\<close>

definition held :: "string \<Rightarrow> int \<Rightarrow> gotime \<Rightarrow> auth_state \<Rightarrow> bool" where
  "held j ex t s \<longleftrightarrow> gm_ok (au_revoked (fst s)) \<and>
     (gm_get (au_revoked (fst s)) j = Some ex \<or> ex < time_Unix t)"

definition honest_op :: "string \<Rightarrow> int \<Rightarrow> gotime \<Rightarrow> auth_op \<Rightarrow> bool" where
  "honest_op j ex t x \<longleftrightarrow>
     (case x of
        OpRevoke d tok \<Rightarrow> fst (extractJTIAndExp tok) = j \<longrightarrow> snd (extractJTIAndExp tok) = ex
      | OpPrune d now \<Rightarrow> now \<le> t)"

lemma time_Unix_mono: "now \<le> t \<Longrightarrow> time_Unix now \<le> time_Unix t"
  by (simp add: time_Unix_def zdiv_mono1)

lemma held_step:
  assumes "held j ex t s" "honest_op j ex t x"
  shows "held j ex t (auth_step x s)"
proof (cases x)
  case (OpRevoke d tok)
  then show ?thesis using assms
    by (cases s) (auto simp: held_def honest_op_def auth_Revoke_def revoke_jti_def Let_def split: prod.splits)
next
  case (OpPrune d now)
  have "time_Unix now \<le> time_Unix t" using assms(2) OpPrune by (simp add: honest_op_def time_Unix_mono)
  then show ?thesis using assms OpPrune
    by (cases s) (auto simp: held_def auth_pruneExpired_def Let_def gm_get_filter)
qed

lemma held_revoke:
  assumes "gm_ok (au_revoked (fst s))" "extractJTIAndExp tok = (j, ex)" "j \<noteq> []"
  shows "held j ex t (auth_Revoke d tok s)"
  using assms by (cases s) (auto simp: held_def auth_Revoke_def revoke_jti_def Let_def)

lemma held_run:
  "held j ex t s \<Longrightarrow> \<forall>x \<in> set xs. honest_op j ex t x \<Longrightarrow> held j ex t (fold auth_step xs s)"
  by (induction xs arbitrary: s) (auto simp: held_step)

text \<open>The token that \<open>Revoke\<close> is given is not checked: this one names any id with any expiry.\<close>

definition forged_token :: "string \<Rightarrow> int \<Rightarrow> string" where
  "forged_token j ex = ''x.'' @ json_b64 (JObj [(''jti'', JStr j), (''exp'', JInt ex)]) @ ''.x''"

lemma extract_forged:
  assumes "valid_utf8 j" "int64_ok ex"
  shows "extractJTIAndExp (forged_token j ex) = (j, ex)"
proof -
  let ?o = "JObj [(''jti'', JStr j), (''exp'', JInt ex)]"
  have sp: "splitn_on 3 CHR ''.'' (forged_token j ex) = [''x'', json_b64 ?o, ''x'']"
    using splitn_token [of "''x''" "json_b64 ?o" "''x''"] by (simp add: forged_token_def)
  have obj: "Option.bind (json_Unmarshal (json_enc ?o)) as_obj = Some [(''jti'', JStr j), (''exp'', JInt ex)]"
    using assms(1) by (subst json_object_back) (simp_all add: valid_utf8_def)
  show ?thesis unfolding extractJTIAndExp_def sp
    using assms(2) by (simp add: json_b64_dec obj field_simps_go int64_ok_def del: json_enc.simps)
qed

section \<open>Restart\<close>

definition entry_ok :: "string \<times> int \<Rightarrow> bool" where
  "entry_ok e \<longleftrightarrow> valid_utf8 (fst e) \<and> int64_ok (snd e)"

lemma dec_entry_enc:
  "entry_ok (re_jti e, re_exp e) \<Longrightarrow>
     dec_entry (JObj [(''jti'', JStr (re_jti e)), (''exp'', JInt (re_exp e))]) = Some e"
  by (simp add: dec_entry_def entry_ok_def field_simps_go int64_ok_def)

lemma dec_entries_enc:
  assumes "\<forall>e \<in> set es. entry_ok (re_jti e, re_exp e)"
  shows "dec_entries (json_enc (enc_entries es)) = Some es"
proof -
  have sane: "json_sanitize (JObj [(''jti'', JStr (re_jti e)), (''exp'', JInt (re_exp e))]) =
      JObj [(''jti'', JStr (re_jti e)), (''exp'', JInt (re_exp e))]" if "e \<in> set es" for e
    using assms that by (simp add: entry_ok_def valid_utf8_def)
  have "json_sanitize (enc_entries es) = enc_entries es"
    using sane by (simp add: enc_entries_def)
  moreover have "json_wf (enc_entries es)" by (auto simp: enc_entries_def)
  ultimately have "json_Unmarshal (json_enc (enc_entries es)) = Some (enc_entries es)"
    by (simp add: json_roundtrip)
  moreover have "those (map (\<lambda>e. dec_entry (JObj [(''jti'', JStr (re_jti e)), (''exp'', JInt (re_exp e))])) es) = Some es"
    using assms by (induction es) (simp_all add: dec_entry_enc)
  ultimately show ?thesis by (simp add: dec_entries_def enc_entries_def comp_def del: json_enc.simps)
qed

lemma set_update_sub: "set (gm_put k v m) \<subseteq> insert (k, v) (set m)"
  by (induction m) auto

definition live_entry :: "gotime \<Rightarrow> int \<Rightarrow> bool" where
  "live_entry now x \<longleftrightarrow> \<not> (x > 0 \<and> x < time_Unix now)"

lemma load_fold:
  "distinct (map re_jti es) \<Longrightarrow>
   gm_get (au_revoked (fold (\<lambda>e a. if re_exp e > 0 \<and> re_exp e < time_Unix now then a
       else revoke_jti (re_jti e) (re_exp e) a) es a)) j =
     (case map_of (map (\<lambda>e. (re_jti e, re_exp e)) es) j of
        Some x \<Rightarrow> if live_entry now x then Some x else gm_get (au_revoked a) j
      | None \<Rightarrow> gm_get (au_revoked a) j)"
proof (induction es arbitrary: a)
  case (Cons e es)
  have "map_of (map (\<lambda>e. (re_jti e, re_exp e)) es) (re_jti e) = None"
    using Cons.prems by (auto simp: map_of_eq_None_iff image_image)
  with Cons show ?case by (auto simp: live_entry_def revoke_jti_def split: option.splits)
qed simp

section \<open>Properties\<close>

text \<open>C10. A token that \<open>Issue\<close> returned carries the requested subject, roles and lifetime, and \<open>Verify\<close>
  returns exactly these claims as long as the token is neither expired nor revoked, and one generic
  error otherwise.\<close>

theorem auth_issue_verify:
  assumes "dsa_correct cr" "dsa_pair cr (au_pk a) (au_sk a)"
    and "auth_Issue cr a subject roles extra now e = Ok (tok, e')"
    and "int64_ok (time_Unix now)" "int64_ok (time_Unix (now + au_ttl a))" "\<forall>kv \<in> set extra. json_wf (snd kv)"
  shows "\<exists>c. c_sub c = sanitize subject \<and> c_iss c = sanitize (au_issuer a) \<and> c_roles c = map sanitize roles \<and>
    c_iat c = time_Unix now \<and> c_exp c = time_Unix (now + au_ttl a) \<and> length (c_jti c) = 22 \<and>
    (\<forall>m p t. auth_Verify cr (a\<lparr>au_revoked := m, au_path := p\<rparr>) tok t =
      (if time_Unix t \<le> c_exp c \<and> gm_get m (c_jti c) = None
       then Ok \<lparr>t_header = issue_header a, t_claims = c\<rparr> else Err AuthFailed))"
proof -
  obtain j where rnd: "rand_read 16 e = Some (j, e')"
    and iss: "issued cr a tok (issue_claims a subject roles extra now j)" (is "issued cr a tok ?c")
    by (rule issued_Issue [OF assms])
  have "length (b64url j) = 22" using b64url_16 rand_read_length [OF rnd] by simp
  moreover have "c_jti (sane_claims ?c) = b64url j"
    using iss sane_jti [of ?c] by (simp add: issued_def issue_claims_def)
  moreover have "c_exp (sane_claims ?c) = c_exp ?c" by (simp add: sane_claims_def)
  ultimately show ?thesis using auth_Verify_issued [OF iss]
    by (intro exI [of _ "sane_claims ?c"]) (auto simp: sane_claims_def issue_claims_def)
qed

text \<open>C11. Whatever \<open>Verify\<close> accepts has three parts, a signature by the authority's key over exactly
  the first two, the returned claims as its payload, an unexpired lifetime and an unrevoked id, which
  is the id that \<open>Revoke\<close> and \<open>IsRevoked\<close> extract from the same string.\<close>

theorem auth_verify_sound:
  assumes "auth_Verify cr a tok now = Ok t"
  shows "\<exists>hdrB64 payB64 sigB64 payJSON sig.
    tok = hdrB64 @ ''.'' @ payB64 @ ''.'' @ sigB64 \<and> b64url_dec sigB64 = Some sig \<and>
    dsa_Verify cr (Some (au_pk a)) (str_bytes (hdrB64 @ ''.'' @ payB64)) sig \<and>
    b64url_dec payB64 = Some payJSON \<and> dec_claims (bytes_str payJSON) = Some (t_claims t) \<and>
    time_Unix now \<le> c_exp (t_claims t) \<and> c_jti (t_claims t) \<noteq> [] \<and>
    token_key tok = Some (c_jti (t_claims t)) \<and> \<not> auth_IsRevoked a tok"
proof -
  have "token_key tok = Some (c_jti (t_claims t))" "\<not> auth_IsRevoked a tok"
    using assms auth_Verify_extract [OF assms]
    by (auto simp: token_key_def auth_IsRevoked_def elim: auth_Verify_Ok)
  with assms show ?thesis by (elim auth_Verify_Ok) blast
qed

text \<open>C12. Once a token has been revoked, no sequence of further revocations and prunings lets \<open>Verify\<close>
  accept it again, at any later time, provided every revocation of the same id carries the id's own
  expiry.\<close>

theorem auth_revoked_stays:
  assumes "issued cr (fst s0) tok c" and "gm_ok (au_revoked (fst s0))"
    and "\<forall>x \<in> set xs. honest_op (c_jti c) (c_exp c) t x"
  shows "auth_Verify cr (fst (fold auth_step xs (auth_Revoke d tok s0))) tok t = Err AuthFailed"
proof -
  let ?s = "fold auth_step xs (auth_Revoke d tok s0)"
  have j: "c_jti c \<noteq> []" using assms(1) by (simp add: issued_def)
  have "held (c_jti c) (c_exp c) t (auth_Revoke d tok s0)"
    by (rule held_revoke [OF assms(2) extract_issued [OF assms(1)] j])
  then have held: "held (c_jti c) (c_exp c) t ?s" using held_run assms(3) by blast
  obtain m where "fst ?s = (fst s0)\<lparr>au_revoked := m\<rparr>"
    using auth_run_frame [of "OpRevoke d tok # xs" s0] by auto
  then show ?thesis using auth_Verify_issued [OF assms(1), where m = m and p = "au_path (fst s0)"] held
    by (auto simp: held_def)
qed

text \<open>Revocation can be undone by anyone who may call \<open>Revoke\<close> and knows the id: revoking an
  unsigned string that names the same id with an expiry in the past overwrites the record, the next
  pruning deletes it, and the revoked token verifies again.\<close>

theorem auth_forged_unrevoke:
  assumes "issued cr (fst s0) tok c" and "gm_ok (au_revoked (fst s0))"
    and "1 < time_Unix now" "time_Unix now \<le> c_exp c"
  shows "(let s1 = auth_Revoke d tok s0;
              s2 = auth_Revoke d (forged_token (c_jti c) 1) s1;
              s3 = auth_pruneExpired d now s2
          in auth_Verify cr (fst s1) tok now = Err AuthFailed \<and> is_ok (auth_Verify cr (fst s3) tok now))"
proof -
  have j: "c_jti c \<noteq> []" "valid_utf8 (c_jti c)" using assms(1) by (auto simp: issued_def)
  have e1: "extractJTIAndExp tok = (c_jti c, c_exp c)" by (rule extract_issued [OF assms(1)])
  have e2: "extractJTIAndExp (forged_token (c_jti c) 1) = (c_jti c, 1)"
    by (rule extract_forged [OF j(2)]) (simp add: int64_ok_def)
  obtain a fs where s0: "s0 = (a, fs)" by (cases s0)
  let ?m1 = "gm_put (c_jti c) (c_exp c) (au_revoked a)"
  let ?m2 = "gm_put (c_jti c) 1 ?m1"
  let ?m3 = "gm_filter (\<lambda>j x. \<not> (x > 0 \<and> x < time_Unix now)) ?m2"
  have "gm_ok ?m2" using assms(2) s0 by simp
  then have m3: "gm_get ?m3 (c_jti c) = None" using assms(3) by (simp add: gm_get_filter)
  have v: "auth_Verify cr (a\<lparr>au_revoked := m\<rparr>) tok now =
    (if gm_get m (c_jti c) = None then Ok \<lparr>t_header = issue_header a, t_claims = sane_claims c\<rparr> else Err AuthFailed)" for m
    using auth_Verify_issued [OF assms(1), where m = m and p = "au_path a" and now = now] assms(4) s0 by simp
  show ?thesis using j m3 v
    by (simp add: s0 auth_Revoke_def auth_pruneExpired_def revoke_jti_def e1 e2 Let_def)
qed

text \<open>The runs below use an authority with a key of the concrete instance and a fixed id.\<close>

definition demo_authority :: authority where
  "demo_authority =
     \<lparr>au_issuer = ''qs'', au_ttl = 3600 * Second, au_level = 65,
      au_pk = \<lparr>pk_level = 65, pk_bytes = replicate 32 7\<rparr>, au_sk = \<lparr>sk_level = 65, sk_bytes = replicate 32 7\<rparr>,
      au_revoked = [], au_path = ''revoked.json''\<rparr>"

lemma demo_authority_pair: "dsa_pair toy_crypto (au_pk demo_authority) (au_sk demo_authority)"
  by (auto simp: dsa_pair_def demo_authority_def toy_crypto_def intro!: exI [of _ "replicate 32 7"])

lemma demo_issue:
  obtains tok e' where "auth_Issue toy_crypto demo_authority ''alice'' [''admin''] [] (5 * Second) (replicate 16 9) = Ok (tok, e')"
  by (simp add: auth_Issue_def rand_read_def dsa_Sign_def Let_def)

lemma demo_int64: "int64_ok (time_Unix (5 * Second))" "int64_ok (time_Unix (5 * Second + au_ttl demo_authority))"
  by (simp_all add: int64_ok_def time_Unix_def demo_authority_def)

lemma demo_issued:
  obtains tok c where "issued toy_crypto demo_authority tok c" "c_exp c = 3605"
proof -
  obtain tok e' where tok: "auth_Issue toy_crypto demo_authority ''alice'' [''admin''] [] (5 * Second) (replicate 16 9) = Ok (tok, e')"
    by (rule demo_issue)
  obtain j where "issued toy_crypto demo_authority tok (issue_claims demo_authority ''alice'' [''admin''] [] (5 * Second) j)"
    by (rule issued_Issue [OF toy_dsa_correct demo_authority_pair tok demo_int64]) simp_all
  then show thesis by (rule that) (simp add: issue_claims_def demo_authority_def time_Unix_def)
qed

theorem auth_issue_verify_witness:
  "\<exists>tok c. c_sub c = ''alice'' \<and> c_exp c = 3605 \<and>
     auth_Verify toy_crypto demo_authority tok (6 * Second) = Ok \<lparr>t_header = issue_header demo_authority, t_claims = c\<rparr>"
proof -
  obtain tok e' where tok: "auth_Issue toy_crypto demo_authority ''alice'' [''admin''] [] (5 * Second) (replicate 16 9) = Ok (tok, e')"
    by (rule demo_issue)
  have name: "sanitize ''alice'' = ''alice''" by (simp add: sanitize_ascii code_def)
  have same: "demo_authority\<lparr>au_revoked := [], au_path := ''revoked.json''\<rparr> = demo_authority"
    by (simp add: demo_authority_def)
  have times: "time_Unix (5 * Second + au_ttl demo_authority) = 3605" "time_Unix (6 * Second) \<le> 3605"
    by (simp_all add: time_Unix_def demo_authority_def)
  obtain c where c: "c_sub c = sanitize ''alice''" "c_exp c = time_Unix (5 * Second + au_ttl demo_authority)"
    and v: "\<And>m p t. auth_Verify toy_crypto (demo_authority\<lparr>au_revoked := m, au_path := p\<rparr>) tok t =
      (if time_Unix t \<le> c_exp c \<and> gm_get m (c_jti c) = None
       then Ok \<lparr>t_header = issue_header demo_authority, t_claims = c\<rparr> else Err AuthFailed)"
    using auth_issue_verify [OF toy_dsa_correct demo_authority_pair tok demo_int64] by auto
  have "auth_Verify toy_crypto demo_authority tok (6 * Second) = Ok \<lparr>t_header = issue_header demo_authority, t_claims = c\<rparr>"
    using v [where m = "[]" and p = "''revoked.json''" and t = "6 * Second"] c times by (simp add: same)
  then show ?thesis using c times name by auto
qed

theorem auth_verify_sound_witness:
  "\<exists>tok (a :: authority) (t :: token). au_issuer a = ''qs'' \<and> token_key tok = Some (c_jti (t_claims t)) \<and> \<not> auth_IsRevoked a tok"
proof -
  obtain tok c where c: "issued toy_crypto demo_authority tok c" "c_exp c = 3605" by (rule demo_issued)
  have "is_ok (auth_Verify toy_crypto (demo_authority\<lparr>au_revoked := [], au_path := []\<rparr>) tok 0)"
    using auth_Verify_issued [OF c(1)] c(2) by (simp add: time_Unix_def)
  then obtain t where t: "auth_Verify toy_crypto (demo_authority\<lparr>au_revoked := [], au_path := []\<rparr>) tok 0 = Ok t"
    by (auto simp: is_ok_iff)
  have "au_issuer (demo_authority\<lparr>au_revoked := [], au_path := []\<rparr>) = ''qs''" by (simp add: demo_authority_def)
  then show ?thesis using auth_verify_sound [OF t] by blast
qed

theorem auth_revoked_stays_witness:
  "\<exists>tok. auth_Verify toy_crypto
     (fst (fold auth_step [OpPrune DiskOk (7 * Second)] (auth_Revoke DiskOk tok (demo_authority, [])))) tok (8 * Second)
     = Err AuthFailed"
proof -
  obtain tok c where c: "issued toy_crypto demo_authority tok c" "c_exp c = 3605" by (rule demo_issued)
  show ?thesis
    by (intro exI [of _ tok] auth_revoked_stays [where c = c])
      (simp_all add: c honest_op_def demo_authority_def [THEN arg_cong [where f = au_revoked]])
qed

theorem auth_forged_unrevoke_witness:
  "\<exists>tok jti. let s2 = auth_Revoke DiskOk (forged_token jti 1) (auth_Revoke DiskOk tok (demo_authority, []))
     in is_ok (auth_Verify toy_crypto (fst (auth_pruneExpired DiskOk (7 * Second) s2)) tok (7 * Second))"
proof -
  obtain tok c where c: "issued toy_crypto demo_authority tok c" "c_exp c = 3605" by (rule demo_issued)
  have "issued toy_crypto (fst (demo_authority, [] :: files)) tok c" "gm_ok (au_revoked (fst (demo_authority, [] :: files)))"
    "1 < time_Unix (7 * Second)" "time_Unix (7 * Second) \<le> c_exp c"
    using c by (simp_all add: time_Unix_def demo_authority_def [THEN arg_cong [where f = au_revoked]])
  from auth_forged_unrevoke [OF this] show ?thesis by (auto simp: Let_def)
qed

text \<open>C13. The revocation list survives a restart: after a revocation was written to disk, a new
  authority configured with the same file has every recorded id whose expiry has not passed, with the
  recorded expiry, and no other.\<close>

theorem auth_restart:
  assumes "gm_ok (au_revoked a)" and "\<forall>e \<in> set (au_revoked a). entry_ok e" and "au_path a \<noteq> []"
    and "auth_Revoke DiskOk tok (a, fs) = (a1, fs1)" and "token_key tok \<noteq> None"
    and "entry_ok (extractJTIAndExp tok)" and "au_revoked b = []"
  shows "\<exists>b'. SetRevocationFile (au_path a) now fs1 b = Ok b' \<and>
    (\<forall>j. gm_get (au_revoked b') j =
       (case gm_get (au_revoked a1) j of
          Some x \<Rightarrow> if x > 0 \<and> x < time_Unix now then None else Some x
        | None \<Rightarrow> None))"
proof -
  obtain j ex where jx: "extractJTIAndExp tok = (j, ex)" by fastforce
  have a1: "a1 = revoke_jti j ex a"
    and fs1: "fs1 = persistRevocation DiskOk (au_path a) (snapshotLocked a1) fs"
    using assms(3-5) jx by (auto simp: auth_Revoke_def Let_def token_key_def persist_if_configured_def revoke_jti_def
        split: if_splits)
  have ok: "gm_ok (au_revoked a1)" using assms(1) by (simp add: a1 revoke_jti_def)
  have "\<forall>e \<in> set (au_revoked a1). entry_ok e"
    using assms(2,6) jx set_update_sub [of j ex "au_revoked a"] by (auto simp: a1 revoke_jti_def)
  then have dec: "dec_entries (json_enc (enc_entries (snapshotLocked a1))) = Some (snapshotLocked a1)"
    by (intro dec_entries_enc) (auto simp: snapshotLocked_def)
  have "gm_get fs1 (au_path a) = Some (json_enc (enc_entries (snapshotLocked a1)))"
    by (simp add: fs1 persistRevocation_def replace_file_def)
  moreover have "distinct (map re_jti (snapshotLocked a1))"
    using ok by (simp add: snapshotLocked_def gm_ok_def comp_def case_prod_beta)
  moreover have "map (\<lambda>e. (re_jti e, re_exp e)) (snapshotLocked a1) = au_revoked a1"
    by (simp add: snapshotLocked_def comp_def case_prod_beta)
  ultimately show ?thesis using dec assms(7)
    by (simp add: SetRevocationFile_def loadRevocation_def load_fold live_entry_def split: option.splits)
qed

theorem auth_restart_witness:
  "\<exists>b'. SetRevocationFile ''revoked.json'' (8 * Second)
      (snd (auth_Revoke DiskOk (forged_token ''j'' 9) (demo_authority, []))) demo_authority = Ok b' \<and>
    gm_get (au_revoked b') ''j'' = Some 9"
proof -
  have v: "valid_utf8 ''j''" by (simp add: valid_ascii code_def)
  have ex: "extractJTIAndExp (forged_token ''j'' 9) = (''j'', 9)"
    by (rule extract_forged) (simp_all add: v int64_ok_def)
  obtain a1 fs1 where r: "auth_Revoke DiskOk (forged_token ''j'' 9) (demo_authority, []) = (a1, fs1)" by fastforce
  have d: "au_revoked demo_authority = []" "au_path demo_authority = ''revoked.json''"
    by (simp_all add: demo_authority_def)
  have "au_revoked a1 = [(''j'', 9)]"
    using r by (auto simp: auth_Revoke_def ex Let_def revoke_jti_def d)
  moreover have "gm_ok (au_revoked demo_authority)" "\<forall>e \<in> set (au_revoked demo_authority). entry_ok e"
    "au_path demo_authority \<noteq> []" "token_key (forged_token ''j'' 9) \<noteq> None"
    "entry_ok (extractJTIAndExp (forged_token ''j'' 9))"
    by (simp_all add: d token_key_def ex entry_ok_def v int64_ok_def)
  ultimately show ?thesis
    using auth_restart [of demo_authority "forged_token ''j'' 9" "[]" a1 fs1 demo_authority "8 * Second"] r d
    by (fastforce simp: time_Unix_def)
qed

end
