(* ===== verification/Channel.thy ===== *)
theory Channel
  imports Crypto "HOL-Library.Sublist"
begin

text \<open>
  \<open>internal/channel/channel.go\<close>: the two-message post-quantum handshake and the established
  session. A session is the record \<open>session\<close> with its two AES-GCM keys in place of the two cipher
  objects; \<open>Seal\<close> and \<open>Open\<close> return the session with its counters updated, whatever their result is.
\<close>

record init_request =
  rq_SessionID :: string
  rq_EKBytes :: bytes
  rq_IdentityPK :: bytes
  rq_Signature :: bytes

record init_response =
  rs_SessionID :: string
  rs_KEMCiphertext :: bytes
  rs_IdentityPK :: bytes
  rs_Signature :: bytes

record message =
  m_SessionID :: bytes
  m_SeqNum :: u64
  m_Ciphertext :: bytes

record session =
  se_id :: string
  se_sessionKey :: bytes
  se_sendKey :: bytes
  se_recvKey :: bytes
  se_sendSeq :: u64
  se_recvMax :: u64
  se_RemotePK :: dsa_public

record initiator =
  in_identitySK :: dsa_private
  in_identityPK :: dsa_public
  in_sessionID :: string
  in_ephemDK :: "decap_key option"
  in_req :: "init_request option"

record responder =
  rp_identitySK :: dsa_private
  rp_identityPK :: dsa_public

datatype channel_error =
    ChNilIdentity | ChKeygen kem_error | ChRandom | ChSign dsa_error | ChBeginFirst | ChSessionMismatch
  | ChParsePK dsa_error | ChBadSignature | ChDecapsulate kem_error | ChNilRequest | ChParseEK kem_error
  | ChEncapsulate kem_error | ChKdf kdf_error | ChAES
  | ChNonceLength | ChNonceMismatch | ChReplay u64 u64 | ChDecrypt

section \<open>Transcripts and session derivation\<close>

definition labelSendKey :: string where "labelSendKey = ''qs-channel-send-key-v1''"
definition labelRecvKey :: string where "labelRecvKey = ''qs-channel-recv-key-v1''"
definition labelSessionSalt :: string where "labelSessionSalt = ''qs-channel-session-salt-v1''"
definition labelSessionNonce :: string where "labelSessionNonce = ''qs-channel-session-nonce-v1''"

definition transcript1 :: "crypto \<Rightarrow> string \<Rightarrow> bytes \<Rightarrow> bytes \<Rightarrow> bytes" where
  "transcript1 cr sid ek pk = sha256 cr (str_bytes ''qs-ch-t1:'' @ str_bytes sid @ ek @ pk)"

definition transcript2 :: "crypto \<Rightarrow> string \<Rightarrow> bytes \<Rightarrow> bytes \<Rightarrow> bytes" where
  "transcript2 cr sid ct pk = sha256 cr (str_bytes ''qs-ch-t2:'' @ str_bytes sid @ ct @ pk)"

definition newSessionID :: "entropy \<Rightarrow> (string \<times> entropy) option" where
  "newSessionID e = (case rand_read 16 e of None \<Rightarrow> None | Some (b, e') \<Rightarrow> Some (hex_encode b, e'))"

definition newGCM :: "bytes \<Rightarrow> (channel_error, bytes) result" where
  "newGCM key = (if aes_key_ok key then Ok key else Err ChAES)"

definition deriveSession ::
    "crypto \<Rightarrow> string \<Rightarrow> bytes \<Rightarrow> dsa_public \<Rightarrow> bool \<Rightarrow> (channel_error, session) result" where
  "deriveSession cr sid ss remote isResponder =
     (let salt = sha256 cr (str_bytes (labelSessionSalt @ '':'' @ sid)) in
      case DeriveHKDFMulti cr ss salt [str_bytes labelSendKey, str_bytes labelRecvKey] [32, 32] of
        Ok keys \<Rightarrow>
          (let sendKey = (if isResponder then keys ! 1 else keys ! 0);
               recvKey = (if isResponder then keys ! 0 else keys ! 1)
           in case (newGCM sendKey, newGCM recvKey) of
                (Ok sendGCM, Ok recvGCM) \<Rightarrow>
                  (case DeriveHKDF cr ss salt (str_bytes labelSessionNonce) 16 of
                     Ok sessNonce \<Rightarrow>
                       Ok \<lparr>se_id = sid, se_sessionKey = sessNonce, se_sendKey = sendGCM, se_recvKey = recvGCM,
                           se_sendSeq = 0, se_recvMax = 0, se_RemotePK = remote\<rparr>
                   | Err er \<Rightarrow> Err (ChKdf er)
                   | Panic \<Rightarrow> Panic)
              | _ \<Rightarrow> Err ChAES)
      | Err er \<Rightarrow> Err (ChKdf er)
      | Panic \<Rightarrow> Panic)"

section \<open>The handshake\<close>

definition NewInitiator ::
    "dsa_private option \<Rightarrow> dsa_public option \<Rightarrow> (channel_error, initiator) result" where
  "NewInitiator sk pk =
     (case (sk, pk) of
        (Some s, Some p) \<Rightarrow>
          Ok \<lparr>in_identitySK = s, in_identityPK = p, in_sessionID = [], in_ephemDK = None, in_req = None\<rparr>
      | _ \<Rightarrow> Err ChNilIdentity)"

definition NewResponder ::
    "dsa_private option \<Rightarrow> dsa_public option \<Rightarrow> (channel_error, responder) result" where
  "NewResponder sk pk =
     (case (sk, pk) of
        (Some s, Some p) \<Rightarrow> Ok \<lparr>rp_identitySK = s, rp_identityPK = p\<rparr>
      | _ \<Rightarrow> Err ChNilIdentity)"

text \<open>\<open>Begin\<close> changes the initiator field by field; an early return leaves the fields set so far.\<close>

definition chan_Begin ::
    "crypto \<Rightarrow> initiator \<Rightarrow> entropy \<Rightarrow> (channel_error, init_request) result \<times> initiator \<times> entropy" where
  "chan_Begin cr i e =
     (case kem_GenerateKey 768 e of
        Ok (dk, e1) \<Rightarrow>
          (let i1 = i\<lparr>in_ephemDK := Some dk\<rparr> in
           case newSessionID e1 of
             None \<Rightarrow> (Err ChRandom, i1, e1)
           | Some (sid, e2) \<Rightarrow>
               (let i2 = i1\<lparr>in_sessionID := sid\<rparr>;
                    ek = ek_Bytes (dk_EncapsulationKey cr dk);
                    pk = pk_bytes (in_identityPK i)
                in case dsa_Sign cr (Some (in_identitySK i)) (transcript1 cr sid ek pk) of
                     Ok sig \<Rightarrow>
                       (let req = \<lparr>rq_SessionID = sid, rq_EKBytes = ek, rq_IdentityPK = pk, rq_Signature = sig\<rparr>
                        in (Ok req, i2\<lparr>in_req := Some req\<rparr>, e2))
                   | Err er \<Rightarrow> (Err (ChSign er), i2, e2)
                   | Panic \<Rightarrow> (Panic, i2, e2)))
      | Err er \<Rightarrow> (Err (ChKeygen er), i, e)
      | Panic \<Rightarrow> (Panic, i, e))"

definition chan_Accept ::
    "crypto \<Rightarrow> responder \<Rightarrow> init_request option \<Rightarrow> entropy
      \<Rightarrow> (channel_error, init_response \<times> session \<times> entropy) result" where
  "chan_Accept cr r rq e =
     (case rq of
        None \<Rightarrow> Err ChNilRequest
      | Some req \<Rightarrow>
          (case dsa_ParsePublicKey cr 65 (rq_IdentityPK req) of
             Ok remote \<Rightarrow>
               (if \<not> dsa_Verify cr (Some remote)
                     (transcript1 cr (rq_SessionID req) (rq_EKBytes req) (rq_IdentityPK req)) (rq_Signature req)
                then Err ChBadSignature
                else case kem_ParseEncapsulationKey cr 768 (rq_EKBytes req) of
                  Ok ek \<Rightarrow>
                    (case kem_Encapsulate cr (Some ek) e of
                       Ok (ss, ct, e') \<Rightarrow>
                         (let pk = pk_bytes (rp_identityPK r) in
                          case dsa_Sign cr (Some (rp_identitySK r)) (transcript2 cr (rq_SessionID req) ct pk) of
                            Ok sig \<Rightarrow>
                              (case deriveSession cr (rq_SessionID req) ss remote True of
                                 Ok sess \<Rightarrow>
                                   Ok (\<lparr>rs_SessionID = rq_SessionID req, rs_KEMCiphertext = ct,
                                        rs_IdentityPK = pk, rs_Signature = sig\<rparr>, sess, e')
                               | Err er \<Rightarrow> Err er
                               | Panic \<Rightarrow> Panic)
                          | Err er \<Rightarrow> Err (ChSign er)
                          | Panic \<Rightarrow> Panic)
                     | Err er \<Rightarrow> Err (ChEncapsulate er)
                     | Panic \<Rightarrow> Panic)
                | Err er \<Rightarrow> Err (ChParseEK er)
                | Panic \<Rightarrow> Panic)
           | Err er \<Rightarrow> Err (ChParsePK er)
           | Panic \<Rightarrow> Panic))"

definition chan_Complete ::
    "crypto \<Rightarrow> initiator \<Rightarrow> init_response \<Rightarrow> (channel_error, session) result" where
  "chan_Complete cr i resp =
     (if in_req i = None then Err ChBeginFirst
      else if rs_SessionID resp \<noteq> in_sessionID i then Err ChSessionMismatch
      else case dsa_ParsePublicKey cr 65 (rs_IdentityPK resp) of
        Ok remote \<Rightarrow>
          (if \<not> dsa_Verify cr (Some remote)
                (transcript2 cr (rs_SessionID resp) (rs_KEMCiphertext resp) (rs_IdentityPK resp)) (rs_Signature resp)
           then Err ChBadSignature
           else case kem_Decapsulate cr (in_ephemDK i) (rs_KEMCiphertext resp) of
             Ok ss \<Rightarrow> deriveSession cr (in_sessionID i) ss remote False
           | Err er \<Rightarrow> Err (ChDecapsulate er)
           | Panic \<Rightarrow> Panic)
      | Err er \<Rightarrow> Err (ChParsePK er)
      | Panic \<Rightarrow> Panic)"

section \<open>Messages\<close>

definition buildNonce :: "session \<Rightarrow> u64 \<Rightarrow> bytes" where
  "buildNonce s seq = take 8 (se_sessionKey s) @ be32 (ucast seq)"

definition chan_aad :: "u64 \<Rightarrow> bytes" where
  "chan_aad seq = be64 seq"

definition chan_Seal :: "crypto \<Rightarrow> session \<Rightarrow> bytes \<Rightarrow> message \<times> session" where
  "chan_Seal cr s plaintext =
     (let seq = se_sendSeq s + 1 in
      (\<lparr>m_SessionID = se_sessionKey s, m_SeqNum = seq,
        m_Ciphertext = gcm_seal cr (se_sendKey s) (buildNonce s seq) plaintext (chan_aad seq)\<rparr>,
       s\<lparr>se_sendSeq := seq\<rparr>))"

text \<open>The loop over the 16 bytes of the session nonce; indexing past the end of the key panics.\<close>

fun same_nonce :: "bytes \<Rightarrow> bytes \<Rightarrow> bool option" where
  "same_nonce [] key = Some True"
| "same_nonce (x # xs) [] = None"
| "same_nonce (x # xs) (y # ys) = (if x \<noteq> y then Some False else same_nonce xs ys)"

definition chan_Open :: "crypto \<Rightarrow> session \<Rightarrow> message \<Rightarrow> (channel_error, bytes) result \<times> session" where
  "chan_Open cr s msg =
     (if length (m_SessionID msg) \<noteq> 16 then (Err ChNonceLength, s)
      else case same_nonce (m_SessionID msg) (se_sessionKey s) of
        None \<Rightarrow> (Panic, s)
      | Some False \<Rightarrow> (Err ChNonceMismatch, s)
      | Some True \<Rightarrow>
          (if m_SeqNum msg = 0 \<or> m_SeqNum msg \<le> se_recvMax s
           then (Err (ChReplay (m_SeqNum msg) (se_recvMax s)), s)
           else
             (let s' = s\<lparr>se_recvMax := m_SeqNum msg\<rparr> in
              case gcm_open cr (se_recvKey s) (buildNonce s (m_SeqNum msg)) (m_Ciphertext msg)
                     (chan_aad (m_SeqNum msg)) of
                None \<Rightarrow> (Err ChDecrypt, s')
              | Some plain \<Rightarrow> (Ok plain, s'))))"

text \<open>A sequence of messages sent, and a sequence of messages received.\<close>

fun seal_all :: "crypto \<Rightarrow> session \<Rightarrow> bytes list \<Rightarrow> message list \<times> session" where
  "seal_all cr s [] = ([], s)"
| "seal_all cr s (p # ps) =
     (case chan_Seal cr s p of (m, s1) \<Rightarrow> (case seal_all cr s1 ps of (ms, s2) \<Rightarrow> (m # ms, s2)))"

fun open_all :: "crypto \<Rightarrow> session \<Rightarrow> message list \<Rightarrow> (channel_error, bytes) result list \<times> session" where
  "open_all cr s [] = ([], s)"
| "open_all cr s (m # ms) =
     (case chan_Open cr s m of (r, s1) \<Rightarrow> (case open_all cr s1 ms of (rs, s2) \<Rightarrow> (r # rs, s2)))"

section \<open>The handshake agrees\<close>

lemma deriveSession_Ok:
  assumes "hash_sizes cr"
  obtains key1 key2 nonce where "length nonce = 16"
    "\<And>remote resp. deriveSession cr sid ss remote resp =
       Ok \<lparr>se_id = sid, se_sessionKey = nonce, se_sendKey = (if resp then key2 else key1),
           se_recvKey = (if resp then key1 else key2), se_sendSeq = 0, se_recvMax = 0, se_RemotePK = remote\<rparr>"
proof -
  let ?salt = "sha256 cr (str_bytes (labelSessionSalt @ '':'' @ sid))"
  have "length (hkdf cr ss ?salt (str_bytes labelSessionNonce) 16) = 16" using assms by simp
  then show thesis
    by (rule that) (simp add: deriveSession_def DeriveHKDFMulti_def DeriveHKDF_def newGCM_def assms Let_def)
qed

lemma chan_Begin_Ok:
  assumes "chan_Begin cr i e = (Ok req, i', e')"
  obtains dk sid where "dk_ok dk" "dk_Level dk = 768"
    "i' = i\<lparr>in_ephemDK := Some dk, in_sessionID := sid, in_req := Some req\<rparr>"
    "rq_SessionID req = sid" "rq_EKBytes req = ek_Bytes (dk_EncapsulationKey cr dk)"
    "rq_IdentityPK req = pk_bytes (in_identityPK i)"
    "dsa_Sign cr (Some (in_identitySK i))
       (transcript1 cr sid (rq_EKBytes req) (rq_IdentityPK req)) = Ok (rq_Signature req)"
proof -
  obtain dk e1 where dk: "kem_GenerateKey 768 e = Ok (dk, e1)"
    using assms by (auto simp: chan_Begin_def split: result.splits)
  obtain sid e2 where sid: "newSessionID e1 = Some (sid, e2)"
    using assms dk by (auto simp: chan_Begin_def Let_def split: option.splits)
  show thesis
    using assms dk sid kem_GenerateKey_ok [OF dk]
    by (intro that [of dk sid]) (auto simp: chan_Begin_def Let_def split: result.splits)
qed

lemma dsa_65_parse:
  "dsa_correct cr \<Longrightarrow> dsa_pair cr pk sk \<Longrightarrow> pk_level pk = 65 \<Longrightarrow> dsa_ParsePublicKey cr 65 (pk_bytes pk) = Ok pk"
  using dsa_Parse_pair(1) by fastforce

lemma dsa_Sign_Some: "\<exists>sig. dsa_Sign cr (Some sk) m = Ok sig"
  by (simp add: dsa_Sign_def)

lemma kem_Encapsulate_is_ok: "32 \<le> length e \<Longrightarrow> is_ok (kem_Encapsulate cr (Some k) e)"
  by (simp add: kem_Encapsulate_def rand_read_def split: prod.splits)

definition paired :: "session \<Rightarrow> session \<Rightarrow> bool" where
  "paired a b \<longleftrightarrow> se_sessionKey a = se_sessionKey b \<and> length (se_sessionKey a) = 16 \<and>
     se_sendKey a = se_recvKey b"

section \<open>Sending and receiving\<close>

lemma unat_plus_one: "x \<noteq> - 1 \<Longrightarrow> unat (x + 1 :: u64) = Suc (unat x)"
  by (metis add.commute add_eq_0_iff unatSuc)

lemma same_nonce_iff:
  "length x \<le> length k \<Longrightarrow> same_nonce x k = Some (x = take (length x) k)"
  by (induction x k rule: same_nonce.induct) auto

lemma chan_Open_cases:
  assumes "chan_Open cr s m = (r, s')"
  obtains (reject) "s' = s" "\<not> is_ok r"
  | (advance) "s' = s\<lparr>se_recvMax := m_SeqNum m\<rparr>" "m_SeqNum m > se_recvMax s"
      "\<And>p. r = Ok p \<longleftrightarrow> gcm_open cr (se_recvKey s) (buildNonce s (m_SeqNum m)) (m_Ciphertext m)
                     (chan_aad (m_SeqNum m)) = Some p"
proof (cases "length (m_SessionID m) = 16 \<and> same_nonce (m_SessionID m) (se_sessionKey s) = Some True \<and>
    \<not> (m_SeqNum m = 0 \<or> m_SeqNum m \<le> se_recvMax s)")
  case True
  show thesis by (rule advance) (use True assms in \<open>auto simp: chan_Open_def Let_def split: option.splits\<close>)
next
  case False
  show thesis by (rule reject)
    (use False assms in \<open>auto simp: chan_Open_def Let_def split: option.splits bool.splits if_splits\<close>)
qed

lemma chan_Open_fresh:
  assumes "paired a b" "gcm_correct cr" "se_recvMax b \<le> se_sendSeq a" "se_sendSeq a \<noteq> - 1"
    and "chan_Seal cr a p = (m, a')"
  shows "chan_Open cr b m = (Ok p, b\<lparr>se_recvMax := se_sendSeq a'\<rparr>)"
    and "paired a' b" "se_sendSeq a' = se_sendSeq a + 1" "se_sendSeq a < se_sendSeq a'"
proof -
  have seq: "se_sendSeq a < se_sendSeq a + 1"
    using assms(4) by (simp add: word_less_nat_alt unat_plus_one)
  then have "se_sendSeq a + 1 \<noteq> 0" "\<not> se_sendSeq a + 1 \<le> se_recvMax b" using assms(3) by auto
  then show "chan_Open cr b m = (Ok p, b\<lparr>se_recvMax := se_sendSeq a'\<rparr>)"
    using assms by (auto simp: chan_Open_def chan_Seal_def Let_def paired_def same_nonce_iff buildNonce_def)
  show "paired a' b" "se_sendSeq a' = se_sendSeq a + 1" "se_sendSeq a < se_sendSeq a'"
    using assms seq by (auto simp: chan_Seal_def Let_def paired_def)
qed

lemma delivery:
  assumes "gcm_correct cr"
  shows "paired a b \<Longrightarrow> se_recvMax b \<le> se_sendSeq a \<Longrightarrow> unat (se_sendSeq a) + length ps < 2 ^ 64 \<Longrightarrow>
    fst (open_all cr b (nths (fst (seal_all cr a ps)) I)) = map Ok (nths ps I)"
proof (induction ps arbitrary: a b I)
  case (Cons p ps)
  obtain m a1 where m: "chan_Seal cr a p = (m, a1)" by fastforce
  have no_max: "se_sendSeq a \<noteq> - 1"
  proof
    assume "se_sendSeq a = - 1"
    then have "unat (se_sendSeq a) = 2 ^ 64 - 1"
      by (simp add: unsigned_minus_1_eq_mask mask_eq_exp_minus_1)
    then show False using Cons.prems(3) by simp
  qed
  note fresh = chan_Open_fresh [OF Cons.prems(1) assms Cons.prems(2) no_max m]
  have "unat (se_sendSeq a1) + length ps < 2 ^ 64"
    using Cons.prems(3) fresh(3) no_max by (simp add: unat_plus_one)
  moreover have "paired a1 (b\<lparr>se_recvMax := se_sendSeq a1\<rparr>)" "se_recvMax b \<le> se_sendSeq a1"
    using fresh Cons.prems(2) by (auto simp: paired_def)
  ultimately show ?case
    using Cons.IH [of a1 "b\<lparr>se_recvMax := se_sendSeq a1\<rparr>" "{j. Suc j \<in> I}"]
      Cons.IH [of a1 b "{j. Suc j \<in> I}"] fresh
    by (auto simp: m nths_Cons split: prod.splits)
qed simp

lemma open_all_Cons: "fst (open_all cr s (m # ms)) =
    fst (chan_Open cr s m) # fst (open_all cr (snd (chan_Open cr s m)) ms)"
  "snd (open_all cr s (m # ms)) = snd (open_all cr (snd (chan_Open cr s m)) ms)"
  by (simp_all split: prod.splits)

text \<open>What the receiver accepted: the sequence number and the plaintext of every message whose
  \<open>Open\<close> succeeded, in the order of arrival.\<close>

fun accepted :: "crypto \<Rightarrow> session \<Rightarrow> message list \<Rightarrow> (u64 \<times> bytes) list" where
  "accepted cr s [] = []"
| "accepted cr s (m # ms) =
     (case chan_Open cr s m of
        (Ok p, s') \<Rightarrow> (m_SeqNum m, p) # accepted cr s' ms
      | (_, s') \<Rightarrow> accepted cr s' ms)"

lemma chan_Open_frame:
  "chan_Open cr s m = (r, s') \<Longrightarrow>
     se_recvKey s' = se_recvKey s \<and> se_sessionKey s' = se_sessionKey s \<and> se_recvMax s \<le> se_recvMax s'"
  by (erule chan_Open_cases) auto

text \<open>Receiving as a component run message by message: the high-water mark never falls.\<close>

interpretation receiving: op_system "\<lambda>m s. snd (chan_Open cr s m)" "\<lambda>s. True"
    "\<lambda>s s'. se_recvMax s \<le> se_recvMax s' \<and> se_recvKey s' = se_recvKey s \<and> se_sessionKey s' = se_sessionKey s"
  for cr
proof unfold_locales
  fix s :: session and m
  obtain r s' where r: "chan_Open cr s m = (r, s')" by fastforce
  show "se_recvMax s \<le> se_recvMax (snd (chan_Open cr s m)) \<and> se_recvKey (snd (chan_Open cr s m)) = se_recvKey s \<and>
      se_sessionKey (snd (chan_Open cr s m)) = se_sessionKey s"
    using chan_Open_frame [OF r] r by simp
qed auto

lemma open_all_fold: "snd (open_all cr s ms) = fold (\<lambda>m s. snd (chan_Open cr s m)) ms s"
  by (induction ms arbitrary: s) (simp_all add: open_all_Cons del: open_all.simps(2))

lemma accepted_bound: "x \<in> set (accepted cr s ms) \<Longrightarrow> se_recvMax s < fst x"
proof (induction ms arbitrary: s)
  case (Cons m ms)
  obtain r s' where r: "chan_Open cr s m = (r, s')" by fastforce
  then show ?case
  proof (cases rule: chan_Open_cases)
    case reject
    then show ?thesis using Cons r by (cases r) auto
  next
    case advance
    then show ?thesis using Cons r by (cases r) force+
  qed
qed simp

lemma open_stuck:
  assumes "se_recvMax s = - 1" "chan_Open cr s m = (r, s')"
  shows "s' = s \<and> \<not> is_ok r"
  using assms(2)
proof (cases rule: chan_Open_cases)
  case advance
  then show ?thesis using assms(1) word_order.extremum_strict by metis
qed simp

lemma accepted_props:
  "sorted_wrt (<) (map fst (accepted cr s ms)) \<and>
   (\<forall>x \<in> set (accepted cr s ms). se_recvMax s < fst x \<and>
      (\<exists>m \<in> set ms. m_SeqNum m = fst x \<and>
        gcm_open cr (se_recvKey s) (buildNonce s (fst x)) (m_Ciphertext m) (chan_aad (fst x)) = Some (snd x)))"
proof (induction ms arbitrary: s)
  case (Cons m ms)
  obtain r s' where r: "chan_Open cr s m = (r, s')" by fastforce
  note frame = chan_Open_frame [OF r]
  have nonce: "buildNonce s' = buildNonce s" using frame by (auto simp: buildNonce_def)
  have rest: "\<forall>x \<in> set (accepted cr s' ms). se_recvMax s < fst x \<and>
      (\<exists>m \<in> set (m # ms). m_SeqNum m = fst x \<and>
        gcm_open cr (se_recvKey s) (buildNonce s (fst x)) (m_Ciphertext m) (chan_aad (fst x)) = Some (snd x))"
    using Cons.IH [of s'] frame nonce by fastforce
  show ?case
  proof (cases r)
    case (Ok p)
    from r show ?thesis
    proof (cases rule: chan_Open_cases)
      case advance
      have "\<forall>x \<in> set (accepted cr s' ms). m_SeqNum m < fst x"
        using accepted_bound [of _ cr s' ms] advance(1) by auto
      then show ?thesis using Cons.IH [of s'] rest advance Ok r by auto
    qed (simp add: Ok)
  qed (use Cons.IH [of s'] rest r in auto)
qed simp

section \<open>Properties\<close>

text \<open>C14. An honest handshake succeeds and agrees: for identity keys of level 65, what \<open>Begin\<close> sends,
  \<open>Accept\<close> answers, and \<open>Complete\<close> accepts the answer; the two sessions have the same id and nonce,
  each side's sending key is the other's receiving key, all counters are zero, and each side has
  authenticated exactly the other's identity key.\<close>

theorem channel_handshake:
  assumes laws: "kem_correct cr" "dsa_correct cr" "hash_sizes cr"
    and ids: "dsa_pair cr (in_identityPK i) (in_identitySK i)" "pk_level (in_identityPK i) = 65"
      "dsa_pair cr (rp_identityPK r) (rp_identitySK r)" "pk_level (rp_identityPK r) = 65"
    and beg: "chan_Begin cr i e1 = (Ok req, i', e1')" and ent: "32 \<le> length e2"
  shows "\<exists>resp sr e3 si. chan_Accept cr r (Some req) e2 = Ok (resp, sr, e3) \<and> chan_Complete cr i' resp = Ok si \<and>
    se_id si = se_id sr \<and> paired si sr \<and> paired sr si \<and>
    se_sendSeq si = 0 \<and> se_recvMax si = 0 \<and> se_sendSeq sr = 0 \<and> se_recvMax sr = 0 \<and>
    se_RemotePK si = rp_identityPK r \<and> se_RemotePK sr = in_identityPK i"
proof -
  obtain dk sid where dk: "dk_ok dk" "dk_Level dk = 768"
    and i': "i' = i\<lparr>in_ephemDK := Some dk, in_sessionID := sid, in_req := Some req\<rparr>"
    and req: "rq_SessionID req = sid" "rq_EKBytes req = ek_Bytes (dk_EncapsulationKey cr dk)"
      "rq_IdentityPK req = pk_bytes (in_identityPK i)"
    and sig: "dsa_Sign cr (Some (in_identitySK i))
       (transcript1 cr sid (rq_EKBytes req) (rq_IdentityPK req)) = Ok (rq_Signature req)"
    by (rule chan_Begin_Ok [OF beg])
  have ek: "kem_ParseEncapsulationKey cr 768 (rq_EKBytes req) = Ok (dk_EncapsulationKey cr dk)"
    using kem_ParseEncapsulationKey_Bytes [OF laws(1) dk(1)] dk(2) req by simp
  obtain ss ct e3 where encap: "kem_Encapsulate cr (Some (dk_EncapsulationKey cr dk)) e2 = Ok (ss, ct, e3)"
    using kem_Encapsulate_is_ok [OF ent] by (metis is_ok_iff prod_cases3)
  obtain sig2 where sig2: "dsa_Sign cr (Some (rp_identitySK r)) (transcript2 cr sid ct (pk_bytes (rp_identityPK r))) = Ok sig2"
    using dsa_Sign_Some by blast
  obtain k1 k2 n where n: "length n = 16" and sess: "\<And>remote resp. deriveSession cr sid ss remote resp =
       Ok \<lparr>se_id = sid, se_sessionKey = n, se_sendKey = (if resp then k2 else k1),
           se_recvKey = (if resp then k1 else k2), se_sendSeq = 0, se_recvMax = 0, se_RemotePK = remote\<rparr>"
    using deriveSession_Ok [OF laws(3), of sid ss] by metis
  note parse = dsa_65_parse [OF laws(2) ids(1,2)] dsa_65_parse [OF laws(2) ids(3,4)]
  let ?resp = "\<lparr>rs_SessionID = sid, rs_KEMCiphertext = ct, rs_IdentityPK = pk_bytes (rp_identityPK r), rs_Signature = sig2\<rparr>"
  let ?sr = "\<lparr>se_id = sid, se_sessionKey = n, se_sendKey = k2, se_recvKey = k1, se_sendSeq = 0, se_recvMax = 0,
    se_RemotePK = in_identityPK i\<rparr>"
  let ?si = "\<lparr>se_id = sid, se_sessionKey = n, se_sendKey = k1, se_recvKey = k2, se_sendSeq = 0, se_recvMax = 0,
    se_RemotePK = rp_identityPK r\<rparr>"
  have "chan_Accept cr r (Some req) e2 = Ok (?resp, ?sr, e3)"
    using dsa_Sign_Verify(1) [OF laws(2) ids(1) sig] ek
    by (simp add: chan_Accept_def req(1,3) encap sig2 sess parse Let_def)
  moreover have "chan_Complete cr i' ?resp = Ok ?si"
    using dsa_Sign_Verify(1) [OF laws(2) ids(3) sig2] kem_Encapsulate_Decapsulate(1) [OF laws(1) dk(1) encap]
    by (simp add: chan_Complete_def i' sess parse)
  ultimately show ?thesis using n
    by (intro exI [of _ ?resp] exI [of _ ?sr] exI [of _ e3] exI [of _ ?si]) (simp add: paired_def)
qed

text \<open>C15. Over a link that loses messages but keeps their order, every message that arrives is opened
  to the plaintext that was sent: for any set \<open>I\<close> of positions that survive, up to the 2^64 - 1
  messages the counter can number.\<close>

theorem channel_delivery:
  assumes "gcm_correct cr" "paired a b" "se_recvMax b \<le> se_sendSeq a"
    and "unat (se_sendSeq a) + length ps < 2 ^ 64"
  shows "fst (open_all cr b (nths (fst (seal_all cr a ps)) I)) = map Ok (nths ps I)"
  by (rule delivery) (use assms in auto)

text \<open>C16. Whatever an attacker delivers, in whatever order and however often, the sequence numbers of
  the messages a session accepts strictly increase, so none is accepted twice, and each accepted
  plaintext is the authenticated decryption of a delivered message under its own number; the high-water
  mark never falls and the keys never change.\<close>

theorem channel_no_replay:
  "sorted_wrt (<) (map fst (accepted cr s ms)) \<and>
   (\<forall>x \<in> set (accepted cr s ms). se_recvMax s < fst x \<and>
      (\<exists>m \<in> set ms. m_SeqNum m = fst x \<and>
        gcm_open cr (se_recvKey s) (buildNonce s (fst x)) (m_Ciphertext m) (chan_aad (fst x)) = Some (snd x))) \<and>
   (let s' = snd (open_all cr s ms) in se_recvMax s \<le> se_recvMax s' \<and> se_recvKey s' = se_recvKey s)"
proof -
  show ?thesis using accepted_props [of cr s ms] receiving.run_ext [of s cr ms] by (simp add: open_all_fold)
qed

text \<open>\<open>Open\<close> moves the high-water mark before it authenticates: one message anybody can make (the
  session nonce travels in clear, the ciphertext may be garbage) with the largest sequence number makes
  the session reject everything from then on.\<close>

theorem channel_forged_block:
  assumes "length (se_sessionKey s) = 16" "se_recvMax s < - 1"
  shows "\<forall>r \<in> set (fst (open_all cr
     (snd (chan_Open cr s \<lparr>m_SessionID = se_sessionKey s, m_SeqNum = - 1, m_Ciphertext = garbage\<rparr>)) ms)). \<not> is_ok r"
proof -
  let ?s = "snd (chan_Open cr s \<lparr>m_SessionID = se_sessionKey s, m_SeqNum = - 1, m_Ciphertext = garbage\<rparr>)"
  have "se_recvMax ?s = - 1"
    using assms by (auto simp: chan_Open_def same_nonce_iff Let_def split: option.splits)
  moreover have "\<forall>r \<in> set (fst (open_all cr t ms)). \<not> is_ok r" if "se_recvMax t = - 1" for t
    using that
  proof (induction ms arbitrary: t)
    case (Cons m ms)
    obtain r t' where "chan_Open cr t m = (r, t')" by fastforce
    moreover have "t' = t" "\<not> is_ok r" using open_stuck [OF Cons.prems \<open>chan_Open cr t m = (r, t')\<close>] by auto
    ultimately show ?case using Cons.IH [OF Cons.prems] by (auto split: prod.splits)
  qed simp
  ultimately show ?thesis by blast
qed

text \<open>The nonce of a message keeps only the low 32 bits of its number: two numbers get the same
  AES-GCM nonce in a session exactly when they agree modulo 2^32.\<close>

theorem channel_nonce_period:
  "buildNonce s x = buildNonce s y \<longleftrightarrow> unat x mod 2 ^ 32 = unat y mod 2 ^ 32"
proof -
  have "(ucast x = (ucast y :: u32)) = (unat (ucast x :: u32) = unat (ucast y :: u32))"
    by (simp add: word_unat_eq_iff)
  then show ?thesis by (simp add: buildNonce_def unsigned_ucast_eq take_bit_eq_mod)
qed

section \<open>Runs on the concrete instance\<close>

definition demo_pk :: dsa_public where "demo_pk = \<lparr>pk_level = 65, pk_bytes = replicate 32 7\<rparr>"
definition demo_sk :: dsa_private where "demo_sk = \<lparr>sk_level = 65, sk_bytes = replicate 32 7\<rparr>"

definition demo_session :: "byte \<Rightarrow> byte \<Rightarrow> session" where
  "demo_session k1 k2 = \<lparr>se_id = ''s'', se_sessionKey = replicate 16 1, se_sendKey = replicate 32 k1,
     se_recvKey = replicate 32 k2, se_sendSeq = 0, se_recvMax = 0, se_RemotePK = demo_pk\<rparr>"

lemma demo_pair: "dsa_pair toy_crypto demo_pk demo_sk" "pk_level demo_pk = 65"
  by (auto simp: dsa_pair_def demo_pk_def demo_sk_def toy_crypto_def intro!: exI [of _ "replicate 32 7"])

theorem channel_handshake_witness:
  "\<exists>req i' resp sr e3 si.
     chan_Accept toy_crypto \<lparr>rp_identitySK = demo_sk, rp_identityPK = demo_pk\<rparr> (Some req) (replicate 32 5) = Ok (resp, sr, e3) \<and>
     chan_Complete toy_crypto i' resp = Ok si \<and> paired si sr"
proof -
  let ?i = "\<lparr>in_identitySK = demo_sk, in_identityPK = demo_pk, in_sessionID = [], in_ephemDK = None, in_req = None\<rparr>"
  let ?r = "\<lparr>rp_identitySK = demo_sk, rp_identityPK = demo_pk\<rparr>"
  have "is_ok (fst (chan_Begin toy_crypto ?i (replicate 80 3)))"
    by (simp add: chan_Begin_def kem_GenerateKey_def rand_read_def newSessionID_def dsa_Sign_def Let_def)
  then obtain req i' e1 where b: "chan_Begin toy_crypto ?i (replicate 80 3) = (Ok req, i', e1)"
    by (metis is_ok_iff prod.collapse)
  have "32 \<le> length (replicate 32 (5 :: byte))" by simp
  from channel_handshake [OF toy_kem_correct toy_dsa_correct toy_hash_sizes, of ?i ?r, OF _ _ _ _ b this] demo_pair
  obtain resp sr e3 si where "chan_Accept toy_crypto ?r (Some req) (replicate 32 5) = Ok (resp, sr, e3)"
    "chan_Complete toy_crypto i' resp = Ok si" "paired si sr"
    by auto
  then show ?thesis by blast
qed

theorem channel_delivery_witness:
  "fst (open_all toy_crypto (demo_session 2 1) (nths (fst (seal_all toy_crypto (demo_session 1 2) [[7], [8], [9]])) {0, 2}))
     = map Ok (nths [[7], [8], [9]] {0, 2})"
  by (rule channel_delivery) (simp_all add: paired_def demo_session_def)

theorem channel_forged_block_witness:
  "list_all (\<lambda>r. \<not> is_ok r) (fst (open_all toy_crypto (snd (chan_Open toy_crypto (demo_session 2 1)
       \<lparr>m_SessionID = se_sessionKey (demo_session 2 1), m_SeqNum = - 1, m_Ciphertext = [0]\<rparr>))
     (fst (seal_all toy_crypto (demo_session 1 2) [[7]]))))"
  unfolding list_all_iff
  by (rule channel_forged_block) (simp_all add: demo_session_def word_gt_0)

theorem channel_no_replay_witness:
  "let ms = fst (seal_all toy_crypto (demo_session 1 2) [[7], [8]]) in
     map fst (accepted toy_crypto (demo_session 2 1) (ms @ ms)) = [1, 2] \<and>
     sorted_wrt (<) (map fst (accepted toy_crypto (demo_session 2 1) (ms @ ms)))"
proof -
  let ?ms = "fst (seal_all toy_crypto (demo_session 1 2) [[7], [8]])"
  have "map fst (accepted toy_crypto (demo_session 2 1) (?ms @ ?ms)) = [1, 2]"
    by (simp add: chan_Seal_def chan_Open_def demo_session_def same_nonce_iff buildNonce_def Let_def
        word_le_nat_alt)
  then show ?thesis using channel_no_replay [of toy_crypto "demo_session 2 1" "?ms @ ?ms"] by (simp add: Let_def)
qed

end
