(* ===== verification/Threshold.thy ===== *)
theory Threshold
  imports Crypto
begin

text \<open>
  \<open>internal/threshold/threshold.go\<close>: M-of-N approval by a committee of ML-DSA-65 signers. The
  coordinator of a round is the record \<open>coordinator\<close>; its mutex is the order in which the operations
  are run.
\<close>

record signer =
  sg_id :: string
  sg_pk :: dsa_public
  sg_sk :: dsa_private

record partial_sig =
  ps_SignerID :: string
  ps_PublicKey :: bytes
  ps_Signature :: bytes
  ps_Nonce :: bytes

record authorised_sig =
  as_Threshold :: int
  as_MsgDigest :: bytes
  as_Nonce :: bytes
  as_Partials :: "partial_sig list"

record coordinator =
  co_msg :: bytes
  co_nonce :: bytes
  co_threshold :: int
  co_partials :: "partial_sig list"
  co_done :: bool
  co_authorised :: "authorised_sig option"

datatype threshold_error =
    ThEmptyID | ThKeygen dsa_error | ThParsePK string dsa_error | ThParseSK string dsa_error
  | ThEmptyMessage | ThNonceLength | ThSign dsa_error | ThBadThreshold
  | ThNonceMismatch string | ThDuplicate string | ThInvalidKey string dsa_error | ThInvalidSignature string
  | ThNil | ThTooFew nat int | ThDigest | ThUnknownSigner string | ThKeyMismatch string | ThRandom

definition bindingHash :: "crypto \<Rightarrow> bytes \<Rightarrow> bytes \<Rightarrow> bytes" where
  "bindingHash cr nonce msg = sha256 cr (str_bytes ''qs-threshold-v1:'' @ nonce @ sha256 cr msg)"

section \<open>Signers\<close>

definition NewSigner :: "crypto \<Rightarrow> string \<Rightarrow> entropy \<Rightarrow> (threshold_error, signer \<times> entropy) result" where
  "NewSigner cr i e =
     (if i = [] then Err ThEmptyID
      else case dsa_GenerateKey cr 65 e of
        Ok (pk, sk, e') \<Rightarrow> Ok (\<lparr>sg_id = i, sg_pk = pk, sg_sk = sk\<rparr>, e')
      | Err er \<Rightarrow> Err (ThKeygen er)
      | Panic \<Rightarrow> Panic)"

definition ParseSigner :: "crypto \<Rightarrow> string \<Rightarrow> bytes \<Rightarrow> bytes \<Rightarrow> (threshold_error, signer) result" where
  "ParseSigner cr i pkBytes skBytes =
     (case dsa_ParsePublicKey cr 65 pkBytes of
        Ok pk \<Rightarrow>
          (case dsa_ParsePrivateKey cr 65 skBytes of
             Ok sk \<Rightarrow> Ok \<lparr>sg_id = i, sg_pk = pk, sg_sk = sk\<rparr>
           | Err er \<Rightarrow> Err (ThParseSK i er)
           | Panic \<Rightarrow> Panic)
      | Err er \<Rightarrow> Err (ThParsePK i er)
      | Panic \<Rightarrow> Panic)"

definition signer_Sign :: "crypto \<Rightarrow> signer \<Rightarrow> bytes \<Rightarrow> bytes \<Rightarrow> (threshold_error, partial_sig) result" where
  "signer_Sign cr s msg nonce =
     (if length msg = 0 then Err ThEmptyMessage
      else if length nonce \<noteq> 32 then Err ThNonceLength
      else case dsa_Sign cr (Some (sg_sk s)) (bindingHash cr nonce msg) of
        Ok sig \<Rightarrow> Ok \<lparr>ps_SignerID = sg_id s, ps_PublicKey = pk_bytes (sg_pk s), ps_Signature = sig, ps_Nonce = nonce\<rparr>
      | Err er \<Rightarrow> Err (ThSign er)
      | Panic \<Rightarrow> Panic)"

section \<open>The coordinator\<close>

definition NewCoordinator :: "bytes \<Rightarrow> bytes \<Rightarrow> int \<Rightarrow> (threshold_error, coordinator) result" where
  "NewCoordinator msg nonce threshold =
     (if length msg = 0 then Err ThEmptyMessage
      else if length nonce \<noteq> 32 then Err ThNonceLength
      else if threshold < 1 then Err ThBadThreshold
      else Ok \<lparr>co_msg = msg, co_nonce = nonce, co_threshold = threshold, co_partials = [], co_done = False,
               co_authorised = None\<rparr>)"

definition th_Submit ::
    "crypto \<Rightarrow> coordinator \<Rightarrow> partial_sig
      \<Rightarrow> (threshold_error, bool \<times> authorised_sig option) result \<times> coordinator" where
  "th_Submit cr c p =
     (if co_done c then (Ok (True, co_authorised c), c)
      else if ps_Nonce p \<noteq> co_nonce c then (Err (ThNonceMismatch (ps_SignerID p)), c)
      else if list_ex (\<lambda>q. ps_SignerID q = ps_SignerID p) (co_partials c) then (Err (ThDuplicate (ps_SignerID p)), c)
      else case dsa_ParsePublicKey cr 65 (ps_PublicKey p) of
        Ok pk \<Rightarrow>
          (if \<not> dsa_Verify cr (Some pk) (bindingHash cr (co_nonce c) (co_msg c)) (ps_Signature p)
           then (Err (ThInvalidSignature (ps_SignerID p)), c)
           else
             (let ps = co_partials c @ [p]; c1 = c\<lparr>co_partials := ps\<rparr> in
              if int (length ps) \<ge> co_threshold c then
                (let a = Some \<lparr>as_Threshold = co_threshold c, as_MsgDigest = sha256 cr (co_msg c),
                               as_Nonce = co_nonce c, as_Partials = take (nat (co_threshold c)) ps\<rparr>
                 in (Ok (True, a), c1\<lparr>co_authorised := a, co_done := True\<rparr>))
              else (Ok (False, None), c1)))
      | Err er \<Rightarrow> (Err (ThInvalidKey (ps_SignerID p) er), c)
      | Panic \<Rightarrow> (Panic, c))"

definition th_Count :: "coordinator \<Rightarrow> nat" where
  "th_Count c = length (co_partials c)"

section \<open>Verification of a bundle\<close>

fun verify_partials ::
    "crypto \<Rightarrow> bytes \<Rightarrow> bytes \<Rightarrow> (string, bytes) gomap \<Rightarrow> string list \<Rightarrow> partial_sig list
      \<Rightarrow> (threshold_error, unit) result" where
  "verify_partials cr msg nonce trusted seen [] = Ok ()"
| "verify_partials cr msg nonce trusted seen (p # ps) =
     (case gm_get trusted (ps_SignerID p) of
        None \<Rightarrow> Err (ThUnknownSigner (ps_SignerID p))
      | Some tk \<Rightarrow>
          (if tk \<noteq> ps_PublicKey p then Err (ThKeyMismatch (ps_SignerID p))
           else if ps_SignerID p \<in> set seen then Err (ThDuplicate (ps_SignerID p))
           else if ps_Nonce p \<noteq> nonce then Err (ThNonceMismatch (ps_SignerID p))
           else case dsa_ParsePublicKey cr 65 (ps_PublicKey p) of
             Ok pk \<Rightarrow>
               (if \<not> dsa_Verify cr (Some pk) (bindingHash cr nonce msg) (ps_Signature p)
                then Err (ThInvalidSignature (ps_SignerID p))
                else verify_partials cr msg nonce trusted (ps_SignerID p # seen) ps)
           | Err er \<Rightarrow> Err (ThParsePK (ps_SignerID p) er)
           | Panic \<Rightarrow> Panic))"

definition th_Verify ::
    "crypto \<Rightarrow> bytes \<Rightarrow> authorised_sig option \<Rightarrow> (string, bytes) gomap \<Rightarrow> (threshold_error, unit) result" where
  "th_Verify cr msg au trusted =
     (case au of
        None \<Rightarrow> Err ThNil
      | Some a \<Rightarrow>
          (if int (length (as_Partials a)) < as_Threshold a
           then Err (ThTooFew (length (as_Partials a)) (as_Threshold a))
           else if sha256 cr msg \<noteq> as_MsgDigest a then Err ThDigest
           else verify_partials cr msg (as_Nonce a) trusted [] (as_Partials a)))"

definition NewNonce :: "entropy \<Rightarrow> (threshold_error, bytes \<times> entropy) result" where
  "NewNonce e = (case rand_read 32 e of None \<Rightarrow> Err ThRandom | Some (n, e') \<Rightarrow> Ok (n, e'))"

definition RoundID :: "crypto \<Rightarrow> bytes \<Rightarrow> string" where
  "RoundID cr nonce = hex_encode (take 8 (sha256 cr nonce))"

section \<open>What a bundle promises\<close>

text \<open>One partial signature is valid for a round; the declarative reading of \<open>Verify\<close>.\<close>

definition partial_valid :: "crypto \<Rightarrow> bytes \<Rightarrow> bytes \<Rightarrow> partial_sig \<Rightarrow> bool" where
  "partial_valid cr msg nonce p \<longleftrightarrow>
     ps_Nonce p = nonce \<and>
     (\<exists>pk. dsa_ParsePublicKey cr 65 (ps_PublicKey p) = Ok pk \<and>
        dsa_Verify cr (Some pk) (bindingHash cr nonce msg) (ps_Signature p))"

definition bundle_valid :: "crypto \<Rightarrow> bytes \<Rightarrow> authorised_sig \<Rightarrow> (string, bytes) gomap \<Rightarrow> bool" where
  "bundle_valid cr msg a trusted \<longleftrightarrow>
     as_Threshold a \<le> int (length (as_Partials a)) \<and> as_MsgDigest a = sha256 cr msg \<and>
     distinct (map ps_SignerID (as_Partials a)) \<and>
     (\<forall>p \<in> set (as_Partials a). gm_get trusted (ps_SignerID p) = Some (ps_PublicKey p) \<and>
        partial_valid cr msg (as_Nonce a) p)"

lemma verify_partials_iff:
  "is_ok (verify_partials cr msg nonce trusted seen ps) \<longleftrightarrow>
     distinct (map ps_SignerID ps) \<and> set (map ps_SignerID ps) \<inter> set seen = {} \<and>
     (\<forall>p \<in> set ps. gm_get trusted (ps_SignerID p) = Some (ps_PublicKey p) \<and> partial_valid cr msg nonce p)"
proof (induction ps arbitrary: seen)
  case (Cons p ps)
  show ?case
    by (cases "dsa_ParsePublicKey cr 65 (ps_PublicKey p)")
      (auto simp: Cons.IH partial_valid_def split: option.splits)
qed simp

text \<open>The invariant of a round.\<close>

definition coordinator_inv :: "crypto \<Rightarrow> coordinator \<Rightarrow> bool" where
  "coordinator_inv cr c \<longleftrightarrow>
     1 \<le> co_threshold c \<and> distinct (map ps_SignerID (co_partials c)) \<and>
     (\<forall>p \<in> set (co_partials c). partial_valid cr (co_msg c) (co_nonce c) p) \<and>
     int (length (co_partials c)) \<le> co_threshold c \<and>
     (co_done c \<longleftrightarrow> int (length (co_partials c)) = co_threshold c) \<and>
     co_authorised c =
       (if co_done c then Some \<lparr>as_Threshold = co_threshold c, as_MsgDigest = sha256 cr (co_msg c),
          as_Nonce = co_nonce c, as_Partials = co_partials c\<rparr> else None)"

definition coordinator_ext :: "coordinator \<Rightarrow> coordinator \<Rightarrow> bool" where
  "coordinator_ext c c' \<longleftrightarrow>
     co_msg c' = co_msg c \<and> co_nonce c' = co_nonce c \<and> co_threshold c' = co_threshold c \<and>
     (\<exists>ps. co_partials c' = co_partials c @ ps) \<and> (co_done c \<longrightarrow> c' = c)"

lemma list_ex_signer: "list_ex (\<lambda>q. ps_SignerID q = i) qs \<longleftrightarrow> i \<in> ps_SignerID ` set qs"
  by (induction qs) auto

lemma th_Submit_cases:
  assumes "th_Submit cr c p = (r, c')"
  obtains (finished) "co_done c" "r = Ok (True, co_authorised c)" "c' = c"
  | (refused) er where "\<not> co_done c" "r = Err er" "c' = c"
  | (collected) "\<not> co_done c" "c' = c\<lparr>co_partials := co_partials c @ [p]\<rparr>" "r = Ok (False, None)"
      "ps_SignerID p \<notin> ps_SignerID ` set (co_partials c)" "partial_valid cr (co_msg c) (co_nonce c) p"
      "int (Suc (length (co_partials c))) < co_threshold c"
  | (completed) a where "\<not> co_done c" "r = Ok (True, Some a)"
      "c' = c\<lparr>co_partials := co_partials c @ [p], co_authorised := Some a, co_done := True\<rparr>"
      "a = \<lparr>as_Threshold = co_threshold c, as_MsgDigest = sha256 cr (co_msg c), as_Nonce = co_nonce c,
            as_Partials = take (nat (co_threshold c)) (co_partials c @ [p])\<rparr>"
      "ps_SignerID p \<notin> ps_SignerID ` set (co_partials c)" "partial_valid cr (co_msg c) (co_nonce c) p"
      "co_threshold c \<le> int (Suc (length (co_partials c)))"
proof (cases "co_done c")
  case True
  show thesis by (rule finished [OF True]) (use True assms in \<open>auto simp: th_Submit_def\<close>)
next
  case open_round: False
  show thesis
  proof (cases "partial_valid cr (co_msg c) (co_nonce c) p \<and> ps_SignerID p \<notin> ps_SignerID ` set (co_partials c)")
    case True
    then obtain pk where pk: "dsa_ParsePublicKey cr 65 (ps_PublicKey p) = Ok pk"
      "dsa_Verify cr (Some pk) (bindingHash cr (co_nonce c) (co_msg c)) (ps_Signature p)"
      by (auto simp: partial_valid_def)
    have "ps_Nonce p = co_nonce c" using True by (simp add: partial_valid_def)
    note eval = assms [unfolded th_Submit_def list_ex_signer Let_def] and facts = this pk open_round True
    show thesis
    proof (cases "co_threshold c \<le> int (Suc (length (co_partials c)))")
      case True
      show thesis by (rule completed [OF open_round]) (use True eval facts in auto)
    next
      case False
      show thesis by (rule collected [OF open_round]) (use False eval facts in auto)
    qed
  next
    case False
    have "\<exists>er. r = Err er \<and> c' = c"
      using assms open_round False
      by (cases "dsa_ParsePublicKey cr 65 (ps_PublicKey p)")
        (auto simp: th_Submit_def list_ex_signer partial_valid_def dsa_ParsePublicKey_def dsa_schemeFor_def
          split: if_splits)
    then show thesis using refused open_round by blast
  qed
qed

lemma coordinator_inv_step: "coordinator_inv cr c \<Longrightarrow> coordinator_inv cr (snd (th_Submit cr c p))"
proof -
  assume inv: "coordinator_inv cr c"
  obtain r c' where r: "th_Submit cr c p = (r, c')" by fastforce
  then show ?thesis
    by (cases rule: th_Submit_cases) (use inv r in \<open>auto simp: coordinator_inv_def\<close>)
qed

lemma coordinator_ext_step: "coordinator_ext c (snd (th_Submit cr c p))"
proof -
  obtain r c' where r: "th_Submit cr c p = (r, c')" by fastforce
  then show ?thesis by (cases rule: th_Submit_cases) (use r in \<open>auto simp: coordinator_ext_def\<close>)
qed

interpretation rounds: op_system "\<lambda>p c. snd (th_Submit cr c p)" "coordinator_inv cr" coordinator_ext for cr
  by unfold_locales
    (auto simp: coordinator_inv_step coordinator_ext_step, auto simp: coordinator_ext_def)

lemma NewCoordinator_inv: "NewCoordinator msg nonce t = Ok c \<Longrightarrow>
    coordinator_inv cr c \<and> co_msg c = msg \<and> co_nonce c = nonce \<and> co_threshold c = t \<and> co_partials c = []"
  by (auto simp: NewCoordinator_def coordinator_inv_def split: if_splits)

text \<open>Honest signers: each holds a key pair of level 65; what they submit is collected.\<close>

definition honest_signer :: "crypto \<Rightarrow> signer \<Rightarrow> bool" where
  "honest_signer cr s \<longleftrightarrow> dsa_pair cr (sg_pk s) (sg_sk s) \<and> pk_level (sg_pk s) = 65"

definition signed_by :: "crypto \<Rightarrow> bytes \<Rightarrow> bytes \<Rightarrow> signer \<Rightarrow> partial_sig \<Rightarrow> bool" where
  "signed_by cr msg nonce s p \<longleftrightarrow> honest_signer cr s \<and> signer_Sign cr s msg nonce = Ok p"

lemma honest_partial:
  assumes "dsa_correct cr" "signed_by cr msg nonce s p"
  shows "partial_valid cr msg nonce p" "ps_SignerID p = sg_id s" "ps_PublicKey p = pk_bytes (sg_pk s)"
proof -
  obtain sig where sig: "dsa_Sign cr (Some (sg_sk s)) (bindingHash cr nonce msg) = Ok sig"
    and p: "p = \<lparr>ps_SignerID = sg_id s, ps_PublicKey = pk_bytes (sg_pk s), ps_Signature = sig, ps_Nonce = nonce\<rparr>"
    using assms(2) by (auto simp: signed_by_def signer_Sign_def split: if_splits result.splits)
  have pair: "dsa_pair cr (sg_pk s) (sg_sk s)" "pk_level (sg_pk s) = 65"
    using assms(2) by (auto simp: signed_by_def honest_signer_def)
  show "partial_valid cr msg nonce p"
    using dsa_Sign_Verify(1) [OF assms(1) pair(1) sig] dsa_Parse_pair(1) [OF assms(1) pair(1)] pair(2)
    by (auto simp: partial_valid_def p)
  show "ps_SignerID p = sg_id s" "ps_PublicKey p = pk_bytes (sg_pk s)" by (simp_all add: p)
qed

lemma th_Submit_valid:
  assumes "\<not> co_done c" "partial_valid cr (co_msg c) (co_nonce c) p"
    and "ps_SignerID p \<notin> ps_SignerID ` set (co_partials c)"
  shows "co_partials (snd (th_Submit cr c p)) = co_partials c @ [p]"
proof -
  have "\<not> list_ex (\<lambda>q. ps_SignerID q = ps_SignerID p) (co_partials c)"
    using assms(3) by (simp add: list_ex_signer)
  then show ?thesis using assms by (auto simp: th_Submit_def partial_valid_def Let_def)
qed

lemma collect_all:
  assumes "coordinator_inv cr c" "\<forall>p \<in> set ps. partial_valid cr (co_msg c) (co_nonce c) p"
    and "distinct (map ps_SignerID (co_partials c @ ps))"
  shows "co_partials (fold (\<lambda>p c. snd (th_Submit cr c p)) ps c) =
    take (nat (co_threshold c)) (co_partials c @ ps)"
  using assms
proof (induction ps arbitrary: c)
  case Nil
  then have "length (co_partials c) \<le> nat (co_threshold c)" by (auto simp: coordinator_inv_def)
  then show ?case by simp
next
  case (Cons p ps)
  let ?c = "snd (th_Submit cr c p)"
  have ext: "coordinator_ext c ?c" and inv: "coordinator_inv cr ?c"
    using Cons.prems(1) by (simp_all add: coordinator_ext_step coordinator_inv_step)
  show ?case
  proof (cases "co_done c")
    case True
    have "coordinator_ext c (fold (\<lambda>p c. snd (th_Submit cr c p)) (p # ps) c)"
      using Cons.prems(1) by (rule rounds.run_ext)
    then have "fold (\<lambda>p c. snd (th_Submit cr c p)) (p # ps) c = c" using True by (simp add: coordinator_ext_def)
    moreover have "length (co_partials c) = nat (co_threshold c)"
      using True Cons.prems(1) by (auto simp: coordinator_inv_def)
    ultimately show ?thesis by simp
  next
    case False
    then have "co_partials ?c = co_partials c @ [p]"
      using Cons.prems by (intro th_Submit_valid) auto
    then show ?thesis
      using Cons.IH [OF inv] Cons.prems(2,3) ext by (auto simp: coordinator_ext_def)
  qed
qed

section \<open>Properties\<close>

text \<open>C17. However many partial signatures are submitted, by whomever, a round collects only valid ones
  from signers with distinct ids, never more than the threshold; it is done exactly when the threshold
  is reached, and its result is the bundle of exactly the collected signatures.\<close>

theorem threshold_round:
  assumes "NewCoordinator msg nonce t = Ok c0"
  shows "let c = fold (\<lambda>p c. snd (th_Submit cr c p)) ps c0 in
    distinct (map ps_SignerID (co_partials c)) \<and> (\<forall>p \<in> set (co_partials c). partial_valid cr msg nonce p) \<and>
    int (th_Count c) \<le> t \<and> (co_done c \<longleftrightarrow> int (th_Count c) = t) \<and>
    co_authorised c = (if co_done c then Some \<lparr>as_Threshold = t, as_MsgDigest = sha256 cr msg,
       as_Nonce = nonce, as_Partials = co_partials c\<rparr> else None)"
proof -
  have inv0: "coordinator_inv cr c0" using NewCoordinator_inv [OF assms] by simp
  show ?thesis
    using rounds.run_inv [OF inv0, of ps] rounds.run_ext [OF inv0, of ps] NewCoordinator_inv [OF assms, of cr]
    by (auto simp: coordinator_inv_def coordinator_ext_def th_Count_def Let_def)
qed

text \<open>C18. \<open>Verify\<close> decides exactly the declarative promise of a bundle: enough partials, the digest of
  this message, pairwise distinct registered signers with their registered keys, and valid signatures
  over this round's binding hash.\<close>

theorem threshold_verify_iff:
  "is_ok (th_Verify cr msg (Some a) trusted) \<longleftrightarrow> bundle_valid cr msg a trusted"
  using verify_partials_iff [of cr msg "as_Nonce a" trusted "[]" "as_Partials a"]
  by (auto simp: th_Verify_def bundle_valid_def)

text \<open>C19. A round of honest signers with distinct ids finishes as soon as the threshold is met, and the
  bundle it returns verifies against every registry that lists these signers.\<close>

theorem threshold_honest_round:
  assumes "dsa_correct cr" and "NewCoordinator msg nonce t = Ok c0"
    and "list_all2 (signed_by cr msg nonce) ss ps" and "distinct (map sg_id ss)" and "t \<le> int (length ss)"
    and "\<forall>s \<in> set ss. gm_get trusted (sg_id s) = Some (pk_bytes (sg_pk s))"
  shows "\<exists>a. co_authorised (fold (\<lambda>p c. snd (th_Submit cr c p)) ps c0) = Some a \<and>
    as_Partials a = take (nat t) ps \<and> is_ok (th_Verify cr msg (Some a) trusted)"
proof -
  let ?c = "fold (\<lambda>p c. snd (th_Submit cr c p)) ps c0"
  note new = NewCoordinator_inv [OF assms(2), of cr]
  have len: "length ps = length ss" using assms(3) by (auto dest: list_all2_lengthD)
  have ids: "map ps_SignerID ps = map sg_id ss" and valid: "\<forall>p \<in> set ps. partial_valid cr msg nonce p"
    and reg: "\<forall>p \<in> set ps. gm_get trusted (ps_SignerID p) = Some (ps_PublicKey p)"
    using assms(3,6) honest_partial [OF assms(1)]
    by (induction rule: list_all2_induct) auto
  have "distinct (map ps_SignerID (co_partials c0 @ ps))" "\<forall>p \<in> set ps. partial_valid cr (co_msg c0) (co_nonce c0) p"
    using new ids assms(4) valid by simp_all
  then have ps: "co_partials ?c = take (nat t) ps"
    using collect_all new by (metis append_Nil)
  have inv: "coordinator_inv cr ?c" using rounds.run_inv new by blast
  have same: "co_msg ?c = msg" "co_nonce ?c = nonce" "co_threshold ?c = t"
    using rounds.run_ext [of cr c0 ps] new by (auto simp: coordinator_ext_def)
  have "1 \<le> t" using new by (auto simp: coordinator_inv_def)
  then have "co_done ?c" using inv ps same len assms(5) by (auto simp: coordinator_inv_def)
  then have au: "co_authorised ?c = Some \<lparr>as_Threshold = t, as_MsgDigest = sha256 cr msg, as_Nonce = nonce,
      as_Partials = take (nat t) ps\<rparr>"
    using inv same ps by (simp add: coordinator_inv_def)
  have "distinct (map ps_SignerID (take (nat t) ps))" using ids assms(4) by (simp add: take_map [symmetric])
  then show ?thesis
    using au len assms(5) valid reg in_set_takeD [of _ "nat t" ps]
      verify_partials_iff [of cr msg nonce trusted "[]" "take (nat t) ps"]
    by (auto simp: th_Verify_def)
qed

text \<open>The number of signatures a verifier demands is the number the bundle itself states: a bundle
  with no signature at all and a threshold of zero or less verifies for every message.\<close>

theorem threshold_verify_vacuous:
  "th_Verify cr msg (Some \<lparr>as_Threshold = - int n, as_MsgDigest = sha256 cr msg, as_Nonce = nonce,
     as_Partials = []\<rparr>) trusted = Ok ()"
  by (simp add: th_Verify_def)

section \<open>Runs on the concrete instance\<close>

definition demo_signer :: "string \<Rightarrow> byte \<Rightarrow> signer" where
  "demo_signer i k = \<lparr>sg_id = i, sg_pk = \<lparr>pk_level = 65, pk_bytes = replicate 32 k\<rparr>,
     sg_sk = \<lparr>sk_level = 65, sk_bytes = replicate 32 k\<rparr>\<rparr>"

lemma demo_signer_honest: "honest_signer toy_crypto (demo_signer i k)"
  by (auto simp: honest_signer_def demo_signer_def dsa_pair_def toy_crypto_def intro!: exI [of _ "replicate 32 k"])

theorem threshold_round_witness:
  "\<exists>c0 p. NewCoordinator [1] (replicate 32 0) 2 = Ok c0 \<and>
     signer_Sign toy_crypto (demo_signer ''a'' 1) [1] (replicate 32 0) = Ok p \<and>
     int (th_Count (fold (\<lambda>p c. snd (th_Submit toy_crypto c p)) [p, p, p] c0)) \<le> 2"
proof -
  obtain c0 where c0: "NewCoordinator [1] (replicate 32 0) 2 = Ok c0" by (simp add: NewCoordinator_def)
  obtain p where p: "signer_Sign toy_crypto (demo_signer ''a'' 1) [1] (replicate 32 0) = Ok p"
    by (simp add: signer_Sign_def dsa_Sign_def)
  show ?thesis using threshold_round [OF c0, of toy_crypto "[p, p, p]"] c0 p by (auto simp: Let_def)
qed

theorem threshold_honest_round_witness:
  "\<exists>c0 p q a. NewCoordinator [1] (replicate 32 0) 2 = Ok c0 \<and>
     co_authorised (fold (\<lambda>p c. snd (th_Submit toy_crypto c p)) [p, q] c0) = Some a \<and> as_Partials a = [p, q] \<and>
     is_ok (th_Verify toy_crypto [1] (Some a) [(''a'', replicate 32 1), (''b'', replicate 32 2)])"
proof -
  obtain c0 where c0: "NewCoordinator [1] (replicate 32 0) 2 = Ok c0" by (simp add: NewCoordinator_def)
  obtain p where p: "signer_Sign toy_crypto (demo_signer ''a'' 1) [1] (replicate 32 0) = Ok p"
    by (simp add: signer_Sign_def dsa_Sign_def)
  obtain q where q: "signer_Sign toy_crypto (demo_signer ''b'' 2) [1] (replicate 32 0) = Ok q"
    by (simp add: signer_Sign_def dsa_Sign_def)
  have "list_all2 (signed_by toy_crypto [1] (replicate 32 0)) [demo_signer ''a'' 1, demo_signer ''b'' 2] [p, q]"
    by (simp add: signed_by_def demo_signer_honest p q)
  from threshold_honest_round [OF toy_dsa_correct c0 this, of "[(''a'', replicate 32 1), (''b'', replicate 32 2)]"]
  show ?thesis using c0 by (fastforce simp: demo_signer_def)
qed

end
