(* ===== verification/Hybrid.thy ===== *)
theory Hybrid
  imports Crypto
begin

text \<open>
  \<open>internal/hybrid/hybrid.go\<close>: ML-KEM with AES-256-GCM, an authenticated creation time and a bounded
  cache of the KEM ciphertexts already accepted. The map \<open>seen\<close> and the slice \<open>seenSeq\<close> of the
  decrypter are modelled as they are; the mutex is the order of the calls, the clock an argument.
\<close>

definition nonceSize :: nat where "nonceSize = 12"
definition keySize :: nat where "keySize = 32"
definition seenCacheMax :: nat where "seenCacheMax = 100000"
definition defaultMaxAge :: duration where "defaultMaxAge = 5 * Minute"

record encrypted =
  en_KEMCiphertext :: bytes
  en_Nonce :: bytes
  en_Data :: bytes
  en_CreatedAt :: int

record decrypter =
  de_level :: int
  de_maxAge :: duration
  de_seen :: "(string, unit) gomap"
  de_seenSeq :: "string list"

datatype hybrid_error =
    HyParseEK kem_error | HyEncapsulate kem_error | HyNonce | HyZeroNonce | HyAES | HyDecryptionFailed

definition NewDecrypterWithMaxAge :: "int \<Rightarrow> duration \<Rightarrow> decrypter" where
  "NewDecrypterWithMaxAge level maxAge =
     \<lparr>de_level = level, de_maxAge = maxAge, de_seen = [], de_seenSeq = []\<rparr>"

definition NewDecrypter :: "int \<Rightarrow> decrypter" where
  "NewDecrypter level = \<lparr>de_level = level, de_maxAge = defaultMaxAge, de_seen = [], de_seenSeq = []\<rparr>"

definition encodeTimestamp :: "int \<Rightarrow> bytes" where
  "encodeTimestamp ts = be64 (of_int ts)"

definition hy_Encrypt ::
    "crypto \<Rightarrow> int \<Rightarrow> bytes \<Rightarrow> bytes \<Rightarrow> gotime \<Rightarrow> entropy \<Rightarrow> (hybrid_error, encrypted \<times> entropy) result" where
  "hy_Encrypt cr level ekBytes plaintext now e =
     (case kem_ParseEncapsulationKey cr level ekBytes of
        Ok ek \<Rightarrow>
          (case kem_Encapsulate cr (Some ek) e of
             Ok (ss, kemCT, e1) \<Rightarrow>
               (if length ss < keySize then Panic
                else let aesKey = take keySize ss in
                  case rand_read nonceSize e1 of
                    None \<Rightarrow> Err HyNonce
                  | Some (nonce, e2) \<Rightarrow>
                      (if nonce = replicate nonceSize 0 then Err HyZeroNonce
                       else if \<not> aes_key_ok aesKey then Err HyAES
                       else let createdAt = time_Unix now in
                         Ok (\<lparr>en_KEMCiphertext = kemCT, en_Nonce = nonce,
                              en_Data = gcm_seal cr aesKey nonce plaintext (encodeTimestamp createdAt),
                              en_CreatedAt = createdAt\<rparr>, e2)))
           | Err er \<Rightarrow> Err (HyEncapsulate er)
           | Panic \<Rightarrow> Panic)
      | Err er \<Rightarrow> Err (HyParseEK er)
      | Panic \<Rightarrow> Panic)"

text \<open>The part of \<open>Decrypt\<close> before the cache: parsing, decapsulation, authentication.\<close>

definition open_encrypted :: "crypto \<Rightarrow> int \<Rightarrow> bytes \<Rightarrow> encrypted \<Rightarrow> (hybrid_error, bytes) result" where
  "open_encrypted cr level dkBytes enc =
     (if length (en_KEMCiphertext enc) = 0 \<or> length (en_Nonce enc) = 0 \<or> length (en_Data enc) = 0
      then Err HyDecryptionFailed
      else case kem_ParseDecapsulationKey level dkBytes of
        Ok dk \<Rightarrow>
          (case kem_Decapsulate cr (Some dk) (en_KEMCiphertext enc) of
             Ok ss \<Rightarrow>
               (if length ss < keySize then Panic
                else let aesKey = take keySize ss in
                  if length (en_Nonce enc) \<noteq> nonceSize then Err HyDecryptionFailed
                  else if en_Nonce enc = replicate nonceSize 0 then Err HyDecryptionFailed
                  else if \<not> aes_key_ok aesKey then Err HyDecryptionFailed
                  else case gcm_open cr aesKey (en_Nonce enc) (en_Data enc) (encodeTimestamp (en_CreatedAt enc)) of
                    None \<Rightarrow> Err HyDecryptionFailed
                  | Some plaintext \<Rightarrow> Ok plaintext)
           | Err er \<Rightarrow> Err HyDecryptionFailed
           | Panic \<Rightarrow> Panic)
      | Err er \<Rightarrow> Err HyDecryptionFailed
      | Panic \<Rightarrow> Panic)"

definition fresh_enough :: "duration \<Rightarrow> gotime \<Rightarrow> int \<Rightarrow> bool" where
  "fresh_enough maxAge now createdAt \<longleftrightarrow>
     \<not> (maxAge > 0 \<and>
        (createdAt \<le> 0 \<or> time_Sub now (time_ofUnix createdAt) > maxAge \<or> createdAt > time_Unix now + 60))"

definition evict_half :: "decrypter \<Rightarrow> decrypter" where
  "evict_half d =
     d\<lparr>de_seen := fold gm_del (take (seenCacheMax div 2) (de_seenSeq d)) (de_seen d),
       de_seenSeq := drop (seenCacheMax div 2) (de_seenSeq d)\<rparr>"

definition remember :: "string \<Rightarrow> decrypter \<Rightarrow> decrypter" where
  "remember k d =
     (let d1 = d\<lparr>de_seen := gm_put k () (de_seen d), de_seenSeq := de_seenSeq d @ [k]\<rparr>
      in if length (de_seen d1) > seenCacheMax then evict_half d1 else d1)"

definition hy_Decrypt ::
    "crypto \<Rightarrow> bytes \<Rightarrow> encrypted option \<Rightarrow> gotime \<Rightarrow> decrypter \<Rightarrow> (hybrid_error, bytes) result \<times> decrypter" where
  "hy_Decrypt cr dkBytes encp now d =
     (case encp of
        None \<Rightarrow> (Err HyDecryptionFailed, d)
      | Some enc \<Rightarrow>
          (case open_encrypted cr (de_level d) dkBytes enc of
             Ok plaintext \<Rightarrow>
               (if \<not> fresh_enough (de_maxAge d) now (en_CreatedAt enc) then (Err HyDecryptionFailed, d)
                else
                  (let cacheKey = bytes_str (en_KEMCiphertext enc) in
                   if gm_get (de_seen d) cacheKey \<noteq> None then (Err HyDecryptionFailed, d)
                   else (Ok plaintext, remember cacheKey d)))
           | Err er \<Rightarrow> (Err er, d)
           | Panic \<Rightarrow> (Panic, d)))"

section \<open>The cache\<close>

text \<open>The map and the slice hold the same keys, and never more than the maximum.\<close>

definition cache_inv :: "decrypter \<Rightarrow> bool" where
  "cache_inv d \<longleftrightarrow>
     distinct (de_seenSeq d) \<and> (\<forall>k. gm_get (de_seen d) k \<noteq> None \<longleftrightarrow> k \<in> set (de_seenSeq d)) \<and>
     gm_ok (de_seen d) \<and> length (de_seenSeq d) \<le> seenCacheMax"

lemma gm_length: "gm_ok m \<Longrightarrow> length m = card (dom (gm_get m))"
  by (simp add: gm_ok_def dom_map_of_conv_image_fst distinct_card flip: set_map)

lemma cache_length:
  assumes "distinct q" "\<forall>k. gm_get m k \<noteq> None \<longleftrightarrow> k \<in> set q" "gm_ok m"
  shows "length m = length q"
proof -
  have "dom (gm_get m) = set q" using assms(2) by auto
  then show ?thesis using gm_length [OF assms(3)] assms(1) by (simp add: distinct_card)
qed

lemma fold_del: "gm_get (fold gm_del ks m) k = (if k \<in> set ks then None else gm_get m k)"
  by (induction ks arbitrary: m) auto

lemma fold_del_ok: "gm_ok m \<Longrightarrow> gm_ok (fold gm_del ks m)"
  by (induction ks arbitrary: m) auto

lemma distinct_take_drop: "distinct q \<Longrightarrow> k \<in> set q \<Longrightarrow> k \<notin> set (take n q) \<longleftrightarrow> k \<in> set (drop n q)"
  by (metis UnE append_take_drop_id disjoint_iff distinct_append set_append)

lemma remember_spec:
  assumes "cache_inv d" "gm_get (de_seen d) k = None"
  shows "cache_inv (remember k d)"
    and "de_seenSeq (remember k d) =
      (if length (de_seenSeq d) < seenCacheMax then de_seenSeq d @ [k]
       else drop (seenCacheMax div 2) (de_seenSeq d @ [k]))"
    and "de_level (remember k d) = de_level d \<and> de_maxAge (remember k d) = de_maxAge d"
proof -
  let ?q = "de_seenSeq d @ [k]" and ?m = "gm_put k () (de_seen d)"
  have "k \<notin> set (de_seenSeq d)" using assms by (metis cache_inv_def)
  then have q: "distinct ?q" "\<forall>j. gm_get ?m j \<noteq> None \<longleftrightarrow> j \<in> set ?q" "gm_ok ?m"
    using assms(1) by (auto simp: cache_inv_def)
  then have len: "length ?m = Suc (length (de_seenSeq d))" using cache_length [OF q] by simp
  have d2: "de_seenSeq (remember k d) = (if length (de_seenSeq d) < seenCacheMax then ?q else drop (seenCacheMax div 2) ?q)"
    "de_seen (remember k d) = (if length (de_seenSeq d) < seenCacheMax then ?m
       else fold gm_del (take (seenCacheMax div 2) ?q) ?m)"
    using len by (simp_all add: remember_def evict_half_def Let_def)
  show "de_seenSeq (remember k d) = (if length (de_seenSeq d) < seenCacheMax then ?q else drop (seenCacheMax div 2) ?q)"
    by (rule d2)
  have le: "length (de_seenSeq d) \<le> seenCacheMax" using assms(1) by (simp add: cache_inv_def)
  show "cache_inv (remember k d)"
  proof (cases "length (de_seenSeq d) < seenCacheMax")
    case True
    then show ?thesis using q by (simp add: cache_inv_def d2)
  next
    case False
    have "gm_get (fold gm_del (take n ?q) ?m) j \<noteq> None \<longleftrightarrow> j \<in> set (drop n ?q)" for n j
    proof (cases "j \<in> set ?q")
      case True
      then show ?thesis using q(2) distinct_take_drop [OF q(1) True, of n] by (simp only: fold_del) auto
    next
      case False
      then have "j \<notin> set (drop n ?q)" by (meson in_set_dropD)
      moreover have "gm_get ?m j = None" using False q(2) by blast
      ultimately show ?thesis by (simp only: fold_del) simp
    qed
    then show ?thesis
      using False q le
      by (simp only: cache_inv_def d2 if_False distinct_drop fold_del_ok length_drop length_append)
        (simp add: seenCacheMax_def)
  qed
  show "de_level (remember k d) = de_level d \<and> de_maxAge (remember k d) = de_maxAge d"
    by (simp add: remember_def evict_half_def Let_def)
qed

type_synonym decrypt_call = "bytes \<times> encrypted option \<times> gotime"

definition decrypt_step :: "crypto \<Rightarrow> decrypt_call \<Rightarrow> decrypter \<Rightarrow> decrypter" where
  "decrypt_step cr x d = (case x of (dk, enc, now) \<Rightarrow> snd (hy_Decrypt cr dk enc now d))"

lemma hy_Decrypt_cases:
  assumes "hy_Decrypt cr dk encp now d = (r, d')"
  obtains (refused) "\<not> is_ok r" "d' = d"
  | (opened) enc p where "encp = Some enc" "r = Ok p" "open_encrypted cr (de_level d) dk enc = Ok p"
      "fresh_enough (de_maxAge d) now (en_CreatedAt enc)"
      "gm_get (de_seen d) (bytes_str (en_KEMCiphertext enc)) = None"
      "d' = remember (bytes_str (en_KEMCiphertext enc)) d"
proof (cases "\<exists>enc p. encp = Some enc \<and> open_encrypted cr (de_level d) dk enc = Ok p \<and>
    fresh_enough (de_maxAge d) now (en_CreatedAt enc) \<and> gm_get (de_seen d) (bytes_str (en_KEMCiphertext enc)) = None")
  case True
  then obtain enc p where ok: "encp = Some enc" "open_encrypted cr (de_level d) dk enc = Ok p"
    "fresh_enough (de_maxAge d) now (en_CreatedAt enc)" "gm_get (de_seen d) (bytes_str (en_KEMCiphertext enc)) = None"
    by blast
  show thesis by (rule opened [OF ok(1) _ ok(2-4)]) (use assms ok in \<open>auto simp: hy_Decrypt_def Let_def\<close>)
next
  case False
  show thesis
    by (rule refused)
      (use False assms in \<open>auto simp: hy_Decrypt_def Let_def is_ok_iff split: option.splits result.splits if_splits\<close>)
qed

interpretation decrypting: op_system "decrypt_step cr" cache_inv
    "\<lambda>d d'. de_level d' = de_level d \<and> de_maxAge d' = de_maxAge d" for cr
proof unfold_locales
  fix d :: decrypter and x :: decrypt_call
  obtain dk enc now where x: "x = (dk, enc, now)" by (cases x)
  obtain r d' where r: "hy_Decrypt cr dk enc now d = (r, d')" by fastforce
  assume inv: "cache_inv d"
  from r show "cache_inv (decrypt_step cr x d)"
    by (cases rule: hy_Decrypt_cases) (use inv r x in \<open>auto simp: decrypt_step_def remember_spec\<close>)
  from r show "de_level (decrypt_step cr x d) = de_level d \<and> de_maxAge (decrypt_step cr x d) = de_maxAge d"
    by (cases rule: hy_Decrypt_cases) (use inv r x in \<open>auto simp: decrypt_step_def remember_spec\<close>)
qed auto

text \<open>A key that at most \<open>n\<close> later keys have followed.\<close>

definition recent :: "nat \<Rightarrow> string \<Rightarrow> decrypter \<Rightarrow> bool" where
  "recent n k d \<longleftrightarrow> (\<exists>a b. de_seenSeq d = a @ k # b \<and> length b \<le> n)"

lemma recent_remember:
  assumes "cache_inv d" "gm_get (de_seen d) j = None" "recent n k d" "n < seenCacheMax div 2"
  shows "recent (Suc n) k (remember j d)"
proof -
  obtain a b where ab: "de_seenSeq d = a @ k # b" "length b \<le> n" using assms(3) by (auto simp: recent_def)
  show ?thesis
  proof (cases "length (de_seenSeq d) < seenCacheMax")
    case True
    then have "de_seenSeq (remember j d) = a @ k # (b @ [j])"
      using remember_spec(2) [OF assms(1,2)] ab by simp
    then show ?thesis using ab(2) unfolding recent_def by fastforce
  next
    case False
    then have "length a + 1 + length b = seenCacheMax" using assms(1) ab by (simp add: cache_inv_def)
    then have "seenCacheMax div 2 \<le> length a" using ab(2) assms(4) by (simp add: seenCacheMax_def)
    then have "drop (seenCacheMax div 2) (de_seenSeq d @ [j]) = drop (seenCacheMax div 2) a @ k # (b @ [j])"
      using ab by simp
    then have "de_seenSeq (remember j d) = drop (seenCacheMax div 2) a @ k # (b @ [j])"
      using remember_spec(2) [OF assms(1,2)] False by simp
    then show ?thesis using ab(2) unfolding recent_def by fastforce
  qed
qed

lemma recent_step:
  assumes "cache_inv d" "recent n k d" "n < seenCacheMax div 2"
  shows "recent (Suc n) k (decrypt_step cr x d)"
proof -
  obtain dk enc now where x: "x = (dk, enc, now)" by (cases x)
  obtain r d' where r: "hy_Decrypt cr dk enc now d = (r, d')" by fastforce
  then show ?thesis
  proof (cases rule: hy_Decrypt_cases)
    case refused
    then show ?thesis using assms(2) r x by (force simp: decrypt_step_def recent_def)
  next
    case opened
    then show ?thesis using recent_remember [OF assms(1) _ assms(2,3)] r x by (simp add: decrypt_step_def)
  qed
qed

lemma recent_run:
  "cache_inv d \<Longrightarrow> recent n k d \<Longrightarrow> n + length xs \<le> seenCacheMax div 2 \<Longrightarrow>
     recent (n + length xs) k (fold (decrypt_step cr) xs d)"
proof (induction xs arbitrary: d n)
  case (Cons x xs)
  have le: "n + Suc (length xs) \<le> seenCacheMax div 2" using Cons.prems(3) by (simp only: length_Cons)
  then have "n < seenCacheMax div 2" by linarith
  then have "recent (Suc n) k (decrypt_step cr x d)" by (rule recent_step [OF Cons.prems(1,2)])
  moreover have "cache_inv (decrypt_step cr x d)" using Cons.prems(1) by (rule decrypting.step_inv)
  moreover have "Suc n + length xs \<le> seenCacheMax div 2" using le by linarith
  ultimately have "recent (Suc n + length xs) k (fold (decrypt_step cr) xs (decrypt_step cr x d))"
    by (intro Cons.IH)
  then show ?case by simp
qed simp

section \<open>Encryption and decryption\<close>

lemma hy_Encrypt_open:
  assumes laws: "kem_correct cr" "gcm_correct cr" and key: "dk_ok dk"
    and enc: "hy_Encrypt cr (dk_Level dk) (ek_Bytes (dk_EncapsulationKey cr dk)) plaintext now e = Ok (enc, e')"
  shows "open_encrypted cr (dk_Level dk) (dk_Bytes dk) enc = Ok plaintext" "en_CreatedAt enc = time_Unix now"
proof -
  have ek: "kem_ParseEncapsulationKey cr (dk_Level dk) (ek_Bytes (dk_EncapsulationKey cr dk)) = Ok (dk_EncapsulationKey cr dk)"
    by (rule kem_ParseEncapsulationKey_Bytes [OF laws(1) key])
  obtain ss ct e1 where encap: "kem_Encapsulate cr (Some (dk_EncapsulationKey cr dk)) e = Ok (ss, ct, e1)"
    using enc by (auto simp: hy_Encrypt_def ek split: result.splits)
  note decap = kem_Encapsulate_Decapsulate [OF laws(1) key encap]
  have ss: "length ss = keySize" using decap(2) by (simp add: keySize_def)
  obtain nonce e2 where nonce: "rand_read nonceSize e1 = Some (nonce, e2)" "nonce \<noteq> replicate nonceSize 0"
    using enc by (auto simp: hy_Encrypt_def ek encap ss Let_def split: option.splits if_splits)
  have enc_eq: "enc = \<lparr>en_KEMCiphertext = ct, en_Nonce = nonce,
      en_Data = gcm_seal cr ss nonce plaintext (encodeTimestamp (time_Unix now)), en_CreatedAt = time_Unix now\<rparr>"
    using enc nonce by (auto simp: hy_Encrypt_def ek encap ss Let_def split: if_splits)
  have data: "gcm_seal cr ss nonce plaintext ad \<noteq> []" for ad
    using gcm_correctD(2) [OF laws(2), of ss nonce plaintext ad] by auto
  have "length nonce = nonceSize" using nonce(1) by (rule rand_read_length)
  then show "open_encrypted cr (dk_Level dk) (dk_Bytes dk) enc = Ok plaintext" "en_CreatedAt enc = time_Unix now"
    using decap nonce(2) laws(2) key data ss
    by (auto simp: open_encrypted_def enc_eq Let_def nonceSize_def keySize_def)
qed

lemma hy_Decrypt_opened:
  "open_encrypted cr (de_level d) dk enc = Ok p \<Longrightarrow>
     hy_Decrypt cr dk (Some enc) now d =
       (if fresh_enough (de_maxAge d) now (en_CreatedAt enc) \<and>
           gm_get (de_seen d) (bytes_str (en_KEMCiphertext enc)) = None
        then (Ok p, remember (bytes_str (en_KEMCiphertext enc)) d) else (Err HyDecryptionFailed, d))"
  by (simp add: hy_Decrypt_def Let_def)

lemma fresh_enough_iff:
  assumes "0 < maxAge" "maxAge < 2 ^ 63 - 1"
  shows "fresh_enough maxAge now c \<longleftrightarrow> 0 < c \<and> c \<le> time_Unix now + 60 \<and> now - c * Second \<le> maxAge"
  using assms by (auto simp: fresh_enough_def time_Sub_def time_ofUnix_def)

section \<open>Properties\<close>

text \<open>C20. What was encrypted for a key decrypts to the plaintext, for a decrypter of the same level that
  has not seen the ciphertext, exactly within the freshness window (from a minute before the creation
  time to \<open>maxAge\<close> after it; always when \<open>maxAge\<close> is 0).\<close>

theorem hybrid_roundtrip:
  assumes "kem_correct cr" "gcm_correct cr" "dk_ok dk"
    and "hy_Encrypt cr (dk_Level dk) (ek_Bytes (dk_EncapsulationKey cr dk)) plaintext now e = Ok (enc, e')"
    and "de_level d = dk_Level dk" "gm_get (de_seen d) (bytes_str (en_KEMCiphertext enc)) = None"
    and "0 \<le> de_maxAge d" "de_maxAge d < 2 ^ 63 - 1"
  shows "fst (hy_Decrypt cr (dk_Bytes dk) (Some enc) t d) =
    (if de_maxAge d = 0 \<or> (0 < time_Unix now \<and> time_Unix now \<le> time_Unix t + 60 \<and>
          t - time_Unix now * Second \<le> de_maxAge d)
     then Ok plaintext else Err HyDecryptionFailed)"
proof -
  note enc = hy_Encrypt_open [OF assms(1-4)]
  have "fresh_enough (de_maxAge d) t (en_CreatedAt enc) \<longleftrightarrow> de_maxAge d = 0 \<or>
      (0 < time_Unix now \<and> time_Unix now \<le> time_Unix t + 60 \<and> t - time_Unix now * Second \<le> de_maxAge d)"
  proof (cases "de_maxAge d = 0")
    case True
    then show ?thesis by (simp add: fresh_enough_def)
  next
    case False
    then show ?thesis using fresh_enough_iff [of "de_maxAge d" t "en_CreatedAt enc"] assms(7,8) enc(2) by simp
  qed
  then show ?thesis using hy_Decrypt_opened [of cr d "dk_Bytes dk" enc plaintext t] enc(1) assms(5,6) by simp
qed

lemma recent_first:
  assumes "cache_inv d" "gm_get (de_seen d) k = None"
  shows "recent 0 k (remember k d)"
proof -
  have "length (de_seenSeq d) \<le> seenCacheMax" using assms(1) by (simp add: cache_inv_def)
  then have "drop (seenCacheMax div 2) (de_seenSeq d @ [k]) = drop (seenCacheMax div 2) (de_seenSeq d) @ k # []"
    if "\<not> length (de_seenSeq d) < seenCacheMax"
    using that by (simp add: seenCacheMax_def)
  then show ?thesis
    using remember_spec(2) [OF assms] unfolding recent_def by (cases "length (de_seenSeq d) < seenCacheMax") auto
qed

text \<open>A key that was remembered is in the cache after fewer than 50000 further calls.\<close>

lemma remembered_run:
  assumes "cache_inv d" "gm_get (de_seen d) k = None" "length xs < 50000"
  shows "gm_get (de_seen (fold (decrypt_step cr) xs (remember k d))) k \<noteq> None"
proof -
  note inv = remember_spec(1) [OF assms(1,2)]
  have "0 + length xs \<le> seenCacheMax div 2" using assms(3) by (simp add: seenCacheMax_def)
  then have "recent (0 + length xs) k (fold (decrypt_step cr) xs (remember k d))"
    by (rule recent_run [OF inv recent_first [OF assms(1,2)]])
  then have "k \<in> set (de_seenSeq (fold (decrypt_step cr) xs (remember k d)))" unfolding recent_def by fastforce
  moreover have "cache_inv (fold (decrypt_step cr) xs (remember k d))" by (rule decrypting.run_inv [OF inv])
  ultimately show ?thesis unfolding cache_inv_def by blast
qed

text \<open>C21. A KEM ciphertext that was accepted is not accepted again, under any key, nonce, data or claimed
  creation time, within the next 50000 calls.\<close>

theorem hybrid_replay:
  assumes "cache_inv d" and "hy_Decrypt cr dk (Some enc) now d = (Ok p, d1)"
    and "length xs < 50000" and "en_KEMCiphertext enc' = en_KEMCiphertext enc"
  shows "\<not> is_ok (fst (hy_Decrypt cr dk' (Some enc') now' (fold (decrypt_step cr) xs d1)))"
proof -
  let ?k = "bytes_str (en_KEMCiphertext enc)"
  have d1: "gm_get (de_seen d) ?k = None" "d1 = remember ?k d"
    using assms(2) by (auto elim: hy_Decrypt_cases)
  have "gm_get (de_seen (fold (decrypt_step cr) xs d1)) ?k \<noteq> None"
    using remembered_run [OF assms(1) d1(1) assms(3)] d1(2) by simp
  then show ?thesis using assms(4) by (auto simp: hy_Decrypt_def Let_def split: result.splits if_splits)
qed

text \<open>The cache stays bounded and consistent over any run: the map and the slice hold the same keys,
  each once, and at most 100000 of them; level and window never change.\<close>

theorem hybrid_cache_bound:
  "let d = fold (decrypt_step cr) xs (NewDecrypterWithMaxAge level maxAge) in
     length (de_seen d) \<le> 100000 \<and> length (de_seenSeq d) = length (de_seen d) \<and>
     distinct (de_seenSeq d) \<and> dom (gm_get (de_seen d)) = set (de_seenSeq d) \<and>
     de_level d = level \<and> de_maxAge d = maxAge"
proof -
  define d where "d = fold (decrypt_step cr) xs (NewDecrypterWithMaxAge level maxAge)"
  have inv0: "cache_inv (NewDecrypterWithMaxAge level maxAge)" by (simp add: cache_inv_def NewDecrypterWithMaxAge_def)
  have inv: "cache_inv d" unfolding d_def using inv0 by (rule decrypting.run_inv)
  have len: "length (de_seen d) = length (de_seenSeq d)"
    by (rule cache_length) (use inv in \<open>auto simp only: cache_inv_def\<close>)
  have dom: "dom (gm_get (de_seen d)) = set (de_seenSeq d)" using inv unfolding cache_inv_def dom_def by blast
  have "length (de_seenSeq d) \<le> 100000" "distinct (de_seenSeq d)"
    using inv by (auto simp only: cache_inv_def seenCacheMax_def)
  moreover have "de_level d = level \<and> de_maxAge d = maxAge"
    unfolding d_def using decrypting.run_ext [OF inv0, of cr xs] by (simp add: NewDecrypterWithMaxAge_def)
  ultimately show ?thesis using len dom unfolding d_def [symmetric] Let_def by simp
qed

section \<open>Runs on the concrete instance\<close>

lemma demo_encrypt:
  obtains enc e' where "hy_Encrypt toy_crypto (dk_Level (DK768 (replicate 64 1)))
    (ek_Bytes (dk_EncapsulationKey toy_crypto (DK768 (replicate 64 1)))) [4, 2] (100 * Second) (replicate 44 3) = Ok (enc, e')"
    "dk_ok (DK768 (replicate 64 1))"
proof -
  have "is_ok (hy_Encrypt toy_crypto (dk_Level (DK768 (replicate 64 1)))
    (ek_Bytes (dk_EncapsulationKey toy_crypto (DK768 (replicate 64 1)))) [4, 2] (100 * Second) (replicate 44 3))"
    by (simp add: hy_Encrypt_def kem_ParseEncapsulationKey_def kem_Encapsulate_def rand_read_def toy_crypto_def
        keySize_def nonceSize_def aes_key_ok_def Let_def)
  then show thesis using that by (auto simp: is_ok_iff dk_ok_def)
qed

theorem hybrid_roundtrip_witness:
  "\<exists>enc e'. hy_Encrypt toy_crypto 768 (toy_fit 40 (replicate 64 1)) [4, 2] (100 * Second) (replicate 44 3) = Ok (enc, e') \<and>
     fst (hy_Decrypt toy_crypto (replicate 64 1) (Some enc) (130 * Second) (NewDecrypter 768)) = Ok [4, 2] \<and>
     fst (hy_Decrypt toy_crypto (replicate 64 1) (Some enc) (500 * Second) (NewDecrypter 768)) = Err HyDecryptionFailed"
proof -
  obtain enc e' where enc: "hy_Encrypt toy_crypto (dk_Level (DK768 (replicate 64 1)))
    (ek_Bytes (dk_EncapsulationKey toy_crypto (DK768 (replicate 64 1)))) [4, 2] (100 * Second) (replicate 44 3) = Ok (enc, e')"
    and dk: "dk_ok (DK768 (replicate 64 1))" by (rule demo_encrypt)
  have ek: "ek_Bytes (dk_EncapsulationKey toy_crypto (DK768 (replicate 64 1))) = toy_fit 40 (replicate 64 1)"
    by (simp add: toy_crypto_def)
  note rt = hybrid_roundtrip [OF toy_kem_correct toy_gcm_correct dk enc, of "NewDecrypter 768"]
  have "fst (hy_Decrypt toy_crypto (replicate 64 1) (Some enc) (130 * Second) (NewDecrypter 768)) = Ok [4, 2]"
    "fst (hy_Decrypt toy_crypto (replicate 64 1) (Some enc) (500 * Second) (NewDecrypter 768)) = Err HyDecryptionFailed"
    using rt [of "130 * Second"] rt [of "500 * Second"]
    by (simp_all add: NewDecrypter_def defaultMaxAge_def time_Unix_def)
  then show ?thesis using enc ek by auto
qed

theorem hybrid_replay_witness:
  "\<exists>enc p d1. hy_Decrypt toy_crypto (replicate 64 1) (Some enc) (130 * Second) (NewDecrypter 768) = (Ok p, d1) \<and>
     \<not> is_ok (fst (hy_Decrypt toy_crypto (replicate 64 1) (Some enc) (131 * Second)
       (fold (decrypt_step toy_crypto) [([], None, 0)] d1)))"
proof -
  obtain enc e' where enc: "hy_Encrypt toy_crypto (dk_Level (DK768 (replicate 64 1)))
    (ek_Bytes (dk_EncapsulationKey toy_crypto (DK768 (replicate 64 1)))) [4, 2] (100 * Second) (replicate 44 3) = Ok (enc, e')"
    and dk: "dk_ok (DK768 (replicate 64 1))" by (rule demo_encrypt)
  have "open_encrypted toy_crypto (de_level (NewDecrypter 768)) (replicate 64 1) enc = Ok [4, 2]"
    "en_CreatedAt enc = 100"
    using hy_Encrypt_open [OF toy_kem_correct toy_gcm_correct dk enc] by (simp_all add: NewDecrypter_def time_Unix_def)
  then have "\<exists>d1. hy_Decrypt toy_crypto (replicate 64 1) (Some enc) (130 * Second) (NewDecrypter 768) = (Ok [4, 2], d1)"
    using hy_Decrypt_opened [of toy_crypto "NewDecrypter 768" "replicate 64 1" enc "[4, 2]" "130 * Second"]
    by (simp add: NewDecrypter_def defaultMaxAge_def fresh_enough_iff time_Unix_def)
  then obtain d1 where d1: "hy_Decrypt toy_crypto (replicate 64 1) (Some enc) (130 * Second) (NewDecrypter 768) = (Ok [4, 2], d1)"
    by blast
  have "cache_inv (NewDecrypter 768)" by (simp add: cache_inv_def NewDecrypter_def)
  from hybrid_replay [OF this d1, of "[([], None, 0)]" enc] d1 show ?thesis
    by (intro exI [of _ enc] exI [of _ "[4, 2]"] exI [of _ d1] conjI) simp_all
qed

end
