(* ===== verification/Rfc3339.thy ===== *)
theory Rfc3339
  imports Json
begin

text \<open>
  The text form of \<open>time.Time\<close> in JSON (RFC 3339 in UTC with as many fractional digits as needed), as
  package \<open>time\<close> writes and reads it, with the proleptic Gregorian calendar it rests on. Writing fails
  for years outside 0 to 9999; reading also accepts a numeric zone offset. Times are nanoseconds since
  1970; an instant read from a text with an offset keeps only the instant.
\<close>

section \<open>The calendar\<close>

definition leap_year :: "nat \<Rightarrow> bool" where
  "leap_year y \<longleftrightarrow> y mod 4 = 0 \<and> y mod 100 \<noteq> 0 \<or> y mod 400 = 0"

definition year_len :: "nat \<Rightarrow> nat" where
  "year_len y = (if leap_year y then 366 else 365)"

definition months :: "nat \<Rightarrow> nat list" where
  "months y = [31, if leap_year y then 29 else 28, 31, 30, 31, 30, 31, 31, 30, 31, 30, 31]"

text \<open>Year and day of the year, counted from the start of a given year.\<close>

function year_from :: "nat \<Rightarrow> nat \<Rightarrow> nat \<times> nat" where
  "year_from y n = (if n < year_len y then (y, n) else year_from (Suc y) (n - year_len y))"
  by pat_completeness auto
termination by (relation "measure snd") (auto simp: year_len_def split: if_splits)

declare year_from.simps [simp del]

fun days_before :: "nat \<Rightarrow> nat" where
  "days_before 0 = 0"
| "days_before (Suc y) = days_before y + year_len y"

fun pick :: "nat list \<Rightarrow> nat \<Rightarrow> nat \<times> nat" where
  "pick [] n = (0, n)"
| "pick (l # ls) n = (if n < l then (0, n) else (case pick ls (n - l) of (i, r) \<Rightarrow> (Suc i, r)))"

text \<open>Days from 0000-01-01 to 1970-01-01.\<close>

definition unix_day :: int where "unix_day = 719528"

definition day_number :: "nat \<Rightarrow> nat \<Rightarrow> nat \<Rightarrow> int" where
  "day_number y m d = int (days_before y) + int (sum_list (take (m - 1) (months y))) + int d - 1 - unix_day"

section \<open>Writing\<close>

fun fixed :: "nat \<Rightarrow> nat \<Rightarrow> string" where
  "fixed 0 n = []"
| "fixed (Suc k) n = fixed k (n div 10) @ [char_of (48 + n mod 10)]"

definition frac_text :: "nat \<Rightarrow> string" where
  "frac_text ns = (if ns = 0 then [] else CHR ''.'' # trim_right_set (fixed 9 ns) ''0'')"

definition date_text :: "nat \<Rightarrow> nat \<Rightarrow> nat \<Rightarrow> string" where
  "date_text y m d = fixed 4 y @ ''-'' @ fixed 2 m @ ''-'' @ fixed 2 d"

definition clock_text :: "nat \<Rightarrow> string" where
  "clock_text sod = fixed 2 (sod div 3600) @ '':'' @ fixed 2 (sod div 60 mod 60) @ '':'' @ fixed 2 (sod mod 60)"

definition rfc3339 :: "gotime \<Rightarrow> string option" where
  "rfc3339 t =
     (let s = t div Second; ns = nat (t mod Second); n = s div 86400 + unix_day; sod = nat (s mod 86400) in
      if n < 0 then None
      else case year_from 0 (nat n) of (y, r) \<Rightarrow>
        if y > 9999 then None
        else case pick (months y) r of (m, d) \<Rightarrow>
          Some (date_text y (m + 1) (d + 1) @ ''T'' @ clock_text sod @ frac_text ns @ ''Z''))"

section \<open>Reading\<close>

definition take_num :: "nat \<Rightarrow> nat \<Rightarrow> nat \<Rightarrow> string \<Rightarrow> (nat \<times> string) option" where
  "take_num k lo hi s =
     (if length s < k \<or> \<not> list_all is_digit (take k s) then None
      else let v = digits_val (take k s) in if lo \<le> v \<and> v \<le> hi then Some (v, drop k s) else None)"

definition take_char :: "char \<Rightarrow> string \<Rightarrow> string option" where
  "take_char c s = (case s of [] \<Rightarrow> None | d # r \<Rightarrow> if d = c then Some r else None)"

definition take_frac :: "string \<Rightarrow> nat \<times> string" where
  "take_frac s =
     (case s of
        c # r \<Rightarrow>
          (let ds = takeWhile is_digit r in
           if c = CHR ''.'' \<and> ds \<noteq> [] then (digits_val (take 9 (ds @ replicate 9 (CHR ''0''))), dropWhile is_digit r)
           else (0, s))
      | [] \<Rightarrow> (0, s))"

definition take_zone :: "string \<Rightarrow> int option" where
  "take_zone s =
     (if s = ''Z'' then Some 0
      else if length s \<noteq> 6 \<or> (hd s \<noteq> CHR ''+'' \<and> hd s \<noteq> CHR ''-'') then None
      else case take_num 2 0 23 (tl s) of
        None \<Rightarrow> None
      | Some (hr, r) \<Rightarrow>
          (case Option.bind (take_char CHR '':'' r) (take_num 2 0 59) of
             None \<Rightarrow> None
           | Some (mm, r') \<Rightarrow>
               (let off = int ((hr * 60 + mm) * 60) in Some (if hd s = CHR ''-'' then - off else off))))"

definition parse_rfc3339 :: "string \<Rightarrow> gotime option" where
  "parse_rfc3339 s =
     Option.bind (take_num 4 0 9999 s) (\<lambda>(y, s).
     Option.bind (Option.bind (take_char CHR ''-'' s) (take_num 2 1 12)) (\<lambda>(m, s).
     Option.bind (Option.bind (take_char CHR ''-'' s) (take_num 2 1 (months y ! (m - 1)))) (\<lambda>(d, s).
     Option.bind (Option.bind (take_char CHR ''T'' s) (take_num 2 0 23)) (\<lambda>(hh, s).
     Option.bind (Option.bind (take_char CHR '':'' s) (take_num 2 0 59)) (\<lambda>(mi, s).
     Option.bind (Option.bind (take_char CHR '':'' s) (take_num 2 0 59)) (\<lambda>(ss, s).
     case take_frac s of (ns, s) \<Rightarrow>
     Option.bind (take_zone s) (\<lambda>off.
       Some ((day_number y m d * 86400 + int (hh * 3600 + mi * 60 + ss) - off) * Second + int ns))))))))"

text \<open>As a JSON value and as a struct field; the zero \<open>time.Time\<close> is the start of year 1.\<close>

definition zero_time :: gotime where "zero_time = - 62135596800 * Second"

definition enc_time :: "gotime \<Rightarrow> jval option" where
  "enc_time t = map_option JStr (rfc3339 t)"

fun as_time :: "jval \<Rightarrow> gotime option" where
  "as_time (JStr s) = parse_rfc3339 s"
| "as_time _ = None"

abbreviation "time_field \<equiv> get_field as_time zero_time"

section \<open>The round trip\<close>

lemma year_from_spec:
  "year_from y n = (y', r) \<Longrightarrow> days_before y + n = days_before y' + r \<and> r < year_len y' \<and> y \<le> y'"
proof (induction y n arbitrary: y' r rule: year_from.induct)
  case (1 y n)
  show ?case
  proof (cases "n < year_len y")
    case True
    then show ?thesis using 1 by (simp add: year_from.simps [of y n])
  next
    case False
    then have "days_before (Suc y) + (n - year_len y) = days_before y' + r \<and> r < year_len y' \<and> Suc y \<le> y'"
      using 1 by (simp add: year_from.simps [of y n])
    then show ?thesis using False by auto
  qed
qed

lemma days_before_ge: "365 * y \<le> days_before y"
  by (induction y) (auto simp: year_len_def)

lemma pick_spec:
  "n < sum_list ls \<Longrightarrow> pick ls n = (i, r) \<Longrightarrow> i < length ls \<and> r < ls ! i \<and> sum_list (take i ls) + r = n"
proof (induction ls arbitrary: n i r)
  case (Cons l ls)
  show ?case
  proof (cases "n < l")
    case False
    then obtain j where j: "pick ls (n - l) = (j, r)" "i = Suc j" using Cons.prems by (auto split: prod.splits)
    have "n - l < sum_list ls" using False Cons.prems(1) by auto
    from Cons.IH [OF this j(1)] have "j < length ls" "r < ls ! j" "sum_list (take j ls) + r = n - l" by auto
    then show ?thesis using False j(2) by simp
  qed (use Cons.prems in auto)
qed simp

lemma sum_months: "sum_list (months y) = year_len y"
  by (simp add: months_def year_len_def)

lemma length_months [simp]: "length (months y) = 12"
  by (simp add: months_def)

lemma month_len_le: "m < 12 \<Longrightarrow> months y ! m \<le> 31"
proof -
  assume "m < 12"
  then have "months y ! m \<in> set (months y)" by simp
  then show ?thesis by (auto simp: months_def split: if_splits)
qed

lemma length_fixed [simp]: "length (fixed k n) = k"
  by (induction k arbitrary: n) auto

lemma is_digit_char: "n < 10 \<Longrightarrow> is_digit (char_of (48 + n))" "n < 10 \<Longrightarrow> code (char_of (48 + n)) = 48 + n"
  by (auto simp: is_digit_def)

lemma fixed_digits: "list_all is_digit (fixed k n)"
  by (induction k arbitrary: n) (auto simp: is_digit_char(1))

lemma digits_val_fixed: "n < 10 ^ k \<Longrightarrow> digits_val (fixed k n) = n"
proof (induction k arbitrary: n)
  case (Suc k)
  then have "n div 10 < 10 ^ k" by (auto simp: less_mult_imp_div_less)
  then show ?case using Suc by (simp add: digits_val_snoc is_digit_char(2))
qed (simp add: digits_val_def)

lemma take_num_fixed:
  "n < 10 ^ k \<Longrightarrow> lo \<le> n \<Longrightarrow> n \<le> hi \<Longrightarrow> take_num k lo hi (fixed k n @ s) = Some (n, s)"
  by (simp add: take_num_def fixed_digits digits_val_fixed)

lemma trim_zeros: "\<exists>k. ds = trim_right_set ds ''0'' @ replicate k (CHR ''0'')"
proof -
  let ?p = "\<lambda>c. c \<in> set ''0''"
  have "rev ds = takeWhile ?p (rev ds) @ dropWhile ?p (rev ds)" by simp
  then have "ds = rev (dropWhile ?p (rev ds)) @ rev (takeWhile ?p (rev ds))"
    by (metis rev_append rev_rev_ident)
  moreover have "takeWhile ?p (rev ds) = replicate (length (takeWhile ?p (rev ds))) (CHR ''0'')"
    by (rule replicate_eqI [symmetric, THEN sym]) (auto dest: set_takeWhileD)
  ultimately show ?thesis unfolding trim_right_set_def by (metis rev_replicate)
qed

lemma take_frac_text:
  assumes "ns < 10 ^ 9"
  shows "take_frac (frac_text ns @ ''Z'') = (ns, ''Z'')"
proof (cases "ns = 0")
  case False
  let ?t = "trim_right_set (fixed 9 ns) ''0''"
  obtain k where k: "fixed 9 ns = ?t @ replicate k (CHR ''0'')" using trim_zeros by blast
  have zeros: "digits_val (replicate k (CHR ''0'')) = 0" for k
    by (induction k) (auto simp: digits_val_def code_def)
  have ne: "?t \<noteq> []"
  proof
    assume "?t = []"
    then have "digits_val (fixed 9 ns) = 0" using k zeros by (metis append_Nil)
    then show False using digits_val_fixed [OF assms] False by simp
  qed
  have dig: "list_all is_digit ?t" using fixed_digits [of 9 ns] k by (metis list_all_append)
  have "length ?t + k = 9" using arg_cong [OF k, of length] by simp
  then have "take 9 (?t @ replicate 9 (CHR ''0'')) = fixed 9 ns"
    using k by (simp add: min_def) (metis add_diff_cancel_left')
  moreover have "takeWhile is_digit (?t @ ''Z'') = ?t" "dropWhile is_digit (?t @ ''Z'') = ''Z''"
    using dig by (auto simp: list_all_iff takeWhile_append dropWhile_append is_digit_def code_def)
  ultimately show ?thesis
    using ne digits_val_fixed [OF assms] False by (simp add: take_frac_def frac_text_def Let_def)
qed (simp add: take_frac_def frac_text_def)

lemma take_char_Cons [simp]: "take_char c (c # s) = Some s"
  by (simp add: take_char_def)

lemma parse_text:
  assumes "y \<le> 9999" "m < 12" "d < months y ! m" "sod < 86400" "ns < 10 ^ 9"
  shows "parse_rfc3339 (date_text y (m + 1) (d + 1) @ ''T'' @ clock_text sod @ frac_text ns @ ''Z'') =
    Some ((day_number y (m + 1) (d + 1) * 86400 + int sod) * Second + int ns)"
proof -
  have d: "d < 31" using assms(2,3) month_len_le [of m y] by linarith
  have "sod div 60 div 60 * 60 + sod div 60 mod 60 = sod div 60" by (rule div_mult_mod_eq)
  moreover have "sod div 60 * 60 + sod mod 60 = sod" by (rule div_mult_mod_eq)
  moreover have h: "sod div 3600 = sod div 60 div 60" by (simp add: div_mult2_eq [symmetric])
  ultimately have "sod div 3600 * 3600 + sod div 60 mod 60 * 60 + sod mod 60 = sod" by linarith
  then have clock: "Hour * int (sod div 3600) + Minute * int (sod div 60 mod 60) + int (sod mod 60) * Second = int sod * Second"
    by linarith
  have hh: "sod div 3600 < 24" using assms(4) by (simp add: less_mult_imp_div_less)
  have mm: "sod div 60 mod 60 < 60" "sod mod 60 < 60" by simp_all
  have num: "take_num 4 0 9999 (fixed 4 y @ s) = Some (y, s)"
    "take_num 2 1 12 (fixed 2 (m + 1) @ s) = Some (m + 1, s)"
    "take_num 2 1 (months y ! m) (fixed 2 (d + 1) @ s) = Some (d + 1, s)"
    "take_num 2 0 23 (fixed 2 (sod div 3600) @ s) = Some (sod div 3600, s)"
    "take_num 2 0 59 (fixed 2 (sod div 60 mod 60) @ s) = Some (sod div 60 mod 60, s)"
    "take_num 2 0 59 (fixed 2 (sod mod 60) @ s) = Some (sod mod 60, s)" for s
    using assms d hh mm by (simp_all add: take_num_fixed)
  show ?thesis
    unfolding parse_rfc3339_def date_text_def clock_text_def append_assoc num bind.bind_lunit prod.case
    by (simp add: num [simplified] take_frac_text [OF assms(5)] take_zone_def clock del: fixed.simps)
qed

lemma rfc3339_parse:
  assumes "rfc3339 t = Some s"
  shows "parse_rfc3339 s = Some t"
proof -
  define q where "q = t div Second"
  define n where "n = q div 86400 + unix_day"
  define sod where "sod = nat (q mod 86400)"
  obtain y r where y: "year_from 0 (nat n) = (y, r)" by fastforce
  obtain m d where md: "pick (months y) r = (m, d)" by fastforce
  have n: "0 \<le> n" "y \<le> 9999"
    and s: "s = date_text y (m + 1) (d + 1) @ ''T'' @ clock_text sod @ frac_text (nat (t mod Second)) @ ''Z''"
    using assms y md by (auto simp: rfc3339_def q_def [symmetric] n_def [symmetric] sod_def [symmetric] Let_def
        split: if_splits)
  have yr: "nat n = days_before y + r" "r < year_len y" using year_from_spec [OF y] by auto
  have pk: "m < 12" "d < months y ! m" "sum_list (take m (months y)) + d = r"
    using pick_spec [OF _ md] yr(2) by (auto simp: sum_months)
  have sod: "sod < 86400" "int sod = q mod 86400" by (auto simp: sod_def)
  have ns: "nat (t mod Second) < 10 ^ 9" "int (nat (t mod Second)) = t mod Second" by auto
  have "int (days_before y) + (int (sum_list (take m (months y))) + int d) = n"
    using yr(1) pk(3) n(1) by linarith
  then have day: "day_number y (m + 1) (d + 1) = q div 86400"
    unfolding day_number_def n_def by simp
  have "parse_rfc3339 s = Some ((q div 86400 * 86400 + q mod 86400) * Second + t mod Second)"
    unfolding s parse_text [OF n(2) pk(1,2) sod(1) ns(1)] day sod(2) ns(2) by (rule refl)
  also have "(q div 86400 * 86400 + q mod 86400) * Second + t mod Second = t"
    unfolding div_mult_mod_eq by (simp add: q_def)
  finally show ?thesis .
qed

lemma rfc3339_inj: "rfc3339 t = Some s \<Longrightarrow> rfc3339 u = Some s \<Longrightarrow> t = u"
  by (metis rfc3339_parse option.inject)

lemma rfc3339_ok:
  assumes "0 \<le> t" "t < 8000 * 365 * 86400 * Second"
  shows "\<exists>s. rfc3339 t = Some s"
proof -
  define n where "n = t div Second div 86400 + unix_day"
  have "t div Second div 86400 \<le> 8000 * 365" "0 \<le> t div Second div 86400" using assms by simp_all
  then have n: "0 \<le> n" "nat n \<le> 3639528" by (auto simp: n_def unix_day_def)
  obtain y r where y: "year_from 0 (nat n) = (y, r)" by fastforce
  have "365 * y \<le> nat n" using year_from_spec [OF y] days_before_ge [of y] by simp
  then have "\<not> y > 9999" using n(2) by simp
  then show ?thesis using n y by (auto simp: rfc3339_def n_def [symmetric] Let_def split: prod.splits)
qed

lemma rfc3339_ascii: "rfc3339 t = Some s \<Longrightarrow> list_all (\<lambda>c. code c < 0x80) s"
proof -
  have dig: "list_all (\<lambda>c. code c < 0x80) s" if "list_all is_digit s" for s
    using that by (auto simp: list_all_iff is_digit_def)
  have frac: "list_all (\<lambda>c. code c < 0x80) (frac_text ns)" for ns
  proof -
    obtain k where "fixed 9 ns = trim_right_set (fixed 9 ns) ''0'' @ replicate k (CHR ''0'')"
      using trim_zeros by blast
    then have "list_all is_digit (trim_right_set (fixed 9 ns) ''0'')"
      using fixed_digits [of 9 ns] by (metis list_all_append)
    then show ?thesis using dig by (simp add: frac_text_def code_def)
  qed
  have lits: "code (CHR ''-'') < 0x80" "code (CHR ''T'') < 0x80" "code (CHR '':'') < 0x80" "code (CHR ''Z'') < 0x80"
    by (simp_all add: code_def)
  assume "rfc3339 t = Some s"
  then obtain y m d sod ns where "s = date_text y m d @ ''T'' @ clock_text sod @ frac_text ns @ ''Z''"
    by (auto simp: rfc3339_def Let_def split: if_splits prod.splits)
  then show ?thesis
    by (simp add: date_text_def clock_text_def frac dig [OF fixed_digits] lits del: fixed.simps)
qed

lemma enc_time_back: "enc_time t = Some v \<Longrightarrow> json_wf v \<and> as_time (json_sanitize v) = Some t"
  by (auto simp: enc_time_def sanitize_ascii rfc3339_ascii rfc3339_parse)

lemma enc_time_JStr: "enc_time t = Some v \<Longrightarrow> \<exists>s. v = JStr s \<and> sanitize s = s \<and> parse_rfc3339 s = Some t"
  by (auto simp: enc_time_def sanitize_ascii rfc3339_ascii rfc3339_parse)

end
