(* ===== verification/JsonClean.thy ===== *)
theory JsonClean
  imports Json
begin

text \<open>
  What comes out of the decoder is clean: every string and member name of a decoded JSON value is valid
  UTF-8, so that writing and reading it again loses nothing. Trimming white space and filling struct
  fields keep that, and a value is decoded from a stream as \<open>json.Decoder\<close> does, which stops after it.
\<close>

definition clean :: "jval \<Rightarrow> bool" where
  "clean v \<longleftrightarrow> json_sanitize v = v"

lemma clean_simps [simp]:
  "clean JNull" "clean (JBool b)" "clean (JInt i)" "clean (JFloat s)" "clean (JStr s) \<longleftrightarrow> valid_utf8 s"
  "clean (JArr vs) \<longleftrightarrow> list_all clean vs"
  "clean (JObj kvs) \<longleftrightarrow> list_all (\<lambda>(k, v). valid_utf8 k \<and> clean v) kvs"
proof -
  have "map json_sanitize vs = vs \<longleftrightarrow> list_all clean vs" by (induction vs) (auto simp: clean_def)
  then show "clean (JArr vs) \<longleftrightarrow> list_all clean vs" by (simp add: clean_def)
  have "map (\<lambda>(k, v). (sanitize k, json_sanitize v)) kvs = kvs \<longleftrightarrow> list_all (\<lambda>(k, v). valid_utf8 k \<and> clean v) kvs"
    by (induction kvs) (auto simp: clean_def valid_utf8_def)
  then show "clean (JObj kvs) \<longleftrightarrow> list_all (\<lambda>(k, v). valid_utf8 k \<and> clean v) kvs" by (simp add: clean_def)
qed (simp_all add: clean_def valid_utf8_def)

section \<open>Decoded strings are valid\<close>

text \<open>Runes: what may stand in front of a valid string.\<close>

definition rune :: "string \<Rightarrow> bool" where
  "rune r \<longleftrightarrow> r \<noteq> [] \<and> utf8_len r = length r"

lemma rune_append: "rune r \<Longrightarrow> utf8_len (r @ t) = length r"
  using utf8_len_take(1) [of r t] by (simp add: rune_def)

lemma valid_rune_append [simp]: "rune r \<Longrightarrow> valid_utf8 (r @ t) \<longleftrightarrow> valid_utf8 t"
  using sanitize_take [of r t] by (simp add: rune_def valid_utf8_def)

lemma rune_replacement [simp]: "rune replacement"
  using utf8_len_replacement [of "[]"] by (simp add: rune_def replacement_def)

lemma rune_take: "utf8_len s \<noteq> 0 \<Longrightarrow> rune (take (utf8_len s) s)"
  using utf8_len_take(1) [of s "[]"] utf8_len_take(2,3) [of s] by (auto simp: rune_def)

lemma rune_ascii: "code c < 0x80 \<Longrightarrow> rune [c]"
  by (simp add: rune_def utf8_len_Cons)

lemma rune_utf8_enc: "rune (utf8_enc n)"
proof -
  consider "n < 0x80" | "0x80 \<le> n" "n < 0x800" | "0xD800 \<le> n \<and> n \<le> 0xDFFF \<or> 0x10FFFF < n"
    | "0x800 \<le> n" "n < 0x10000" "\<not> (0xD800 \<le> n \<and> n \<le> 0xDFFF)" | "0x10000 \<le> n" "n \<le> 0x10FFFF" by linarith
  then show ?thesis
  proof cases
    case 1
    then show ?thesis by (simp add: utf8_enc_def rune_ascii)
  next
    case 2
    then have "n div 64 < 32" "2 \<le> n div 64" by auto
    then show ?thesis using 2 by (simp add: utf8_enc_def rune_def utf8_len_Cons rune_tail_def cont_byte_def)
  next
    case 3
    then show ?thesis by (auto simp: utf8_enc_def)
  next
    case 4
    have hi: "n div 4096 < 16" using 4 by auto
    have parts: "n div 4096 = n div 64 div 64" by (simp flip: div_mult2_eq)
    have e0: "n div 4096 = 0 \<Longrightarrow> 32 \<le> n div 64 mod 64" using 4(1) by simp
    have ed: "n div 64 mod 64 < 32" if "n div 4096 = 13"
    proof -
      have "n = 4096 * 13 + n mod 4096" using that by (metis mult_div_mod_eq)
      then have "n div 64 < 864" using 4(3) by auto
      moreover have "n div 64 = 64 * (n div 64 div 64) + n div 64 mod 64" by simp
      ultimately show ?thesis using that parts by linarith
    qed
    consider "n div 4096 = 0" | "n div 4096 = 13" | "n div 4096 \<noteq> 0" "n div 4096 \<noteq> 13" by blast
    then show ?thesis using 4 hi e0 ed
      by cases (auto simp: utf8_enc_def rune_def utf8_len_Cons rune_tail_def cont_byte_def)
  next
    case 5
    have hi: "n div 262144 \<le> 4" using 5 by auto
    have f0: "n div 262144 = 0 \<Longrightarrow> 16 \<le> n div 4096 mod 64" using 5(1) by simp
    have f4: "n div 4096 mod 64 < 16" if "n div 262144 = 4"
    proof -
      have "n div 4096 < 272" using 5(2) by auto
      moreover have "n div 262144 = n div 4096 div 64" by (simp flip: div_mult2_eq)
      moreover have "n div 4096 = 64 * (n div 4096 div 64) + n div 4096 mod 64" by simp
      ultimately show ?thesis using that by linarith
    qed
    consider "n div 262144 = 0" | "n div 262144 = 4" | "n div 262144 \<noteq> 0" "n div 262144 < 4" using hi by linarith
    then show ?thesis using 5 f0 f4
      by cases (auto simp: utf8_enc_def rune_def utf8_len_Cons rune_tail_def cont_byte_def)
  qed
qed

lemma dec_unicode_rune: "dec_unicode r s = StrPart out s' \<Longrightarrow> rune out"
  by (auto simp: dec_unicode_def rune_utf8_enc split: if_splits list.splits option.splits)

lemma dec_step_rune: "dec_step s = StrPart out s' \<Longrightarrow> rune out"
proof -
  assume a: "dec_step s = StrPart out s'"
  then obtain c r where s: "s = c # r" by (cases s) (auto simp: dec_step_def)
  show ?thesis
  proof (cases "c = CHR 0x5C")
    case True
    then show ?thesis using a s dec_unicode_rune
      by (auto simp: dec_step_def dec_escape_def rune_ascii code_def split: list.splits if_splits option.splits)
  next
    case False
    then show ?thesis using a s by (auto simp: dec_step_def rune_take split: if_splits)
  qed
qed

lemma dec_str_valid: "dec_str s = Some (t, r) \<Longrightarrow> valid_utf8 t"
proof (induction s arbitrary: t r rule: dec_str.induct)
  case (1 s)
  show ?case
  proof (cases "dec_step s")
    case (StrPart out s')
    then obtain t' where "dec_str s' = Some (t', r)" "t = out @ t'"
      using 1(2) by (auto simp: dec_str.simps [of s] split: option.splits)
    then show ?thesis using 1(1) [OF StrPart] dec_step_rune [OF StrPart] by simp
  qed (use 1(2) in \<open>auto simp: dec_str.simps [of s]\<close>)
qed

lemma dec_clean:
  "dec_value n s = Some (v, r) \<Longrightarrow> clean v"
  "dec_elems n s = Some (vs, r) \<Longrightarrow> list_all clean vs"
  "dec_members n s = Some (kvs, r) \<Longrightarrow> list_all (\<lambda>(k, v). valid_utf8 k \<and> clean v) kvs"
proof (induction n s and n s and n s arbitrary: v r and vs r and kvs r rule: dec_value_dec_elems_dec_members.induct)
  case (2 n s)
  then show ?case
    by (auto simp: dec_number_def Let_def dest: dec_str_valid split: list.splits if_splits option.splits prod.splits)
next
  case (4 n s)
  then show ?case by (auto split: list.splits if_splits option.splits)
next
  case (6 n s)
  show ?case
    by (insert 6, auto split: list.splits if_splits option.splits) (erule dec_str_valid)+
qed auto

lemma json_Unmarshal_clean: "json_Unmarshal s = Some v \<Longrightarrow> clean v"
  by (auto simp: json_Unmarshal_def dest: dec_clean(1) split: option.splits if_splits)

section \<open>Streams\<close>

text \<open>\<open>json.NewDecoder(r).Decode\<close> reads one value and leaves the rest of the stream unread.\<close>

definition json_Decode :: "string \<Rightarrow> jval option" where
  "json_Decode s = map_option fst (dec_value (length s + 3) s)"

lemma json_Decode_of_Unmarshal: "json_Unmarshal s = Some v \<Longrightarrow> json_Decode s = Some v"
  by (auto simp: json_Unmarshal_def json_Decode_def split: option.splits if_splits)

lemma json_Decode_clean: "json_Decode s = Some v \<Longrightarrow> clean v"
  by (auto simp: json_Decode_def dest: dec_clean(1))

section \<open>Fields\<close>

text \<open>What holds of every entry decoded holds of the map and the list that are built from them.\<close>

lemma list_all_put: "list_all P m \<Longrightarrow> P (k, v) \<Longrightarrow> list_all P (gm_put k v m)"
  by (induction m) auto

lemma list_all_del: "list_all P m \<Longrightarrow> list_all P (gm_del k m)"
  by (auto simp: AList.delete_eq list_all_iff)

lemma fold_put_list_all:
  "list_all P es \<Longrightarrow> list_all P m \<Longrightarrow> gm_ok m \<Longrightarrow>
     list_all P (fold (\<lambda>(k, v) m. gm_put k v m) es m) \<and> gm_ok (fold (\<lambda>(k, v) m. gm_put k v m) es m)"
  by (induction es arbitrary: m) (auto simp: list_all_put)

lemma those_list_all:
  assumes "those (map f xs) = Some ys" "list_all Q xs" "\<And>x y. Q x \<Longrightarrow> f x = Some y \<Longrightarrow> P y"
  shows "list_all P ys"
proof -
  have "list_all2 (\<lambda>x y. f x = Some y) xs ys"
    using assms(1) by (auto simp: those_Some_iff list_all2_conv_all_nth dest: map_eq_imp_length_eq)
      (metis length_map nth_map)
  then show ?thesis using assms(2) by (induction rule: list_all2_induct) (auto intro: assms(3))
qed

lemma as_obj_clean: "as_obj v = Some kvs \<Longrightarrow> clean v \<Longrightarrow> list_all (\<lambda>(k, v). valid_utf8 k \<and> clean v) kvs"
  by (cases v) auto

lemma get_field_cases:
  assumes "get_field conv zero f kvs = Some x" "list_all (\<lambda>(k, v). valid_utf8 k \<and> clean v) kvs"
  obtains "x = zero" | v where "conv v = Some x" "clean v"
proof -
  obtain vs where vs: "map conv (field_vals f kvs) = map Some vs" "x = (if vs = [] then zero else last vs)"
    using assms(1) by (auto simp: get_field_def those_Some_iff split: option.splits)
  show thesis
  proof (cases "vs = []")
    case False
    then have "Some x \<in> conv ` set (field_vals f kvs)"
      using vs by (metis image_eqI last_in_set list.set_map)
    then obtain v where "v \<in> set (field_vals f kvs)" "conv v = Some x" by auto
    then show thesis using that(2) assms(2) by (fastforce simp: field_vals_def list_all_iff)
  qed (use vs that(1) in simp)
qed

lemma str_field_valid:
  "str_field f kvs = Some x \<Longrightarrow> list_all (\<lambda>(k, v). valid_utf8 k \<and> clean v) kvs \<Longrightarrow> valid_utf8 x"
proof (erule get_field_cases, assumption)
  fix v assume "as_str v = Some x" "clean v"
  then show "valid_utf8 x" by (cases v) auto
qed simp

lemma int_field_ok:
  "int_field f kvs = Some x \<Longrightarrow> list_all (\<lambda>(k, v). valid_utf8 k \<and> clean v) kvs \<Longrightarrow> int64_ok x"
proof (erule get_field_cases, assumption)
  fix v assume "as_int64 v = Some x" "clean v"
  then show "int64_ok x" by (cases v) (auto simp: int64_ok_def split: if_splits)
qed (simp add: int64_ok_def)

section \<open>Trimming keeps validity\<close>

lemma valid_head: "valid_utf8 s \<Longrightarrow> s \<noteq> [] \<Longrightarrow> utf8_len s \<noteq> 0"
proof
  assume v: "valid_utf8 s" "s \<noteq> []" "utf8_len s = 0"
  then have "s = replacement @ sanitize (drop (rune_width s) s)" by (simp add: valid_utf8_def sanitize.simps [of s])
  then have "utf8_len s = 3" by (metis utf8_len_replacement)
  with v(3) show False by simp
qed

lemma tail_cont:
  "Suc i < tail2 lo hi s \<Longrightarrow> 0x80 \<le> lo \<Longrightarrow> hi \<le> 0xBF \<Longrightarrow> contb (s ! i)"
  "Suc i < tail3 lo hi s \<Longrightarrow> 0x80 \<le> lo \<Longrightarrow> hi \<le> 0xBF \<Longrightarrow> contb (s ! i)"
  "Suc i < tail4 lo hi s \<Longrightarrow> 0x80 \<le> lo \<Longrightarrow> hi \<le> 0xBF \<Longrightarrow> contb (s ! i)"
proof -
  show "Suc i < tail2 lo hi s \<Longrightarrow> 0x80 \<le> lo \<Longrightarrow> hi \<le> 0xBF \<Longrightarrow> contb (s ! i)"
    by (cases "(lo, hi, s)" rule: tail2.cases) (auto simp: cont_byte_def split: if_splits)
  show "Suc i < tail3 lo hi s \<Longrightarrow> 0x80 \<le> lo \<Longrightarrow> hi \<le> 0xBF \<Longrightarrow> contb (s ! i)"
    by (cases "(lo, hi, s)" rule: tail3.cases; cases i)
      (auto simp: cont_byte_def less_Suc_eq numeral_3_eq_3 split: if_splits)
  show "Suc i < tail4 lo hi s \<Longrightarrow> 0x80 \<le> lo \<Longrightarrow> hi \<le> 0xBF \<Longrightarrow> contb (s ! i)"
    by (cases "(lo, hi, s)" rule: tail4.cases; cases i)
      (auto simp: cont_byte_def less_Suc_eq numeral_eq_Suc split: if_splits)
qed

lemma rune_tail_cont: "Suc i < rune_tail x s \<Longrightarrow> contb (s ! i)"
  by (auto simp: rune_tail_def split: if_splits intro: tail_cont)

lemma utf8_cont: "i + 1 < utf8_len (a # s) \<Longrightarrow> contb (s ! i)"
  using rune_tail_cont [of i "code a" s] by (auto simp: utf8_len_Cons split: if_splits)

lemma valid_drop_rune: "rune r \<Longrightarrow> valid_utf8 (t @ r) \<Longrightarrow> valid_utf8 t"
proof (induction t rule: length_induct)
  case (1 t)
  note r = 1(2) and v = 1(3)
  show ?case
  proof (cases t)
    case (Cons a t0)
    let ?n = "utf8_len (t @ r)"
    have n: "?n \<noteq> 0" using valid_head [OF v] Cons by simp
    show ?thesis
    proof (cases "?n \<le> length t")
      case True
      let ?p = "take ?n t"
      have p: "rune ?p" using rune_take [OF n] True by simp
      have t: "t = ?p @ drop ?n t" by simp
      have "valid_utf8 (?p @ (drop ?n t @ r))" using v by (simp flip: append_assoc)
      then have "valid_utf8 (drop ?n t @ r)" using p by (simp only: valid_rune_append)
      moreover have "length (drop ?n t) < length t" using n Cons by simp
      ultimately have "valid_utf8 (drop ?n t)" using 1(1) r by blast
      then show ?thesis using p t valid_rune_append by metis
    next
      case False
      obtain b r0 where rb: "r = b # r0" using r by (cases r) (auto simp: rune_def)
      have "length t0 + 1 < utf8_len (a # (t0 @ r))" using False Cons by simp
      from utf8_cont [OF this] have "contb b" using rb by simp
      moreover have "utf8_len (b # r0) \<noteq> 0" using r rb by (simp add: rune_def)
      ultimately show ?thesis by (auto simp: utf8_len_Cons cont_byte_def split: if_splits)
    qed
  qed simp
qed

lemma space_runes:
  "ascii_space (of_char a) \<Longrightarrow> rune [a]"
  "space2 (of_char a) (of_char b) \<Longrightarrow> rune [a, b]"
  "space3 (of_char a) (of_char b) (of_char c) \<Longrightarrow> rune [a, b, c]"
proof -
  show "ascii_space (of_char a) \<Longrightarrow> rune [a]"
    by (rule rune_ascii) (auto simp: ascii_space_def code_def)
  have two: "rune [a, b]" if "code a = 0xC2" "contb b"
    using that by (simp add: rune_def utf8_len_Cons rune_tail_def)
  show "space2 (of_char a) (of_char b) \<Longrightarrow> rune [a, b]"
    by (rule two) (auto simp: space2_def cont_byte_def code_def)
  have three: "rune [a, b, c]" if "code a = 0xE1 \<or> code a = 0xE2 \<or> code a = 0xE3" "contb b" "contb c"
    using that by (auto simp: rune_def utf8_len_Cons rune_tail_def)
  show "space3 (of_char a) (of_char b) (of_char c) \<Longrightarrow> rune [a, b, c]"
    by (rule three) (auto simp: space3_def cont_byte_def code_def)
qed

lemma trim_left_valid: "valid_utf8 s \<Longrightarrow> valid_utf8 (trim_left s)"
proof (induction s rule: trim_left.induct)
  case (2 a s)
  note v = "2.prems"
  show ?case
  proof (cases "ascii_space (of_char a)")
    case True
    then show ?thesis using 2 valid_rune_append [OF space_runes(1), of a s] by simp
  next
    case a: False
    show ?thesis
    proof (cases s)
      case b: (Cons b s')
      show ?thesis
      proof (cases "space2 (of_char a) (of_char b)")
        case True
        then show ?thesis using a b v "2.IH"(2) [OF a b True] valid_rune_append [OF space_runes(2), of a b s'] by simp
      next
        case ab: False
        show ?thesis
        proof (cases s')
          case c: (Cons c s'')
          then show ?thesis
            using a b ab v "2.IH"(3) [OF a b ab c] valid_rune_append [OF space_runes(3), of a b c s''] by simp
        qed (use a b ab v in simp)
      qed
    qed (use a v in simp)
  qed
qed simp

lemma trim_right_valid: "valid_utf8 (rev s) \<Longrightarrow> valid_utf8 (rev (trim_right_rev s))"
proof (induction s rule: trim_right_rev.induct)
  case (2 c s)
  note v = "2.prems"
  show ?case
  proof (cases "ascii_space (of_char c)")
    case True
    then show ?thesis using 2 valid_drop_rune [OF space_runes(1), of c "rev s"] by simp
  next
    case a: False
    show ?thesis
    proof (cases s)
      case b: (Cons b s')
      show ?thesis
      proof (cases "space2 (of_char b) (of_char c)")
        case True
        then show ?thesis using a b v "2.IH"(2) [OF a b True] valid_drop_rune [OF space_runes(2), of b c "rev s'"] by simp
      next
        case ab: False
        show ?thesis
        proof (cases s')
          case c: (Cons d s'')
          then show ?thesis
            using a b ab v "2.IH"(3) [OF a b ab c] valid_drop_rune [OF space_runes(3), of d b c "rev s''"] by simp
        qed (use a b ab v in simp)
      qed
    qed (use a v in simp)
  qed
qed simp

lemma trim_space_valid: "valid_utf8 s \<Longrightarrow> valid_utf8 (trim_space s)"
  by (simp add: trim_space_def trim_right_valid trim_left_valid)

end
