(* ===== verification/Keystore.thy ===== *)
theory Keystore
  imports Crypto Rfc3339 Storage JsonClean
begin

text \<open>
  \<open>internal/keystore/keystore.go\<close>: the encrypted key store with versions, rotation, expiry and its JSON
  file. The store is the record \<open>store\<close>; the AES-GCM object is its key, \<open>None\<close> after \<open>Close\<close>. Every
  operation that writes returns the files as they are afterwards and the store as it is in memory, also
  when writing failed. Files with a \<open>null\<close> in place of an entry or a version, which the program never
  writes, are outside the model (\<open>KsNullPointer\<close>).
\<close>

record disk_version =
  dv_Version :: int
  dv_Level :: int
  dv_EK :: string
  dv_DKEnc :: string
  dv_Nonce :: string
  dv_CreatedAt :: gotime
  dv_ExpiresAt :: gotime
  dv_Active :: bool

type_synonym entries = "(string, disk_version list) gomap"

record disk_file =
  df_Version :: int
  df_Entries :: entries

record key_version =
  kv_Version :: int
  kv_Level :: int
  kv_EK :: bytes
  kv_DK :: bytes
  kv_CreatedAt :: gotime
  kv_ExpiresAt :: gotime
  kv_Active :: bool

record store =
  st_path :: string
  st_gcm :: "bytes option"
  st_data :: disk_file

datatype keystore_error =
    KsEmptyPassword | KsKdf kdf_error | KsNilProvider | KsProvider | KsKeySize nat | KsAES
  | KsEmptyID | KsEmptyMaterial | KsEncrypt | KsNotFound string | KsNoActive string | KsNoVersion int string
  | KsKeygen kem_error | KsDecodeEK string | KsDecodeDK string | KsDecodeNonce string | KsDecrypt string
  | KsFlush | KsRead | KsParse | KsNullPointer

definition fileVersion :: int where "fileVersion = 1"
definition ks_defaultTTL :: duration where "ks_defaultTTL = 90 * 24 * Hour"
definition masterKeySalt :: string where "masterKeySalt = ''qs-keystore-master-key-v1''"

section \<open>The file\<close>

definition enc_version :: "disk_version \<Rightarrow> jval option" where
  "enc_version v =
     (case (enc_time (dv_CreatedAt v), enc_time (dv_ExpiresAt v)) of
        (Some c, Some x) \<Rightarrow>
          Some (JObj [(''version'', JInt (dv_Version v)), (''level'', JInt (dv_Level v)), (''ek'', JStr (dv_EK v)),
            (''dk_enc'', JStr (dv_DKEnc v)), (''nonce'', JStr (dv_Nonce v)), (''created_at'', c), (''expires_at'', x),
            (''active'', JBool (dv_Active v))])
      | _ \<Rightarrow> None)"

definition enc_entry :: "string \<times> disk_version list \<Rightarrow> (string \<times> jval) option" where
  "enc_entry e = map_option (\<lambda>vs. (fst e, JObj [(''versions'', JArr vs)])) (those (map enc_version (snd e)))"

definition enc_file :: "disk_file \<Rightarrow> jval option" where
  "enc_file f =
     map_option (\<lambda>es. JObj [(''version'', JInt (df_Version f)), (''entries'', JObj es)])
       (those (map enc_entry (sort_key fst (df_Entries f))))"

definition dec_version :: "jval \<Rightarrow> disk_version option" where
  "dec_version v =
     (case v of
        JObj kvs \<Rightarrow>
          (case (int_field ''version'' kvs, int_field ''level'' kvs, str_field ''ek'' kvs, str_field ''dk_enc'' kvs,
                 str_field ''nonce'' kvs, time_field ''created_at'' kvs, time_field ''expires_at'' kvs,
                 bool_field ''active'' kvs) of
             (Some n, Some l, Some ek, Some dk, Some no, Some c, Some x, Some a) \<Rightarrow>
               Some \<lparr>dv_Version = n, dv_Level = l, dv_EK = ek, dv_DKEnc = dk, dv_Nonce = no, dv_CreatedAt = c,
                     dv_ExpiresAt = x, dv_Active = a\<rparr>
           | _ \<Rightarrow> None)
      | _ \<Rightarrow> None)"

fun as_versions :: "jval \<Rightarrow> disk_version list option" where
  "as_versions (JArr vs) = those (map dec_version vs)"
| "as_versions _ = None"

definition dec_ks_entry :: "string \<times> jval \<Rightarrow> (string \<times> disk_version list) option" where
  "dec_ks_entry e =
     (case snd e of
        JObj kvs \<Rightarrow> map_option (\<lambda>vs. (fst e, vs)) (get_field as_versions [] ''versions'' kvs)
      | _ \<Rightarrow> None)"

fun as_entries :: "jval \<Rightarrow> entries option" where
  "as_entries (JObj kvs) = map_option (\<lambda>es. fold (\<lambda>(k, v) m. gm_put k v m) es []) (those (map dec_ks_entry kvs))"
| "as_entries _ = None"

definition dec_file :: "string \<Rightarrow> disk_file option" where
  "dec_file s =
     (case Option.bind (json_Unmarshal s) as_obj of
        None \<Rightarrow> None
      | Some kvs \<Rightarrow>
          (case (int_field ''version'' kvs, get_field as_entries [] ''entries'' kvs) of
             (Some n, Some es) \<Rightarrow> Some \<lparr>df_Version = n, df_Entries = es\<rparr>
           | _ \<Rightarrow> None))"

definition ks_flush :: "disk \<Rightarrow> store \<Rightarrow> files \<Rightarrow> (keystore_error, unit) result \<times> files" where
  "ks_flush d s fs =
     (case enc_file (st_data s) of
        None \<Rightarrow> (Err KsFlush, fs)
      | Some v \<Rightarrow>
          (case replace_file False d (st_path s) (json_indent v) fs of
             (ok, fs') \<Rightarrow> (if ok then Ok () else Err KsFlush, fs')))"

definition ks_load :: "store \<Rightarrow> files \<Rightarrow> (keystore_error, store) result" where
  "ks_load s fs =
     (case gm_get fs (st_path s) of
        None \<Rightarrow> Err KsRead
      | Some b \<Rightarrow> (case dec_file b of None \<Rightarrow> Err KsParse | Some f \<Rightarrow> Ok (s\<lparr>st_data := f\<rparr>)))"

section \<open>Opening and closing\<close>

definition openWithKey :: "disk \<Rightarrow> string \<Rightarrow> bytes \<Rightarrow> files \<Rightarrow> (keystore_error, store) result \<times> files" where
  "openWithKey d path key fs =
     (if \<not> aes_key_ok key then (Err KsAES, fs)
      else
        (let s = \<lparr>st_path = path, st_gcm = Some key, st_data = \<lparr>df_Version = fileVersion, df_Entries = []\<rparr>\<rparr> in
         case gm_get fs path of
           None \<Rightarrow>
             (case ks_flush d s fs of
                (Ok _, fs') \<Rightarrow> (Ok s, fs')
              | (Err er, fs') \<Rightarrow> (Err er, fs')
              | (Panic, fs') \<Rightarrow> (Panic, fs'))
         | Some _ \<Rightarrow> (ks_load s fs, fs)))"

definition ks_Open :: "crypto \<Rightarrow> disk \<Rightarrow> string \<Rightarrow> string \<Rightarrow> files \<Rightarrow> (keystore_error, store) result \<times> files" where
  "ks_Open cr d path password fs =
     (if password = [] then (Err KsEmptyPassword, fs)
      else case DeriveArgon2id cr (str_bytes password) (DomainSalt cr masterKeySalt) of
        Ok key \<Rightarrow> openWithKey d path key fs
      | Err er \<Rightarrow> (Err (KsKdf er), fs)
      | Panic \<Rightarrow> (Panic, fs))"

text \<open>The provider is an interface; what the store uses of it is the outcome of one \<open>MasterKey\<close> call.\<close>

definition OpenWithProvider ::
    "disk \<Rightarrow> string \<Rightarrow> bytes option option \<Rightarrow> files \<Rightarrow> (keystore_error, store) result \<times> files" where
  "OpenWithProvider d path provider fs =
     (case provider of
        None \<Rightarrow> (Err KsNilProvider, fs)
      | Some None \<Rightarrow> (Err KsProvider, fs)
      | Some (Some key) \<Rightarrow>
          (if length key \<noteq> 32 then (Err (KsKeySize (length key)), fs) else openWithKey d path key fs))"

definition ks_Close :: "store \<Rightarrow> store" where
  "ks_Close s = s\<lparr>st_gcm := None\<rparr>"

section \<open>Keys\<close>

definition ks_encrypt :: "crypto \<Rightarrow> store \<Rightarrow> bytes \<Rightarrow> entropy \<Rightarrow> (keystore_error, bytes \<times> bytes \<times> entropy) result" where
  "ks_encrypt cr s plain e =
     (case st_gcm s of
        None \<Rightarrow> Panic
      | Some key \<Rightarrow>
          (case rand_read 12 e of
             None \<Rightarrow> Err KsEncrypt
           | Some (nonce, e') \<Rightarrow> Ok (gcm_seal cr key nonce plain [], nonce, e')))"

definition ks_decrypt :: "crypto \<Rightarrow> store \<Rightarrow> bytes \<Rightarrow> bytes \<Rightarrow> (keystore_error, bytes option) result" where
  "ks_decrypt cr s ct nonce =
     (case st_gcm s of
        None \<Rightarrow> Panic
      | Some key \<Rightarrow> if length nonce \<noteq> 12 then Panic else Ok (gcm_open cr key nonce ct []))"

definition ks_decode :: "crypto \<Rightarrow> store \<Rightarrow> string \<Rightarrow> disk_version \<Rightarrow> (keystore_error, key_version) result" where
  "ks_decode cr s keyID v =
     (case b64std_dec (dv_EK v) of
        None \<Rightarrow> Err (KsDecodeEK keyID)
      | Some ek \<Rightarrow>
          (case b64std_dec (dv_DKEnc v) of
             None \<Rightarrow> Err (KsDecodeDK keyID)
           | Some dkEnc \<Rightarrow>
               (case b64std_dec (dv_Nonce v) of
                  None \<Rightarrow> Err (KsDecodeNonce keyID)
                | Some nonce \<Rightarrow>
                    (case ks_decrypt cr s dkEnc nonce of
                       Ok (Some dk) \<Rightarrow>
                         Ok \<lparr>kv_Version = dv_Version v, kv_Level = dv_Level v, kv_EK = ek, kv_DK = dk,
                             kv_CreatedAt = dv_CreatedAt v, kv_ExpiresAt = dv_ExpiresAt v, kv_Active = dv_Active v\<rparr>
                     | Ok None \<Rightarrow> Err (KsDecrypt keyID)
                     | Err er \<Rightarrow> Err er
                     | Panic \<Rightarrow> Panic))))"

definition deactivate :: "disk_version list \<Rightarrow> disk_version list" where
  "deactivate vs = map (\<lambda>v. v\<lparr>dv_Active := False\<rparr>) vs"

definition set_versions :: "string \<Rightarrow> disk_version list \<Rightarrow> store \<Rightarrow> store" where
  "set_versions k vs s = s\<lparr>st_data := (st_data s)\<lparr>df_Entries := gm_put k vs (df_Entries (st_data s))\<rparr>\<rparr>"

abbreviation versions :: "store \<Rightarrow> string \<Rightarrow> disk_version list option" where
  "versions s k \<equiv> gm_get (df_Entries (st_data s)) k"

type_synonym 'a ks_out = "(keystore_error, 'a) result \<times> store \<times> files \<times> entropy"

definition ks_Put ::
    "crypto \<Rightarrow> disk \<Rightarrow> gotime \<Rightarrow> string \<Rightarrow> int \<Rightarrow> bytes \<Rightarrow> bytes \<Rightarrow> duration \<Rightarrow> store \<Rightarrow> files \<Rightarrow> entropy \<Rightarrow> unit ks_out"
  where
  "ks_Put cr d now keyID level ek dk ttl0 s fs e =
     (if keyID = [] then (Err KsEmptyID, s, fs, e)
      else if length ek = 0 \<or> length dk = 0 then (Err KsEmptyMaterial, s, fs, e)
      else
        (let ttl = (if ttl0 \<le> 0 then ks_defaultTTL else ttl0) in
         case ks_encrypt cr s dk e of
           Ok (dkEnc, nonce, e') \<Rightarrow>
             (let old = (case versions s keyID of None \<Rightarrow> [] | Some vs \<Rightarrow> vs);
                  v = \<lparr>dv_Version = int (length old) + 1, dv_Level = level, dv_EK = b64std ek,
                       dv_DKEnc = b64std dkEnc, dv_Nonce = b64std nonce, dv_CreatedAt = now,
                       dv_ExpiresAt = now + ttl, dv_Active = True\<rparr>;
                  s' = set_versions keyID (deactivate old @ [v]) s;
                  r = ks_flush d s' fs
              in (fst r, s', snd r, e'))
         | Err er \<Rightarrow> (Err er, s, fs, e)
         | Panic \<Rightarrow> (Panic, s, fs, e)))"

definition ks_GetActive :: "crypto \<Rightarrow> gotime \<Rightarrow> string \<Rightarrow> store \<Rightarrow> (keystore_error, key_version) result" where
  "ks_GetActive cr now keyID s =
     (case versions s keyID of
        None \<Rightarrow> Err (KsNotFound keyID)
      | Some vs \<Rightarrow>
          (case find (\<lambda>v. dv_Active v \<and> now < dv_ExpiresAt v) (rev vs) of
             None \<Rightarrow> Err (KsNoActive keyID)
           | Some v \<Rightarrow> ks_decode cr s keyID v))"

definition ks_GetVersion :: "crypto \<Rightarrow> string \<Rightarrow> int \<Rightarrow> store \<Rightarrow> (keystore_error, key_version) result" where
  "ks_GetVersion cr keyID n s =
     (case versions s keyID of
        None \<Rightarrow> Err (KsNotFound keyID)
      | Some vs \<Rightarrow>
          (case find (\<lambda>v. dv_Version v = n) vs of
             None \<Rightarrow> Err (KsNoVersion n keyID)
           | Some v \<Rightarrow> ks_decode cr s keyID v))"

definition ks_Rotate ::
    "crypto \<Rightarrow> disk \<Rightarrow> gotime \<Rightarrow> string \<Rightarrow> store \<Rightarrow> files \<Rightarrow> entropy \<Rightarrow> bytes ks_out" where
  "ks_Rotate cr d now keyID s fs e =
     (case versions s keyID of
        None \<Rightarrow> (Err (KsNotFound keyID), s, fs, e)
      | Some vs \<Rightarrow>
          (let level = (if length vs > 0 then dv_Level (last vs) else 768) in
           case kem_GenerateKey level e of
             Ok (dk, e1) \<Rightarrow>
               (let ek = ek_Bytes (dk_EncapsulationKey cr dk) in
                case ks_Put cr d now keyID level ek (dk_Bytes dk) ks_defaultTTL s fs e1 of
                  (Ok _, s', fs', e2) \<Rightarrow> (Ok ek, s', fs', e2)
                | (Err er, s', fs', e2) \<Rightarrow> (Err er, s', fs', e2)
                | (Panic, s', fs', e2) \<Rightarrow> (Panic, s', fs', e2))
           | Err er \<Rightarrow> (Err (KsKeygen er), s, fs, e)
           | Panic \<Rightarrow> (Panic, s, fs, e)))"

definition ks_Expire :: "disk \<Rightarrow> string \<Rightarrow> store \<Rightarrow> files \<Rightarrow> (keystore_error, unit) result \<times> store \<times> files" where
  "ks_Expire d keyID s fs =
     (case versions s keyID of
        None \<Rightarrow> (Err (KsNotFound keyID), s, fs)
      | Some vs \<Rightarrow> (let s' = set_versions keyID (deactivate vs) s; r = ks_flush d s' fs in (fst r, s', snd r)))"

definition ks_Delete :: "disk \<Rightarrow> string \<Rightarrow> store \<Rightarrow> files \<Rightarrow> (keystore_error, unit) result \<times> store \<times> files" where
  "ks_Delete d keyID s fs =
     (case versions s keyID of
        None \<Rightarrow> (Err (KsNotFound keyID), s, fs)
      | Some vs \<Rightarrow>
          (let s' = s\<lparr>st_data := (st_data s)\<lparr>df_Entries := gm_del keyID (df_Entries (st_data s))\<rparr>\<rparr>;
               r = ks_flush d s' fs
           in (fst r, s', snd r)))"

definition ks_List :: "store \<Rightarrow> string list" where
  "ks_List s = gm_keys (df_Entries (st_data s))"

definition ks_VersionCount :: "store \<Rightarrow> string \<Rightarrow> nat" where
  "ks_VersionCount s keyID = (case versions s keyID of Some vs \<Rightarrow> length vs | None \<Rightarrow> 0)"

section \<open>The file round trip\<close>

definition version_ok :: "disk_version \<Rightarrow> bool" where
  "version_ok v \<longleftrightarrow> int64_ok (dv_Version v) \<and> int64_ok (dv_Level v) \<and> valid_utf8 (dv_EK v) \<and>
     valid_utf8 (dv_DKEnc v) \<and> valid_utf8 (dv_Nonce v)"

definition file_ok :: "disk_file \<Rightarrow> bool" where
  "file_ok f \<longleftrightarrow> int64_ok (df_Version f) \<and> gm_ok (df_Entries f) \<and>
     (\<forall>(k, vs) \<in> set (df_Entries f). valid_utf8 k \<and> (\<forall>v \<in> set vs. version_ok v))"

lemma ks_names [simp]:
  "sanitize ''version'' = ''version''" "sanitize ''level'' = ''level''" "sanitize ''ek'' = ''ek''"
  "sanitize ''dk_enc'' = ''dk_enc''" "sanitize ''nonce'' = ''nonce''" "sanitize ''created_at'' = ''created_at''"
  "sanitize ''expires_at'' = ''expires_at''" "sanitize ''active'' = ''active''" "sanitize ''versions'' = ''versions''"
  "sanitize ''entries'' = ''entries''"
  by (simp_all add: sanitize_ascii code_def)

lemma dec_version_enc:
  assumes "enc_version v = Some j" "version_ok v"
  shows "json_wf j \<and> dec_version (json_sanitize j) = Some v"
proof -
  obtain jc jx where j: "enc_time (dv_CreatedAt v) = Some jc" "enc_time (dv_ExpiresAt v) = Some jx"
    using assms(1) by (auto simp: enc_version_def split: option.splits)
  obtain c where c: "jc = JStr c" "sanitize c = c" "parse_rfc3339 c = Some (dv_CreatedAt v)"
    using enc_time_JStr [OF j(1)] by blast
  obtain x where x: "jx = JStr x" "sanitize x = x" "parse_rfc3339 x = Some (dv_ExpiresAt v)"
    using enc_time_JStr [OF j(2)] by blast
  have "Some j = Some (JObj [(''version'', JInt (dv_Version v)), (''level'', JInt (dv_Level v)), (''ek'', JStr (dv_EK v)),
      (''dk_enc'', JStr (dv_DKEnc v)), (''nonce'', JStr (dv_Nonce v)), (''created_at'', jc), (''expires_at'', jx),
      (''active'', JBool (dv_Active v))])"
    using assms(1) j by (simp add: enc_version_def)
  then show ?thesis using assms(2) c x
    by (simp add: version_ok_def valid_utf8_def dec_version_def field_simps_go int64_ok_def)
qed

lemma dec_entry_back:
  assumes "enc_entry (k, vs) = Some e" "valid_utf8 k" "\<forall>v \<in> set vs. version_ok v"
  shows "json_wf (snd e) \<and> dec_ks_entry (sanitize (fst e), json_sanitize (snd e)) = Some (k, vs)"
proof -
  obtain js where js: "those (map enc_version vs) = Some js" "e = (k, JObj [(''versions'', JArr js)])"
    using assms(1) by (auto simp: enc_entry_def)
  have "(\<forall>j \<in> set js. json_wf j) \<and> those (map dec_version (map json_sanitize js)) = Some vs"
    by (rule those_map_back [OF js(1)]) (use dec_version_enc assms(3) in blast)
  then show ?thesis using js(2) assms(2)
    by (auto simp: dec_ks_entry_def valid_utf8_def field_simps_go)
qed

lemma dec_file_back:
  assumes "enc_file f = Some v" "file_ok f"
  obtains f' where "dec_file (json_indent v) = Some f'" "df_Version f' = df_Version f"
    "gm_get (df_Entries f') = gm_get (df_Entries f)"
proof -
  let ?es = "sort_key fst (df_Entries f)"
  obtain js where js: "those (map enc_entry ?es) = Some js"
    and v: "v = JObj [(''version'', JInt (df_Version f)), (''entries'', JObj js)]"
    using assms(1) by (auto simp: enc_file_def)
  have rt: "(\<forall>j \<in> set js. json_wf (snd j)) \<and>
      those (map dec_ks_entry (map (\<lambda>j. (sanitize (fst j), json_sanitize (snd j))) js)) = Some ?es"
    by (rule those_map_back [OF js]) (use dec_entry_back assms(2) in \<open>fastforce simp: file_ok_def\<close>)
  then have "json_wf v" by (auto simp: v)
  then have "json_Unmarshal (json_indent v) = Some (json_sanitize v)" by (rule json_indent_roundtrip)
  moreover have "json_sanitize (JObj js) \<noteq> JNull" by simp
  moreover have "json_sanitize v = JObj [(''version'', JInt (df_Version f)), (''entries'', json_sanitize (JObj js))]"
    by (simp add: v)
  moreover have "as_entries (json_sanitize (JObj js)) = Some (fold (\<lambda>(k, v) m. gm_put k v m) ?es [])"
    using rt by (simp add: case_prod_unfold comp_def)
  ultimately have dec: "dec_file (json_indent v) =
      Some \<lparr>df_Version = df_Version f, df_Entries = fold (\<lambda>(k, v) m. gm_put k v m) ?es []\<rparr>"
    using assms(2) \<open>json_sanitize (JObj js) \<noteq> JNull\<close>
    by (simp add: dec_file_def field_simps_go file_ok_def int64_ok_def del: as_entries.simps json_sanitize.simps)
  have "distinct (map fst ?es)" using assms(2) by (simp add: file_ok_def gm_ok_def distinct_map)
  then have "gm_get (fold (\<lambda>(k, v) m. gm_put k v m) ?es []) = map_of ?es"
    by (auto simp: fun_eq_iff gm_fold_put split: option.splits)
  also have "map_of ?es = map_of (df_Entries f)"
    using assms(2) by (intro map_of_inject_set [THEN iffD2]) (auto simp: file_ok_def gm_ok_def distinct_map)
  finally show thesis using that dec by simp
qed

text \<open>Whatever text a file holds, what it decodes to is well formed.\<close>

lemma dec_version_ok: "dec_version v = Some d \<Longrightarrow> clean v \<Longrightarrow> version_ok d"
proof (cases v)
  case (JObj kvs)
  assume a: "dec_version v = Some d" "clean v"
  then have c: "list_all (\<lambda>(k, v). valid_utf8 k \<and> clean v) kvs" using JObj by simp
  show ?thesis using a JObj
    by (clarsimp simp: dec_version_def version_ok_def str_field_valid [OF _ c] int_field_ok [OF _ c] split: option.split_asm)
qed (simp_all add: dec_version_def)

definition ks_entry_ok :: "string \<times> disk_version list \<Rightarrow> bool" where
  "ks_entry_ok e \<longleftrightarrow> valid_utf8 (fst e) \<and> list_all version_ok (snd e)"

lemma file_ok_iff: "file_ok f \<longleftrightarrow> int64_ok (df_Version f) \<and> gm_ok (df_Entries f) \<and> list_all ks_entry_ok (df_Entries f)"
  by (auto simp: file_ok_def ks_entry_ok_def list_all_iff)

lemma dec_ks_entry_ok: "dec_ks_entry kv = Some e \<Longrightarrow> valid_utf8 (fst kv) \<Longrightarrow> clean (snd kv) \<Longrightarrow> ks_entry_ok e"
proof (cases "snd kv")
  case (JObj kvs)
  assume a: "dec_ks_entry kv = Some e" "valid_utf8 (fst kv)" "clean (snd kv)"
  then obtain vs where vs: "get_field as_versions [] ''versions'' kvs = Some vs" "e = (fst kv, vs)"
    using JObj by (auto simp: dec_ks_entry_def)
  have "list_all (\<lambda>(k, v). valid_utf8 k \<and> clean v) kvs" using a(3) JObj by simp
  with vs(1) have "list_all version_ok vs"
  proof (rule get_field_cases)
    fix v assume v: "as_versions v = Some vs" "clean v"
    then obtain js where "v = JArr js" "those (map dec_version js) = Some vs" by (cases v) auto
    then show ?thesis using v(2) those_list_all [of dec_version js vs clean version_ok] dec_version_ok by simp
  qed simp
  then show ?thesis using a(2) vs(2) by (simp add: ks_entry_ok_def)
qed (simp_all add: dec_ks_entry_def)

lemma dec_file_ok: "dec_file b = Some f \<Longrightarrow> file_ok f"
proof -
  assume a: "dec_file b = Some f"
  then obtain v kvs where v: "json_Unmarshal b = Some v" "as_obj v = Some kvs"
    by (auto simp: dec_file_def bind_eq_Some_conv split: option.splits)
  have c: "list_all (\<lambda>(k, v). valid_utf8 k \<and> clean v) kvs" by (rule as_obj_clean [OF v(2) json_Unmarshal_clean [OF v(1)]])
  obtain n m where f: "int_field ''version'' kvs = Some n" "get_field as_entries [] ''entries'' kvs = Some m"
    "f = \<lparr>df_Version = n, df_Entries = m\<rparr>"
    using a v by (auto simp: dec_file_def split: option.splits)
  from f(2) c have "gm_ok m \<and> list_all ks_entry_ok m"
  proof (rule get_field_cases)
    fix w assume w: "as_entries w = Some m" "clean w"
    then obtain js es where js: "w = JObj js" "those (map dec_ks_entry js) = Some es"
      "m = fold (\<lambda>(k, v) m. gm_put k v m) es []" by (cases w) auto
    have "list_all ks_entry_ok es"
      by (rule those_list_all [OF js(2), where Q = "\<lambda>(k, v). valid_utf8 k \<and> clean v"])
        (use w(2) js(1) dec_ks_entry_ok in auto)
    then show ?thesis using fold_put_list_all [of ks_entry_ok es "[]"] js(3) by simp
  qed simp
  then show ?thesis using int_field_ok [OF f(1) c] f(3) by (simp add: file_ok_iff)
qed

section \<open>Operations\<close>

datatype ks_op =
    KsPut disk gotime string int bytes bytes duration entropy
  | KsRotate disk gotime string entropy
  | KsExpire disk string
  | KsDelete disk string

fun ks_exec :: "crypto \<Rightarrow> ks_op \<Rightarrow> store \<times> files \<Rightarrow> (keystore_error, unit) result \<times> store \<times> files" where
  "ks_exec cr (KsPut d now k level ek dk ttl e) (s, fs) =
     (case ks_Put cr d now k level ek dk ttl s fs e of (r, s', fs', e') \<Rightarrow> (r, s', fs'))"
| "ks_exec cr (KsRotate d now k e) (s, fs) =
     (case ks_Rotate cr d now k s fs e of
        (r, s', fs', e') \<Rightarrow> (map_result id (\<lambda>_. ()) r, s', fs'))"
| "ks_exec cr (KsExpire d k) (s, fs) = ks_Expire d k s fs"
| "ks_exec cr (KsDelete d k) (s, fs) = ks_Delete d k s fs"

definition ks_step :: "crypto \<Rightarrow> ks_op \<Rightarrow> store \<times> files \<Rightarrow> store \<times> files" where
  "ks_step cr x s = snd (ks_exec cr x s)"

lemma versions_set [simp]:
  "versions (set_versions k vs s) j = (if j = k then Some vs else versions s j)"
  "st_path (set_versions k vs s) = st_path s" "st_gcm (set_versions k vs s) = st_gcm s"
  by (simp_all add: set_versions_def)

text \<open>Every operation either changes nothing, or changes one key in memory and then flushes.\<close>

definition old_versions :: "store \<Rightarrow> string \<Rightarrow> disk_version list" where
  "old_versions s k = (case versions s k of None \<Rightarrow> [] | Some vs \<Rightarrow> vs)"

definition del_key :: "string \<Rightarrow> store \<Rightarrow> store" where
  "del_key k s = s\<lparr>st_data := (st_data s)\<lparr>df_Entries := gm_del k (df_Entries (st_data s))\<rparr>\<rparr>"

definition new_version :: "int \<Rightarrow> int \<Rightarrow> bytes \<Rightarrow> bytes \<Rightarrow> bytes \<Rightarrow> gotime \<Rightarrow> duration \<Rightarrow> disk_version" where
  "new_version n level ek dkEnc nonce now ttl =
     \<lparr>dv_Version = n, dv_Level = level, dv_EK = b64std ek, dv_DKEnc = b64std dkEnc, dv_Nonce = b64std nonce,
      dv_CreatedAt = now, dv_ExpiresAt = now + ttl, dv_Active = True\<rparr>"

inductive ks_change :: "store \<Rightarrow> store \<Rightarrow> bool" where
  put: "ks_change s (set_versions k (deactivate (old_versions s k) @
     [new_version (int (length (old_versions s k)) + 1) level ek dkEnc nonce now ttl]) s)"
| expire: "versions s k = Some vs \<Longrightarrow> ks_change s (set_versions k (deactivate vs) s)"
| delete: "versions s k = Some vs \<Longrightarrow> ks_change s (del_key k s)"

lemma ks_Put_cases:
  assumes "ks_Put cr d now k level ek dk ttl s fs e = (r, s', fs', e')"
  obtains (refused) "\<not> is_ok r" "s' = s" "fs' = fs" "e' = e"
  | (stored) key nonce where "st_gcm s = Some key" "rand_read 12 e = Some (nonce, e')" "k \<noteq> []" "ek \<noteq> []" "dk \<noteq> []"
      "s' = set_versions k (deactivate (old_versions s k) @
         [new_version (int (length (old_versions s k)) + 1) level ek (gcm_seal cr key nonce dk []) nonce now
           (if ttl \<le> 0 then ks_defaultTTL else ttl)]) s"
      "ks_flush d s' fs = (r, fs')"
proof (cases "k = [] \<or> ek = [] \<or> dk = [] \<or> \<not> is_ok (ks_encrypt cr s dk e)")
  case True
  show thesis
    by (rule refused) (use True assms in \<open>auto simp: ks_Put_def Let_def split: if_splits result.splits\<close>)
next
  case False
  then obtain key nonce e1 where enc: "st_gcm s = Some key" "rand_read 12 e = Some (nonce, e1)"
    by (auto simp: ks_encrypt_def split: option.splits)
  show thesis
    by (rule stored [of key nonce])
      (use False enc assms in \<open>auto simp: ks_Put_def ks_encrypt_def Let_def old_versions_def new_version_def\<close>)
qed

text \<open>A rotation is refused, or is a \<open>Put\<close> at the level of the last version.\<close>

lemma ks_Rotate_cases:
  assumes "ks_exec cr (KsRotate d now k e) (s, fs) = (r, s', fs')"
  obtains (refused) "\<not> is_ok r" "s' = s" "fs' = fs"
  | (put) vs level ek dk e1 where "versions s k = Some vs" "level = (if vs \<noteq> [] then dv_Level (last vs) else 768)"
      "ks_exec cr (KsPut d now k level ek dk ks_defaultTTL e1) (s, fs) = (r, s', fs')"
proof (cases "versions s k")
  case None
  then show thesis using assms refused by (auto simp: ks_Rotate_def)
next
  case (Some vs)
  let ?level = "if vs \<noteq> [] then dv_Level (last vs) else 768"
  show thesis
  proof (cases "kem_GenerateKey ?level e")
    case (Ok dke)
    obtain dk e1 where dke: "dke = (dk, e1)" by (cases dke)
    obtain r1 s1 fs1 e2 where p: "ks_Put cr d now k ?level (ek_Bytes (dk_EncapsulationKey cr dk)) (dk_Bytes dk)
        ks_defaultTTL s fs e1 = (r1, s1, fs1, e2)" by (metis prod_cases4)
    have "r = r1 \<and> s' = s1 \<and> fs' = fs1"
      using assms Some Ok dke p by (cases r1) (auto simp: ks_Rotate_def Let_def)
    then have "ks_exec cr (KsPut d now k ?level (ek_Bytes (dk_EncapsulationKey cr dk)) (dk_Bytes dk) ks_defaultTTL e1) (s, fs)
        = (r, s', fs')" using p by simp
    then show thesis by (rule put [OF Some refl])
  qed (use assms Some refused in \<open>auto simp: ks_Rotate_def Let_def\<close>)
qed

lemma ks_exec_change:
  assumes "ks_exec cr x (s, fs) = (r, s', fs')"
  shows "(\<not> is_ok r \<and> s' = s \<and> fs' = fs) \<or> (ks_change s s' \<and> (\<exists>d. ks_flush d s' fs = (r, fs')))"
proof -
  have put_change: ?thesis if run: "ks_exec cr (KsPut d now k level ek dk ttl e) (s, fs) = (r, s', fs')" for d now k level ek dk ttl e
  proof -
    obtain e' where p: "ks_Put cr d now k level ek dk ttl s fs e = (r, s', fs', e')"
      using run by (auto split: prod.splits)
    then show ?thesis by (cases rule: ks_Put_cases) (auto intro: ks_change.put)
  qed
  show ?thesis
  proof (cases x)
    case (KsRotate d now k e)
    then have "ks_exec cr (KsRotate d now k e) (s, fs) = (r, s', fs')" using assms by simp
    then show ?thesis
    proof (cases rule: ks_Rotate_cases)
      case (put vs level ek dk e1)
      from put_change [OF put(3)] show ?thesis .
    qed simp
  next
    case (KsExpire d k)
    then show ?thesis using assms
      by (auto simp: ks_Expire_def Let_def prod_eq_iff split: option.splits intro: ks_change.expire)
  next
    case (KsDelete d k)
    then show ?thesis using assms
      by (auto simp: ks_Delete_def Let_def prod_eq_iff del_key_def [symmetric] split: option.splits intro: ks_change.delete)
  qed (use assms put_change in blast)
qed

section \<open>The invariant of the store\<close>

text \<open>Versions are numbered from 1 without gaps and only the last one may be active.\<close>

definition versions_ok :: "disk_version list \<Rightarrow> bool" where
  "versions_ok vs \<longleftrightarrow> vs \<noteq> [] \<and> map dv_Version vs = map int [1..<Suc (length vs)] \<and>
     list_all (\<lambda>v. \<not> dv_Active v) (butlast vs)"

definition store_inv :: "store \<Rightarrow> bool" where
  "store_inv s \<longleftrightarrow> gm_ok (df_Entries (st_data s)) \<and> (\<forall>k vs. versions s k = Some vs \<longrightarrow> versions_ok vs)"

text \<open>What is never altered about a version: everything but the active flag.\<close>

definition material :: "disk_version \<Rightarrow> disk_version" where
  "material v = v\<lparr>dv_Active := False\<rparr>"

lemma deactivate_simps [simp]:
  "length (deactivate vs) = length vs" "map dv_Version (deactivate vs) = map dv_Version vs"
  "list_all (\<lambda>v. \<not> dv_Active v) (deactivate vs)" "deactivate vs = [] \<longleftrightarrow> vs = []"
  "map material (deactivate vs) = map material vs" "butlast (deactivate vs) = deactivate (butlast vs)"
  by (simp_all add: deactivate_def comp_def list_all_iff material_def map_butlast)

lemma new_version_simps [simp]:
  "dv_Version (new_version n l ek de no now ttl) = n" "dv_Active (new_version n l ek de no now ttl)"
  by (simp_all add: new_version_def)

lemma versions_ok_deactivate: "versions_ok vs \<Longrightarrow> versions_ok (deactivate vs)"
  by (simp add: versions_ok_def)

lemma versions_ok_new:
  "vs = [] \<or> versions_ok vs \<Longrightarrow> versions_ok (deactivate vs @ [new_version (int (length vs) + 1) l ek de no now ttl])"
  by (auto simp: versions_ok_def butlast_append)

lemma versions_del [simp]: "versions (del_key k s) j = (if j = k then None else versions s j)"
  by (simp add: del_key_def)

lemma store_inv_change: "ks_change s s' \<Longrightarrow> store_inv s \<Longrightarrow> store_inv s'"
proof (induction rule: ks_change.induct)
  case (put s k level ek dkEnc nonce now ttl)
  have "old_versions s k = [] \<or> versions_ok (old_versions s k)"
    using put by (auto simp: store_inv_def old_versions_def split: option.splits)
  then show ?case using put versions_ok_new by (auto simp: store_inv_def set_versions_def)
next
  case (expire s k vs)
  then show ?case using versions_ok_deactivate by (auto simp: store_inv_def set_versions_def)
next
  case (delete s k vs)
  then show ?case by (auto simp: store_inv_def del_key_def)
qed

definition same_store :: "store \<times> files \<Rightarrow> store \<times> files \<Rightarrow> bool" where
  "same_store a b \<longleftrightarrow> st_path (fst b) = st_path (fst a) \<and> st_gcm (fst b) = st_gcm (fst a)"

lemma same_store_change: "ks_change s s' \<Longrightarrow> st_path s' = st_path s \<and> st_gcm s' = st_gcm s"
  by (induction rule: ks_change.induct) (auto simp: del_key_def)

interpretation key_lifecycle: op_system "ks_step cr" "\<lambda>s. store_inv (fst s)" same_store for cr
proof unfold_locales
  fix s :: "store \<times> files" and x
  obtain st fs r s' fs' where r: "s = (st, fs)" "ks_exec cr x (st, fs) = (r, s', fs')" by (metis prod_cases3 surj_pair)
  show "store_inv (fst s) \<Longrightarrow> store_inv (fst (ks_step cr x s))"
    using ks_exec_change [OF r(2)] store_inv_change by (auto simp: ks_step_def r)
  show "store_inv (fst s) \<Longrightarrow> same_store s (ks_step cr x s)"
    using ks_exec_change [OF r(2)] same_store_change by (auto simp: ks_step_def r same_store_def)
qed (auto simp: same_store_def)

text \<open>Key material is only ever lost by \<open>Delete\<close>.\<close>

definition deletes :: "string \<Rightarrow> ks_op \<Rightarrow> bool" where
  "deletes k x \<longleftrightarrow> (case x of KsDelete d j \<Rightarrow> j = k | _ \<Rightarrow> False)"

definition keeps :: "string \<Rightarrow> store \<Rightarrow> store \<Rightarrow> bool" where
  "keeps k s s' \<longleftrightarrow> (\<forall>vs. versions s k = Some vs \<longrightarrow>
     (\<exists>vs' new. versions s' k = Some vs' \<and> map material vs' = map material vs @ new))"

lemma keeps_refl: "keeps k s s"
  by (auto simp: keeps_def)

lemma keeps_trans: "keeps k s t \<Longrightarrow> keeps k t u \<Longrightarrow> keeps k s u"
  by (fastforce simp: keeps_def)

lemma keeps_change: "ks_change s s' \<Longrightarrow> keeps k s s' \<or> (\<exists>vs. versions s k = Some vs \<and> s' = del_key k s)"
  by (induction rule: ks_change.induct) (auto simp: keeps_def old_versions_def)

lemma del_key_noop: "versions s k = Some vs \<Longrightarrow> versions (del_key k s) k = None"
  by simp

lemma keeps_step:
  assumes "\<not> deletes k x"
  shows "keeps k (fst s) (fst (ks_step cr x s))"
proof (cases s)
  case (Pair st fs)
  obtain r s' fs' where r: "ks_exec cr x (st, fs) = (r, s', fs')" by (metis prod_cases3)
  show ?thesis
  proof (cases "\<exists>d j. x = KsDelete d j")
    case True
    then obtain d j where x: "x = KsDelete d j" by blast
    then have "j \<noteq> k" using assms by (auto simp: deletes_def)
    then have "versions s' k = versions st k"
      using r x by (auto simp: ks_Delete_def Let_def split: option.splits)
    then show ?thesis using r Pair by (auto simp: ks_step_def keeps_def)
  next
    case False
    have "versions s' k \<noteq> None" if "versions st k \<noteq> None"
      using r False that
      by (cases x) (auto simp: ks_Put_def ks_Rotate_def ks_Expire_def Let_def
          split: option.splits prod.splits result.splits if_splits)
    then have "s' \<noteq> del_key k st" if "versions st k \<noteq> None" using that by auto
    then have "keeps k st s'"
      using ks_exec_change [OF r] keeps_change [of st s' k] keeps_refl by auto
    then show ?thesis using r Pair by (simp add: ks_step_def)
  qed
qed

lemma keeps_run: "\<forall>x \<in> set xs. \<not> deletes k x \<Longrightarrow> keeps k (fst s) (fst (fold (ks_step cr) xs s))"
proof (induction xs arbitrary: s)
  case (Cons x xs)
  then have "keeps k (fst s) (fst (ks_step cr x s))" using keeps_step by simp
  moreover have "keeps k (fst (ks_step cr x s)) (fst (fold (ks_step cr) xs (ks_step cr x s)))"
    using Cons by simp
  ultimately show ?case using keeps_trans by fastforce
qed (simp add: keeps_refl)

section \<open>Looking keys up\<close>

lemma ks_decode_new:
  assumes "gcm_correct cr" "st_gcm s = Some key" "length nonce = 12"
  shows "ks_decode cr s k (new_version n level ek (gcm_seal cr key nonce dk []) nonce now ttl) =
    Ok \<lparr>kv_Version = n, kv_Level = level, kv_EK = ek, kv_DK = dk, kv_CreatedAt = now, kv_ExpiresAt = now + ttl,
        kv_Active = True\<rparr>"
  using assms by (simp add: ks_decode_def ks_decrypt_def new_version_def)

lemma ks_decode_material:
  "ks_decode cr s k (v\<lparr>dv_Active := False\<rparr>) = map_result id (\<lambda>kv. kv\<lparr>kv_Active := False\<rparr>) (ks_decode cr s k v)"
  by (simp add: ks_decode_def ks_decrypt_def split: option.splits)

lemma ks_decode_cong: "st_gcm s' = st_gcm s \<Longrightarrow> ks_decode cr s' k v = ks_decode cr s k v"
  unfolding ks_decode_def ks_decrypt_def by (simp only:)

lemma find_deactivate:
  "find (\<lambda>v. dv_Version v = n) (deactivate vs) = map_option (\<lambda>v. v\<lparr>dv_Active := False\<rparr>) (find (\<lambda>v. dv_Version v = n) vs)"
  by (induction vs) (auto simp: deactivate_def)

lemma find_append: "find P (xs @ ys) = (case find P xs of None \<Rightarrow> find P ys | Some x \<Rightarrow> Some x)"
  by (induction xs) auto

lemma find_version:
  assumes "versions_ok vs" "1 \<le> i" "i \<le> int (length vs)"
  shows "\<exists>v. find (\<lambda>v. dv_Version v = i) vs = Some v"
proof -
  have "i \<in> set (map int [1..<Suc (length vs)])"
    using assms(2,3) by (auto simp: image_iff intro!: bexI [of _ "nat i"])
  then have "\<exists>v \<in> set vs. dv_Version v = i" using assms(1) unfolding versions_ok_def by (metis imageE set_map)
  then show ?thesis by (cases "find (\<lambda>v. dv_Version v = i) vs") (auto simp: find_None_iff)
qed

lemma find_version_None:
  assumes "vs = [] \<or> versions_ok vs"
  shows "find (\<lambda>v. dv_Version v = int (length vs) + 1) vs = None"
proof -
  have "dv_Version v \<noteq> int (length vs) + 1" if "v \<in> set vs" for v
  proof -
    have "dv_Version v \<in> set (map dv_Version vs)" using that by simp
    moreover have "versions_ok vs" using assms that by auto
    ultimately have "dv_Version v \<in> set (map int [1..<Suc (length vs)])" by (simp only: versions_ok_def)
    then show ?thesis by auto
  qed
  then show ?thesis by (auto simp: find_None_iff)
qed

section \<open>The store and its file\<close>

text \<open>The file at the store's path is the text of the store's data, all of which has a text.\<close>

definition on_disk :: "store \<Rightarrow> files \<Rightarrow> bool" where
  "on_disk s fs \<longleftrightarrow> (\<exists>v. enc_file (st_data s) = Some v \<and> gm_get fs (st_path s) = Some (json_indent v))"

lemma ks_flush_disk:
  assumes "ks_flush d s fs = (r, fs')"
  shows "if is_ok r then on_disk s fs' else gm_get fs' (st_path s) = gm_get fs (st_path s)"
proof (cases "enc_file (st_data s)")
  case (Some v)
  obtain ok where ok: "replace_file False d (st_path s) (json_indent v) fs = (ok, fs')" "r = (if ok then Ok () else Err KsFlush)"
    using assms Some by (auto simp: ks_flush_def split: prod.splits)
  show ?thesis using replace_file_atomic [OF ok(1)] ok(2) Some by (auto simp: on_disk_def)
qed (use assms in \<open>auto simp: ks_flush_def\<close>)

lemma open_on_disk:
  assumes "on_disk s fs" "file_ok (st_data s)" "st_gcm s = Some key" "aes_key_ok key"
  obtains s' where "openWithKey d (st_path s) key fs = (Ok s', fs)" "versions s' = versions s"
    "st_gcm s' = st_gcm s" "st_path s' = st_path s"
proof -
  obtain v where v: "enc_file (st_data s) = Some v" "gm_get fs (st_path s) = Some (json_indent v)"
    using assms(1) by (auto simp: on_disk_def)
  obtain f where f: "dec_file (json_indent v) = Some f" "gm_get (df_Entries f) = versions s"
    using dec_file_back [OF v(1) assms(2)] by metis
  show thesis using v f assms(3,4)
    by (intro that [of "\<lparr>st_path = st_path s, st_gcm = Some key, st_data = f\<rparr>"])
      (simp_all add: openWithKey_def ks_load_def Let_def)
qed

section \<open>What a run leaves on the disk\<close>

text \<open>The store in memory right after the last operation of a run that reported success.\<close>

fun durable :: "crypto \<Rightarrow> ks_op list \<Rightarrow> store \<times> files \<Rightarrow> store \<Rightarrow> store" where
  "durable cr [] w saved = saved"
| "durable cr (x # xs) w saved =
     (case ks_exec cr x w of (r, w') \<Rightarrow> durable cr xs w' (if is_ok r then fst w' else saved))"

fun op_ok :: "ks_op \<Rightarrow> bool" where
  "op_ok (KsPut d now k level ek dk ttl e) \<longleftrightarrow> valid_utf8 k \<and> int64_ok level"
| "op_ok _ \<longleftrightarrow> True"

text \<open>A well-formed store with room for \<open>n\<close> more versions.\<close>

definition fits :: "nat \<Rightarrow> store \<Rightarrow> bool" where
  "fits n s \<longleftrightarrow> file_ok (st_data s) \<and> (\<forall>k. length (old_versions s k) + n < 2 ^ 63)"

lemma file_ok_set: "file_ok (st_data s) \<Longrightarrow> valid_utf8 k \<Longrightarrow> list_all version_ok vs \<Longrightarrow> file_ok (st_data (set_versions k vs s))"
  by (simp add: file_ok_iff set_versions_def list_all_put ks_entry_ok_def)

lemma file_ok_versions:
  "file_ok (st_data s) \<Longrightarrow> versions s k = Some vs \<Longrightarrow> valid_utf8 k \<and> list_all version_ok vs"
  by (auto simp: file_ok_iff list_all_iff ks_entry_ok_def dest!: map_of_SomeD)

lemma deactivate_ok: "list_all version_ok (deactivate vs) \<longleftrightarrow> list_all version_ok vs"
  by (induction vs) (simp_all add: deactivate_def version_ok_def)

lemma old_versions_simps [simp]:
  "old_versions (set_versions k vs s) j = (if j = k then vs else old_versions s j)"
  "old_versions (del_key k s) j = (if j = k then [] else old_versions s j)"
  by (auto simp: old_versions_def)

lemma fits_Suc: "fits (Suc n) s \<Longrightarrow> fits n s"
  unfolding fits_def add_Suc_right by (blast dest: Suc_lessD)

lemma fits_Put:
  assumes "fits (Suc n) s" "valid_utf8 k" "int64_ok level"
    and "ks_exec cr (KsPut d now k level ek dk ttl e) (s, fs) = (r, s', fs')"
  shows "fits n s'"
proof -
  obtain e' where "ks_Put cr d now k level ek dk ttl s fs e = (r, s', fs', e')"
    using assms(4) by (auto split: prod.splits)
  then show ?thesis
  proof (cases rule: ks_Put_cases)
    case (stored key nonce)
    have old: "list_all version_ok (old_versions s k)" "length (old_versions s k) + Suc n < 2 ^ 63"
      using assms(1) file_ok_versions [of s k] by (auto simp: fits_def old_versions_def split: option.splits)
    then have "int64_ok (int (length (old_versions s k)) + 1)" by (simp add: int64_ok_def)
    then have "version_ok (new_version (int (length (old_versions s k)) + 1) level ek dkEnc nonce now ttl')" for dkEnc ttl'
      using assms(3) by (simp add: version_ok_def new_version_def)
    then show ?thesis using fits_Suc [OF assms(1)] assms(2) old unfolding stored(6)
      by (auto simp: fits_def file_ok_set deactivate_ok)
  qed (use fits_Suc [OF assms(1)] in simp)
qed

lemma fits_exec:
  assumes "fits (Suc n) s" "op_ok x" "ks_exec cr x (s, fs) = (r, s', fs')"
  shows "fits n s'"
proof -
  have less: "fits n s" by (rule fits_Suc [OF assms(1)])
  have upd: "fits n (set_versions k (deactivate vs) s)" "fits n (del_key k s)" if "versions s k = Some vs" for k vs
  proof -
    have len: "length (old_versions s j) + n < 2 ^ 63" for j using less by (simp add: fits_def)
    have "length vs + n < 2 ^ 63" using len [of k] that by (simp add: old_versions_def)
    then show "fits n (set_versions k (deactivate vs) s)"
      using less file_ok_versions [of s k vs] that by (simp add: fits_def file_ok_set deactivate_ok)
    have "file_ok (st_data (del_key k s))"
      using less by (auto simp: fits_def file_ok_iff del_key_def list_all_del)
    moreover have "n < 2 ^ 63" using len [of k] by linarith
    ultimately show "fits n (del_key k s)" using len by (simp add: fits_def)
  qed
  show ?thesis
  proof (cases x)
    case (KsPut d now k level ek dk ttl e)
    then show ?thesis using fits_Put [OF assms(1)] assms(2,3) by (metis op_ok.simps(1))
  next
    case (KsRotate d now k e)
    then have "ks_exec cr (KsRotate d now k e) (s, fs) = (r, s', fs')" using assms(3) by simp
    then show ?thesis
    proof (cases rule: ks_Rotate_cases)
      case (put vs level ek dk e1)
      have "valid_utf8 k \<and> list_all version_ok vs"
        by (rule file_ok_versions [OF _ put(1)]) (use less in \<open>simp add: fits_def\<close>)
      then have "valid_utf8 k \<and> int64_ok level" using put(2)
        by (auto simp: list_all_iff version_ok_def int64_ok_def split: if_splits)
      then show ?thesis using fits_Put [OF assms(1) _ _ put(3)] by blast
    qed (use less in simp)
  next
    case (KsExpire d k)
    then show ?thesis using assms(3) less upd
      by (auto simp: ks_Expire_def Let_def split: option.splits)
  next
    case (KsDelete d k)
    then show ?thesis using assms(3) less upd
      by (auto simp: ks_Delete_def Let_def simp flip: del_key_def split: option.splits)
  qed
qed

text \<open>The file at a path holds, in whatever text, the versions of a store.\<close>

definition recovers :: "string \<Rightarrow> store \<Rightarrow> files \<Rightarrow> bool" where
  "recovers path s fs \<longleftrightarrow>
     (\<exists>b f. gm_get fs path = Some b \<and> dec_file b = Some f \<and> gm_get (df_Entries f) = versions s)"

lemma on_disk_recovers: "on_disk s fs \<Longrightarrow> file_ok (st_data s) \<Longrightarrow> recovers (st_path s) s fs"
  unfolding on_disk_def recovers_def by (metis dec_file_back)

lemma openWithKey_start:
  assumes "openWithKey d path key fs0 = (Ok s0, fs)"
  shows "recovers path s0 fs \<and> file_ok (st_data s0) \<and> st_path s0 = path \<and> aes_key_ok key"
proof (cases "gm_get fs0 path")
  case None
  let ?s = "\<lparr>st_path = path, st_gcm = Some key, st_data = \<lparr>df_Version = fileVersion, df_Entries = []\<rparr>\<rparr>"
  have "s0 = ?s" and flush: "ks_flush d ?s fs0 = (Ok (), fs)" and key: "aes_key_ok key"
    using assms None by (auto simp: openWithKey_def Let_def split: if_splits prod.splits result.splits)
  moreover have "file_ok (st_data ?s)" by (simp add: file_ok_def fileVersion_def int64_ok_def)
  ultimately show ?thesis using ks_flush_disk [OF flush] on_disk_recovers [of ?s fs] by simp
next
  case (Some b)
  then show ?thesis using assms dec_file_ok
    by (auto simp: openWithKey_def ks_load_def Let_def recovers_def split: if_splits option.splits)
qed

lemma recovers_run:
  assumes "recovers path saved fs" "fits (length xs) s" "st_path s = path" "list_all op_ok xs"
    and "fold (ks_step cr) xs (s, fs) = (t, fs')"
  shows "recovers path (durable cr xs (s, fs) saved) fs'"
  using assms
proof (induction xs arbitrary: s fs saved)
  case (Cons x xs)
  obtain r s1 fs1 where x: "ks_exec cr x (s, fs) = (r, s1, fs1)" by (metis prod_cases3)
  have fits: "fits (length xs) s1" using fits_exec [OF _ _ x] Cons.prems(2,4) by simp
  have path: "st_path s1 = path" using ks_exec_change [OF x] same_store_change Cons.prems(3) by auto
  have "recovers path (if is_ok r then s1 else saved) fs1"
  proof (cases "is_ok r")
    case True
    then have "on_disk s1 fs1" using ks_exec_change [OF x] ks_flush_disk by fastforce
    then show ?thesis using on_disk_recovers fits path True by (auto simp: fits_def)
  next
    case False
    then have "gm_get fs1 path = gm_get fs path"
      using ks_exec_change [OF x] ks_flush_disk [of _ s1 fs r fs1] path by auto
    then show ?thesis using Cons.prems(1) False by (simp add: recovers_def)
  qed
  from Cons.IH [OF this fits path] show ?case using Cons.prems(4,5) x
    by (cases "is_ok r") (simp_all add: ks_step_def)
qed simp

section \<open>Properties\<close>

text \<open>C24. What \<open>Put\<close> stored is what \<open>GetActive\<close> returns until it expires, and what \<open>GetVersion\<close> returns
  for the new version number; every earlier version can still be fetched with its material, now
  inactive; other keys are untouched. This holds whether or not writing the file succeeded.\<close>

theorem keystore_put_get:
  assumes "gcm_correct cr" "store_inv s" "st_gcm s = Some key"
    and "ks_Put cr d now k level ek dk ttl s fs e = (r, s', fs', e')"
    and "k \<noteq> []" "ek \<noteq> []" "dk \<noteq> []" "12 \<le> length e"
  shows "let n = ks_VersionCount s k; expiry = now + (if ttl \<le> 0 then ks_defaultTTL else ttl);
      kv = \<lparr>kv_Version = int n + 1, kv_Level = level, kv_EK = ek, kv_DK = dk, kv_CreatedAt = now,
            kv_ExpiresAt = expiry, kv_Active = True\<rparr>
    in ks_VersionCount s' k = n + 1 \<and>
       (\<forall>t < expiry. ks_GetActive cr t k s' = Ok kv) \<and> ks_GetVersion cr k (int n + 1) s' = Ok kv \<and>
       (\<forall>i. 1 \<le> i \<and> i \<le> int n \<longrightarrow> ks_GetVersion cr k i s' =
          map_result id (\<lambda>v. v\<lparr>kv_Active := False\<rparr>) (ks_GetVersion cr k i s)) \<and>
       (\<forall>j. j \<noteq> k \<longrightarrow> versions s' j = versions s j)"
proof -
  define vs where "vs = old_versions s k"
  define t1 where "t1 = (if ttl \<le> 0 then ks_defaultTTL else ttl)"
  obtain nonce e1 where nonce: "rand_read 12 e = Some (nonce, e1)" using assms(8) by (auto simp: rand_read_def)
  have s': "s' = set_versions k (deactivate vs @
      [new_version (int (length vs) + 1) level ek (gcm_seal cr key nonce dk []) nonce now t1]) s"
    (is "s' = set_versions k (_ @ [?v]) s")
    using assms(3-7) nonce
    by (auto simp: ks_Put_def ks_encrypt_def Let_def vs_def old_versions_def new_version_def t1_def)
  have n: "ks_VersionCount s k = length vs" by (simp add: ks_VersionCount_def vs_def old_versions_def split: option.splits)
  have vs_ok: "vs = [] \<or> versions_ok vs"
    using assms(2) by (auto simp: vs_def old_versions_def store_inv_def split: option.splits)
  have gcm: "st_gcm s' = Some key" using assms(3) by (simp add: s')
  have dec: "ks_decode cr s' k ?v = Ok \<lparr>kv_Version = int (length vs) + 1, kv_Level = level, kv_EK = ek, kv_DK = dk,
      kv_CreatedAt = now, kv_ExpiresAt = now + t1, kv_Active = True\<rparr>"
    by (rule ks_decode_new [OF assms(1) gcm rand_read_length [OF nonce]])
  have exp: "dv_ExpiresAt ?v = now + t1" by (simp add: new_version_def)
  have act: "ks_GetActive cr t k s' = ks_decode cr s' k ?v" if "t < now + t1" for t
    using that exp by (simp add: ks_GetActive_def s')
  have new: "ks_GetVersion cr k (int (length vs) + 1) s' = ks_decode cr s' k ?v"
    using find_version_None [OF vs_ok] by (simp add: ks_GetVersion_def s' find_append find_deactivate)
  have old: "ks_GetVersion cr k i s' = map_result id (\<lambda>v. v\<lparr>kv_Active := False\<rparr>) (ks_GetVersion cr k i s)"
    if i: "1 \<le> i" "i \<le> int (length vs)" for i
  proof -
    have "versions_ok vs" using i vs_ok by auto
    then obtain v where v: "find (\<lambda>v. dv_Version v = i) vs = Some v" using find_version i by blast
    have vs: "versions s k = Some vs" using i by (auto simp: vs_def old_versions_def split: option.splits)
    have "versions s' k = Some (deactivate vs @ [?v])" by (simp add: s')
    moreover have "ks_decode cr s' k w = ks_decode cr s k w" for w by (rule ks_decode_cong) (simp add: gcm assms(3))
    ultimately show ?thesis using v
      by (simp add: ks_GetVersion_def vs find_append find_deactivate ks_decode_material)
  qed
  have rest: "ks_VersionCount s' k = length vs + 1" "\<forall>j. j \<noteq> k \<longrightarrow> versions s' j = versions s j"
    by (simp_all add: ks_VersionCount_def s')
  show ?thesis unfolding n Let_def t1_def [symmetric]
    by (intro conjI allI impI) (use act new old rest dec in simp_all)
qed

text \<open>C25. Over any sequence of operations on an empty store the versions of a key are numbered 1, 2, ... and
  only the newest can be active; and in any later state everything but the active flag of these versions
  is still there, unless the key was deleted.\<close>

theorem keystore_versions:
  assumes "df_Entries (st_data s0) = []" "\<forall>x \<in> set ys. \<not> deletes k x"
  shows "let s1 = fold (ks_step cr) xs (s0, fs0); s2 = fold (ks_step cr) ys s1 in
    (\<forall>vs. versions (fst s1) k = Some vs \<longrightarrow>
       map dv_Version vs = map int [1..<Suc (length vs)] \<and> (\<forall>v \<in> set (butlast vs). \<not> dv_Active v) \<and>
       (\<exists>vs' new. versions (fst s2) k = Some vs' \<and> map material vs' = map material vs @ new))"
proof -
  have "store_inv (fst (s0, fs0))" using assms(1) by (simp add: store_inv_def)
  then have "store_inv (fst (fold (ks_step cr) xs (s0, fs0)))" by (rule key_lifecycle.run_inv)
  then show ?thesis using keeps_run [OF assms(2)]
    by (auto simp: store_inv_def versions_ok_def keeps_def list_all_iff Let_def)
qed

text \<open>C26. Crash safety over whole runs: open the store at a path, whatever file is there, and run any
  operations with any disk outcomes (a crash in the middle of writing is one of them). Opening that path
  again gives the versions the store had in memory right after the last operation that reported success,
  or those it was opened with when none did: never a partly written state, and nothing of a failed
  operation. (The memory of the running store does keep the change of an operation whose write failed, and
  the next successful write makes it durable, so \<open>durable\<close> need not be the state before the failed
  operation.) The keys given to \<open>Put\<close> must be valid UTF-8 and the levels 64-bit, and the version numbers
  must not leave 64 bits.\<close>

theorem keystore_crash_safe:
  assumes opened: "openWithKey d path key fs0 = (Ok s0, fs)"
    and ops: "list_all op_ok xs" and room: "\<And>k. length (old_versions s0 k) + length xs < 2 ^ 63"
    and run: "fold (ks_step cr) xs (s0, fs) = (s, fs')"
  shows "\<exists>s2. openWithKey d' path key fs' = (Ok s2, fs') \<and>
    versions s2 = versions (durable cr xs (s0, fs) s0)"
proof -
  have start: "recovers path s0 fs" "fits (length xs) s0" "st_path s0 = path" "aes_key_ok key"
    using openWithKey_start [OF opened] room by (auto simp: fits_def)
  have "recovers path (durable cr xs (s0, fs) s0) fs'" by (rule recovers_run [OF start(1-3) ops run])
  then show ?thesis using start(4) by (auto simp: recovers_def openWithKey_def ks_load_def Let_def)
qed

text \<open>After \<open>Expire\<close> no version of the key is active until the next \<open>Put\<close> or \<open>Rotate\<close>, but every version
  can be fetched by number; after \<open>Delete\<close> nothing of the key is found.\<close>

theorem keystore_expire_delete:
  assumes "versions s k = Some vs"
  shows "(case ks_Expire d k s fs of (_, s', _) \<Rightarrow>
      (\<forall>t. ks_GetActive cr t k s' = Err (KsNoActive k)) \<and>
      (\<forall>i. ks_GetVersion cr k i s' = map_result id (\<lambda>v. v\<lparr>kv_Active := False\<rparr>) (ks_GetVersion cr k i s))) \<and>
    (case ks_Delete d k s fs of (_, s', _) \<Rightarrow>
      (\<forall>t. ks_GetActive cr t k s' = Err (KsNotFound k)) \<and> (\<forall>i. ks_GetVersion cr k i s' = Err (KsNotFound k)))"
proof -
  have none: "find (\<lambda>v. dv_Active v \<and> t < dv_ExpiresAt v) (rev (deactivate vs)) = None" for t
    by (auto simp: find_None_iff deactivate_def)
  have "ks_decode cr (set_versions k (deactivate vs) s) = ks_decode cr s"
    by (intro ext ks_decode_cong) simp
  then have "ks_GetVersion cr k i (set_versions k (deactivate vs) s) =
      map_result id (\<lambda>v. v\<lparr>kv_Active := False\<rparr>) (ks_GetVersion cr k i s)" for i
    by (cases "find (\<lambda>v. dv_Version v = i) vs")
      (simp_all add: ks_GetVersion_def assms find_deactivate ks_decode_material)
  then show ?thesis
    by (simp add: ks_Expire_def ks_Delete_def assms Let_def ks_GetActive_def none)
      (simp add: ks_GetVersion_def)
qed

section \<open>Runs on the concrete instance\<close>

definition demo_store :: store where
  "demo_store = \<lparr>st_path = ''ks.json'', st_gcm = Some (replicate 32 1), st_data = \<lparr>df_Version = 1, df_Entries = []\<rparr>\<rparr>"

lemma demo_store_simps [simp]:
  "st_gcm demo_store = Some (replicate 32 1)" "versions demo_store k = None" "st_path demo_store = ''ks.json''"
  "store_inv demo_store" "df_Entries (st_data demo_store) = []" "file_ok (st_data demo_store)"
  "old_versions demo_store k = []"
  by (simp_all add: demo_store_def store_inv_def file_ok_def int64_ok_def old_versions_def)

theorem keystore_put_get_witness:
  "\<exists>r s' fs' e'. ks_Put toy_crypto (WriteFails []) 0 ''k'' 768 [1] [2] 0 demo_store [] (replicate 12 3) = (r, s', fs', e') \<and>
     map_result id kv_DK (ks_GetActive toy_crypto 5 ''k'' s') = Ok [2]"
proof -
  obtain r s' fs' e' where p: "ks_Put toy_crypto (WriteFails []) 0 ''k'' 768 [1] [2] 0 demo_store [] (replicate 12 3) = (r, s', fs', e')"
    by (metis prod_cases4)
  from keystore_put_get [OF toy_gcm_correct _ _ p, of "replicate 32 1"] p show ?thesis
    by (fastforce simp: ks_defaultTTL_def Let_def)
qed

theorem keystore_versions_witness:
  "let s1 = fold (ks_step toy_crypto) [KsPut DiskOk 0 ''k'' 768 [1] [2] 0 (replicate 12 3)] (demo_store, []);
       s2 = fold (ks_step toy_crypto) [KsExpire RenameFails ''k''] s1
   in \<exists>vs vs' new. versions (fst s1) ''k'' = Some vs \<and> versions (fst s2) ''k'' = Some vs' \<and>
        map material vs' = map material vs @ new"
proof -
  let ?s1 = "fold (ks_step toy_crypto) [KsPut DiskOk 0 ''k'' 768 [1] [2] 0 (replicate 12 3)] (demo_store, [])"
  have "versions (fst ?s1) ''k'' \<noteq> None"
    by (simp add: ks_step_def ks_Put_def ks_encrypt_def rand_read_def Let_def)
  moreover have "\<forall>x \<in> set [KsExpire RenameFails ''k'']. \<not> deletes ''k'' x" by (simp add: deletes_def)
  ultimately show ?thesis
    using keystore_versions [of demo_store "[KsExpire RenameFails ''k'']" "''k''" toy_crypto
        "[KsPut DiskOk 0 ''k'' 768 [1] [2] 0 (replicate 12 3)]" "[]"]
    unfolding Let_def by auto
qed

lemma ks_exec_put:
  assumes "st_gcm s = Some key" "rand_read 12 e = Some (nonce, e')" "k \<noteq> []" "ek \<noteq> []" "dk \<noteq> []"
    and "s' = set_versions k (deactivate (old_versions s k) @
      [new_version (int (length (old_versions s k)) + 1) level ek (gcm_seal cr key nonce dk []) nonce now
        (if ttl \<le> 0 then ks_defaultTTL else ttl)]) s"
  shows "ks_exec cr (KsPut d now k level ek dk ttl e) (s, fs) = (fst (ks_flush d s' fs), s', snd (ks_flush d s' fs))"
  using assms by (simp add: ks_Put_def ks_encrypt_def Let_def old_versions_def new_version_def)

lemma demo_flush:
  assumes "df_Entries (st_data s) = [(k, [new_version n level ek ct nonce 0 ks_defaultTTL])]"
  shows "is_ok (fst (ks_flush DiskOk s fs))"
proof -
  obtain t1 t2 where "rfc3339 0 = Some t1" "rfc3339 ks_defaultTTL = Some t2"
    using rfc3339_ok [of 0] rfc3339_ok [of ks_defaultTTL] by (auto simp: ks_defaultTTL_def)
  then show ?thesis
    by (simp add: ks_flush_def enc_file_def enc_entry_def enc_version_def enc_time_def new_version_def assms replace_file_def)
qed

text \<open>A new store; one key is put, then another whose write fails at the rename: it is in memory, but
  after opening again only the first is there.\<close>

theorem keystore_crash_safe_witness:
  "\<exists>s0 fs s fs' s2. openWithKey DiskOk ''ks.json'' (replicate 32 1) [] = (Ok s0, fs) \<and>
     fold (ks_step toy_crypto) [KsPut DiskOk 0 ''k'' 768 [1] [2] 0 (replicate 12 3),
       KsPut RenameFails 0 ''j'' 768 [1] [2] 0 (replicate 12 4)] (s0, fs) = (s, fs') \<and>
     versions s ''j'' \<noteq> None \<and>
     openWithKey DiskOk ''ks.json'' (replicate 32 1) fs' = (Ok s2, fs') \<and>
     versions s2 ''k'' \<noteq> None \<and> versions s2 ''j'' = None"
proof -
  let ?x = "KsPut DiskOk 0 ''k'' 768 [1] [2] 0 (replicate 12 3)"
  let ?y = "KsPut RenameFails 0 ''j'' 768 [1] [2] 0 (replicate 12 4)"
  let ?v = "\<lambda>n. new_version 1 768 [1] (gcm_seal toy_crypto (replicate 32 1) (replicate 12 n) [2] []) (replicate 12 n) 0 ks_defaultTTL"
  let ?s1 = "set_versions ''k'' [?v 3] demo_store" and ?s2 = "set_versions ''j'' [?v 4] (set_versions ''k'' [?v 3] demo_store)"
  obtain fs where start: "openWithKey DiskOk ''ks.json'' (replicate 32 1) [] = (Ok demo_store, fs)"
    by (simp add: openWithKey_def aes_key_ok_def ks_flush_def enc_file_def replace_file_def Let_def demo_store_def fileVersion_def)
  have flush: "fst (ks_flush DiskOk ?s1 fs) = Ok ()"
    using demo_flush [of ?s1 "''k''" 1 768 "[1]"] by (simp add: is_ok_iff set_versions_def)
  have old: "old_versions ?s1 ''j'' = []" by simp
  obtain fs1 where x: "ks_exec toy_crypto ?x (demo_store, fs) = (Ok (), ?s1, fs1)"
    using ks_exec_put [of demo_store "replicate 32 1" "replicate 12 3" "replicate 12 3" "[]" "''k''" "[1]" "[2]" ?s1] flush
    by (simp add: rand_read_def deactivate_def)
  obtain r fs2 where y: "ks_exec toy_crypto ?y (?s1, fs1) = (r, ?s2, fs2)" "\<not> is_ok r"
    using ks_exec_put [of ?s1 "replicate 32 1" "replicate 12 4" "replicate 12 4" "[]" "''j''" "[1]" "[2]" ?s2]
    by (simp add: rand_read_def deactivate_def ks_flush_def replace_file_def split: option.splits)
  have run: "fold (ks_step toy_crypto) [?x, ?y] (demo_store, fs) = (?s2, fs2)"
    using x y(1) by (simp add: ks_step_def del: ks_exec.simps)
  have ops: "list_all op_ok [?x, ?y]" by (simp add: valid_ascii code_def int64_ok_def)
  have room: "length (old_versions demo_store k) + length [?x, ?y] < 2 ^ 63" for k by simp
  have "durable toy_crypto [?x, ?y] (demo_store, fs) demo_store = ?s1"
    using x y by (simp del: ks_exec.simps)
  then obtain s2 where "openWithKey DiskOk ''ks.json'' (replicate 32 1) fs2 = (Ok s2, fs2)" "versions s2 = versions ?s1"
    using keystore_crash_safe [OF start ops room run, of DiskOk] by auto
  then show ?thesis using start run by (intro exI [of _ demo_store] exI [of _ fs] exI [of _ ?s2] exI [of _ fs2] exI [of _ s2]) simp
qed

theorem keystore_expire_delete_witness:
  "\<exists>s vs. versions s ''k'' = Some vs \<and> (case ks_Expire DiskOk ''k'' s [] of (_, s', _) \<Rightarrow>
     (\<forall>t. ks_GetActive toy_crypto t ''k'' s' = Err (KsNoActive ''k'')))"
proof -
  let ?s = "set_versions ''k'' [new_version 1 768 [1] [2] [3] 0 5] demo_store"
  have v: "versions ?s ''k'' = Some [new_version 1 768 [1] [2] [3] 0 5]" by simp
  from keystore_expire_delete [OF this, where d = DiskOk and fs = "[]" and cr = toy_crypto] v show ?thesis
    by (intro exI [of _ ?s]) (auto split: prod.splits)
qed

end
