(* ===== verification/CertAuth.thy ===== *)
theory CertAuth
  imports Crypto Rfc3339 Storage
begin

text \<open>
  \<open>internal/ca/ca.go\<close>: the certificate authority. A CA is the record \<open>authority_ca\<close>; certificates are
  signed with ML-DSA-87 over the JSON text of all their fields but the signature. The clock is the
  argument \<open>now\<close>; the mutex of the revocation list is the order of the operations.
\<close>

record certificate =
  ce_Version :: int
  ce_Serial :: string
  ce_Subject :: string
  ce_Issuer :: string
  ce_Algorithm :: string
  ce_PublicKey :: string
  ce_PublicKeyType :: string
  ce_NotBefore :: gotime
  ce_NotAfter :: gotime
  ce_IsCA :: bool
  ce_Signature :: string

record authority_ca =
  ca_pk :: dsa_public
  ca_sk :: dsa_private
  ca_cert :: certificate
  ca_revoked :: "(string, gotime) gomap"

record crl_entry =
  cl_Serial :: string
  cl_RevokedAt :: gotime

record crl =
  cl_Version :: int
  cl_Issuer :: string
  cl_ThisUpdate :: gotime
  cl_Entries :: "crl_entry list"

record ca_snapshot =
  sn_Version :: int
  sn_Certificate :: "certificate option"
  sn_PrivKey :: string
  sn_Revoked :: "(string, gotime) gomap"

datatype link_error =
    LinkNotYetValid | LinkExpired | LinkSignerNotYetValid | LinkSignerExpired | LinkIssuer string string
  | LinkDecodeKey | LinkParseKey dsa_error | LinkDecodeSignature | LinkSigningBytes | LinkSignature

datatype ca_error =
    CaEmptySubject | CaEmptyKeyType | CaEmptyKey | CaKeygen dsa_error | CaSerial | CaSigningBytes | CaSign dsa_error
  | CaNilCert | CaNilAnchor | CaAnchorNotSelfSigned string string | CaAnchorNotCA | CaChainNil nat
  | CaChainNotCA nat string | CaAnchorLink link_error | CaLink nat string string link_error
  | CaNotYetValid gotime | CaExpired gotime | CaIsCA | CaIssuerMismatch string string | CaDecodeSignature
  | CaBadSignature | CaRevoked string gotime | CaEmptySerial
  | CaNilSnapshotCert | CaEmptyPrivKey | CaDecodePrivKey | CaParsePrivKey dsa_error | CaDecodePubKey
  | CaParsePubKey dsa_error

definition schemeAlgorithm :: string where "schemeAlgorithm = ''ML-DSA-87''"
definition defaultCATTL :: duration where "defaultCATTL = 10 * 365 * 24 * Hour"
definition defaultLeafTTL :: duration where "defaultLeafTTL = 365 * 24 * Hour"

section \<open>Signing\<close>

definition enc_body :: "certificate \<Rightarrow> jval option" where
  "enc_body c =
     (case (enc_time (ce_NotBefore c), enc_time (ce_NotAfter c)) of
        (Some nb, Some na) \<Rightarrow>
          Some (JObj [(''version'', JInt (ce_Version c)), (''serial'', JStr (ce_Serial c)),
            (''subject'', JStr (ce_Subject c)), (''issuer'', JStr (ce_Issuer c)),
            (''algorithm'', JStr (ce_Algorithm c)), (''public_key'', JStr (ce_PublicKey c)),
            (''public_key_type'', JStr (ce_PublicKeyType c)), (''not_before'', nb), (''not_after'', na),
            (''is_ca'', JBool (ce_IsCA c))])
      | _ \<Rightarrow> None)"

definition signingBytes :: "certificate \<Rightarrow> bytes option" where
  "signingBytes c = map_option (\<lambda>v. str_bytes (json_enc v)) (enc_body c)"

definition attachSignature :: "crypto \<Rightarrow> certificate \<Rightarrow> dsa_private \<Rightarrow> (ca_error, certificate) result" where
  "attachSignature cr c sk =
     (case signingBytes c of
        None \<Rightarrow> Err CaSigningBytes
      | Some msg \<Rightarrow>
          (case dsa_Sign cr (Some sk) msg of
             Ok sig \<Rightarrow> Ok (c\<lparr>ce_Signature := b64std sig\<rparr>)
           | Err er \<Rightarrow> Err (CaSign er)
           | Panic \<Rightarrow> Panic))"

definition randomSerial :: "entropy \<Rightarrow> (string \<times> entropy) option" where
  "randomSerial e = (case rand_read 16 e of None \<Rightarrow> None | Some (b, e') \<Rightarrow> Some (hex_encode b, e'))"

definition make_cert ::
    "string \<Rightarrow> string \<Rightarrow> string \<Rightarrow> bytes \<Rightarrow> string \<Rightarrow> gotime \<Rightarrow> duration \<Rightarrow> bool \<Rightarrow> certificate" where
  "make_cert serial subject issuer pk pkType now ttl isCA =
     \<lparr>ce_Version = 1, ce_Serial = serial, ce_Subject = subject, ce_Issuer = issuer, ce_Algorithm = schemeAlgorithm,
      ce_PublicKey = b64std pk, ce_PublicKeyType = pkType, ce_NotBefore = time_Truncate_s now,
      ce_NotAfter = time_Truncate_s now + ttl, ce_IsCA = isCA, ce_Signature = []\<rparr>"

definition ca_Init :: "crypto \<Rightarrow> string \<Rightarrow> gotime \<Rightarrow> entropy \<Rightarrow> (ca_error, authority_ca \<times> entropy) result" where
  "ca_Init cr subject now e =
     (if subject = [] then Err CaEmptySubject
      else case dsa_GenerateKey cr 87 e of
        Ok (pk, sk, e1) \<Rightarrow>
          (case randomSerial e1 of
             None \<Rightarrow> Err CaSerial
           | Some (serial, e2) \<Rightarrow>
               (case attachSignature cr (make_cert serial subject subject (pk_bytes pk) schemeAlgorithm now defaultCATTL True) sk of
                  Ok cert \<Rightarrow> Ok (\<lparr>ca_pk = pk, ca_sk = sk, ca_cert = cert, ca_revoked = []\<rparr>, e2)
                | Err er \<Rightarrow> Err er
                | Panic \<Rightarrow> Panic))
      | Err er \<Rightarrow> Err (CaKeygen er)
      | Panic \<Rightarrow> Panic)"

definition ca_Issue ::
    "crypto \<Rightarrow> authority_ca \<Rightarrow> string \<Rightarrow> string \<Rightarrow> bytes \<Rightarrow> duration \<Rightarrow> gotime \<Rightarrow> entropy
      \<Rightarrow> (ca_error, certificate \<times> entropy) result" where
  "ca_Issue cr ca subject pkType pk ttl0 now e =
     (if subject = [] then Err CaEmptySubject
      else if pkType = [] then Err CaEmptyKeyType
      else if length pk = 0 then Err CaEmptyKey
      else
        (let ttl = (if ttl0 \<le> 0 then defaultLeafTTL else ttl0) in
         case randomSerial e of
           None \<Rightarrow> Err CaSerial
         | Some (serial, e1) \<Rightarrow>
             (case attachSignature cr (make_cert serial subject (ce_Subject (ca_cert ca)) pk pkType now ttl False) (ca_sk ca) of
                Ok cert \<Rightarrow> Ok (cert, e1)
              | Err er \<Rightarrow> Err er
              | Panic \<Rightarrow> Panic)))"

definition IssueIntermediate ::
    "crypto \<Rightarrow> authority_ca \<Rightarrow> string \<Rightarrow> duration \<Rightarrow> gotime \<Rightarrow> entropy
      \<Rightarrow> (ca_error, authority_ca \<times> certificate \<times> entropy) result" where
  "IssueIntermediate cr ca subject ttl0 now e =
     (if subject = [] then Err CaEmptySubject
      else
        (let ttl = (if ttl0 \<le> 0 then defaultCATTL else ttl0) in
         case dsa_GenerateKey cr 87 e of
           Ok (pk, sk, e1) \<Rightarrow>
             (case randomSerial e1 of
                None \<Rightarrow> Err CaSerial
              | Some (serial, e2) \<Rightarrow>
                  (case attachSignature cr
                     (make_cert serial subject (ce_Subject (ca_cert ca)) (pk_bytes pk) schemeAlgorithm now ttl True) (ca_sk ca) of
                     Ok cert \<Rightarrow> Ok (\<lparr>ca_pk = pk, ca_sk = sk, ca_cert = cert, ca_revoked = []\<rparr>, cert, e2)
                   | Err er \<Rightarrow> Err er
                   | Panic \<Rightarrow> Panic))
         | Err er \<Rightarrow> Err (CaKeygen er)
         | Panic \<Rightarrow> Panic))"

section \<open>Verification\<close>

definition verifySingleLink :: "crypto \<Rightarrow> gotime \<Rightarrow> certificate \<Rightarrow> certificate \<Rightarrow> (link_error, unit) result" where
  "verifySingleLink cr now issued signer =
     (if now < ce_NotBefore issued then Err LinkNotYetValid
      else if now > ce_NotAfter issued then Err LinkExpired
      else if now < ce_NotBefore signer then Err LinkSignerNotYetValid
      else if now > ce_NotAfter signer then Err LinkSignerExpired
      else if ce_Issuer issued \<noteq> ce_Subject signer then Err (LinkIssuer (ce_Issuer issued) (ce_Subject signer))
      else case b64std_dec (ce_PublicKey signer) of
        None \<Rightarrow> Err LinkDecodeKey
      | Some pkBytes \<Rightarrow>
          (case dsa_ParsePublicKey cr 87 pkBytes of
             Ok signerPK \<Rightarrow>
               (case b64std_dec (ce_Signature issued) of
                  None \<Rightarrow> Err LinkDecodeSignature
                | Some sig \<Rightarrow>
                    (case signingBytes issued of
                       None \<Rightarrow> Err LinkSigningBytes
                     | Some msg \<Rightarrow>
                         if dsa_Verify cr (Some signerPK) msg sig then Ok () else Err LinkSignature))
           | Err er \<Rightarrow> Err (LinkParseKey er)
           | Panic \<Rightarrow> Panic))"

text \<open>The first loop checks the intermediates, the second walks the links from the leaf up.\<close>

fun check_chain :: "nat \<Rightarrow> certificate option list \<Rightarrow> (ca_error, certificate list) result" where
  "check_chain i [] = Ok []"
| "check_chain i (None # cs) = Err (CaChainNil i)"
| "check_chain i (Some c # cs) =
     (if \<not> ce_IsCA c then Err (CaChainNotCA i (ce_Subject c))
      else case check_chain (Suc i) cs of
        Ok ds \<Rightarrow> Ok (c # ds)
      | Err er \<Rightarrow> Err er
      | Panic \<Rightarrow> Panic)"

fun walk_links :: "crypto \<Rightarrow> gotime \<Rightarrow> nat \<Rightarrow> (certificate \<times> certificate) list \<Rightarrow> (ca_error, unit) result" where
  "walk_links cr now i [] = Ok ()"
| "walk_links cr now i ((issued, signer) # rest) =
     (case verifySingleLink cr now issued signer of
        Ok _ \<Rightarrow> walk_links cr now (Suc i) rest
      | Err er \<Rightarrow> Err (CaLink i (ce_Subject issued) (ce_Subject signer) er)
      | Panic \<Rightarrow> Panic)"

definition ca_VerifyChain ::
    "crypto \<Rightarrow> gotime \<Rightarrow> certificate option \<Rightarrow> certificate option list \<Rightarrow> certificate option \<Rightarrow> (ca_error, unit) result"
  where
  "ca_VerifyChain cr now certp chain anchorp =
     (case (certp, anchorp) of
        (None, _) \<Rightarrow> Err CaNilCert
      | (_, None) \<Rightarrow> Err CaNilAnchor
      | (Some cert, Some anchor) \<Rightarrow>
          (if ce_Issuer anchor \<noteq> ce_Subject anchor
           then Err (CaAnchorNotSelfSigned (ce_Issuer anchor) (ce_Subject anchor))
           else if \<not> ce_IsCA anchor then Err CaAnchorNotCA
           else case check_chain 0 chain of
             Ok cs \<Rightarrow>
               (case verifySingleLink cr now anchor anchor of
                  Ok _ \<Rightarrow> walk_links cr now 0 (zip (cert # cs) (cs @ [anchor]))
                | Err er \<Rightarrow> Err (CaAnchorLink er)
                | Panic \<Rightarrow> Panic)
           | Err er \<Rightarrow> Err er
           | Panic \<Rightarrow> Panic))"

definition ca_Verify :: "crypto \<Rightarrow> authority_ca \<Rightarrow> certificate option \<Rightarrow> gotime \<Rightarrow> (ca_error, unit) result" where
  "ca_Verify cr ca certp now =
     (case certp of
        None \<Rightarrow> Err CaNilCert
      | Some cert \<Rightarrow>
          (if now < ce_NotBefore cert then Err (CaNotYetValid (ce_NotBefore cert))
           else if now > ce_NotAfter cert then Err (CaExpired (ce_NotAfter cert))
           else if ce_IsCA cert then Err CaIsCA
           else if ce_Issuer cert \<noteq> ce_Subject (ca_cert ca)
           then Err (CaIssuerMismatch (ce_Issuer cert) (ce_Subject (ca_cert ca)))
           else case b64std_dec (ce_Signature cert) of
             None \<Rightarrow> Err CaDecodeSignature
           | Some sig \<Rightarrow>
               (case signingBytes cert of
                  None \<Rightarrow> Err CaSigningBytes
                | Some msg \<Rightarrow>
                    (if \<not> dsa_Verify cr (Some (ca_pk ca)) msg sig then Err CaBadSignature
                     else case gm_get (ca_revoked ca) (ce_Serial cert) of
                       Some revokedAt \<Rightarrow> Err (CaRevoked (ce_Serial cert) revokedAt)
                     | None \<Rightarrow> Ok ()))))"

section \<open>Revocation, the list, snapshots\<close>

definition ca_Revoke :: "gotime \<Rightarrow> string \<Rightarrow> authority_ca \<Rightarrow> (ca_error, unit) result \<times> authority_ca" where
  "ca_Revoke now serial0 ca =
     (let serial = trim_space serial0 in
      if serial = [] then (Err CaEmptySerial, ca)
      else if gm_get (ca_revoked ca) serial \<noteq> None then (Ok (), ca)
      else (Ok (), ca\<lparr>ca_revoked := gm_put serial now (ca_revoked ca)\<rparr>))"

definition ca_IsRevoked :: "authority_ca \<Rightarrow> string \<Rightarrow> bool" where
  "ca_IsRevoked ca serial \<longleftrightarrow> gm_get (ca_revoked ca) serial \<noteq> None"

definition ca_CRL :: "authority_ca \<Rightarrow> gotime \<Rightarrow> crl" where
  "ca_CRL ca now =
     \<lparr>cl_Version = 1, cl_Issuer = ce_Subject (ca_cert ca), cl_ThisUpdate = now,
      cl_Entries = sort_key cl_Serial (map (\<lambda>(s, t). \<lparr>cl_Serial = s, cl_RevokedAt = t\<rparr>) (ca_revoked ca))\<rparr>"

definition ca_Export :: "authority_ca \<Rightarrow> ca_snapshot" where
  "ca_Export ca =
     \<lparr>sn_Version = 1, sn_Certificate = Some (ca_cert ca), sn_PrivKey = b64std (sk_bytes (ca_sk ca)),
      sn_Revoked = ca_revoked ca\<rparr>"

definition ca_Restore :: "crypto \<Rightarrow> ca_snapshot \<Rightarrow> (ca_error, authority_ca) result" where
  "ca_Restore cr snap =
     (case sn_Certificate snap of
        None \<Rightarrow> Err CaNilSnapshotCert
      | Some cert \<Rightarrow>
          (if sn_PrivKey snap = [] then Err CaEmptyPrivKey
           else case b64std_dec (sn_PrivKey snap) of
             None \<Rightarrow> Err CaDecodePrivKey
           | Some skBytes \<Rightarrow>
               (case dsa_ParsePrivateKey cr 87 skBytes of
                  Ok sk \<Rightarrow>
                    (case b64std_dec (ce_PublicKey cert) of
                       None \<Rightarrow> Err CaDecodePubKey
                     | Some pkBytes \<Rightarrow>
                         (case dsa_ParsePublicKey cr 87 pkBytes of
                            Ok pk \<Rightarrow> Ok \<lparr>ca_pk = pk, ca_sk = sk, ca_cert = cert, ca_revoked = sn_Revoked snap\<rparr>
                          | Err er \<Rightarrow> Err (CaParsePubKey er)
                          | Panic \<Rightarrow> Panic))
                | Err er \<Rightarrow> Err (CaParsePrivKey er)
                | Panic \<Rightarrow> Panic)))"

section \<open>Links\<close>

definition in_window :: "gotime \<Rightarrow> certificate \<Rightarrow> bool" where
  "in_window now c \<longleftrightarrow> ce_NotBefore c \<le> now \<and> now \<le> ce_NotAfter c"

definition linked :: "crypto \<Rightarrow> certificate \<Rightarrow> certificate \<Rightarrow> bool" where
  "linked cr issued signer \<longleftrightarrow>
     ce_Issuer issued = ce_Subject signer \<and>
     (\<exists>pkBytes pk sig msg. b64std_dec (ce_PublicKey signer) = Some pkBytes \<and> dsa_ParsePublicKey cr 87 pkBytes = Ok pk \<and>
        b64std_dec (ce_Signature issued) = Some sig \<and> signingBytes issued = Some msg \<and> dsa_Verify cr (Some pk) msg sig)"

lemma verifySingleLink_iff:
  "is_ok (verifySingleLink cr now issued signer) \<longleftrightarrow>
     in_window now issued \<and> in_window now signer \<and> linked cr issued signer"
  unfolding verifySingleLink_def in_window_def linked_def
  by (cases "b64std_dec (ce_PublicKey signer)"; cases "b64std_dec (ce_Signature issued)"; cases "signingBytes issued")
    (auto split: result.splits)

lemma check_chain_iff: "check_chain i chain = Ok cs \<longleftrightarrow> chain = map Some cs \<and> list_all ce_IsCA cs"
proof (induction i chain arbitrary: cs rule: check_chain.induct)
  case (3 i c chain)
  then show ?case by (cases cs) (auto split: result.splits)
qed auto

lemma walk_links_iff: "is_ok (walk_links cr now i ls) \<longleftrightarrow> (\<forall>l \<in> set ls. is_ok (verifySingleLink cr now (fst l) (snd l)))"
proof (induction ls arbitrary: i)
  case (Cons l ls)
  obtain a b where l: "l = (a, b)" by (cases l)
  show ?case by (cases "verifySingleLink cr now a b") (auto simp: l Cons.IH)
qed simp

lemma zip_links:
  "(\<forall>l \<in> set (zip (c # cs) (cs @ [a])). P (fst l) \<and> P (snd l) \<and> R (fst l) (snd l)) \<longleftrightarrow>
     successively R (c # cs @ [a]) \<and> (\<forall>x \<in> set (c # cs @ [a]). P x)"
  by (induction cs arbitrary: c) auto

section \<open>Issued certificates\<close>

definition ca_ok :: "crypto \<Rightarrow> authority_ca \<Rightarrow> bool" where
  "ca_ok cr ca \<longleftrightarrow> dsa_pair cr (ca_pk ca) (ca_sk ca) \<and> pk_level (ca_pk ca) = 87 \<and>
     ce_PublicKey (ca_cert ca) = b64std (pk_bytes (ca_pk ca))"

lemma signingBytes_sig [simp]: "signingBytes (c\<lparr>ce_Signature := s\<rparr>) = signingBytes c"
  by (simp add: signingBytes_def enc_body_def cong: option.case_cong)

lemma attachSignature_Ok:
  assumes "attachSignature cr c sk = Ok cert"
  obtains sig msg where "cert = c\<lparr>ce_Signature := b64std sig\<rparr>" "signingBytes c = Some msg"
    "dsa_Sign cr (Some sk) msg = Ok sig"
  using assms by (auto simp: attachSignature_def split: option.splits result.splits)

lemma attach_signed:
  assumes "dsa_correct cr" "ca_ok cr ca" "attachSignature cr c (ca_sk ca) = Ok cert"
  shows "\<exists>sig msg. b64std_dec (ce_Signature cert) = Some sig \<and> signingBytes cert = Some msg \<and>
    dsa_Verify cr (Some (ca_pk ca)) msg sig"
proof -
  obtain sig msg where s: "cert = c\<lparr>ce_Signature := b64std sig\<rparr>" "signingBytes c = Some msg"
    "dsa_Sign cr (Some (ca_sk ca)) msg = Ok sig"
    using assms(3) by (rule attachSignature_Ok)
  have "dsa_pair cr (ca_pk ca) (ca_sk ca)" using assms(2) by (simp add: ca_ok_def)
  then show ?thesis using dsa_Sign_Verify(1) [OF assms(1) _ s(3)] s by simp
qed

lemma attach_linked:
  assumes "dsa_correct cr" "ca_ok cr ca" "attachSignature cr c (ca_sk ca) = Ok cert"
    and "ce_Issuer c = ce_Subject (ca_cert ca)"
  shows "linked cr cert (ca_cert ca)"
proof -
  have "dsa_ParsePublicKey cr 87 (pk_bytes (ca_pk ca)) = Ok (ca_pk ca)"
    using dsa_Parse_pair(1) [OF assms(1)] assms(2) by (fastforce simp: ca_ok_def)
  moreover have "ce_Issuer cert = ce_Issuer c" using assms(3) by (auto elim: attachSignature_Ok)
  ultimately show ?thesis
    using attach_signed [OF assms(1-3)] assms(2,4) by (auto simp: linked_def ca_ok_def)
qed

lemma ca_Issue_Ok:
  assumes "ca_Issue cr ca subject pkType pk ttl now e = Ok (cert, e')"
  obtains b where "rand_read 16 e = Some (b, e')" "subject \<noteq> []" "pkType \<noteq> []" "pk \<noteq> []"
    "attachSignature cr (make_cert (hex_encode b) subject (ce_Subject (ca_cert ca)) pk pkType now
       (if ttl \<le> 0 then defaultLeafTTL else ttl) False) (ca_sk ca) = Ok cert"
  using assms
  by (auto simp: ca_Issue_def randomSerial_def Let_def split: if_splits option.splits result.splits prod.splits)

lemma ca_Init_Ok:
  assumes "ca_Init cr subject now e = Ok (ca, e')"
  obtains serial where "dsa_pair cr (ca_pk ca) (ca_sk ca)" "pk_level (ca_pk ca) = 87" "ca_revoked ca = []"
    "attachSignature cr (make_cert serial subject subject (pk_bytes (ca_pk ca)) schemeAlgorithm now defaultCATTL True)
       (ca_sk ca) = Ok (ca_cert ca)"
proof -
  obtain pk sk e1 where k: "dsa_GenerateKey cr 87 e = Ok (pk, sk, e1)"
    using assms by (auto simp: ca_Init_def split: if_splits result.splits)
  obtain serial e2 where s: "randomSerial e1 = Some (serial, e2)"
    using assms k by (auto simp: ca_Init_def split: if_splits option.splits)
  show thesis using assms dsa_GenerateKey_pair [OF k]
    by (intro that [of serial]) (auto simp: ca_Init_def k s split: if_splits result.splits)
qed

lemma IssueIntermediate_Ok:
  assumes "IssueIntermediate cr ca subject ttl now e = Ok (sub, cert, e')"
  obtains serial where "dsa_pair cr (ca_pk sub) (ca_sk sub)" "pk_level (ca_pk sub) = 87" "ca_revoked sub = []"
    "ca_cert sub = cert"
    "attachSignature cr (make_cert serial subject (ce_Subject (ca_cert ca)) (pk_bytes (ca_pk sub)) schemeAlgorithm now
       (if ttl \<le> 0 then defaultCATTL else ttl) True) (ca_sk ca) = Ok cert"
proof -
  obtain pk sk e1 where k: "dsa_GenerateKey cr 87 e = Ok (pk, sk, e1)"
    using assms by (auto simp: IssueIntermediate_def Let_def split: if_splits result.splits)
  obtain serial e2 where s: "randomSerial e1 = Some (serial, e2)"
    using assms k by (auto simp: IssueIntermediate_def Let_def split: if_splits option.splits)
  show thesis using assms dsa_GenerateKey_pair [OF k]
    by (intro that [of serial]) (auto simp: IssueIntermediate_def Let_def k s split: if_splits result.splits)
qed

lemma attach_fields:
  "attachSignature cr (make_cert serial subject issuer pk pkType now ttl isCA) sk = Ok cert \<Longrightarrow>
     ce_Serial cert = serial \<and> ce_Subject cert = subject \<and> ce_Issuer cert = issuer \<and> ce_PublicKey cert = b64std pk \<and>
     ce_PublicKeyType cert = pkType \<and> ce_NotBefore cert = time_Truncate_s now \<and>
     ce_NotAfter cert = time_Truncate_s now + ttl \<and> ce_IsCA cert = isCA \<and>
     ce_Algorithm cert = schemeAlgorithm \<and> ce_Version cert = 1"
  by (auto simp: make_cert_def elim: attachSignature_Ok)

text \<open>The CAs that a root has delegated to, with the chain of certificates back to the root.\<close>

inductive ca_under :: "crypto \<Rightarrow> authority_ca \<Rightarrow> certificate list \<Rightarrow> authority_ca \<Rightarrow> bool" for cr root where
  root: "ca_Init cr subject now e = Ok (root, e') \<Longrightarrow> ca_under cr root [] root"
| sub: "ca_under cr root chain ca \<Longrightarrow> IssueIntermediate cr ca subject ttl now e = Ok (sub, cert, e') \<Longrightarrow>
    ca_under cr root (cert # chain) sub"

lemma ca_under_props:
  assumes "dsa_correct cr"
  shows "ca_under cr root chain ca \<Longrightarrow> ca_ok cr ca \<and> list_all ce_IsCA chain \<and>
    hd (chain @ [ca_cert root]) = ca_cert ca \<and> successively (linked cr) (chain @ [ca_cert root]) \<and>
    linked cr (ca_cert root) (ca_cert root) \<and> ce_IsCA (ca_cert root) \<and>
    ce_Issuer (ca_cert root) = ce_Subject (ca_cert root)"
proof (induction rule: ca_under.induct)
  case (root subject now e e')
  obtain serial where i: "dsa_pair cr (ca_pk root) (ca_sk root)" "pk_level (ca_pk root) = 87"
    "attachSignature cr (make_cert serial subject subject (pk_bytes (ca_pk root)) schemeAlgorithm now defaultCATTL True)
       (ca_sk root) = Ok (ca_cert root)"
    using root by (rule ca_Init_Ok)
  note fields = attach_fields [OF i(3)]
  have ok: "ca_ok cr root" using i fields by (simp add: ca_ok_def)
  have "linked cr (ca_cert root) (ca_cert root)"
    by (rule attach_linked [OF assms ok i(3)]) (simp add: make_cert_def fields)
  then show ?case using ok fields by simp
next
  case (sub chain ca subject ttl now e sb cert e')
  obtain serial where i: "dsa_pair cr (ca_pk sb) (ca_sk sb)" "pk_level (ca_pk sb) = 87" "ca_cert sb = cert"
    "attachSignature cr (make_cert serial subject (ce_Subject (ca_cert ca)) (pk_bytes (ca_pk sb)) schemeAlgorithm now
       (if ttl \<le> 0 then defaultCATTL else ttl) True) (ca_sk ca) = Ok cert"
    using sub.hyps(2) by (rule IssueIntermediate_Ok)
  note fields = attach_fields [OF i(4)]
  have ok: "ca_ok cr sb" using i fields by (simp add: ca_ok_def)
  have "linked cr cert (ca_cert ca)"
    by (rule attach_linked [OF assms _ i(4)]) (use sub.IH in \<open>simp_all add: make_cert_def\<close>)
  then show ?case using sub.IH ok fields i(3) by (cases "chain @ [ca_cert root]") auto
qed

section \<open>Serials and revocation\<close>

lemma trim_left_plain:
  "list_all (\<lambda>c. \<not> ascii_space (of_char c) \<and> (of_char c :: nat) < 0x80) s \<Longrightarrow> trim_left s = s \<and> trim_right_rev s = s"
proof (cases s)
  case (Cons c s')
  then show ?thesis if "list_all (\<lambda>c. \<not> ascii_space (of_char c) \<and> (of_char c :: nat) < 0x80) s"
    using that by (cases s'; cases "tl s'") (auto simp: space2_def space3_def split: list.splits)
qed simp

lemma trim_space_hex [simp]: "trim_space (hex_encode b) = hex_encode b"
proof -
  have dig: "\<not> ascii_space (of_char (hex_digit n)) \<and> (of_char (hex_digit n) :: nat) < 0x80" if "n < 16" for n
    using that by (simp add: of_hex_digit ascii_space_def)
  have "unat (x :: byte) div 16 < 16" "unat x mod 16 < 16" for x
    using unat_byte [of x] by (auto simp: less_mult_imp_div_less)
  then have "list_all (\<lambda>c. \<not> ascii_space (of_char c) \<and> (of_char c :: nat) < 0x80) (hex_encode b)"
    using dig by (auto simp: hex_encode_def list_all_iff)
  then have "trim_left (hex_encode b) = hex_encode b" "trim_right_rev (rev (hex_encode b)) = rev (hex_encode b)"
    using trim_left_plain [of "hex_encode b"] trim_left_plain [of "rev (hex_encode b)"] by auto
  then show ?thesis by (simp add: trim_space_def)
qed

definition revoke_cert :: "gotime \<times> string \<Rightarrow> authority_ca \<Rightarrow> authority_ca" where
  "revoke_cert r ca = snd (ca_Revoke (fst r) (snd r) ca)"

definition serial_key :: "gotime \<times> string \<Rightarrow> string option" where
  "serial_key r = (if trim_space (snd r) = [] then None else Some (trim_space (snd r)))"

interpretation certs: revocation revoke_cert ca_IsRevoked serial_key
  by unfold_locales (auto simp: revoke_cert_def ca_Revoke_def ca_IsRevoked_def serial_key_def Let_def)

lemma revoke_cert_frame: "\<exists>m. revoke_cert r ca = ca\<lparr>ca_revoked := m\<rparr> \<and> (gm_ok (ca_revoked ca) \<longrightarrow> gm_ok m)"
proof -
  have "\<exists>m. ca = ca\<lparr>ca_revoked := m\<rparr> \<and> (gm_ok (ca_revoked ca) \<longrightarrow> gm_ok m)"
    by (rule exI [of _ "ca_revoked ca"]) simp
  then show ?thesis by (auto simp: revoke_cert_def ca_Revoke_def Let_def)
qed

lemma revoke_fold_frame:
  "\<exists>m. fold revoke_cert rs ca = ca\<lparr>ca_revoked := m\<rparr> \<and> (gm_ok (ca_revoked ca) \<longrightarrow> gm_ok m)"
proof (induction rs arbitrary: ca)
  case Nil
  show ?case by (rule exI [of _ "ca_revoked ca"]) simp
next
  case (Cons r rs)
  obtain m where m: "revoke_cert r ca = ca\<lparr>ca_revoked := m\<rparr>" "gm_ok (ca_revoked ca) \<longrightarrow> gm_ok m"
    using revoke_cert_frame by blast
  obtain m' where "fold revoke_cert rs (revoke_cert r ca) = (revoke_cert r ca)\<lparr>ca_revoked := m'\<rparr>"
    "gm_ok (ca_revoked (revoke_cert r ca)) \<longrightarrow> gm_ok m'" using Cons.IH by blast
  then show ?case using m by (intro exI [of _ m']) simp
qed

section \<open>Properties\<close>

text \<open>C27. A certificate a CA issued is accepted by its \<open>Verify\<close> exactly inside the validity window and as
  long as its serial is not revoked; it binds the requested subject, key and lifetime, names the CA as
  issuer and is not a CA certificate.\<close>

theorem ca_issue_verify:
  assumes "dsa_correct cr" "ca_ok cr ca" "ca_Issue cr ca subject pkType pk ttl now e = Ok (cert, e')"
  shows "ce_Subject cert = subject \<and> b64std_dec (ce_PublicKey cert) = Some pk \<and> ce_PublicKeyType cert = pkType \<and>
    ce_Issuer cert = ce_Subject (ca_cert ca) \<and> \<not> ce_IsCA cert \<and> length (ce_Serial cert) = 32 \<and>
    ce_NotBefore cert \<le> now \<and> now - ce_NotBefore cert < Second \<and>
    ce_NotAfter cert = ce_NotBefore cert + (if ttl \<le> 0 then defaultLeafTTL else ttl) \<and>
    (\<forall>t m. ca_Verify cr (ca\<lparr>ca_revoked := m\<rparr>) (Some cert) t =
      (if t < ce_NotBefore cert then Err (CaNotYetValid (ce_NotBefore cert))
       else if t > ce_NotAfter cert then Err (CaExpired (ce_NotAfter cert))
       else case gm_get m (ce_Serial cert) of
         Some r \<Rightarrow> Err (CaRevoked (ce_Serial cert) r) | None \<Rightarrow> Ok ()))"
proof -
  obtain b where b: "rand_read 16 e = Some (b, e')" and att: "attachSignature cr (make_cert (hex_encode b) subject
      (ce_Subject (ca_cert ca)) pk pkType now (if ttl \<le> 0 then defaultLeafTTL else ttl) False) (ca_sk ca) = Ok cert"
    using assms(3) by (rule ca_Issue_Ok)
  note fields = attach_fields [OF att]
  obtain sig msg where "b64std_dec (ce_Signature cert) = Some sig" "signingBytes cert = Some msg"
    "dsa_Verify cr (Some (ca_pk ca)) msg sig" using attach_signed [OF assms(1,2) att] by blast
  then show ?thesis
    using fields rand_read_length [OF b] time_Truncate_gt [of now] time_Truncate_le [of now]
    by (simp add: ca_Verify_def)
qed

text \<open>C28. \<open>VerifyChain\<close> accepts exactly the valid chains: no missing certificate, a self-issued anchor that
  is a CA and signed itself, CA certificates in between, every certificate inside its window, and each
  one issued and signed by the next.\<close>

theorem ca_chain_iff:
  "is_ok (ca_VerifyChain cr now certp chain anchorp) \<longleftrightarrow>
     (\<exists>cert cs anchor. certp = Some cert \<and> chain = map Some cs \<and> anchorp = Some anchor \<and>
        ce_Issuer anchor = ce_Subject anchor \<and> ce_IsCA anchor \<and> linked cr anchor anchor \<and> list_all ce_IsCA cs \<and>
        list_all (in_window now) (cert # cs @ [anchor]) \<and> successively (linked cr) (cert # cs @ [anchor]))"
proof (cases "certp = None \<or> anchorp = None \<or> (\<nexists>cs. check_chain 0 chain = Ok cs)")
  case True
  have "\<not> is_ok (ca_VerifyChain cr now certp chain anchorp)"
    using True by (cases "check_chain 0 chain") (auto simp: ca_VerifyChain_def split: option.splits)
  then show ?thesis using True by (auto simp: check_chain_iff)
next
  case False
  then obtain cert anchor cs where c: "certp = Some cert" "anchorp = Some anchor" "check_chain 0 chain = Ok cs"
    by (cases certp; cases anchorp) auto
  have chain: "chain = map Some cs" "list_all ce_IsCA cs" using c(3) by (auto simp: check_chain_iff)
  have "is_ok (ca_VerifyChain cr now certp chain anchorp) \<longleftrightarrow>
      ce_Issuer anchor = ce_Subject anchor \<and> ce_IsCA anchor \<and> is_ok (verifySingleLink cr now anchor anchor) \<and>
      is_ok (walk_links cr now 0 (zip (cert # cs) (cs @ [anchor])))"
    unfolding ca_VerifyChain_def by (cases "verifySingleLink cr now anchor anchor") (simp_all add: c)
  also have "\<dots> \<longleftrightarrow> ce_Issuer anchor = ce_Subject anchor \<and> ce_IsCA anchor \<and> linked cr anchor anchor \<and>
      list_all (in_window now) (cert # cs @ [anchor]) \<and> successively (linked cr) (cert # cs @ [anchor])"
    using zip_links [of cert cs anchor "in_window now" "linked cr"]
    by (auto simp: walk_links_iff verifySingleLink_iff list_all_iff)
  finally show ?thesis using c chain by auto
qed

text \<open>Delegation works to any depth: a leaf certificate issued by any CA that a root delegated to,
  directly or through intermediates, verifies against that root with the chain of the intermediates'
  certificates, whenever all certificates involved are inside their windows.\<close>

theorem ca_delegation:
  assumes "dsa_correct cr" "ca_under cr root chain ca"
    and "ca_Issue cr ca subject pkType pk ttl now e = Ok (leaf, e')"
    and "list_all (in_window t) (leaf # chain @ [ca_cert root])"
  shows "is_ok (ca_VerifyChain cr t (Some leaf) (map Some chain) (Some (ca_cert root)))"
proof -
  note under = ca_under_props [OF assms(1,2)]
  obtain b where att: "attachSignature cr (make_cert (hex_encode b) subject
      (ce_Subject (ca_cert ca)) pk pkType now (if ttl \<le> 0 then defaultLeafTTL else ttl) False) (ca_sk ca) = Ok leaf"
    using assms(3) by (rule ca_Issue_Ok)
  have "linked cr leaf (ca_cert ca)"
    by (rule attach_linked [OF assms(1) _ att]) (use under in \<open>simp_all add: make_cert_def\<close>)
  then have "successively (linked cr) (leaf # chain @ [ca_cert root])"
    using under by (cases "chain @ [ca_cert root]") auto
  then show ?thesis using under assms(4) unfolding ca_chain_iff by blast
qed

text \<open>C29. Once \<open>Revoke\<close> was called with the serial of an issued certificate, no sequence of further
  revocations lets \<open>Verify\<close> accept the certificate again, at any time.\<close>

theorem ca_revoked_stays:
  assumes "dsa_correct cr" "ca_ok cr ca" "ca_Issue cr ca subject pkType pk ttl now e = Ok (cert, e')"
  shows "let ca' = fold revoke_cert rs (snd (ca_Revoke now' (ce_Serial cert) (fold revoke_cert qs ca)))
    in ca_IsRevoked ca' (ce_Serial cert) \<and> \<not> is_ok (ca_Verify cr ca' (Some cert) t)"
proof -
  obtain b where b: "rand_read 16 e = Some (b, e')" and att: "attachSignature cr (make_cert (hex_encode b) subject
      (ce_Subject (ca_cert ca)) pk pkType now (if ttl \<le> 0 then defaultLeafTTL else ttl) False) (ca_sk ca) = Ok cert"
    using assms(3) by (rule ca_Issue_Ok)
  have serial: "ce_Serial cert = hex_encode b" using attach_fields [OF att] by simp
  then have "ce_Serial cert \<noteq> []" using rand_read_length [OF b] by (auto simp: hex_encode_def)
  then have "serial_key (now', ce_Serial cert) = Some (ce_Serial cert)" by (simp add: serial_key_def serial)
  let ?ca = "fold revoke_cert (qs @ (now', ce_Serial cert) # rs) ca"
  have rev: "ca_IsRevoked ?ca (ce_Serial cert)"
    using \<open>serial_key _ = _\<close> unfolding certs.revoked_fold by force
  then have "\<not> is_ok (ca_Verify cr ?ca (Some cert) t)"
    by (auto simp: ca_Verify_def ca_IsRevoked_def split: option.splits)
  moreover have "?ca = fold revoke_cert rs (snd (ca_Revoke now' (ce_Serial cert) (fold revoke_cert qs ca)))"
    by (simp add: revoke_cert_def)
  ultimately show ?thesis using rev by (simp add: Let_def)
qed

text \<open>The published list is exact: after any revocations on a CA with an empty list it is strictly
  sorted by serial and lists a serial exactly if some call named it (up to surrounding white space).\<close>

theorem ca_crl_exact:
  assumes "ca_revoked ca = []"
  shows "let es = cl_Entries (ca_CRL (fold revoke_cert rs ca) now) in
    sorted_wrt (<) (map cl_Serial es) \<and>
    set (map cl_Serial es) = {s. s \<noteq> [] \<and> s \<in> (\<lambda>r. trim_space (snd r)) ` set rs}"
proof -
  define ca' where "ca' = fold revoke_cert rs ca"
  have "gm_ok (ca_revoked ca')" using revoke_fold_frame [of rs ca] assms by (auto simp: ca'_def)
  then have "distinct (map cl_Serial (map (\<lambda>(s, t). \<lparr>cl_Serial = s, cl_RevokedAt = t\<rparr>) (ca_revoked ca')))"
    by (simp add: gm_ok_def comp_def case_prod_beta)
  then have dist: "distinct (map cl_Serial (cl_Entries (ca_CRL ca' now)))"
    unfolding ca_CRL_def crl.simps by (metis distinct_map distinct_sort set_sort)
  have "sorted (map cl_Serial (cl_Entries (ca_CRL ca' now)))" by (simp add: ca_CRL_def)
  then have "sorted_wrt (<) (map cl_Serial (cl_Entries (ca_CRL ca' now)))"
    using dist by (simp add: strict_sorted_iff)
  moreover have "set (map cl_Serial (cl_Entries (ca_CRL ca' now))) = {s. ca_IsRevoked ca' s}"
    by (force simp: ca_CRL_def ca_IsRevoked_def map_of_eq_None_iff image_iff)
  moreover have "{s. ca_IsRevoked ca' s} = {s. s \<noteq> [] \<and> s \<in> (\<lambda>r. trim_space (snd r)) ` set rs}"
    unfolding ca'_def certs.revoked_fold using assms by (auto simp: ca_IsRevoked_def serial_key_def split: if_splits)
  ultimately show ?thesis by (simp add: Let_def ca'_def)
qed

section \<open>Runs on the concrete instance\<close>

lemma attachSignature_ok:
  assumes "0 \<le> ce_NotBefore c" "ce_NotBefore c < 8000 * 365 * 86400 * Second"
    and "0 \<le> ce_NotAfter c" "ce_NotAfter c < 8000 * 365 * 86400 * Second"
  shows "\<exists>cert. attachSignature cr c sk = Ok cert"
proof -
  obtain s1 s2 where "rfc3339 (ce_NotBefore c) = Some s1" "rfc3339 (ce_NotAfter c) = Some s2"
    using rfc3339_ok assms by blast
  then show ?thesis by (simp add: attachSignature_def signingBytes_def enc_body_def enc_time_def dsa_Sign_def)
qed

lemma demo_root: obtains root e' where "ca_Init toy_crypto ''Root'' 0 (replicate 48 1) = Ok (root, e')"
proof -
  obtain pk sk e1 where k: "dsa_GenerateKey toy_crypto 87 (replicate 48 1) = Ok (pk, sk, e1)" "length e1 = 16"
    by (simp add: dsa_GenerateKey_def dsa_schemeFor_def rand_read_def toy_crypto_def)
  obtain serial e2 where s: "randomSerial e1 = Some (serial, e2)" using k(2) by (simp add: randomSerial_def rand_read_def)
  obtain cert where "attachSignature toy_crypto (make_cert serial ''Root'' ''Root'' (pk_bytes pk) schemeAlgorithm 0 defaultCATTL True) sk = Ok cert"
    using attachSignature_ok [of "make_cert serial ''Root'' ''Root'' (pk_bytes pk) schemeAlgorithm 0 defaultCATTL True" toy_crypto sk]
    by (auto simp: make_cert_def time_Truncate_s_def defaultCATTL_def)
  then show thesis using that k s by (simp add: ca_Init_def)
qed

lemma demo_leaf:
  obtains leaf e' where "ca_Issue cr ca ''leaf'' ''ML-KEM-768'' [1, 2] 0 (5 * Second) (replicate 16 2) = Ok (leaf, e')"
    "ce_NotBefore leaf = 5 * Second" "ce_NotAfter leaf = 5 * Second + defaultLeafTTL"
proof -
  let ?c = "make_cert (hex_encode (replicate 16 2)) ''leaf'' (ce_Subject (ca_cert ca)) [1, 2] ''ML-KEM-768'' (5 * Second) defaultLeafTTL False"
  obtain leaf where l: "attachSignature cr ?c (ca_sk ca) = Ok leaf"
    using attachSignature_ok [of ?c cr "ca_sk ca"] by (auto simp: make_cert_def time_Truncate_s_def defaultLeafTTL_def)
  then show thesis using that attach_fields [OF l]
    by (simp add: ca_Issue_def randomSerial_def rand_read_def time_Truncate_s_def)
qed

theorem ca_issue_verify_witness:
  "\<exists>ca cert. ca_revoked ca = [] \<and> is_ok (ca_Verify toy_crypto ca (Some cert) (6 * Second)) \<and>
     \<not> is_ok (ca_Verify toy_crypto (ca\<lparr>ca_revoked := [(ce_Serial cert, 5)]\<rparr>) (Some cert) (6 * Second))"
proof -
  obtain ca e1 where ca: "ca_Init toy_crypto ''Root'' 0 (replicate 48 1) = Ok (ca, e1)" by (rule demo_root)
  have ok: "ca_ok toy_crypto ca" using ca_under_props [OF toy_dsa_correct ca_under.root [OF ca]] by simp
  have empty: "ca = ca\<lparr>ca_revoked := []\<rparr>" "ca_revoked ca = []" using ca by (auto elim: ca_Init_Ok)
  obtain cert e2 where cert: "ca_Issue toy_crypto ca ''leaf'' ''ML-KEM-768'' [1, 2] 0 (5 * Second) (replicate 16 2) = Ok (cert, e2)"
    and w: "ce_NotBefore cert = 5 * Second" "ce_NotAfter cert = 5 * Second + defaultLeafTTL" by (rule demo_leaf)
  have v: "ca_Verify toy_crypto (ca\<lparr>ca_revoked := m\<rparr>) (Some cert) (6 * Second) =
      (case gm_get m (ce_Serial cert) of Some r \<Rightarrow> Err (CaRevoked (ce_Serial cert) r) | None \<Rightarrow> Ok ())" for m
    using ca_issue_verify [OF toy_dsa_correct ok cert] by (simp add: w defaultLeafTTL_def)
  have "is_ok (ca_Verify toy_crypto ca (Some cert) (6 * Second))" by (subst empty(1), subst v) simp
  then show ?thesis using v [of "[(ce_Serial cert, 5)]"] empty(2)
    by (intro exI [of _ ca] exI [of _ cert]) simp
qed

theorem ca_delegation_witness:
  "\<exists>(root :: authority_ca) leaf. is_ok (ca_VerifyChain toy_crypto (6 * Second) (Some leaf) (map Some []) (Some (ca_cert root)))"
proof -
  obtain ca e1 where ca: "ca_Init toy_crypto ''Root'' 0 (replicate 48 1) = Ok (ca, e1)" by (rule demo_root)
  obtain cert e2 where cert: "ca_Issue toy_crypto ca ''leaf'' ''ML-KEM-768'' [1, 2] 0 (5 * Second) (replicate 16 2) = Ok (cert, e2)"
    and w: "ce_NotBefore cert = 5 * Second" "ce_NotAfter cert = 5 * Second + defaultLeafTTL" by (rule demo_leaf)
  obtain serial where "attachSignature toy_crypto (make_cert serial ''Root'' ''Root'' (pk_bytes (ca_pk ca)) schemeAlgorithm 0 defaultCATTL True)
       (ca_sk ca) = Ok (ca_cert ca)" using ca by (rule ca_Init_Ok)
  then have "list_all (in_window (6 * Second)) (cert # [] @ [ca_cert ca])"
    using attach_fields [of toy_crypto serial] w
    by (force simp: in_window_def time_Truncate_s_def defaultCATTL_def defaultLeafTTL_def)
  from ca_delegation [OF toy_dsa_correct ca_under.root [OF ca] cert this] show ?thesis by blast
qed

theorem ca_revoked_stays_witness:
  "\<exists>ca cert. ca_revoked ca = [] \<and>
     (let ca' = fold revoke_cert [(9, ''other'')] (snd (ca_Revoke 8 (ce_Serial cert) (fold revoke_cert [] ca)))
      in ca_IsRevoked ca' (ce_Serial cert) \<and> \<not> is_ok (ca_Verify toy_crypto ca' (Some cert) (6 * Second)))"
proof -
  obtain ca e1 where ca: "ca_Init toy_crypto ''Root'' 0 (replicate 48 1) = Ok (ca, e1)" by (rule demo_root)
  have ok: "ca_ok toy_crypto ca" using ca_under_props [OF toy_dsa_correct ca_under.root [OF ca]] by simp
  have empty: "ca_revoked ca = []" using ca by (auto elim: ca_Init_Ok)
  obtain cert e2 where cert: "ca_Issue toy_crypto ca ''leaf'' ''ML-KEM-768'' [1, 2] 0 (5 * Second) (replicate 16 2) = Ok (cert, e2)"
    by (rule demo_leaf)
  from ca_revoked_stays [OF toy_dsa_correct ok cert, of "[(9, ''other'')]" 8 "[]" "6 * Second"] empty show ?thesis by blast
qed

theorem ca_crl_exact_witness:
  "\<exists>ca :: authority_ca. ca_revoked ca = [] \<and>
     (let es = cl_Entries (ca_CRL (fold revoke_cert [(1, ''b''), (2, ''a''), (3, ''b'')] ca) 4) in
        sorted_wrt (<) (map cl_Serial es))"
proof -
  obtain ca e1 where ca: "ca_Init toy_crypto ''Root'' 0 (replicate 48 1) = Ok (ca, e1)" by (rule demo_root)
  have "ca_revoked ca = []" using ca by (auto elim: ca_Init_Ok)
  from ca_crl_exact [OF this, of "[(1, ''b''), (2, ''a''), (3, ''b'')]" 4] this show ?thesis
    unfolding Let_def by blast
qed

end
