(* ===== verification/CAStore.thy ===== *)
theory CAStore
  imports CertAuth JsonClean
begin

text \<open>
  \<open>internal/castore/castore.go\<close>: a CA hierarchy saved to and loaded from one encrypted file. The JSON
  payload is written and read member by member as in the keystore; the file is
  magic, salt, nonce and ciphertext. A \<open>null\<close> intermediate in the payload makes \<open>Load\<close> panic, as in the code.
\<close>

record ca_store =
  cs_root :: "authority_ca option"
  cs_intermediates :: "(string, authority_ca) gomap"

record persisted_store =
  pst_Version :: int
  pst_Root :: "ca_snapshot option"
  pst_Intermediates :: "(string, ca_snapshot option) gomap"

datatype castore_error =
    CsEmptyPassword | CsMarshal | CsRandom | CsAES | CsWrite | CsRead | CsTooShort | CsMagic | CsDecrypt
  | CsUnmarshal | CsRestoreRoot ca_error | CsRestoreIntermediate string ca_error

definition cs_New :: ca_store where
  "cs_New = \<lparr>cs_root = None, cs_intermediates = []\<rparr>"

definition SetRoot :: "authority_ca option \<Rightarrow> ca_store \<Rightarrow> ca_store" where
  "SetRoot c s = s\<lparr>cs_root := c\<rparr>"

definition SetIntermediate :: "string \<Rightarrow> authority_ca \<Rightarrow> ca_store \<Rightarrow> ca_store" where
  "SetIntermediate serial c s = s\<lparr>cs_intermediates := gm_put serial c (cs_intermediates s)\<rparr>"

definition cs_Intermediate :: "ca_store \<Rightarrow> string \<Rightarrow> authority_ca option" where
  "cs_Intermediate s serial = gm_get (cs_intermediates s) serial"

section \<open>The payload\<close>

definition enc_cert :: "certificate \<Rightarrow> jval option" where
  "enc_cert c =
     (case enc_body c of
        Some (JObj kvs) \<Rightarrow>
          Some (JObj (kvs @ (if ce_Signature c = [] then [] else [(''signature'', JStr (ce_Signature c))])))
      | _ \<Rightarrow> None)"

definition enc_times :: "(string, gotime) gomap \<Rightarrow> jval option" where
  "enc_times m =
     map_option JObj (those (map (\<lambda>(k, t). map_option (Pair k) (enc_time t)) (sort_key fst m)))"

definition enc_snapshot :: "ca_snapshot \<Rightarrow> jval option" where
  "enc_snapshot sn =
     (case (case sn_Certificate sn of None \<Rightarrow> Some JNull | Some c \<Rightarrow> enc_cert c, enc_times (sn_Revoked sn)) of
        (Some c, Some r) \<Rightarrow>
          Some (JObj [(''version'', JInt (sn_Version sn)), (''certificate'', c), (''priv_key'', JStr (sn_PrivKey sn)),
            (''revoked'', r)])
      | _ \<Rightarrow> None)"

definition enc_opt_snapshot :: "ca_snapshot option \<Rightarrow> jval option" where
  "enc_opt_snapshot sn = (case sn of None \<Rightarrow> Some JNull | Some x \<Rightarrow> enc_snapshot x)"

definition enc_persisted :: "persisted_store \<Rightarrow> jval option" where
  "enc_persisted p =
     (case (enc_opt_snapshot (pst_Root p),
            those (map (\<lambda>(k, sn). map_option (Pair k) (enc_opt_snapshot sn)) (sort_key fst (pst_Intermediates p)))) of
        (Some r, Some is) \<Rightarrow>
          Some (JObj ([(''version'', JInt (pst_Version p))] @ (if pst_Root p = None then [] else [(''root'', r)]) @
            [(''intermediates'', JObj is)]))
      | _ \<Rightarrow> None)"

fun as_cert :: "jval \<Rightarrow> certificate option" where
  "as_cert (JObj kvs) =
     (case (int_field ''version'' kvs, str_field ''serial'' kvs, str_field ''subject'' kvs, str_field ''issuer'' kvs,
            str_field ''algorithm'' kvs, str_field ''public_key'' kvs, str_field ''public_key_type'' kvs,
            time_field ''not_before'' kvs, time_field ''not_after'' kvs, bool_field ''is_ca'' kvs,
            str_field ''signature'' kvs) of
        (Some v, Some se, Some su, Some iss, Some al, Some pk, Some pt, Some nb, Some na, Some ic, Some sg) \<Rightarrow>
          Some \<lparr>ce_Version = v, ce_Serial = se, ce_Subject = su, ce_Issuer = iss, ce_Algorithm = al, ce_PublicKey = pk,
                ce_PublicKeyType = pt, ce_NotBefore = nb, ce_NotAfter = na, ce_IsCA = ic, ce_Signature = sg\<rparr>
      | _ \<Rightarrow> None)"
| "as_cert _ = None"

definition as_time_elem :: "string \<times> jval \<Rightarrow> (string \<times> gotime) option" where
  "as_time_elem kv = map_option (Pair (fst kv)) (if snd kv = JNull then Some zero_time else as_time (snd kv))"

fun as_times :: "jval \<Rightarrow> (string, gotime) gomap option" where
  "as_times (JObj kvs) = map_option (\<lambda>es. fold (\<lambda>(k, v) m. gm_put k v m) es []) (those (map as_time_elem kvs))"
| "as_times _ = None"

fun as_snapshot :: "jval \<Rightarrow> ca_snapshot option" where
  "as_snapshot (JObj kvs) =
     (case (int_field ''version'' kvs, get_field (\<lambda>v. map_option Some (as_cert v)) None ''certificate'' kvs,
            str_field ''priv_key'' kvs, get_field as_times [] ''revoked'' kvs) of
        (Some v, Some c, Some p, Some r) \<Rightarrow>
          Some \<lparr>sn_Version = v, sn_Certificate = c, sn_PrivKey = p, sn_Revoked = r\<rparr>
      | _ \<Rightarrow> None)"
| "as_snapshot _ = None"

definition as_snapshot_elem :: "string \<times> jval \<Rightarrow> (string \<times> ca_snapshot option) option" where
  "as_snapshot_elem kv =
     map_option (Pair (fst kv)) (if snd kv = JNull then Some None else map_option Some (as_snapshot (snd kv)))"

fun as_snapshots :: "jval \<Rightarrow> (string, ca_snapshot option) gomap option" where
  "as_snapshots (JObj kvs) =
     map_option (\<lambda>es. fold (\<lambda>(k, v) m. gm_put k v m) es []) (those (map as_snapshot_elem kvs))"
| "as_snapshots _ = None"

definition dec_persisted :: "string \<Rightarrow> persisted_store option" where
  "dec_persisted s =
     (case Option.bind (json_Unmarshal s) as_obj of
        None \<Rightarrow> None
      | Some kvs \<Rightarrow>
          (case (int_field ''version'' kvs, get_field (\<lambda>v. map_option Some (as_snapshot v)) None ''root'' kvs,
                 get_field as_snapshots [] ''intermediates'' kvs) of
             (Some v, Some r, Some is) \<Rightarrow> Some \<lparr>pst_Version = v, pst_Root = r, pst_Intermediates = is\<rparr>
           | _ \<Rightarrow> None))"

section \<open>The encrypted file\<close>

definition magic :: bytes where "magic = str_bytes ''QSC1''"
definition argonTime :: nat where "argonTime = 3"
definition saltLen :: nat where "saltLen = 32"
definition nonceLen :: nat where "nonceLen = 12"

definition cs_encrypt :: "crypto \<Rightarrow> bytes \<Rightarrow> string \<Rightarrow> entropy \<Rightarrow> (castore_error, bytes \<times> entropy) result" where
  "cs_encrypt cr plaintext password e =
     (case rand_read saltLen e of
        None \<Rightarrow> Err CsRandom
      | Some (salt, e1) \<Rightarrow>
          (let key = argon2id cr argonTime (str_bytes password) salt in
           if \<not> aes_key_ok key then Err CsAES
           else case rand_read nonceLen e1 of
             None \<Rightarrow> Err CsRandom
           | Some (nonce, e2) \<Rightarrow> Ok (magic @ salt @ nonce @ gcm_seal cr key nonce plaintext [], e2)))"

definition cs_decrypt :: "crypto \<Rightarrow> bytes \<Rightarrow> string \<Rightarrow> (castore_error, bytes) result" where
  "cs_decrypt cr data password =
     (if length data < 4 + saltLen + nonceLen + 16 then Err CsTooShort
      else if take 4 data \<noteq> magic then Err CsMagic
      else
        (let salt = take saltLen (drop 4 data); nonce = take nonceLen (drop (4 + saltLen) data);
             ct = drop (4 + saltLen + nonceLen) data; key = argon2id cr argonTime (str_bytes password) salt in
         if \<not> aes_key_ok key then Err CsAES
         else case gcm_open cr key nonce ct [] of None \<Rightarrow> Err CsDecrypt | Some pt \<Rightarrow> Ok pt))"

definition atomicWrite :: "disk \<Rightarrow> string \<Rightarrow> bytes \<Rightarrow> files \<Rightarrow> (castore_error, unit) result \<times> files" where
  "atomicWrite d path data fs =
     (case replace_file True d path (bytes_str data) fs of (ok, fs') \<Rightarrow> (if ok then Ok () else Err CsWrite, fs'))"

definition persisted_of :: "ca_store \<Rightarrow> persisted_store" where
  "persisted_of s =
     \<lparr>pst_Version = 1, pst_Root = map_option ca_Export (cs_root s),
      pst_Intermediates = map (\<lambda>(k, c). (k, Some (ca_Export c))) (cs_intermediates s)\<rparr>"

definition cs_Save ::
    "crypto \<Rightarrow> disk \<Rightarrow> string \<Rightarrow> string \<Rightarrow> ca_store \<Rightarrow> files \<Rightarrow> entropy \<Rightarrow> (castore_error, unit) result \<times> files" where
  "cs_Save cr d path password s fs e =
     (if password = [] then (Err CsEmptyPassword, fs)
      else case enc_persisted (persisted_of s) of
        None \<Rightarrow> (Err CsMarshal, fs)
      | Some v \<Rightarrow>
          (case cs_encrypt cr (str_bytes (json_enc v)) password e of
             Ok (ct, e') \<Rightarrow> atomicWrite d path ct fs
           | Err er \<Rightarrow> (Err er, fs)
           | Panic \<Rightarrow> (Panic, fs)))"

fun restore_all :: "crypto \<Rightarrow> (string \<times> ca_snapshot option) list \<Rightarrow> ca_store \<Rightarrow> (castore_error, ca_store) result" where
  "restore_all cr [] s = Ok s"
| "restore_all cr ((k, None) # rest) s = Panic"
| "restore_all cr ((k, Some sn) # rest) s =
     (case ca_Restore cr sn of
        Ok sub \<Rightarrow> restore_all cr rest (SetIntermediate k sub s)
      | Err er \<Rightarrow> Err (CsRestoreIntermediate k er)
      | Panic \<Rightarrow> Panic)"

definition cs_Load :: "crypto \<Rightarrow> string \<Rightarrow> string \<Rightarrow> files \<Rightarrow> (castore_error, ca_store) result" where
  "cs_Load cr path password fs =
     (if password = [] then Err CsEmptyPassword
      else case gm_get fs path of
        None \<Rightarrow> Err CsRead
      | Some raw \<Rightarrow>
          (case cs_decrypt cr (str_bytes raw) password of
             Ok plaintext \<Rightarrow>
               (case dec_persisted (bytes_str plaintext) of
                  None \<Rightarrow> Err CsUnmarshal
                | Some ps \<Rightarrow>
                    (case pst_Root ps of
                       None \<Rightarrow> restore_all cr (pst_Intermediates ps) cs_New
                     | Some sn \<Rightarrow>
                         (case ca_Restore cr sn of
                            Ok root \<Rightarrow> restore_all cr (pst_Intermediates ps) (SetRoot (Some root) cs_New)
                          | Err er \<Rightarrow> Err (CsRestoreRoot er)
                          | Panic \<Rightarrow> Panic)))
           | Err er \<Rightarrow> Err er
           | Panic \<Rightarrow> Panic))"

section \<open>Reading back what was written\<close>

definition cert_text_ok :: "certificate \<Rightarrow> bool" where
  "cert_text_ok c \<longleftrightarrow> int64_ok (ce_Version c) \<and> valid_utf8 (ce_Serial c) \<and> valid_utf8 (ce_Subject c) \<and>
     valid_utf8 (ce_Issuer c) \<and> valid_utf8 (ce_Algorithm c) \<and> valid_utf8 (ce_PublicKey c) \<and>
     valid_utf8 (ce_PublicKeyType c) \<and> valid_utf8 (ce_Signature c)"

definition storable :: "crypto \<Rightarrow> authority_ca \<Rightarrow> bool" where
  "storable cr ca \<longleftrightarrow> ca_ok cr ca \<and> sk_bytes (ca_sk ca) \<noteq> [] \<and> cert_text_ok (ca_cert ca) \<and>
     gm_ok (ca_revoked ca) \<and> (\<forall>kt \<in> set (ca_revoked ca). valid_utf8 (fst kt))"

definition same_ca :: "authority_ca \<Rightarrow> authority_ca \<Rightarrow> bool" where
  "same_ca a b \<longleftrightarrow> (\<exists>m. b = a\<lparr>ca_revoked := m\<rparr> \<and> gm_get m = gm_get (ca_revoked a))"

lemma cs_names [simp]:
  "sanitize ''serial'' = ''serial''" "sanitize ''subject'' = ''subject''" "sanitize ''issuer'' = ''issuer''"
  "sanitize ''algorithm'' = ''algorithm''" "sanitize ''public_key'' = ''public_key''"
  "sanitize ''public_key_type'' = ''public_key_type''" "sanitize ''not_before'' = ''not_before''"
  "sanitize ''not_after'' = ''not_after''" "sanitize ''is_ca'' = ''is_ca''" "sanitize ''signature'' = ''signature''"
  "sanitize ''certificate'' = ''certificate''" "sanitize ''priv_key'' = ''priv_key''"
  "sanitize ''revoked'' = ''revoked''" "sanitize ''root'' = ''root''"
  "sanitize ''intermediates'' = ''intermediates''" "sanitize ''version'' = ''version''"
  by (simp_all add: sanitize_ascii code_def)

text \<open>The folded names, computed once.\<close>

lemma cs_folds:
  "fold_name ''version'' = [86, 69, 82, 83, 73, 79, 78]"
  "fold_name ''serial'' = [83, 69, 82, 73, 65, 76]"
  "fold_name ''subject'' = [83, 85, 66, 74, 69, 67, 84]"
  "fold_name ''issuer'' = [73, 83, 83, 85, 69, 82]"
  "fold_name ''algorithm'' = [65, 76, 71, 79, 82, 73, 84, 72, 77]"
  "fold_name ''public_key'' = [80, 85, 66, 76, 73, 67, 95, 75, 69, 89]"
  "fold_name ''public_key_type'' = [80, 85, 66, 76, 73, 67, 95, 75, 69, 89, 95, 84, 89, 80, 69]"
  "fold_name ''not_before'' = [78, 79, 84, 95, 66, 69, 70, 79, 82, 69]"
  "fold_name ''not_after'' = [78, 79, 84, 95, 65, 70, 84, 69, 82]"
  "fold_name ''is_ca'' = [73, 83, 95, 67, 65]"
  "fold_name ''signature'' = [83, 73, 71, 78, 65, 84, 85, 82, 69]"
  "fold_name ''certificate'' = [67, 69, 82, 84, 73, 70, 73, 67, 65, 84, 69]"
  "fold_name ''priv_key'' = [80, 82, 73, 86, 95, 75, 69, 89]"
  "fold_name ''revoked'' = [82, 69, 86, 79, 75, 69, 68]"
  "fold_name ''root'' = [82, 79, 79, 84]"
  "fold_name ''intermediates'' = [73, 78, 84, 69, 82, 77, 69, 68, 73, 65, 84, 69, 83]"
  by (simp_all add: fold_name_def fold_code_def)

lemma as_cert_back:
  assumes "enc_cert c = Some j" "cert_text_ok c"
  shows "json_wf j \<and> as_cert (json_sanitize j) = Some c \<and> json_sanitize j \<noteq> JNull"
proof -
  obtain jb ja where t: "enc_time (ce_NotBefore c) = Some jb" "enc_time (ce_NotAfter c) = Some ja"
    using assms(1) by (auto simp: enc_cert_def enc_body_def split: option.splits)
  obtain b where b: "jb = JStr b" "sanitize b = b" "parse_rfc3339 b = Some (ce_NotBefore c)"
    using enc_time_JStr [OF t(1)] by blast
  obtain a where a: "ja = JStr a" "sanitize a = a" "parse_rfc3339 a = Some (ce_NotAfter c)"
    using enc_time_JStr [OF t(2)] by blast
  have body: "enc_body c = Some (JObj [(''version'', JInt (ce_Version c)), (''serial'', JStr (ce_Serial c)),
            (''subject'', JStr (ce_Subject c)), (''issuer'', JStr (ce_Issuer c)),
            (''algorithm'', JStr (ce_Algorithm c)), (''public_key'', JStr (ce_PublicKey c)),
            (''public_key_type'', JStr (ce_PublicKeyType c)), (''not_before'', jb), (''not_after'', ja),
            (''is_ca'', JBool (ce_IsCA c))])"
    using t by (simp add: enc_body_def)
  show ?thesis
  proof (cases "ce_Signature c = []")
    case True
    then show ?thesis using assms a b body
      by (clarsimp simp: enc_cert_def cert_text_ok_def valid_utf8_def get_field_def cs_folds int64_ok_def)
  next
    case False
    then show ?thesis using assms a b body
      by (clarsimp simp: enc_cert_def cert_text_ok_def valid_utf8_def get_field_def cs_folds int64_ok_def)
  qed
qed

lemma those_sorted_back:
  assumes "those (map (\<lambda>(k, x). map_option (Pair k) (f x)) (sort_key fst m)) = Some js"
    and "\<And>k x v. (k, x) \<in> set m \<Longrightarrow> f x = Some v \<Longrightarrow>
      json_wf v \<and> valid_utf8 k \<and> g (k, json_sanitize v) = Some (k, x)"
  shows "(\<forall>kv \<in> set js. json_wf (snd kv)) \<and>
    those (map g (map (\<lambda>(k, v). (sanitize k, json_sanitize v)) js)) = Some (sort_key fst m)"
proof (rule those_map_back [OF assms(1)])
  fix kx y assume kx: "kx \<in> set (sort_key fst m)" "(case kx of (k, x) \<Rightarrow> map_option (Pair k) (f x)) = Some y"
  obtain k x where kx_eq: "kx = (k, x)" by (cases kx)
  obtain v where v: "f x = Some v" "y = (k, v)" using kx(2) kx_eq by auto
  have "json_wf v \<and> valid_utf8 k \<and> g (k, json_sanitize v) = Some (k, x)"
    using assms(2) [OF _ v(1)] kx(1) kx_eq by simp
  then show "json_wf (snd y) \<and> g (case y of (k, v) \<Rightarrow> (sanitize k, json_sanitize v)) = Some kx"
    by (simp add: v(2) kx_eq valid_utf8_def)
qed

lemma gm_get_sorted: "gm_ok m \<Longrightarrow> gm_get (fold (\<lambda>(k, v) m. gm_put k v m) (sort_key fst m) []) = gm_get m"
proof -
  assume "gm_ok m"
  then have d: "distinct (map fst (sort_key fst m))" by (simp add: gm_ok_def distinct_map)
  then have "gm_get (fold (\<lambda>(k, v) m. gm_put k v m) (sort_key fst m) []) = map_of (sort_key fst m)"
    by (auto simp: fun_eq_iff gm_fold_put split: option.splits)
  also have "\<dots> = gm_get m"
    using \<open>gm_ok m\<close> by (intro map_of_inject_set [THEN iffD2]) (auto simp: gm_ok_def distinct_map)
  finally show ?thesis .
qed

lemma as_times_back:
  assumes "enc_times m = Some j" "\<forall>kt \<in> set m. valid_utf8 (fst kt)" "gm_ok m"
  shows "json_wf j \<and> json_sanitize j \<noteq> JNull \<and>
    (\<exists>m'. as_times (json_sanitize j) = Some m' \<and> gm_get m' = gm_get m)"
proof -
  obtain js where js: "those (map (\<lambda>(k, t). map_option (Pair k) (enc_time t)) (sort_key fst m)) = Some js" "j = JObj js"
    using assms(1) by (auto simp: enc_times_def)
  have "(\<forall>kv \<in> set js. json_wf (snd kv)) \<and>
      those (map as_time_elem (map (\<lambda>(k, v). (sanitize k, json_sanitize v)) js)) = Some (sort_key fst m)"
  proof (rule those_sorted_back [OF js(1)])
    fix k t v assume "(k, t) \<in> set m" "enc_time t = Some v"
    then show "json_wf v \<and> valid_utf8 k \<and> as_time_elem (k, json_sanitize v) = Some (k, t)"
      using assms(2) enc_time_back [of t v] enc_time_JStr [of t v] by (auto simp: as_time_elem_def)
  qed
  then show ?thesis using js(2) gm_get_sorted [OF assms(3)] by auto
qed

lemma as_snapshot_back:
  assumes "enc_snapshot (ca_Export ca) = Some j" "storable cr ca"
  shows "json_wf j \<and> json_sanitize j \<noteq> JNull \<and>
    (\<exists>m. as_snapshot (json_sanitize j) = Some ((ca_Export ca)\<lparr>sn_Revoked := m\<rparr>) \<and> gm_get m = gm_get (ca_revoked ca))"
proof -
  obtain jc jr where j: "enc_cert (ca_cert ca) = Some jc" "enc_times (ca_revoked ca) = Some jr"
    and eq: "j = JObj [(''version'', JInt 1), (''certificate'', jc),
      (''priv_key'', JStr (b64std (sk_bytes (ca_sk ca)))), (''revoked'', jr)]"
    using assms(1) by (auto simp: enc_snapshot_def ca_Export_def split: option.splits)
  have c: "json_wf jc" "as_cert (json_sanitize jc) = Some (ca_cert ca)" "json_sanitize jc \<noteq> JNull"
    using as_cert_back [OF j(1)] assms(2) by (auto simp: storable_def)
  obtain m where r: "json_wf jr" "as_times (json_sanitize jr) = Some m" "gm_get m = gm_get (ca_revoked ca)"
    "json_sanitize jr \<noteq> JNull"
    using as_times_back [OF j(2)] assms(2) by (auto simp: storable_def)
  have "sanitize (b64std (sk_bytes (ca_sk ca))) = b64std (sk_bytes (ca_sk ca))"
    using valid_b64 unfolding valid_utf8_def .
  then have "as_snapshot (json_sanitize j) = Some ((ca_Export ca)\<lparr>sn_Revoked := m\<rparr>)"
    using c r by (simp add: eq get_field_def cs_folds ca_Export_def)
  then show ?thesis using c r eq by auto
qed

lemma ca_Restore_Export:
  assumes "dsa_correct cr" "storable cr ca"
  shows "ca_Restore cr ((ca_Export ca)\<lparr>sn_Revoked := m\<rparr>) = Ok (ca\<lparr>ca_revoked := m\<rparr>)"
proof -
  have p: "dsa_pair cr (ca_pk ca) (ca_sk ca)" "pk_level (ca_pk ca) = 87" "sk_level (ca_sk ca) = 87"
    "ce_PublicKey (ca_cert ca) = b64std (pk_bytes (ca_pk ca))" "sk_bytes (ca_sk ca) \<noteq> []"
    using assms(2) by (auto simp: storable_def ca_ok_def dsa_pair_def)
  show ?thesis
    using dsa_Parse_pair [OF assms(1) p(1)] p by (simp add: ca_Restore_def ca_Export_def)
qed

lemma restore_all_back:
  assumes "dsa_correct cr"
    and "list_all2 (\<lambda>(k, sn) (k', ca). k = k' \<and> storable cr ca \<and>
      (\<exists>m. sn = Some ((ca_Export ca)\<lparr>sn_Revoked := m\<rparr>) \<and> gm_get m = gm_get (ca_revoked ca))) sns cas"
    and "distinct (map fst cas)"
  shows "\<exists>s'. restore_all cr sns s = Ok s' \<and> cs_root s' = cs_root s \<and>
    (\<forall>k. case map_of cas k of None \<Rightarrow> cs_Intermediate s' k = cs_Intermediate s k
       | Some ca \<Rightarrow> (\<exists>c. cs_Intermediate s' k = Some c \<and> same_ca ca c))"
  using assms(2,3)
proof (induction arbitrary: s rule: list_all2_induct)
  case Nil
  then show ?case by simp
next
  case (Cons x xs y ys)
  obtain k ca m where x: "y = (k, ca)" "x = (k, Some ((ca_Export ca)\<lparr>sn_Revoked := m\<rparr>))" "storable cr ca"
    "gm_get m = gm_get (ca_revoked ca)" using Cons.hyps(1) by (cases x; cases y) auto
  note res = ca_Restore_Export [OF assms(1) x(3), of m]
  obtain s' where s': "restore_all cr xs (SetIntermediate k (ca\<lparr>ca_revoked := m\<rparr>) s) = Ok s'" "cs_root s' = cs_root s"
    "\<And>j. case map_of ys j of None \<Rightarrow> cs_Intermediate s' j = cs_Intermediate (SetIntermediate k (ca\<lparr>ca_revoked := m\<rparr>) s) j
       | Some ca \<Rightarrow> (\<exists>c. cs_Intermediate s' j = Some c \<and> same_ca ca c)"
    using Cons.IH [of "SetIntermediate k (ca\<lparr>ca_revoked := m\<rparr>) s"] Cons.prems by (auto simp: SetIntermediate_def)
  have "map_of ys k = None" using Cons.prems x(1) by (simp add: map_of_eq_None_iff)
  then have "cs_Intermediate s' k = Some (ca\<lparr>ca_revoked := m\<rparr>)"
    using s'(3) [of k] by (simp add: cs_Intermediate_def SetIntermediate_def)
  moreover have "same_ca ca (ca\<lparr>ca_revoked := m\<rparr>)" using x(4) by (auto simp: same_ca_def)
  moreover have "case map_of ys j of None \<Rightarrow> cs_Intermediate s' j = cs_Intermediate s j
       | Some ca \<Rightarrow> (\<exists>c. cs_Intermediate s' j = Some c \<and> same_ca ca c)" if "j \<noteq> k" for j
    using s'(3) [of j] that by (simp add: cs_Intermediate_def SetIntermediate_def split: option.splits)
  ultimately show ?case using s'(1,2) x res by (auto simp: cs_Intermediate_def split: option.splits)
qed

lemma fold_put_fresh: "distinct (map fst (m @ xs)) \<Longrightarrow> fold (\<lambda>(k, v) m. gm_put k v m) xs m = m @ xs"
proof (induction xs arbitrary: m)
  case (Cons kv xs)
  obtain k v where kv: "kv = (k, v)" by (cases kv)
  have "k \<notin> fst ` set m" using Cons.prems kv by auto
  then have "gm_put k v m = m @ [(k, v)]" by (induction m) auto
  then show ?case using Cons kv by simp
qed simp

lemma insort_map_snd:
  "insort_key fst (k, g c) (map (\<lambda>(k, c). (k, g c)) ys) = map (\<lambda>(k, c). (k, g c)) (insort_key fst (k, c) ys)"
  by (induction ys) (auto split: prod.splits)

lemma sort_map_snd: "sort_key fst (map (\<lambda>(k, c). (k, g c)) xs) = map (\<lambda>(k, c). (k, g c)) (sort_key fst xs)"
proof (induction xs)
  case (Cons x xs)
  then show ?case by (cases x) (simp add: insort_map_snd)
qed simp

lemma those_related:
  assumes "those (map f xs) = Some ys"
    and "\<And>x y. x \<in> set xs \<Longrightarrow> f x = Some y \<Longrightarrow> P y \<and> (\<exists>z. g (h y) = Some z \<and> R z x)"
  shows "(\<forall>y \<in> set ys. P y) \<and> (\<exists>zs. those (map g (map h ys)) = Some zs \<and> list_all2 R zs xs)"
proof -
  have "map f xs = map Some ys" using assms(1) by (simp add: those_Some_iff)
  then show ?thesis using assms(2)
  proof (induction xs arbitrary: ys)
    case (Cons x xs)
    then obtain y ys' where y: "ys = y # ys'" "f x = Some y" "map f xs = map Some ys'" by (cases ys) auto
    obtain z where z: "P y" "g (h y) = Some z" "R z x" using Cons.prems(2) [of x y] y(2) by auto
    obtain zs where "\<forall>y \<in> set ys'. P y" "those (map g (map h ys')) = Some zs" "list_all2 R zs xs"
      using Cons.IH [OF y(3)] Cons.prems(2) by auto
    then show ?case using y(1) z by auto
  qed simp
qed

text \<open>A snapshot read back restores to the CA it was taken from, up to the order of its revocation list.\<close>

definition snapshot_of :: "crypto \<Rightarrow> authority_ca \<Rightarrow> ca_snapshot option \<Rightarrow> bool" where
  "snapshot_of cr ca sn \<longleftrightarrow> storable cr ca \<and>
     (\<exists>m. sn = Some ((ca_Export ca)\<lparr>sn_Revoked := m\<rparr>) \<and> gm_get m = gm_get (ca_revoked ca))"

lemma as_snapshot_rel:
  assumes "enc_snapshot (ca_Export ca) = Some j" "storable cr ca"
  shows "json_wf j \<and> json_sanitize j \<noteq> JNull \<and>
    (\<exists>sn. map_option Some (as_snapshot (json_sanitize j)) = Some sn \<and> snapshot_of cr ca sn)"
  using as_snapshot_back [OF assms] assms(2) by (auto simp: snapshot_of_def)

lemma dec_persisted_back:
  assumes "enc_persisted (persisted_of s) = Some v"
    and root: "\<forall>ca. cs_root s = Some ca \<longrightarrow> storable cr ca"
    and subs: "gm_ok (cs_intermediates s)" "\<forall>kc \<in> set (cs_intermediates s). valid_utf8 (fst kc) \<and> storable cr (snd kc)"
  obtains r sns where "json_wf v" "dec_persisted (json_enc v) = Some \<lparr>pst_Version = 1, pst_Root = r, pst_Intermediates = sns\<rparr>"
    "case cs_root s of None \<Rightarrow> r = None | Some ca \<Rightarrow> snapshot_of cr ca r"
    "list_all2 (\<lambda>(k, sn) (k', ca). k = k' \<and> snapshot_of cr ca sn) sns (sort_key fst (cs_intermediates s))"
proof -
  let ?ms = "sort_key fst (cs_intermediates s)"
  let ?rel = "\<lambda>(k, sn) (k', ca). k = k' \<and> snapshot_of cr ca sn"
  have sorted: "sort_key fst (pst_Intermediates (persisted_of s)) = map (\<lambda>(k, c). (k, Some (ca_Export c))) ?ms"
    unfolding persisted_of_def persisted_store.simps by (rule sort_map_snd)
  obtain jr js where jr: "enc_opt_snapshot (map_option ca_Export (cs_root s)) = Some jr"
    and js: "those (map (\<lambda>(k, ca). map_option (Pair k) (enc_snapshot (ca_Export ca))) ?ms) = Some js"
    and v: "v = JObj ([(''version'', JInt 1)] @ (if cs_root s = None then [] else [(''root'', jr)]) @ [(''intermediates'', JObj js)])"
    using assms(1) unfolding enc_persisted_def sorted
    by (auto simp: persisted_of_def comp_def case_prod_unfold enc_opt_snapshot_def split: option.splits)
  have "(\<forall>y \<in> set js. json_wf (snd y)) \<and>
    (\<exists>zs. those (map as_snapshot_elem (map (\<lambda>(k, v). (sanitize k, json_sanitize v)) js)) = Some zs \<and> list_all2 ?rel zs ?ms)"
  proof (rule those_related [OF js])
    fix x y assume x: "x \<in> set ?ms" "(case x of (k, ca) \<Rightarrow> map_option (Pair k) (enc_snapshot (ca_Export ca))) = Some y"
    obtain k ca where kc: "x = (k, ca)" by (cases x)
    obtain j where j: "enc_snapshot (ca_Export ca) = Some j" "y = (k, j)" using x(2) kc by auto
    have "valid_utf8 k" "storable cr ca" using x(1) kc subs(2) by force+
    then show "json_wf (snd y) \<and> (\<exists>z. as_snapshot_elem (case y of (k, v) \<Rightarrow> (sanitize k, json_sanitize v)) = Some z \<and> ?rel z x)"
      using as_snapshot_rel [OF j(1)] by (auto simp: j(2) kc as_snapshot_elem_def valid_utf8_def)
  qed
  then obtain zs where wf: "\<forall>y \<in> set js. json_wf (snd y)" and rel: "list_all2 ?rel zs ?ms"
    and zs: "those (map as_snapshot_elem (map (\<lambda>(k, v). (sanitize k, json_sanitize v)) js)) = Some zs" by blast
  have "map fst zs = map fst ?ms" using rel by (induction rule: list_all2_induct) auto
  moreover have "distinct (map fst ?ms)" using subs(1) by (simp add: gm_ok_def distinct_map)
  ultimately have "fold (\<lambda>(k, v) m. gm_put k v m) zs [] = zs" using fold_put_fresh [of "[]" zs] by simp
  then have subs_back: "as_snapshots (json_sanitize (JObj js)) = Some zs" using zs by (simp add: comp_def)
  have nn: "json_sanitize (JObj js) \<noteq> JNull" by simp
  show thesis
  proof (cases "cs_root s")
    case None
    then have "dec_persisted (json_enc v) = Some \<lparr>pst_Version = 1, pst_Root = None, pst_Intermediates = zs\<rparr>"
      using wf nn subs_back unfolding dec_persisted_def v
      by (subst json_object_back) (auto simp: get_field_def cs_folds simp del: as_snapshots.simps json_sanitize.simps(3))
    then show thesis using that None rel wf v by auto
  next
    case (Some ca)
    then have j: "enc_snapshot (ca_Export ca) = Some jr" using jr by (simp add: enc_opt_snapshot_def)
    obtain sn where sn: "json_wf jr" "json_sanitize jr \<noteq> JNull" "map_option Some (as_snapshot (json_sanitize jr)) = Some sn"
      "snapshot_of cr ca sn" using as_snapshot_rel [OF j] root Some by blast
    have "dec_persisted (json_enc v) = Some \<lparr>pst_Version = 1, pst_Root = sn, pst_Intermediates = zs\<rparr>"
      using wf nn subs_back sn(1-3) Some unfolding dec_persisted_def v
      by (subst json_object_back) (auto simp: get_field_def cs_folds simp del: as_snapshots.simps json_sanitize.simps(3))
    then show thesis using that Some rel wf v sn by auto
  qed
qed

lemma cs_decrypt_encrypt:
  assumes "gcm_correct cr" "cs_encrypt cr pt password e = Ok (data, e')"
  shows "cs_decrypt cr data password = Ok pt"
proof -
  obtain salt e1 where salt: "rand_read saltLen e = Some (salt, e1)" "aes_key_ok (argon2id cr argonTime (str_bytes password) salt)"
    using assms(2) by (auto simp: cs_encrypt_def Let_def split: option.splits if_splits)
  obtain nonce e2 where nonce: "rand_read nonceLen e1 = Some (nonce, e2)"
    using assms(2) salt by (auto simp: cs_encrypt_def Let_def split: option.splits)
  have len: "length salt = saltLen" "length nonce = nonceLen" "length magic = 4"
    using rand_read_length [OF salt(1)] rand_read_length [OF nonce] by (simp_all add: magic_def)
  have data: "data = magic @ salt @ nonce @ gcm_seal cr (argon2id cr argonTime (str_bytes password) salt) nonce pt []"
    using assms(2) salt nonce by (simp add: cs_encrypt_def Let_def)
  show ?thesis
    using len assms(1) salt(2)
    by (simp add: cs_decrypt_def data Let_def saltLen_def nonceLen_def)
qed

text \<open>Restoring the snapshots of a store that was written.\<close>

lemma restore_all_snapshots:
  assumes law: "dsa_correct cr" and ok: "gm_ok (cs_intermediates s)" and empty: "cs_intermediates s0 = []"
    and rel: "list_all2 (\<lambda>(k, sn) (k', ca). k = k' \<and> snapshot_of cr ca sn) sns (sort_key fst (cs_intermediates s))"
  shows "\<exists>s'. restore_all cr sns s0 = Ok s' \<and> cs_root s' = cs_root s0 \<and>
      (\<forall>k. rel_option same_ca (cs_Intermediate s k) (cs_Intermediate s' k))"
proof -
  have dist: "distinct (map fst (sort_key fst (cs_intermediates s)))" using ok by (simp add: gm_ok_def distinct_map)
  have same: "map_of (sort_key fst (cs_intermediates s)) = gm_get (cs_intermediates s)"
    using ok by (intro map_of_inject_set [THEN iffD2]) (auto simp: gm_ok_def distinct_map)
  have rel': "list_all2 (\<lambda>(k, sn) (k', ca). k = k' \<and> storable cr ca \<and>
    (\<exists>m. sn = Some ((ca_Export ca)\<lparr>sn_Revoked := m\<rparr>) \<and> gm_get m = gm_get (ca_revoked ca))) sns (sort_key fst (cs_intermediates s))"
    using rel by (rule list_all2_mono) (auto simp: snapshot_of_def)
  obtain s' where s': "restore_all cr sns s0 = Ok s'" "cs_root s' = cs_root s0"
    "\<And>k. case gm_get (cs_intermediates s) k of None \<Rightarrow> cs_Intermediate s' k = cs_Intermediate s0 k
     | Some ca \<Rightarrow> (\<exists>c. cs_Intermediate s' k = Some c \<and> same_ca ca c)"
    using restore_all_back [OF law rel' dist, of s0] unfolding same by blast
  have "rel_option same_ca (cs_Intermediate s k) (cs_Intermediate s' k)" for k
    using s'(3) [of k] empty by (cases "gm_get (cs_intermediates s) k") (auto simp: cs_Intermediate_def)
  then show ?thesis using s'(1,2) by blast
qed

lemma cs_Save_Ok:
  assumes "cs_Save cr d path password s fs e = (r, fs')" "is_ok r"
  obtains v ct e' where "password \<noteq> []" "enc_persisted (persisted_of s) = Some v"
    "cs_encrypt cr (str_bytes (json_enc v)) password e = Ok (ct, e')" "gm_get fs' path = Some (bytes_str ct)"
proof -
  obtain v where v: "enc_persisted (persisted_of s) = Some v" and pw: "password \<noteq> []"
    using assms by (auto simp: cs_Save_def split: if_splits option.splits)
  obtain ct e' where ct: "cs_encrypt cr (str_bytes (json_enc v)) password e = Ok (ct, e')"
    using assms v pw by (auto simp: cs_Save_def split: result.splits)
  have "gm_get fs' path = Some (bytes_str ct)"
    using assms v pw ct replace_file_atomic
    by (fastforce simp: cs_Save_def atomicWrite_def split: prod.splits if_splits)
  then show thesis using that pw v ct by blast
qed

section \<open>Properties\<close>

text \<open>C30. A saved hierarchy loads back: the same root and the same intermediates with their keys,
  certificates and revocations (for CAs that satisfy \<open>storable\<close>, as \<open>storable_Init\<close>,
  \<open>storable_IssueIntermediate\<close> and \<open>storable_Revoke\<close> below show of those the code makes with valid UTF-8
  subjects and serials); and a save that fails, whatever the disk did, leaves what a later
  \<open>Load\<close> of that path sees unchanged.\<close>

theorem castore_roundtrip:
  assumes laws: "gcm_correct cr" "dsa_correct cr"
    and root: "\<forall>ca. cs_root s = Some ca \<longrightarrow> storable cr ca"
    and subs: "gm_ok (cs_intermediates s)" "\<forall>kc \<in> set (cs_intermediates s). valid_utf8 (fst kc) \<and> storable cr (snd kc)"
    and save: "cs_Save cr d path password s fs e = (r, fs')"
  shows "if is_ok r
    then \<exists>s'. cs_Load cr path password fs' = Ok s' \<and> rel_option same_ca (cs_root s) (cs_root s') \<and>
      (\<forall>k. rel_option same_ca (cs_Intermediate s k) (cs_Intermediate s' k))
    else cs_Load cr path pw fs' = cs_Load cr path pw fs"
proof (cases "is_ok r")
  case False
  have "gm_get fs' path = gm_get fs path"
    using save False replace_file_atomic
    by (fastforce simp: cs_Save_def atomicWrite_def split: if_splits option.splits result.splits prod.splits)
  then show ?thesis using False by (simp add: cs_Load_def)
next
  case True
  obtain v ct e' where pw: "password \<noteq> []" and v: "enc_persisted (persisted_of s) = Some v"
    and ct: "cs_encrypt cr (str_bytes (json_enc v)) password e = Ok (ct, e')" and content: "gm_get fs' path = Some (bytes_str ct)"
    by (rule cs_Save_Ok [OF save True])
  obtain rt sns where dec: "dec_persisted (json_enc v) = Some \<lparr>pst_Version = 1, pst_Root = rt, pst_Intermediates = sns\<rparr>"
    and rt: "case cs_root s of None \<Rightarrow> rt = None | Some ca \<Rightarrow> snapshot_of cr ca rt"
    and rel: "list_all2 (\<lambda>(k, sn) (k', ca). k = k' \<and> snapshot_of cr ca sn) sns (sort_key fst (cs_intermediates s))"
    by (rule dec_persisted_back [OF v root subs])
  note all = restore_all_snapshots [OF laws(2) subs(1) _ rel]
  have load: "cs_Load cr path password fs' =
      (case rt of None \<Rightarrow> restore_all cr sns cs_New
       | Some sn \<Rightarrow> (case ca_Restore cr sn of Ok root \<Rightarrow> restore_all cr sns (SetRoot (Some root) cs_New)
           | Err er \<Rightarrow> Err (CsRestoreRoot er) | Panic \<Rightarrow> Panic))"
    using pw by (simp add: cs_Load_def content cs_decrypt_encrypt [OF laws(1) ct] dec cong: option.case_cong result.case_cong)
  show ?thesis
  proof (cases "cs_root s")
    case None
    then show ?thesis using True load rt all [of cs_New] by (auto simp: cs_New_def)
  next
    case (Some ca)
    obtain m where m: "rt = Some ((ca_Export ca)\<lparr>sn_Revoked := m\<rparr>)" "gm_get m = gm_get (ca_revoked ca)" "storable cr ca"
      using rt Some by (auto simp: snapshot_of_def)
    have "same_ca ca (ca\<lparr>ca_revoked := m\<rparr>)" using m(2) by (auto simp: same_ca_def)
    then show ?thesis
      using True load m(1) ca_Restore_Export [OF laws(2) m(3), of m] Some
        all [of "SetRoot (Some (ca\<lparr>ca_revoked := m\<rparr>)) cs_New"]
      by (auto simp: SetRoot_def cs_New_def)
  qed
qed

section \<open>Which CAs can be stored\<close>

text \<open>The hypotheses of the round trip hold of every CA that the code makes: a root or an intermediate
  with a UTF-8 subject, with any UTF-8 serials revoked on it.\<close>

lemma cert_text_ok_attached:
  assumes "attachSignature cr (make_cert (hex_encode b) subject issuer pk schemeAlgorithm now ttl ca) sk = Ok cert"
    and "valid_utf8 subject" "valid_utf8 issuer"
  shows "cert_text_ok cert"
proof -
  have "valid_utf8 schemeAlgorithm" by (simp add: schemeAlgorithm_def valid_ascii code_def)
  then show ?thesis using assms
    by (auto simp: cert_text_ok_def make_cert_def valid_utf8_def int64_ok_def elim!: attachSignature_Ok
        simp flip: valid_utf8_def)
qed

lemma storable_Init:
  assumes "dsa_correct cr" "ca_Init cr subject now e = Ok (ca, e')" "valid_utf8 subject" "sk_bytes (ca_sk ca) \<noteq> []"
  shows "storable cr ca"
proof -
  have ok: "ca_ok cr ca" using ca_under_props [OF assms(1) ca_under.root [OF assms(2)]] by simp
  obtain b where "attachSignature cr (make_cert (hex_encode b) subject subject (pk_bytes (ca_pk ca)) schemeAlgorithm
      now defaultCATTL True) (ca_sk ca) = Ok (ca_cert ca)" "ca_revoked ca = []"
    using assms(2) by (auto simp: ca_Init_def randomSerial_def split: if_splits option.splits result.splits prod.splits)
  then show ?thesis using ok assms(3,4) cert_text_ok_attached by (simp add: storable_def gm_ok_def)
qed

lemma storable_IssueIntermediate:
  assumes "storable cr ca" "IssueIntermediate cr ca subject ttl now e = Ok (sub, cert, e')" "valid_utf8 subject"
    and "sk_bytes (ca_sk sub) \<noteq> []"
  shows "storable cr sub"
proof -
  obtain b where att: "attachSignature cr (make_cert (hex_encode b) subject (ce_Subject (ca_cert ca))
      (pk_bytes (ca_pk sub)) schemeAlgorithm now (if ttl \<le> 0 then defaultCATTL else ttl) True) (ca_sk ca) = Ok (ca_cert sub)"
    and "ca_revoked sub = []"
    using assms(2)
    by (auto simp: IssueIntermediate_def randomSerial_def Let_def split: if_splits option.splits result.splits prod.splits)
  moreover have "ca_ok cr sub" using assms(2) attach_fields [OF att]
    by (auto simp: ca_ok_def elim!: IssueIntermediate_Ok)
  moreover have "valid_utf8 (ce_Subject (ca_cert ca))" using assms(1) by (simp add: storable_def cert_text_ok_def)
  ultimately show ?thesis using assms(3,4) cert_text_ok_attached by (simp add: storable_def gm_ok_def)
qed

lemma storable_Revoke: "storable cr ca \<Longrightarrow> valid_utf8 serial \<Longrightarrow> storable cr (snd (ca_Revoke now serial ca))"
  using list_all_put [of "\<lambda>kt. valid_utf8 (fst kt)" "ca_revoked ca" "trim_space serial" now]
  by (auto simp: storable_def ca_Revoke_def Let_def ca_ok_def trim_space_valid list_all_iff)

lemma enc_cert_attached: "attachSignature cr c sk = Ok cert \<Longrightarrow> \<exists>v. enc_cert cert = Some v"
  by (auto simp: enc_cert_def enc_body_def signingBytes_def elim!: attachSignature_Ok split: option.splits)

section \<open>A run on the concrete instance\<close>

lemma demo_ca:
  obtains ca where "storable toy_crypto ca" "\<exists>v. enc_cert (ca_cert ca) = Some v" "ca_revoked ca = []"
    "ce_Subject (ca_cert ca) = ''Root''"
proof -
  obtain ca e where ca: "ca_Init toy_crypto ''Root'' 0 (replicate 48 1) = Ok (ca, e)" by (rule demo_root)
  obtain serial where att: "attachSignature toy_crypto (make_cert serial ''Root'' ''Root'' (pk_bytes (ca_pk ca)) schemeAlgorithm
      0 defaultCATTL True) (ca_sk ca) = Ok (ca_cert ca)" and empty: "ca_revoked ca = []" using ca by (rule ca_Init_Ok)
  have key: "sk_bytes (ca_sk ca) \<noteq> []"
    using ca by (auto simp: ca_Init_def dsa_GenerateKey_def dsa_schemeFor_def rand_read_def toy_crypto_def
        split: if_splits option.splits result.splits prod.splits)
  have "storable toy_crypto ca"
    by (rule storable_Init [OF toy_dsa_correct ca _ key]) (simp add: valid_ascii code_def)
  with enc_cert_attached [OF att] attach_fields [OF att] empty show thesis by (intro that [of ca]) blast+
qed

lemma demo_sub:
  assumes "storable toy_crypto ca"
  obtains sub where "storable toy_crypto sub" "\<exists>v. enc_cert (ca_cert sub) = Some v" "ca_revoked sub = []"
    "ce_Subject (ca_cert sub) = ''Sub''"
proof -
  let ?e = "replicate 48 (2 :: 8 word)"
  obtain pk sk e1 where k: "dsa_GenerateKey toy_crypto 87 ?e = Ok (pk, sk, e1)" "length e1 = 16" "sk_bytes sk \<noteq> []"
    by (simp add: dsa_GenerateKey_def dsa_schemeFor_def rand_read_def toy_crypto_def)
  obtain serial e2 where s: "randomSerial e1 = Some (serial, e2)" using k(2) by (simp add: randomSerial_def rand_read_def)
  let ?c = "make_cert serial ''Sub'' (ce_Subject (ca_cert ca)) (pk_bytes pk) schemeAlgorithm 0 defaultCATTL True"
  obtain cert where att: "attachSignature toy_crypto ?c (ca_sk ca) = Ok cert"
    using attachSignature_ok [of ?c toy_crypto "ca_sk ca"] by (auto simp: make_cert_def time_Truncate_s_def defaultCATTL_def)
  let ?sub = "\<lparr>ca_pk = pk, ca_sk = sk, ca_cert = cert, ca_revoked = []\<rparr>"
  have sub: "IssueIntermediate toy_crypto ca ''Sub'' 0 0 ?e = Ok (?sub, cert, e2)"
    using k s att by (simp add: IssueIntermediate_def)
  have "storable toy_crypto ?sub"
    by (rule storable_IssueIntermediate [OF assms sub]) (simp_all add: valid_ascii code_def k(3))
  with enc_cert_attached [OF att] attach_fields [OF att] show thesis by (intro that [of ?sub]) simp_all
qed

text \<open>A root on which a serial is revoked, and one intermediate: saved, and loaded back with the same
  certificate, the revocation and the intermediate.\<close>

theorem castore_roundtrip_witness:
  "\<exists>root sub fs' s'. ce_Subject (ca_cert root) = ''Root'' \<and> ce_Subject (ca_cert sub) = ''Sub'' \<and>
     cs_Save toy_crypto DiskOk ''ca.bin'' ''pw''
       (SetIntermediate ''s1'' sub (SetRoot (Some (root\<lparr>ca_revoked := [(''dead'', 5)]\<rparr>)) cs_New)) [] (replicate 44 7) = (Ok (), fs') \<and>
     cs_Load toy_crypto ''ca.bin'' ''pw'' fs' = Ok s' \<and>
     map_option ca_cert (cs_root s') = Some (ca_cert root) \<and>
     map_option (\<lambda>ca. ca_IsRevoked ca ''dead'') (cs_root s') = Some True \<and>
     map_option ca_cert (cs_Intermediate s' ''s1'') = Some (ca_cert sub)"
proof -
  obtain root where root: "storable toy_crypto root" "\<exists>v. enc_cert (ca_cert root) = Some v" "ca_revoked root = []"
    "ce_Subject (ca_cert root) = ''Root''" by (rule demo_ca)
  obtain sub where sub: "storable toy_crypto sub" "\<exists>v. enc_cert (ca_cert sub) = Some v" "ca_revoked sub = []"
    "ce_Subject (ca_cert sub) = ''Sub''" by (rule demo_sub [OF root(1)])
  let ?r = "root\<lparr>ca_revoked := [(''dead'', 5)]\<rparr>"
  let ?s = "SetIntermediate ''s1'' sub (SetRoot (Some ?r) cs_New)"
  have r: "storable toy_crypto ?r" using root(1) by (simp add: storable_def ca_ok_def gm_ok_def valid_ascii code_def)
  obtain t where "rfc3339 5 = Some t" using rfc3339_ok [of 5] by auto
  then obtain v where v: "enc_persisted (persisted_of ?s) = Some v"
    using root(2) sub(2,3) by (auto simp: enc_persisted_def persisted_of_def SetIntermediate_def SetRoot_def cs_New_def
        enc_opt_snapshot_def enc_snapshot_def ca_Export_def enc_times_def enc_time_def)
  obtain fs' where save: "cs_Save toy_crypto DiskOk ''ca.bin'' ''pw'' ?s [] (replicate 44 7) = (Ok (), fs')"
    by (simp add: cs_Save_def v cs_encrypt_def rand_read_def saltLen_def nonceLen_def toy_crypto_def atomicWrite_def
        replace_file_def Let_def)
  have "if is_ok (Ok () :: (castore_error, unit) result)
    then \<exists>s'. cs_Load toy_crypto ''ca.bin'' ''pw'' fs' = Ok s' \<and> rel_option same_ca (cs_root ?s) (cs_root s') \<and>
      (\<forall>k. rel_option same_ca (cs_Intermediate ?s k) (cs_Intermediate s' k))
    else cs_Load toy_crypto ''ca.bin'' ''pw'' fs' = cs_Load toy_crypto ''ca.bin'' ''pw'' []"
    by (rule castore_roundtrip [OF toy_gcm_correct toy_dsa_correct _ _ _ save])
      (use r sub(1) in \<open>simp_all add: SetIntermediate_def SetRoot_def cs_New_def gm_ok_def valid_ascii code_def\<close>)
  then obtain s' where s': "cs_Load toy_crypto ''ca.bin'' ''pw'' fs' = Ok s'" "rel_option same_ca (Some ?r) (cs_root s')"
    "rel_option same_ca (Some sub) (cs_Intermediate s' ''s1'')"
    by (fastforce simp: SetIntermediate_def SetRoot_def cs_New_def cs_Intermediate_def dest: spec [of _ "''s1''"])
  then show ?thesis using save root(4) sub(4)
    by (intro exI [of _ root] exI [of _ sub] exI [of _ fs'] exI [of _ s'])
      (auto simp: option_rel_Some1 same_ca_def ca_IsRevoked_def)
qed

end
