(* ===== verification/Http.thy ===== *)
theory Http
  imports Json
begin

text \<open>
  What the HTTP handlers of the program answer: a status code and a body, which is a JSON value or one
  of the two error shapes the program writes. The text of errors made by the libraries is an argument of
  the handlers; \<open>w.Header\<close> entries the program sets are kept where its behaviour depends on them.
\<close>

datatype http_body = JsonBody jval | ErrorBody string | PlainBody string | NoBody

record response =
  rs_Code :: int
  rs_Body :: http_body

abbreviation StatusOK :: int where "StatusOK \<equiv> 200"
abbreviation StatusCreated :: int where "StatusCreated \<equiv> 201"
abbreviation StatusTemporaryRedirect :: int where "StatusTemporaryRedirect \<equiv> 307"
abbreviation StatusBadRequest :: int where "StatusBadRequest \<equiv> 400"
abbreviation StatusUnauthorized :: int where "StatusUnauthorized \<equiv> 401"
abbreviation StatusForbidden :: int where "StatusForbidden \<equiv> 403"
abbreviation StatusNotFound :: int where "StatusNotFound \<equiv> 404"
abbreviation StatusMethodNotAllowed :: int where "StatusMethodNotAllowed \<equiv> 405"
abbreviation StatusConflict :: int where "StatusConflict \<equiv> 409"
abbreviation StatusTooManyRequests :: int where "StatusTooManyRequests \<equiv> 429"
abbreviation StatusInternalServerError :: int where "StatusInternalServerError \<equiv> 500"
abbreviation StatusNotImplemented :: int where "StatusNotImplemented \<equiv> 501"
abbreviation StatusServiceUnavailable :: int where "StatusServiceUnavailable \<equiv> 503"

definition reply :: "int \<Rightarrow> jval \<Rightarrow> response" where
  "reply c v = \<lparr>rs_Code = c, rs_Body = JsonBody v\<rparr>"

definition reply_error :: "int \<Rightarrow> string \<Rightarrow> response" where
  "reply_error c msg = \<lparr>rs_Code = c, rs_Body = ErrorBody msg\<rparr>"

lemma reply_sel [simp]:
  "rs_Code (reply c v) = c" "rs_Code (reply_error c m) = c"
  "rs_Body (reply c v) = JsonBody v" "rs_Body (reply_error c m) = ErrorBody m"
  by (simp_all add: reply_def reply_error_def)

text \<open>A Go map printed as a JSON object has its keys sorted.\<close>

definition json_map :: "(string, string) gomap \<Rightarrow> jval" where
  "json_map m = JObj (map (\<lambda>(k, v). (k, JStr v)) (sort_key fst m))"

end
