(* ===== verification/Cluster.thy ===== *)
theory Cluster
  imports CAStore JsonClean Http
begin

text \<open>
  \<open>internal/cluster\<close>: the replicated state machine. \<open>fsm_Apply\<close> is what every node runs on a committed log
  entry; a raw JSON message is kept as the value it decodes to. Raft itself is not code of the repository:
  the log it agrees on is the list of the cluster below, its answers are arguments of the node's operations.
  A \<open>[]byte\<close> is an option, because \<open>nil\<close> and empty are different JSON.
\<close>

section \<open>Commands\<close>

type_synonym OpType = string

definition OpGenerateKey :: OpType where "OpGenerateKey = ''generate_key''"
definition OpDeleteKey :: OpType where "OpDeleteKey = ''delete_key''"
definition OpCAInit :: OpType where "OpCAInit = ''ca_init''"
definition OpCASign :: OpType where "OpCASign = ''ca_sign''"
definition OpCARevoke :: OpType where "OpCARevoke = ''ca_revoke''"
definition OpCAIntermediate :: OpType where "OpCAIntermediate = ''ca_intermediate''"
definition OpAddVoter :: OpType where "OpAddVoter = ''add_voter''"
definition OpRemoveVoter :: OpType where "OpRemoveVoter = ''remove_voter''"

lemmas op_defs = OpGenerateKey_def OpDeleteKey_def OpCAInit_def OpCASign_def OpCARevoke_def OpCAIntermediate_def
  OpAddVoter_def OpRemoveVoter_def

record command =
  cm_Op :: OpType
  cm_Payload :: "jval option"

record generate_key =
  gk_KeyID :: string
  gk_Level :: string
  gk_EK :: "bytes option"
  gk_DK :: "bytes option"

record ca_intermediate =
  ci_IssuerSerial :: string
  ci_SubSerial :: string
  ci_Snapshot :: "jval option"
  ci_Certificate :: "jval option"

definition cm_encode :: "command \<Rightarrow> string" where
  "cm_encode c = json_enc (JObj [(''op'', JStr (cm_Op c)),
     (''payload'', case cm_Payload c of None \<Rightarrow> JNull | Some v \<Rightarrow> v)])"

text \<open>A field of type \<open>json.RawMessage\<close> takes every member of its name, \<open>null\<close> too.\<close>

definition raw_field :: "string \<Rightarrow> (string \<times> jval) list \<Rightarrow> jval option" where
  "raw_field f kvs =
     (let vs = map snd (filter (\<lambda>kv. fold_name (fst kv) = fold_name f) kvs) in
      if vs = [] then None else Some (last vs))"

definition cm_decode :: "string \<Rightarrow> command option" where
  "cm_decode data =
     (case Option.bind (json_Unmarshal data) as_obj of
        None \<Rightarrow> None
      | Some kvs \<Rightarrow>
          (case str_field ''op'' kvs of
             None \<Rightarrow> None
           | Some oper \<Rightarrow> Some \<lparr>cm_Op = oper, cm_Payload = raw_field ''payload'' kvs\<rparr>))"

text \<open>\<open>[]byte\<close> is base64 text or an array of numbers.\<close>

fun as_uint8 :: "jval \<Rightarrow> byte option" where
  "as_uint8 (JInt i) = (if 0 \<le> i \<and> i < 256 then Some (word_of_int i) else None)"
| "as_uint8 JNull = Some 0"
| "as_uint8 _ = None"

fun as_bytes :: "jval \<Rightarrow> bytes option option" where
  "as_bytes (JStr s) = map_option Some (b64std_dec s)"
| "as_bytes (JArr vs) = map_option Some (those (map as_uint8 vs))"
| "as_bytes _ = None"

abbreviation "bytes_field \<equiv> get_field as_bytes None"

definition enc_bytes :: "bytes option \<Rightarrow> jval" where
  "enc_bytes b = (case b of None \<Rightarrow> JNull | Some x \<Rightarrow> JStr (b64std x))"

definition dec_generate_key :: "jval option \<Rightarrow> generate_key option" where
  "dec_generate_key raw =
     (case Option.bind raw as_obj of
        None \<Rightarrow> None
      | Some kvs \<Rightarrow>
          (case (str_field ''key_id'' kvs, str_field ''level'' kvs, bytes_field ''ek'' kvs, bytes_field ''dk'' kvs) of
             (Some k, Some l, Some ek, Some dk) \<Rightarrow> Some \<lparr>gk_KeyID = k, gk_Level = l, gk_EK = ek, gk_DK = dk\<rparr>
           | _ \<Rightarrow> None))"

definition dec_delete_key :: "jval option \<Rightarrow> string option" where
  "dec_delete_key raw = Option.bind (Option.bind raw as_obj) (str_field ''key_id'')"

definition dec_ca_init :: "jval option \<Rightarrow> jval option option" where
  "dec_ca_init raw = map_option (raw_field ''snapshot'') (Option.bind raw as_obj)"

definition dec_ca_revoke :: "jval option \<Rightarrow> string option" where
  "dec_ca_revoke raw = Option.bind (Option.bind raw as_obj) (str_field ''serial'')"

definition dec_ca_intermediate :: "jval option \<Rightarrow> ca_intermediate option" where
  "dec_ca_intermediate raw =
     (case Option.bind raw as_obj of
        None \<Rightarrow> None
      | Some kvs \<Rightarrow>
          (case (str_field ''issuer_serial'' kvs, str_field ''sub_serial'' kvs) of
             (Some i, Some s) \<Rightarrow>
               Some \<lparr>ci_IssuerSerial = i, ci_SubSerial = s, ci_Snapshot = raw_field ''snapshot'' kvs,
                     ci_Certificate = raw_field ''certificate'' kvs\<rparr>
           | _ \<Rightarrow> None))"

text \<open>\<open>Unmarshal\<close> of a raw message into a CA snapshot: \<open>nil\<close> is no JSON, \<open>null\<close> leaves it zero.\<close>

definition zero_snapshot :: ca_snapshot where
  "zero_snapshot = \<lparr>sn_Version = 0, sn_Certificate = None, sn_PrivKey = [], sn_Revoked = []\<rparr>"

definition dec_snapshot :: "jval option \<Rightarrow> ca_snapshot option" where
  "dec_snapshot raw =
     (case raw of None \<Rightarrow> None | Some v \<Rightarrow> if v = JNull then Some zero_snapshot else as_snapshot v)"

section \<open>The state machine\<close>

record key_entry =
  ke_KeyID :: string
  ke_Level :: string
  ke_EK :: "bytes option"
  ke_DK :: "bytes option"

record fsm_state =
  fs_Keys :: "(string, key_entry option) gomap"
  fs_CARoot :: "ca_snapshot option"
  fs_CAIntermediates :: "(string, ca_snapshot option) gomap"

datatype fsm_error =
    FsmDecode | FsmUnknownOp string | FsmPayload | FsmSnapshotPayload | FsmNoCA | FsmRestoreCA ca_error
  | FsmRevoke string ca_error | FsmMarshal | FsmRestoreDecode

definition NewFSM :: fsm_state where
  "NewFSM = \<lparr>fs_Keys = [], fs_CARoot = None, fs_CAIntermediates = []\<rparr>"

definition applyGenerateKey :: "jval option \<Rightarrow> fsm_state \<Rightarrow> (fsm_error, unit) result \<times> fsm_state" where
  "applyGenerateKey raw s =
     (case dec_generate_key raw of
        None \<Rightarrow> (Err FsmPayload, s)
      | Some p \<Rightarrow>
          (Ok (), s\<lparr>fs_Keys := gm_put (gk_KeyID p)
             (Some \<lparr>ke_KeyID = gk_KeyID p, ke_Level = gk_Level p, ke_EK = gk_EK p, ke_DK = gk_DK p\<rparr>) (fs_Keys s)\<rparr>))"

definition applyDeleteKey :: "jval option \<Rightarrow> fsm_state \<Rightarrow> (fsm_error, unit) result \<times> fsm_state" where
  "applyDeleteKey raw s =
     (case dec_delete_key raw of
        None \<Rightarrow> (Err FsmPayload, s)
      | Some k \<Rightarrow> (Ok (), s\<lparr>fs_Keys := gm_del k (fs_Keys s)\<rparr>))"

definition applyCAInit :: "jval option \<Rightarrow> fsm_state \<Rightarrow> (fsm_error, unit) result \<times> fsm_state" where
  "applyCAInit raw s =
     (case dec_ca_init raw of
        None \<Rightarrow> (Err FsmPayload, s)
      | Some p \<Rightarrow>
          (case dec_snapshot p of
             None \<Rightarrow> (Err FsmSnapshotPayload, s)
           | Some snap \<Rightarrow> (Ok (), s\<lparr>fs_CARoot := Some snap\<rparr>)))"

definition applyCASign :: "jval option \<Rightarrow> fsm_state \<Rightarrow> (fsm_error, unit) result \<times> fsm_state" where
  "applyCASign raw s = (Ok (), s)"

definition applyCARevoke ::
    "crypto \<Rightarrow> gotime \<Rightarrow> jval option \<Rightarrow> fsm_state \<Rightarrow> (fsm_error, unit) result \<times> fsm_state" where
  "applyCARevoke cr now raw s =
     (case dec_ca_revoke raw of
        None \<Rightarrow> (Err FsmPayload, s)
      | Some serial \<Rightarrow>
          (case fs_CARoot s of
             None \<Rightarrow> (Err FsmNoCA, s)
           | Some snap \<Rightarrow>
               (case ca_Restore cr snap of
                  Ok root \<Rightarrow>
                    (case ca_Revoke now serial root of
                       (Ok _, root') \<Rightarrow> (Ok (), s\<lparr>fs_CARoot := Some (ca_Export root')\<rparr>)
                     | (Err er, _) \<Rightarrow> (Err (FsmRevoke serial er), s)
                     | (Panic, _) \<Rightarrow> (Panic, s))
                | Err er \<Rightarrow> (Err (FsmRestoreCA er), s)
                | Panic \<Rightarrow> (Panic, s))))"

definition applyCAIntermediate :: "jval option \<Rightarrow> fsm_state \<Rightarrow> (fsm_error, unit) result \<times> fsm_state" where
  "applyCAIntermediate raw s =
     (case dec_ca_intermediate raw of
        None \<Rightarrow> (Err FsmPayload, s)
      | Some p \<Rightarrow>
          (case dec_snapshot (ci_Snapshot p) of
             None \<Rightarrow> (Err FsmSnapshotPayload, s)
           | Some snap \<Rightarrow>
               (Ok (), s\<lparr>fs_CAIntermediates := gm_put (ci_SubSerial p) (Some snap) (fs_CAIntermediates s)\<rparr>)))"

definition fsm_Apply ::
    "crypto \<Rightarrow> gotime \<Rightarrow> string \<Rightarrow> fsm_state \<Rightarrow> (fsm_error, unit) result \<times> fsm_state" where
  "fsm_Apply cr now data s =
     (case cm_decode data of
        None \<Rightarrow> (Err FsmDecode, s)
      | Some cmd \<Rightarrow>
          (if cm_Op cmd = OpGenerateKey then applyGenerateKey (cm_Payload cmd) s
           else if cm_Op cmd = OpDeleteKey then applyDeleteKey (cm_Payload cmd) s
           else if cm_Op cmd = OpCAInit then applyCAInit (cm_Payload cmd) s
           else if cm_Op cmd = OpCASign then applyCASign (cm_Payload cmd) s
           else if cm_Op cmd = OpCARevoke then applyCARevoke cr now (cm_Payload cmd) s
           else if cm_Op cmd = OpCAIntermediate then applyCAIntermediate (cm_Payload cmd) s
           else (Err (FsmUnknownOp (cm_Op cmd)), s)))"

section \<open>Reading the state\<close>

definition fsm_Key :: "fsm_state \<Rightarrow> string \<Rightarrow> key_entry option" where
  "fsm_Key s k = Option.bind (gm_get (fs_Keys s) k) id"

definition fsm_Keys :: "fsm_state \<Rightarrow> (string, key_entry option) gomap" where
  "fsm_Keys s = fold (\<lambda>(k, v) out. gm_put k v out) (fs_Keys s) []"

definition KeyCount :: "fsm_state \<Rightarrow> nat" where
  "KeyCount s = length (fs_Keys s)"

definition fsm_CARoot :: "crypto \<Rightarrow> fsm_state \<Rightarrow> (ca_error, authority_ca option) result" where
  "fsm_CARoot cr s = (case fs_CARoot s of None \<Rightarrow> Ok None | Some snap \<Rightarrow> map_result id Some (ca_Restore cr snap))"

definition fsm_CAIntermediate :: "crypto \<Rightarrow> fsm_state \<Rightarrow> string \<Rightarrow> (ca_error, authority_ca option) result" where
  "fsm_CAIntermediate cr s serial =
     (case Option.bind (gm_get (fs_CAIntermediates s) serial) id of
        None \<Rightarrow> Ok None
      | Some snap \<Rightarrow> map_result id Some (ca_Restore cr snap))"

definition CAIntermediateSerials :: "fsm_state \<Rightarrow> string list" where
  "CAIntermediateSerials s = gm_keys (fs_CAIntermediates s)"

section \<open>Snapshots\<close>

definition enc_key_entry :: "key_entry \<Rightarrow> jval" where
  "enc_key_entry e = JObj [(''key_id'', JStr (ke_KeyID e)), (''level'', JStr (ke_Level e)),
     (''ek'', enc_bytes (ke_EK e)), (''dk'', enc_bytes (ke_DK e))]"

definition enc_fsm :: "fsm_state \<Rightarrow> jval option" where
  "enc_fsm s =
     (case (enc_opt_snapshot (fs_CARoot s),
            those (map (\<lambda>(k, sn). map_option (Pair k) (enc_opt_snapshot sn)) (sort_key fst (fs_CAIntermediates s)))) of
        (Some r, Some is) \<Rightarrow>
          Some (JObj ([(''keys'', JObj (map (\<lambda>(k, e). (k, case e of None \<Rightarrow> JNull | Some x \<Rightarrow> enc_key_entry x))
                  (sort_key fst (fs_Keys s))))] @
            (if fs_CARoot s = None then [] else [(''ca_root'', r)]) @ [(''ca_intermediates'', JObj is)]))
      | _ \<Rightarrow> None)"

fun as_key_entry :: "jval \<Rightarrow> key_entry option" where
  "as_key_entry (JObj kvs) =
     (case (str_field ''key_id'' kvs, str_field ''level'' kvs, bytes_field ''ek'' kvs, bytes_field ''dk'' kvs) of
        (Some k, Some l, Some ek, Some dk) \<Rightarrow> Some \<lparr>ke_KeyID = k, ke_Level = l, ke_EK = ek, ke_DK = dk\<rparr>
      | _ \<Rightarrow> None)"
| "as_key_entry _ = None"

definition as_key_elem :: "string \<times> jval \<Rightarrow> (string \<times> key_entry option) option" where
  "as_key_elem kv =
     map_option (Pair (fst kv)) (if snd kv = JNull then Some None else map_option Some (as_key_entry (snd kv)))"

fun as_keys :: "jval \<Rightarrow> (string, key_entry option) gomap option" where
  "as_keys (JObj kvs) = map_option (\<lambda>es. fold (\<lambda>(k, v) m. gm_put k v m) es []) (those (map as_key_elem kvs))"
| "as_keys _ = None"

definition dec_fsm :: "string \<Rightarrow> fsm_state option" where
  "dec_fsm text =
     (case Option.bind (json_Decode text) as_obj of
        None \<Rightarrow> None
      | Some kvs \<Rightarrow>
          (case (get_field as_keys [] ''keys'' kvs, get_field (\<lambda>v. map_option Some (as_snapshot v)) None ''ca_root'' kvs,
                 get_field as_snapshots [] ''ca_intermediates'' kvs) of
             (Some k, Some r, Some is) \<Rightarrow> Some \<lparr>fs_Keys = k, fs_CARoot = r, fs_CAIntermediates = is\<rparr>
           | _ \<Rightarrow> None))"

definition fsm_Snapshot :: "fsm_state \<Rightarrow> (fsm_error, string) result" where
  "fsm_Snapshot s = (case enc_fsm s of None \<Rightarrow> Err FsmMarshal | Some v \<Rightarrow> Ok (json_enc v))"

text \<open>\<open>Persist\<close> writes the text to Raft's sink, cancelling it when the write fails.\<close>

datatype sink_call = SinkWrite string | SinkCancel | SinkClose

definition fsm_Persist :: "bool \<Rightarrow> bool \<Rightarrow> string \<Rightarrow> bool \<times> sink_call list" where
  "fsm_Persist write_ok close_ok data =
     (if \<not> write_ok then (False, [SinkWrite data, SinkCancel]) else (close_ok, [SinkWrite data, SinkClose]))"

definition fsm_Restore :: "string \<Rightarrow> fsm_state \<Rightarrow> (fsm_error, unit) result \<times> fsm_state" where
  "fsm_Restore text s = (case dec_fsm text of None \<Rightarrow> (Err FsmRestoreDecode, s) | Some s' \<Rightarrow> (Ok (), s'))"

section \<open>Replicas agree\<close>

text \<open>Two snapshots that are equal up to the order of their revocations, and two that may also differ in
  the moments at which the serials were revoked.\<close>

definition snap_same :: "ca_snapshot \<Rightarrow> ca_snapshot \<Rightarrow> bool" where
  "snap_same a b \<longleftrightarrow> (\<exists>m. b = a\<lparr>sn_Revoked := m\<rparr> \<and> gm_get m = gm_get (sn_Revoked a))"

definition snap_eq :: "ca_snapshot \<Rightarrow> ca_snapshot \<Rightarrow> bool" where
  "snap_eq a b \<longleftrightarrow> sn_Version a = sn_Version b \<and> sn_Certificate a = sn_Certificate b \<and> sn_PrivKey a = sn_PrivKey b \<and>
     dom (gm_get (sn_Revoked a)) = dom (gm_get (sn_Revoked b))"

text \<open>What two replicas share: everything but the order of the maps and, in the root CA, the moments at
  which its serials were revoked, which \<open>applyCARevoke\<close> takes from the local clock.\<close>

definition fsm_eq :: "fsm_state \<Rightarrow> fsm_state \<Rightarrow> bool" where
  "fsm_eq s t \<longleftrightarrow> gm_get (fs_Keys s) = gm_get (fs_Keys t) \<and> rel_option snap_eq (fs_CARoot s) (fs_CARoot t) \<and>
     rel_fun (=) (rel_option (rel_option snap_same)) (gm_get (fs_CAIntermediates s)) (gm_get (fs_CAIntermediates t))"

lemma snap_same_refl [simp]: "snap_same a a"
  unfolding snap_same_def by (rule exI [of _ "sn_Revoked a"]) simp

lemma snap_same_trans: "snap_same a b \<Longrightarrow> snap_same b c \<Longrightarrow> snap_same a c"
  by (auto simp: snap_same_def)

lemma snap_same_sym: "snap_same a b \<Longrightarrow> snap_same b a"
  by (cases a) (auto simp: snap_same_def)

lemma snap_eq_refl [simp]: "snap_eq a a"
  by (simp add: snap_eq_def)

lemma fsm_eq_refl [simp]: "fsm_eq s s"
  by (simp add: fsm_eq_def rel_fun_def option.rel_refl option.rel_refl [OF option.rel_refl])

lemma rel_opt_trans:
  assumes "\<And>x y z. R x y \<Longrightarrow> R y z \<Longrightarrow> R x z" "rel_option R a b" "rel_option R b c"
  shows "rel_option R a c"
  using assms(2,3) by (cases a; cases b; cases c) (auto intro: assms(1))

lemma snap_eq_trans: "snap_eq a b \<Longrightarrow> snap_eq b c \<Longrightarrow> snap_eq a c"
  by (simp add: snap_eq_def)

lemma snap_eq_sym: "snap_eq a b \<Longrightarrow> snap_eq b a"
  by (simp add: snap_eq_def)

lemma fsm_eq_trans: "fsm_eq s t \<Longrightarrow> fsm_eq t u \<Longrightarrow> fsm_eq s u"
  unfolding fsm_eq_def rel_fun_def
  by (metis (no_types, lifting) rel_opt_trans snap_eq_trans snap_same_trans)

lemma fsm_eq_sym: "fsm_eq s t \<Longrightarrow> fsm_eq t s"
proof -
  have opt: "rel_option snap_eq b a" if "rel_option snap_eq a b" for a b
    using that by (cases a; cases b) (auto intro: snap_eq_sym)
  have same: "rel_option snap_same b a" if "rel_option snap_same a b" for a b
    using that by (cases a; cases b) (auto intro: snap_same_sym)
  have opt2: "rel_option (rel_option snap_same) b a" if "rel_option (rel_option snap_same) a b" for a b
    using that by (cases a; cases b) (auto intro: same)
  assume "fsm_eq s t"
  then show ?thesis by (auto simp: fsm_eq_def rel_fun_def intro: opt opt2)
qed

text \<open>A revocation applied to two equal snapshots at two times gives equal snapshots and the same error.\<close>

lemma ca_Restore_revoked:
  "ca_Restore cr (sn\<lparr>sn_Revoked := m\<rparr>) = map_result id (\<lambda>ca. ca\<lparr>ca_revoked := m\<rparr>) (ca_Restore cr sn)"
  by (simp add: ca_Restore_def split: option.splits result.splits)

lemma ca_Restore_eq:
  assumes "snap_eq a b"
  shows "ca_Restore cr b = map_result id (\<lambda>ca. ca\<lparr>ca_revoked := sn_Revoked b\<rparr>) (ca_Restore cr a)"
proof -
  have "b = a\<lparr>sn_Revoked := sn_Revoked b\<rparr>" using assms by (simp add: snap_eq_def)
  then show ?thesis using ca_Restore_revoked [where sn = a and m = "sn_Revoked b"] by simp
qed

lemma ca_Restore_keeps: "ca_Restore cr sn = Ok ca \<Longrightarrow> ca_revoked ca = sn_Revoked sn \<and> Some (ca_cert ca) = sn_Certificate sn"
  by (auto simp: ca_Restore_def split: option.splits result.splits if_splits)

lemma ca_Revoke_eq:
  assumes "dom (gm_get (ca_revoked a)) = dom (gm_get m)"
  shows "fst (ca_Revoke t serial (a\<lparr>ca_revoked := m\<rparr>)) = fst (ca_Revoke t' serial a)"
    and "snap_eq (ca_Export (snd (ca_Revoke t' serial a))) (ca_Export (snd (ca_Revoke t serial (a\<lparr>ca_revoked := m\<rparr>))))"
proof -
  have eq: "(gm_get (ca_revoked a) k = None) = (gm_get m k = None)" for k
    using assms by (metis domIff)
  show "fst (ca_Revoke t serial (a\<lparr>ca_revoked := m\<rparr>)) = fst (ca_Revoke t' serial a)"
    by (simp add: ca_Revoke_def Let_def)
  show "snap_eq (ca_Export (snd (ca_Revoke t' serial a))) (ca_Export (snd (ca_Revoke t serial (a\<lparr>ca_revoked := m\<rparr>))))"
    using assms eq [of "trim_space serial"] by (simp add: snap_eq_def ca_Export_def ca_Revoke_def Let_def)
qed

lemma applyCARevoke_eq:
  assumes "fsm_eq s t"
  shows "fst (applyCARevoke cr u raw s) = fst (applyCARevoke cr v raw t) \<and>
    fsm_eq (snd (applyCARevoke cr u raw s)) (snd (applyCARevoke cr v raw t))"
proof (cases "dec_ca_revoke raw")
  case (Some serial)
  show ?thesis
  proof (cases "fs_CARoot s")
    case None
    then have "fs_CARoot t = None" using assms by (auto simp: fsm_eq_def)
    then show ?thesis using None assms Some by (simp add: applyCARevoke_def)
  next
    case (Some a)
    then obtain b where b: "fs_CARoot t = Some b" "snap_eq a b" using assms by (cases "fs_CARoot t") (auto simp: fsm_eq_def)
    note dec = \<open>dec_ca_revoke raw = Some serial\<close>
    show ?thesis
    proof (cases "ca_Restore cr a")
      case (Ok ca)
      have rb: "ca_Restore cr b = Ok (ca\<lparr>ca_revoked := sn_Revoked b\<rparr>)" using ca_Restore_eq [OF b(2), of cr] Ok by simp
      have dom: "dom (gm_get (ca_revoked ca)) = dom (gm_get (sn_Revoked b))"
        using ca_Restore_keeps [OF Ok] b(2) by (simp add: snap_eq_def)
      note rev = ca_Revoke_eq [OF dom, where t = v and serial = serial and t' = u]
      obtain r ca' where ra: "ca_Revoke u serial ca = (r, ca')" by fastforce
      obtain ca'' where rv: "ca_Revoke v serial (ca\<lparr>ca_revoked := sn_Revoked b\<rparr>) = (r, ca'')"
        using rev(1) ra by (metis fst_conv prod.collapse)
      have ex: "snap_eq (ca_Export ca') (ca_Export ca'')" using rev(2) ra rv by simp
      show ?thesis
        using assms ex by (cases r) (simp_all add: applyCARevoke_def dec Some b(1) Ok rb ra rv fsm_eq_def)
    next
      case (Err er)
      then show ?thesis using assms Some b dec ca_Restore_eq [OF b(2), of cr] by (simp add: applyCARevoke_def)
    next
      case Panic
      then show ?thesis using assms Some b dec ca_Restore_eq [OF b(2), of cr] by (simp add: applyCARevoke_def)
    qed
  qed
qed (use assms in \<open>simp add: applyCARevoke_def\<close>)

lemma fsm_Apply_eq:
  assumes "fsm_eq s t"
  shows "fst (fsm_Apply cr u d s) = fst (fsm_Apply cr v d t) \<and> fsm_eq (snd (fsm_Apply cr u d s)) (snd (fsm_Apply cr v d t))"
proof (cases "cm_decode d")
  case (Some cmd)
  let ?p = "cm_Payload cmd"
  have ops: "fst (applyGenerateKey ?p s) = fst (applyGenerateKey ?p t) \<and> fsm_eq (snd (applyGenerateKey ?p s)) (snd (applyGenerateKey ?p t))"
    "fst (applyDeleteKey ?p s) = fst (applyDeleteKey ?p t) \<and> fsm_eq (snd (applyDeleteKey ?p s)) (snd (applyDeleteKey ?p t))"
    "fst (applyCAInit ?p s) = fst (applyCAInit ?p t) \<and> fsm_eq (snd (applyCAInit ?p s)) (snd (applyCAInit ?p t))"
    "fst (applyCASign ?p s) = fst (applyCASign ?p t) \<and> fsm_eq (snd (applyCASign ?p s)) (snd (applyCASign ?p t))"
    "fst (applyCAIntermediate ?p s) = fst (applyCAIntermediate ?p t) \<and>
       fsm_eq (snd (applyCAIntermediate ?p s)) (snd (applyCAIntermediate ?p t))"
    using assms
    by (auto simp: applyGenerateKey_def applyDeleteKey_def applyCAInit_def applyCASign_def applyCAIntermediate_def
        fsm_eq_def rel_fun_def split: option.splits)
  show ?thesis using ops applyCARevoke_eq [OF assms, of cr u ?p v] assms by (simp add: fsm_Apply_def Some)
qed (use assms in \<open>simp add: fsm_Apply_def\<close>)

section \<open>The texts of the state\<close>

text \<open>The state only holds texts that came out of the decoder, so a snapshot loses nothing of it.\<close>

definition snap_clean :: "ca_snapshot \<Rightarrow> bool" where
  "snap_clean sn \<longleftrightarrow> int64_ok (sn_Version sn) \<and> pred_option cert_text_ok (sn_Certificate sn) \<and> valid_utf8 (sn_PrivKey sn) \<and>
     gm_ok (sn_Revoked sn) \<and> list_all (\<lambda>kt. valid_utf8 (fst kt)) (sn_Revoked sn)"

definition entry_clean :: "key_entry \<Rightarrow> bool" where
  "entry_clean e \<longleftrightarrow> valid_utf8 (ke_KeyID e) \<and> valid_utf8 (ke_Level e)"

definition fsm_clean :: "fsm_state \<Rightarrow> bool" where
  "fsm_clean s \<longleftrightarrow> gm_ok (fs_Keys s) \<and> list_all (\<lambda>(k, e). valid_utf8 k \<and> pred_option entry_clean e) (fs_Keys s) \<and>
     pred_option snap_clean (fs_CARoot s) \<and>
     gm_ok (fs_CAIntermediates s) \<and> list_all (\<lambda>(k, sn). valid_utf8 k \<and> pred_option snap_clean sn) (fs_CAIntermediates s)"

lemma as_cert_clean: "as_cert v = Some c \<Longrightarrow> clean v \<Longrightarrow> cert_text_ok c"
proof (cases v)
  case (JObj kvs)
  assume a: "as_cert v = Some c" "clean v"
  then have c: "list_all (\<lambda>(k, v). valid_utf8 k \<and> clean v) kvs" using JObj by simp
  show ?thesis using a JObj
    by (clarsimp simp: cert_text_ok_def str_field_valid [OF _ c] int_field_ok [OF _ c] split: option.split_asm)
qed auto

lemma as_times_clean: "as_times v = Some m \<Longrightarrow> clean v \<Longrightarrow> gm_ok m \<and> list_all (\<lambda>kt. valid_utf8 (fst kt)) m"
proof (cases v)
  case (JObj kvs)
  assume a: "as_times v = Some m" "clean v"
  obtain es where es: "those (map as_time_elem kvs) = Some es" "m = fold (\<lambda>(k, v) m. gm_put k v m) es []"
    using a JObj by auto
  have "list_all (\<lambda>kt. valid_utf8 (fst kt)) es"
    by (rule those_list_all [OF es(1), where Q = "\<lambda>(k, v). valid_utf8 k \<and> clean v"])
      (use a JObj in \<open>auto simp: as_time_elem_def\<close>)
  then show ?thesis using fold_put_list_all [of "\<lambda>kt. valid_utf8 (fst kt)" es "[]"] es(2) by simp
qed auto

lemma snap_clean_zero [simp]: "snap_clean zero_snapshot"
  by (simp add: snap_clean_def zero_snapshot_def int64_ok_def)

lemma as_snapshot_clean: "as_snapshot v = Some sn \<Longrightarrow> clean v \<Longrightarrow> snap_clean sn"
proof (cases v)
  case (JObj kvs)
  assume a: "as_snapshot v = Some sn" "clean v"
  have c: "list_all (\<lambda>(k, v). valid_utf8 k \<and> clean v) kvs" using a JObj by simp
  obtain vr ce pk rv where f: "int_field ''version'' kvs = Some vr" "str_field ''priv_key'' kvs = Some pk"
    "get_field (\<lambda>v. map_option Some (as_cert v)) None ''certificate'' kvs = Some ce"
    "get_field as_times [] ''revoked'' kvs = Some rv"
    and sn: "sn = \<lparr>sn_Version = vr, sn_Certificate = ce, sn_PrivKey = pk, sn_Revoked = rv\<rparr>"
    using a JObj by (auto split: option.splits)
  have "pred_option cert_text_ok ce"
    using f(3) c by (rule get_field_cases) (auto dest: as_cert_clean)
  moreover have "gm_ok rv \<and> list_all (\<lambda>kt. valid_utf8 (fst kt)) rv"
    using f(4) c by (rule get_field_cases) (auto dest: as_times_clean)
  ultimately show ?thesis
    using str_field_valid [OF f(2) c] int_field_ok [OF f(1) c] by (simp add: snap_clean_def sn)
qed auto

lemma raw_field_clean:
  "raw_field f kvs = Some v \<Longrightarrow> list_all (\<lambda>(k, v). valid_utf8 k \<and> clean v) kvs \<Longrightarrow> clean v"
proof -
  assume a: "raw_field f kvs = Some v" "list_all (\<lambda>(k, v). valid_utf8 k \<and> clean v) kvs"
  then have "v \<in> snd ` set kvs"
    by (auto simp: raw_field_def Let_def split: if_splits) (metis (no_types, lifting) filter_is_subset image_iff last_in_set last_map set_filter subsetD)
  then show ?thesis using a(2) by (auto simp: list_all_iff)
qed

lemma dec_snapshot_clean: "dec_snapshot (Some v) = Some sn \<Longrightarrow> clean v \<Longrightarrow> snap_clean sn"
  by (auto simp: dec_snapshot_def as_snapshot_clean split: if_splits)

lemma cm_decode_clean: "cm_decode data = Some cmd \<Longrightarrow> cm_Payload cmd = Some v \<Longrightarrow> clean v"
proof -
  assume a: "cm_decode data = Some cmd" "cm_Payload cmd = Some v"
  then obtain j kvs where j: "json_Unmarshal data = Some j" "as_obj j = Some kvs" "raw_field ''payload'' kvs = Some v"
    by (auto simp: cm_decode_def bind_eq_Some_conv split: option.splits)
  have "list_all (\<lambda>(k, v). valid_utf8 k \<and> clean v) kvs" using j(1,2) json_Unmarshal_clean by (cases j) fastforce+
  then show ?thesis using j(3) raw_field_clean by blast
qed

lemma apply_clean:
  assumes s: "fsm_clean s" and p: "\<And>v. p = Some v \<Longrightarrow> clean v"
  shows "fsm_clean (snd (applyGenerateKey p s))" "fsm_clean (snd (applyDeleteKey p s))"
    "fsm_clean (snd (applyCAInit p s))" "fsm_clean (snd (applyCAIntermediate p s))"
    "fsm_clean (snd (applyCARevoke cr now p s))"
proof -
  have kvs: "list_all (\<lambda>(k, v). valid_utf8 k \<and> clean v) kvs" if "Option.bind p as_obj = Some kvs" for kvs
    using that p as_obj_clean by (cases p) auto
  have snap: "snap_clean sn" if "Option.bind p as_obj = Some kvs" "dec_snapshot (raw_field ''snapshot'' kvs) = Some sn" for kvs sn
    using that dec_snapshot_clean raw_field_clean [OF _ kvs]
    by (cases "raw_field ''snapshot'' kvs") (auto simp: dec_snapshot_def split: if_splits)
  show "fsm_clean (snd (applyGenerateKey p s))"
  proof (cases "dec_generate_key p")
    case (Some g)
    then have "valid_utf8 (gk_KeyID g)" "valid_utf8 (gk_Level g)"
      using str_field_valid [OF _ kvs] by (auto simp: dec_generate_key_def split: option.splits)
    then show ?thesis using s
      by (auto simp: applyGenerateKey_def Some fsm_clean_def entry_clean_def intro!: list_all_put)
  qed (use s in \<open>simp add: applyGenerateKey_def\<close>)
  show "fsm_clean (snd (applyDeleteKey p s))"
    using s by (auto simp: applyDeleteKey_def fsm_clean_def list_all_del split: option.splits)
  show "fsm_clean (snd (applyCAInit p s))"
    using s snap by (auto simp: applyCAInit_def dec_ca_init_def fsm_clean_def split: option.splits)
  show "fsm_clean (snd (applyCAIntermediate p s))"
  proof (cases "dec_ca_intermediate p")
    case (Some g)
    then obtain kv where kv: "Option.bind p as_obj = Some kv" "str_field ''sub_serial'' kv = Some (ci_SubSerial g)"
      "ci_Snapshot g = raw_field ''snapshot'' kv"
      by (auto simp: dec_ca_intermediate_def split: option.splits)
    show ?thesis
    proof (cases "dec_snapshot (ci_Snapshot g)")
      case sn: (Some sn)
      have "snap_clean sn" using snap [OF kv(1)] sn kv(3) by simp
      then show ?thesis using s str_field_valid [OF kv(2) kvs [OF kv(1)]]
        by (auto simp: applyCAIntermediate_def Some sn fsm_clean_def intro!: list_all_put)
    qed (use s Some in \<open>simp add: applyCAIntermediate_def\<close>)
  qed (use s in \<open>simp add: applyCAIntermediate_def\<close>)
  show "fsm_clean (snd (applyCARevoke cr now p s))"
  proof (cases "dec_ca_revoke p")
    case (Some serial)
    then obtain kv where "Option.bind p as_obj = Some kv" "str_field ''serial'' kv = Some serial"
      by (auto simp: dec_ca_revoke_def bind_eq_Some_conv)
    then have "valid_utf8 serial" using str_field_valid kvs by blast
    then have tr: "valid_utf8 (trim_space serial)" by (rule trim_space_valid)
    have ex: "snap_clean (ca_Export (snd (ca_Revoke now serial ca)))" if "ca_Restore cr sn = Ok ca" "snap_clean sn" for sn ca
      using that(2) ca_Restore_keeps [OF that(1)] tr
      by (cases "sn_Certificate sn")
        (auto simp: snap_clean_def ca_Export_def ca_Revoke_def Let_def int64_ok_def intro!: list_all_put)
    show ?thesis
      using s ex Some
      by (auto simp: applyCARevoke_def fsm_clean_def split: option.splits result.splits prod.splits)
        (metis snd_conv)+
  qed (use s in \<open>simp add: applyCARevoke_def\<close>)
qed

lemma fsm_Apply_clean: "fsm_clean s \<Longrightarrow> fsm_clean (snd (fsm_Apply cr now d s))"
proof (cases "cm_decode d")
  case (Some cmd)
  assume s: "fsm_clean s"
  show ?thesis
    using apply_clean [OF s, of "cm_Payload cmd"] cm_decode_clean [OF Some] s
    by (simp add: fsm_Apply_def Some applyCASign_def)
qed (simp add: fsm_Apply_def)

text \<open>Reading a snapshot back.\<close>

lemma enc_snapshot_back:
  assumes "enc_snapshot sn = Some j" "snap_clean sn"
  shows "json_wf j \<and> json_sanitize j \<noteq> JNull \<and>
    (\<exists>m. as_snapshot (json_sanitize j) = Some (sn\<lparr>sn_Revoked := m\<rparr>) \<and> gm_get m = gm_get (sn_Revoked sn))"
proof -
  obtain jc jr where jc: "(case sn_Certificate sn of None \<Rightarrow> Some JNull | Some c \<Rightarrow> enc_cert c) = Some jc"
    and jr: "enc_times (sn_Revoked sn) = Some jr"
    and eq: "j = JObj [(''version'', JInt (sn_Version sn)), (''certificate'', jc), (''priv_key'', JStr (sn_PrivKey sn)), (''revoked'', jr)]"
    using assms(1) by (auto simp: enc_snapshot_def split: option.splits)
  have c: "json_wf jc" "case sn_Certificate sn of None \<Rightarrow> json_sanitize jc = JNull
      | Some x \<Rightarrow> json_sanitize jc \<noteq> JNull \<and> as_cert (json_sanitize jc) = Some x"
    using jc assms(2) as_cert_back by (auto simp: snap_clean_def split: option.splits)
  obtain m where r: "json_wf jr" "as_times (json_sanitize jr) = Some m" "gm_get m = gm_get (sn_Revoked sn)"
    "json_sanitize jr \<noteq> JNull"
    using as_times_back [OF jr] assms(2) by (auto simp: snap_clean_def list_all_iff)
  have "as_snapshot (json_sanitize j) = Some (sn\<lparr>sn_Revoked := m\<rparr>)"
    using c r assms(2)
    by (cases "sn_Certificate sn") (simp_all add: eq get_field_def cs_folds snap_clean_def valid_utf8_def int64_ok_def)
  then show ?thesis using c r eq by auto
qed

lemma cl_folds:
  "fold_name ''keys'' = [75, 69, 89, 83]"
  "fold_name ''ca_root'' = [67, 65, 95, 82, 79, 79, 84]"
  "fold_name ''ca_intermediates'' = [67, 65, 95, 73, 78, 84, 69, 82, 77, 69, 68, 73, 65, 84, 69, 83]"
  "fold_name ''key_id'' = [75, 69, 89, 95, 73, 68]"
  "fold_name ''level'' = [76, 69, 86, 69, 76]"
  "fold_name ''ek'' = [69, 75]"
  "fold_name ''dk'' = [68, 75]"
  by (simp_all add: fold_name_def fold_code_def)

lemma cl_names [simp]:
  "sanitize ''keys'' = ''keys''" "sanitize ''ca_root'' = ''ca_root''"
  "sanitize ''ca_intermediates'' = ''ca_intermediates''" "sanitize ''key_id'' = ''key_id''"
  "sanitize ''level'' = ''level''" "sanitize ''ek'' = ''ek''" "sanitize ''dk'' = ''dk''"
  by (simp_all add: sanitize_ascii code_def)

lemma enc_bytes_back [simp]:
  "json_wf (enc_bytes b)" "json_sanitize (enc_bytes b) = enc_bytes b"
  "enc_bytes b \<noteq> JNull \<Longrightarrow> as_bytes (enc_bytes b) = Some b" "enc_bytes b = JNull \<longleftrightarrow> b = None"
  using valid_b64 by (auto simp: enc_bytes_def valid_utf8_def split: option.splits)

lemma enc_key_entry_back:
  "entry_clean e \<Longrightarrow> json_wf (enc_key_entry e) \<and> as_key_entry (json_sanitize (enc_key_entry e)) = Some e \<and>
     json_sanitize (enc_key_entry e) \<noteq> JNull"
  by (cases "ke_EK e = None"; cases "ke_DK e = None")
    (simp_all add: enc_key_entry_def get_field_def cl_folds entry_clean_def valid_utf8_def)

lemma enc_opt_snapshot_back:
  assumes "enc_opt_snapshot sp = Some j" "pred_option snap_clean sp"
  shows "json_wf j \<and> (case sp of None \<Rightarrow> json_sanitize j = JNull
    | Some sn \<Rightarrow> json_sanitize j \<noteq> JNull \<and>
        (\<exists>m. as_snapshot (json_sanitize j) = Some (sn\<lparr>sn_Revoked := m\<rparr>) \<and> gm_get m = gm_get (sn_Revoked sn)))"
  using assms enc_snapshot_back by (cases sp) (auto simp: enc_opt_snapshot_def)

text \<open>Equality of states up to the order of the entries of their maps.\<close>

definition fsm_same :: "fsm_state \<Rightarrow> fsm_state \<Rightarrow> bool" where
  "fsm_same s t \<longleftrightarrow> gm_get (fs_Keys s) = gm_get (fs_Keys t) \<and> rel_option snap_same (fs_CARoot s) (fs_CARoot t) \<and>
     (\<forall>k. rel_option (rel_option snap_same) (gm_get (fs_CAIntermediates s) k) (gm_get (fs_CAIntermediates t) k))"

lemma snap_same_eq: "snap_same a b \<Longrightarrow> snap_eq a b"
  by (auto simp: snap_same_def snap_eq_def)

lemma fsm_same_eq: "fsm_same s t \<Longrightarrow> fsm_eq s t"
  unfolding fsm_same_def fsm_eq_def rel_fun_def
  by (metis (no_types, lifting) option.rel_mono_strong snap_same_eq)

lemma list_all2_map_of:
  "list_all2 (\<lambda>(k, y) (k', x). k = k' \<and> R x y) ys xs \<Longrightarrow> rel_option R (map_of xs k) (map_of ys k)"
  by (induction rule: list_all2_induct) auto

lemma map_back:
  assumes js: "those (map (\<lambda>(k, x). map_option (Pair k) (f x)) (sort_key fst m)) = Some js"
    and m: "gm_ok m" "list_all (\<lambda>(k, x). valid_utf8 k \<and> Q x) m"
    and f: "\<And>x v. Q x \<Longrightarrow> f x = Some v \<Longrightarrow> json_wf v \<and> (\<exists>y. \<forall>k. g (k, json_sanitize v) = Some (k, y) \<and> R x y)"
  obtains zs where "json_wf (JObj js)" "those (map g (map (\<lambda>(k, v). (sanitize k, json_sanitize v)) js)) = Some zs"
    "\<And>k. rel_option R (gm_get m k) (gm_get (fold (\<lambda>(k, v) m. gm_put k v m) zs []) k)"
proof -
  let ?ms = "sort_key fst m" and ?rel = "\<lambda>(k, y) (k', x). k = k' \<and> R x y"
  have "(\<forall>y \<in> set js. json_wf (snd y)) \<and>
    (\<exists>zs. those (map g (map (\<lambda>(k, v). (sanitize k, json_sanitize v)) js)) = Some zs \<and> list_all2 ?rel zs ?ms)"
  proof (rule those_related [OF js])
    fix kx y assume kx: "kx \<in> set ?ms" "(case kx of (k, x) \<Rightarrow> map_option (Pair k) (f x)) = Some y"
    obtain k x where kx_eq: "kx = (k, x)" by (cases kx)
    obtain v where v: "f x = Some v" "y = (k, v)" using kx(2) kx_eq by auto
    have "valid_utf8 k" "Q x" using m(2) kx(1) kx_eq by (auto simp: list_all_iff)
    moreover obtain z where "json_wf v" "\<And>k. g (k, json_sanitize v) = Some (k, z)" "R x z"
      using f [OF \<open>Q x\<close> v(1)] by blast
    ultimately show "json_wf (snd y) \<and>
        (\<exists>z. g (case y of (k, v) \<Rightarrow> (sanitize k, json_sanitize v)) = Some z \<and> ?rel z kx)"
      by (simp add: v(2) kx_eq valid_utf8_def)
  qed
  then obtain zs where wf: "json_wf (JObj js)" and rel: "list_all2 ?rel zs ?ms"
    and zs: "those (map g (map (\<lambda>(k, v). (sanitize k, json_sanitize v)) js)) = Some zs" by auto
  have "map fst zs = map fst ?ms" using rel by (induction rule: list_all2_induct) auto
  moreover have d: "distinct (map fst ?ms)" using m(1) by (simp add: gm_ok_def distinct_map)
  ultimately have "fold (\<lambda>(k, v) m. gm_put k v m) zs [] = zs" using fold_put_fresh [of "[]" zs] by simp
  moreover have "gm_get m = map_of ?ms"
    using m(1) d by (intro map_of_inject_set [THEN iffD2]) (auto simp: gm_ok_def)
  ultimately show thesis using that [OF wf zs] list_all2_map_of [OF rel] by simp
qed

lemma fsm_snapshot_back:
  assumes "fsm_Snapshot s = Ok text" "fsm_clean s"
  obtains t where "fsm_Restore text s0 = (Ok (), t)" "fsm_same s t"
proof -
  obtain r ij where r: "enc_opt_snapshot (fs_CARoot s) = Some r"
    and isx: "those (map (\<lambda>(k, sn). map_option (Pair k) (enc_opt_snapshot sn)) (sort_key fst (fs_CAIntermediates s))) = Some ij"
    and v: "enc_fsm s = Some (JObj ([(''keys'', JObj (map (\<lambda>(k, e). (k, case e of None \<Rightarrow> JNull | Some x \<Rightarrow> enc_key_entry x))
        (sort_key fst (fs_Keys s))))] @
        (if fs_CARoot s = None then [] else [(''ca_root'', r)]) @ [(''ca_intermediates'', JObj ij)]))"
    using assms(1) by (auto simp: fsm_Snapshot_def enc_fsm_def split: option.splits)
  let ?ek = "\<lambda>e. case e of None \<Rightarrow> JNull | Some x \<Rightarrow> enc_key_entry x"
  let ?ks = "map (\<lambda>(k, e). (k, ?ek e)) (sort_key fst (fs_Keys s))"
  have c: "gm_ok (fs_Keys s)" "list_all (\<lambda>(k, e). valid_utf8 k \<and> pred_option entry_clean e) (fs_Keys s)"
    "pred_option snap_clean (fs_CARoot s)" "gm_ok (fs_CAIntermediates s)"
    "list_all (\<lambda>(k, sn). valid_utf8 k \<and> pred_option snap_clean sn) (fs_CAIntermediates s)"
    using assms(2) by (simp_all add: fsm_clean_def)
  have ks: "those (map (\<lambda>(k, e). map_option (Pair k) (Some (?ek e))) (sort_key fst (fs_Keys s))) = Some ?ks"
    by (simp add: case_prod_unfold)
  have kback: "json_wf v \<and> (\<exists>y. \<forall>k. as_key_elem (k, json_sanitize v) = Some (k, y) \<and> e = y)"
    if "pred_option entry_clean e" "Some (?ek e) = Some v" for e v
    using that enc_key_entry_back by (cases e) (auto simp: as_key_elem_def)
  have iback: "json_wf v \<and> (\<exists>y. \<forall>k. as_snapshot_elem (k, json_sanitize v) = Some (k, y) \<and> rel_option snap_same sn y)"
    if "pred_option snap_clean sn" "enc_opt_snapshot sn = Some v" for sn v
    using enc_opt_snapshot_back [OF that(2,1)] by (cases sn) (auto simp: as_snapshot_elem_def snap_same_def)
  obtain kz where kz: "json_wf (JObj ?ks)" "those (map as_key_elem (map (\<lambda>(k, v). (sanitize k, json_sanitize v)) ?ks)) = Some kz"
    "\<And>k. rel_option (=) (gm_get (fs_Keys s) k) (gm_get (fold (\<lambda>(k, v) m. gm_put k v m) kz []) k)"
    by (rule map_back [OF ks c(1,2), where g = as_key_elem and R = "(=)"]) (use kback in blast)+
  obtain iz where iz: "json_wf (JObj ij)" "those (map as_snapshot_elem (map (\<lambda>(k, v). (sanitize k, json_sanitize v)) ij)) = Some iz"
    "\<And>k. rel_option (rel_option snap_same) (gm_get (fs_CAIntermediates s) k) (gm_get (fold (\<lambda>(k, v) m. gm_put k v m) iz []) k)"
    by (rule map_back [OF isx c(4,5), where g = as_snapshot_elem and R = "rel_option snap_same"]) (use iback in blast)+
  note rb = enc_opt_snapshot_back [OF r c(3)]
  have jk: "as_keys (json_sanitize (JObj ?ks)) = Some (fold (\<lambda>(k, v) m. gm_put k v m) kz [])"
    using kz(2) by (simp add: comp_def)
  have ji: "as_snapshots (json_sanitize (JObj ij)) = Some (fold (\<lambda>(k, v) m. gm_put k v m) iz [])"
    using iz(2) by (simp add: comp_def)
  have nn: "json_sanitize (JObj ?ks) \<noteq> JNull" "json_sanitize (JObj ij) \<noteq> JNull" by simp_all
  obtain rt where rt: "case fs_CARoot s of None \<Rightarrow> rt = None
      | Some a \<Rightarrow> json_sanitize r \<noteq> JNull \<and> as_snapshot (json_sanitize r) = rt \<and> rt \<noteq> None" "rel_option snap_same (fs_CARoot s) rt"
  proof (cases "fs_CARoot s")
    case None
    then show ?thesis using that [of None] by simp
  next
    case (Some a)
    then obtain m where "json_sanitize r \<noteq> JNull" "as_snapshot (json_sanitize r) = Some (a\<lparr>sn_Revoked := m\<rparr>)"
      "gm_get m = gm_get (sn_Revoked a)" using rb by auto
    then show ?thesis using Some that [of "Some (a\<lparr>sn_Revoked := m\<rparr>)"] by (auto simp: snap_same_def)
  qed
  let ?kvs = "[(''keys'', JObj ?ks)] @ (if fs_CARoot s = None then [] else [(''ca_root'', r)]) @ [(''ca_intermediates'', JObj ij)]"
  have wf: "json_wf (JObj ?kvs)" using kz(1) iz(1) rb by (auto simp del: json_wf.simps(2))
  have dec: "Option.bind (json_Decode (json_enc (JObj ?kvs))) as_obj = Some (map (\<lambda>(k, v). (sanitize k, json_sanitize v)) ?kvs)"
    using json_Decode_of_Unmarshal [OF json_roundtrip [OF wf]] by simp
  have "dec_fsm (json_enc (JObj ?kvs)) = Some \<lparr>fs_Keys = fold (\<lambda>(k, v) m. gm_put k v m) kz [], fs_CARoot = rt,
      fs_CAIntermediates = fold (\<lambda>(k, v) m. gm_put k v m) iz []\<rparr>"
    using rt(1) nn jk ji unfolding dec_fsm_def dec
    by (cases "fs_CARoot s")
      (auto simp: get_field_def cl_folds simp del: as_keys.simps as_snapshots.simps json_sanitize.simps)
  moreover have "text = json_enc (JObj ?kvs)" using assms(1) by (simp add: fsm_Snapshot_def v)
  moreover have "gm_get (fs_Keys s) = gm_get (fold (\<lambda>(k, v) m. gm_put k v m) kz [])"
    using kz(3) by (simp add: fun_eq_iff option.rel_eq)
  ultimately show thesis using that rt(2) iz(3) by (simp add: fsm_Restore_def fsm_same_def)
qed

lemma as_key_entry_clean: "as_key_entry v = Some e \<Longrightarrow> clean v \<Longrightarrow> entry_clean e"
  by (cases v) (auto simp: entry_clean_def dest: str_field_valid split: option.splits)

lemma elems_clean:
  assumes "those (map f kvs) = Some es" "list_all (\<lambda>(k, v). valid_utf8 k \<and> clean v) kvs"
    and "\<And>k v y. clean v \<Longrightarrow> f (k, v) = Some y \<Longrightarrow> fst y = k \<and> Q (snd y)"
  shows "gm_ok (fold (\<lambda>(k, v) m. gm_put k v m) es []) \<and>
    list_all (\<lambda>(k, x). valid_utf8 k \<and> Q x) (fold (\<lambda>(k, v) m. gm_put k v m) es [])"
proof -
  have "list_all (\<lambda>(k, x). valid_utf8 k \<and> Q x) es"
    by (rule those_list_all [OF assms(1,2)]) (use assms(3) in fastforce)
  then show ?thesis using fold_put_list_all [of _ es "[]"] by simp
qed

lemma as_keys_clean:
  "as_keys v = Some m \<Longrightarrow> clean v \<Longrightarrow> gm_ok m \<and> list_all (\<lambda>(k, e). valid_utf8 k \<and> pred_option entry_clean e) m"
  using elems_clean [of as_key_elem _ _ "pred_option entry_clean"] as_key_entry_clean
  by (cases v) (fastforce simp: as_key_elem_def split: if_splits)+

lemma as_snapshots_clean:
  "as_snapshots v = Some m \<Longrightarrow> clean v \<Longrightarrow> gm_ok m \<and> list_all (\<lambda>(k, e). valid_utf8 k \<and> pred_option snap_clean e) m"
  using elems_clean [of as_snapshot_elem _ _ "pred_option snap_clean"] as_snapshot_clean
  by (cases v) (fastforce simp: as_snapshot_elem_def split: if_splits)+

lemma dec_fsm_clean: "dec_fsm text = Some s \<Longrightarrow> fsm_clean s"
proof -
  assume "dec_fsm text = Some s"
  then obtain v kvs k r ci where j: "json_Decode text = Some v" "as_obj v = Some kvs"
    and f: "get_field as_keys [] ''keys'' kvs = Some k"
      "get_field (\<lambda>v. map_option Some (as_snapshot v)) None ''ca_root'' kvs = Some r"
      "get_field as_snapshots [] ''ca_intermediates'' kvs = Some ci"
    and s: "s = \<lparr>fs_Keys = k, fs_CARoot = r, fs_CAIntermediates = ci\<rparr>"
    by (auto simp: dec_fsm_def bind_eq_Some_conv split: option.splits)
  have c: "list_all (\<lambda>(k, v). valid_utf8 k \<and> clean v) kvs" using as_obj_clean j json_Decode_clean by blast
  have "gm_ok k \<and> list_all (\<lambda>(k, e). valid_utf8 k \<and> pred_option entry_clean e) k"
    using f(1) c by (rule get_field_cases) (auto dest: as_keys_clean)
  moreover have "pred_option snap_clean r"
    using f(2) c by (rule get_field_cases) (auto dest: as_snapshot_clean)
  moreover have "gm_ok ci \<and> list_all (\<lambda>(k, sn). valid_utf8 k \<and> pred_option snap_clean sn) ci"
    using f(3) c by (rule get_field_cases) (auto dest: as_snapshots_clean)
  ultimately show ?thesis by (simp add: fsm_clean_def s)
qed

section \<open>The cluster\<close>

text \<open>
  What Raft promises: the nodes agree on one log of committed entries, and each applies its entries in
  order. A node may receive the snapshot of another instead, or restart and replay from the start. The
  clock of the node that applies an entry is its own.
\<close>

record cluster =
  cl_log :: "string list"
  cl_fsm :: "nat \<Rightarrow> fsm_state"
  cl_applied :: "nat \<Rightarrow> nat"

definition cl_init :: cluster where
  "cl_init = \<lparr>cl_log = [], cl_fsm = (\<lambda>_. NewFSM), cl_applied = (\<lambda>_. 0)\<rparr>"

inductive cl_step :: "crypto \<Rightarrow> cluster \<Rightarrow> cluster \<Rightarrow> bool" for cr where
  Commit: "cl_step cr c (c\<lparr>cl_log := cl_log c @ [data]\<rparr>)"
| Deliver: "cl_applied c i < length (cl_log c) \<Longrightarrow>
    cl_step cr c (c\<lparr>cl_fsm := (cl_fsm c)(i := snd (fsm_Apply cr now (cl_log c ! cl_applied c i) (cl_fsm c i))),
      cl_applied := (cl_applied c)(i := Suc (cl_applied c i))\<rparr>)"
| Install: "fsm_Snapshot (cl_fsm c j) = Ok text \<Longrightarrow> fsm_Restore text (cl_fsm c i) = (Ok (), s) \<Longrightarrow>
    cl_step cr c (c\<lparr>cl_fsm := (cl_fsm c)(i := s), cl_applied := (cl_applied c)(i := cl_applied c j)\<rparr>)"
| Restart: "cl_step cr c (c\<lparr>cl_fsm := (cl_fsm c)(i := NewFSM), cl_applied := (cl_applied c)(i := 0)\<rparr>)"


definition replay :: "crypto \<Rightarrow> string list \<Rightarrow> fsm_state" where
  "replay cr log = fold (\<lambda>d s. snd (fsm_Apply cr 0 d s)) log NewFSM"

definition cl_inv :: "crypto \<Rightarrow> cluster \<Rightarrow> bool" where
  "cl_inv cr c \<longleftrightarrow> (\<forall>i. cl_applied c i \<le> length (cl_log c) \<and> fsm_clean (cl_fsm c i) \<and>
     fsm_eq (replay cr (take (cl_applied c i) (cl_log c))) (cl_fsm c i))"

lemma fsm_clean_New [simp]: "fsm_clean NewFSM"
  by (simp add: fsm_clean_def NewFSM_def)

lemma replay_Nil [simp]: "replay cr [] = NewFSM"
  by (simp add: replay_def)

lemma replay_snoc: "replay cr (log @ [d]) = snd (fsm_Apply cr 0 d (replay cr log))"
  by (simp add: replay_def)

lemma cl_inv_step:
  assumes "cl_inv cr c" "cl_step cr c c'"
  shows "cl_inv cr c'"
  using assms(2)
proof cases
  case (Commit data)
  then show ?thesis using assms(1) by (auto simp: cl_inv_def le_Suc_eq)
next
  case (Deliver i now)
  let ?n = "cl_applied c i" and ?d = "cl_log c ! cl_applied c i"
  have inv: "fsm_clean (cl_fsm c i)" "fsm_eq (replay cr (take ?n (cl_log c))) (cl_fsm c i)"
    using assms(1) by (auto simp: cl_inv_def)
  have "replay cr (take (Suc ?n) (cl_log c)) = snd (fsm_Apply cr 0 ?d (replay cr (take ?n (cl_log c))))"
    using Deliver(2) by (simp add: take_Suc_conv_app_nth replay_snoc)
  then have "fsm_eq (replay cr (take (Suc ?n) (cl_log c))) (snd (fsm_Apply cr now ?d (cl_fsm c i)))"
    using fsm_Apply_eq [OF inv(2), of cr 0 ?d now] by simp
  then show ?thesis using assms(1) Deliver fsm_Apply_clean [OF inv(1)] by (auto simp: cl_inv_def)
next
  case (Install j tx i s)
  have j: "fsm_clean (cl_fsm c j)" "cl_applied c j \<le> length (cl_log c)"
    "fsm_eq (replay cr (take (cl_applied c j) (cl_log c))) (cl_fsm c j)"
    using assms(1) by (auto simp: cl_inv_def)
  have "fsm_same (cl_fsm c j) s"
    using fsm_snapshot_back [OF Install(2) j(1), of "cl_fsm c i"] Install(3) by (metis prod.inject)
  then have "fsm_eq (replay cr (take (cl_applied c j) (cl_log c))) s" using fsm_eq_trans [OF j(3)] fsm_same_eq by blast
  moreover have "fsm_clean s"
    using Install(3) dec_fsm_clean by (auto simp: fsm_Restore_def split: option.splits)
  ultimately show ?thesis using assms(1) j(2) Install(1) by (auto simp: cl_inv_def)
next
  case (Restart i)
  then show ?thesis using assms(1) by (auto simp: cl_inv_def)
qed

lemma cl_inv_reachable: "(cl_step cr)\<^sup>*\<^sup>* cl_init c \<Longrightarrow> cl_inv cr c"
proof (induction rule: rtranclp_induct)
  case base
  then show ?case by (simp add: cl_init_def cl_inv_def)
qed (rule cl_inv_step)

end
