(* ===== verification/ClusterNode.thy ===== *)
theory ClusterNode
  imports Cluster
begin

text \<open>
  \<open>internal/cluster/node.go\<close> and \<open>http.go\<close>: the node around the state machine and its HTTP handlers. What
  Raft, the transport, the BoltDB store and the file system answer is the argument of each operation.
\<close>

section \<open>Configuration\<close>

record node_config =
  nc_NodeID :: string
  nc_BindAddr :: string
  nc_DataDir :: string
  nc_Bootstrap :: bool
  nc_ApplyTimeout :: duration
  nc_HeartbeatTimeout :: duration
  nc_ElectionTimeout :: duration
  nc_LeaderLeaseTimeout :: duration
  nc_SnapshotInterval :: duration
  nc_SnapshotThreshold :: u64

definition applyDefaults :: "node_config \<Rightarrow> node_config" where
  "applyDefaults c0 =
     (let c1 = (if nc_ApplyTimeout c0 = 0 then c0\<lparr>nc_ApplyTimeout := 5 * Second\<rparr> else c0);
          c2 = (if nc_HeartbeatTimeout c1 = 0 then c1\<lparr>nc_HeartbeatTimeout := 150000000\<rparr> else c1);
          c3 = (if nc_ElectionTimeout c2 = 0 then c2\<lparr>nc_ElectionTimeout := 150000000\<rparr> else c2);
          c4 = (if nc_LeaderLeaseTimeout c3 = 0 \<or> nc_LeaderLeaseTimeout c3 > nc_HeartbeatTimeout c3
                then c3\<lparr>nc_LeaderLeaseTimeout := nc_HeartbeatTimeout c3\<rparr> else c3);
          c5 = (if nc_SnapshotInterval c4 = 0 then c4\<lparr>nc_SnapshotInterval := 30 * Second\<rparr> else c4)
      in if nc_SnapshotThreshold c5 = 0 then c5\<lparr>nc_SnapshotThreshold := 8192\<rparr> else c5)"

lemma applyDefaults_lease: "nc_LeaderLeaseTimeout (applyDefaults c) \<le> nc_HeartbeatTimeout (applyDefaults c)"
  by (simp add: applyDefaults_def Let_def)

lemma applyDefaults_nonzero:
  "nc_ApplyTimeout (applyDefaults c) \<noteq> 0" "nc_HeartbeatTimeout (applyDefaults c) \<noteq> 0"
  "nc_ElectionTimeout (applyDefaults c) \<noteq> 0" "nc_LeaderLeaseTimeout (applyDefaults c) \<noteq> 0"
  "nc_SnapshotInterval (applyDefaults c) \<noteq> 0" "nc_SnapshotThreshold (applyDefaults c) \<noteq> 0"
  by (simp_all add: applyDefaults_def Let_def)

lemma applyDefaults_idem: "applyDefaults (applyDefaults c) = applyDefaults c"
  using applyDefaults_nonzero [of c] applyDefaults_lease [of c]
  by (subst applyDefaults_def) (simp add: Let_def)

section \<open>The node\<close>

datatype node_error =
    NodeEmptyID | NodeEmptyAddr | NodeEmptyDir | NodeNilFSM | NodeMkdir | NodeResolve | NodeTransport | NodeBolt
  | NodeSnapStore | NodeRaft | ErrNotLeader | NodeMarshal | NodeApplyRaft string | NodeApplyFSM fsm_error
  | NodeBootstrap string | NodeAddVoter string | NodeRemove string | NodeServers string | NodeNoLeader duration
  | NodeShutdown "string list"

record raft_config =
  rc_LocalID :: string
  rc_HeartbeatTimeout :: duration
  rc_ElectionTimeout :: duration
  rc_LeaderLeaseTimeout :: duration
  rc_SnapshotInterval :: duration
  rc_SnapshotThreshold :: u64

record node =
  nd_cfg :: node_config
  nd_raft :: raft_config
  nd_fsm :: fsm_state

text \<open>Which of the calls of \<open>NewNode\<close> succeed, and the handles it leaves open.\<close>

record node_env =
  env_mkdir :: bool
  env_resolve :: bool
  env_transport :: bool
  env_bolt :: bool
  env_snapstore :: bool
  env_raft :: "raft_config \<Rightarrow> bool"

datatype handle = HTransport | HBolt

definition raft_conf :: "node_config \<Rightarrow> raft_config" where
  "raft_conf cfg =
     \<lparr>rc_LocalID = nc_NodeID cfg, rc_HeartbeatTimeout = nc_HeartbeatTimeout cfg,
      rc_ElectionTimeout = nc_ElectionTimeout cfg, rc_LeaderLeaseTimeout = nc_LeaderLeaseTimeout cfg,
      rc_SnapshotInterval = nc_SnapshotInterval cfg, rc_SnapshotThreshold = nc_SnapshotThreshold cfg\<rparr>"

definition NewNode :: "node_env \<Rightarrow> node_config \<Rightarrow> fsm_state option \<Rightarrow> (node_error, node) result \<times> handle list" where
  "NewNode env cfg0 fsmp =
     (let cfg = applyDefaults cfg0; rc = raft_conf cfg in
      if nc_NodeID cfg = [] then (Err NodeEmptyID, [])
      else if nc_BindAddr cfg = [] then (Err NodeEmptyAddr, [])
      else if nc_DataDir cfg = [] then (Err NodeEmptyDir, [])
      else case fsmp of
        None \<Rightarrow> (Err NodeNilFSM, [])
      | Some fsm \<Rightarrow>
          (if \<not> env_mkdir env then (Err NodeMkdir, [])
           else if \<not> env_resolve env then (Err NodeResolve, [])
           else if \<not> env_transport env then (Err NodeTransport, [])
           else if \<not> env_bolt env then (Err NodeBolt, [])
           else if \<not> env_snapstore env then (Err NodeSnapStore, [HBolt])
           else if \<not> env_raft env rc then (Err NodeRaft, [])
           else (Ok \<lparr>nd_cfg = cfg, nd_raft = rc, nd_fsm = fsm\<rparr>, [HTransport, HBolt])))"

text \<open>What Raft reports about itself when an operation asks.\<close>

record raft_view =
  rv_State :: string
  rv_LeaderAddr :: string
  rv_LeaderID :: string
  rv_Servers :: "(string, (string \<times> string \<times> string) list) result"
  rv_Stats :: "(string, string) gomap"

definition IsLeader :: "raft_view \<Rightarrow> bool" where
  "IsLeader rv \<longleftrightarrow> rv_State rv = ''Leader''"

datatype boot_outcome = BootOk | CantBootstrap | BootFailed string

definition node_Bootstrap :: "((string \<times> string) list \<Rightarrow> boot_outcome) \<Rightarrow> node \<Rightarrow> (node_error, unit) result" where
  "node_Bootstrap boot n =
     (case boot [(nc_NodeID (nd_cfg n), nc_BindAddr (nd_cfg n))] of
        BootFailed e \<Rightarrow> Err (NodeBootstrap e) | CantBootstrap \<Rightarrow> Ok () | BootOk \<Rightarrow> Ok ())"

definition node_Join :: "(string \<Rightarrow> string \<Rightarrow> string option) \<Rightarrow> string \<Rightarrow> string \<Rightarrow> string \<Rightarrow> (node_error, unit) result" where
  "node_Join addVoter leaderAddr nid addr =
     (case addVoter nid addr of None \<Rightarrow> Ok () | Some e \<Rightarrow> Err (NodeAddVoter e))"

definition node_Remove :: "(string \<Rightarrow> string option) \<Rightarrow> string \<Rightarrow> (node_error, unit) result" where
  "node_Remove removeServer nid = (case removeServer nid of None \<Rightarrow> Ok () | Some e \<Rightarrow> Err (NodeRemove e))"

text \<open>\<open>raft.Apply\<close>: it fails, or the entry was committed and the local state machine answered.\<close>

datatype apply_outcome = ApplyFailed string | Applied "(fsm_error, unit) result"

definition node_Apply ::
    "raft_view \<Rightarrow> (string \<Rightarrow> duration \<Rightarrow> apply_outcome) \<Rightarrow> node \<Rightarrow> command \<Rightarrow> (node_error, unit) result" where
  "node_Apply rv raftApply n cmd =
     (if \<not> IsLeader rv then Err ErrNotLeader
      else case raftApply (cm_encode cmd) (nc_ApplyTimeout (nd_cfg n)) of
        ApplyFailed e \<Rightarrow> Err (NodeApplyRaft e)
      | Applied (Ok _) \<Rightarrow> Ok ()
      | Applied (Err er) \<Rightarrow> Err (NodeApplyFSM er)
      | Applied Panic \<Rightarrow> Panic)"

definition ApplyJSON ::
    "raft_view \<Rightarrow> (string \<Rightarrow> duration \<Rightarrow> apply_outcome) \<Rightarrow> node \<Rightarrow> OpType \<Rightarrow> jval option \<Rightarrow> (node_error, unit) result" where
  "ApplyJSON rv raftApply n oper payload =
     (case payload of
        None \<Rightarrow> Err NodeMarshal
      | Some v \<Rightarrow> node_Apply rv raftApply n \<lparr>cm_Op = oper, cm_Payload = Some v\<rparr>)"

definition node_Servers :: "raft_view \<Rightarrow> (node_error, (string \<times> string \<times> string) list) result" where
  "node_Servers rv = map_result NodeServers id (rv_Servers rv)"

text \<open>The polling loop: before each poll the clock is read, then the leader is asked for; the i-th entry
  of \<open>polls\<close> holds both answers. The loop is partial: it ends only because the clock moves.\<close>

partial_function (option) wait_loop ::
    "(nat \<Rightarrow> gotime \<times> string) \<Rightarrow> gotime \<Rightarrow> duration \<Rightarrow> nat \<Rightarrow> (node_error, string) result option" where
  "wait_loop polls deadline timeout i =
     (if fst (polls i) < deadline
      then if snd (polls i) \<noteq> [] then Some (Ok (snd (polls i))) else wait_loop polls deadline timeout (Suc i)
      else Some (Err (NodeNoLeader timeout)))"

definition WaitForLeader ::
    "(nat \<Rightarrow> gotime \<times> string) \<Rightarrow> gotime \<Rightarrow> duration \<Rightarrow> (node_error, string) result option" where
  "WaitForLeader polls now timeout = wait_loop polls (now + timeout) timeout 0"

definition node_Shutdown :: "string option \<Rightarrow> string option \<Rightarrow> string option \<Rightarrow> (node_error, unit) result" where
  "node_Shutdown raftErr tmErr boltErr =
     (let errs = (case raftErr of None \<Rightarrow> [] | Some e \<Rightarrow> [''raft: '' @ e]) @
                 (case tmErr of None \<Rightarrow> [] | Some e \<Rightarrow> [''transport: '' @ e]) @
                 (case boltErr of None \<Rightarrow> [] | Some e \<Rightarrow> [''boltdb: '' @ e])
      in if errs = [] then Ok () else Err (NodeShutdown errs))"

section \<open>HTTP\<close>

record join_request =
  jr_NodeID :: string
  jr_BindAddr :: string

definition dec_join :: "string \<Rightarrow> join_request option" where
  "dec_join body =
     (case Option.bind (json_Decode body) as_obj of
        None \<Rightarrow> None
      | Some kvs \<Rightarrow>
          (case (str_field ''node_id'' kvs, str_field ''bind_addr'' kvs) of
             (Some i, Some a) \<Rightarrow> Some \<lparr>jr_NodeID = i, jr_BindAddr = a\<rparr>
           | _ \<Rightarrow> None))"

definition dec_remove :: "string \<Rightarrow> string option" where
  "dec_remove body = Option.bind (Option.bind (json_Decode body) as_obj) (str_field ''node_id'')"

definition server_info :: "string \<times> string \<times> string \<Rightarrow> jval" where
  "server_info s = (case s of (i, a, f) \<Rightarrow>
     JObj [(''id'', JStr i), (''address'', JStr a), (''suffrage'', JStr f)])"

definition handleStatus :: "node \<Rightarrow> raft_view \<Rightarrow> response" where
  "handleStatus n rv =
     (case node_Servers rv of
        Ok servers \<Rightarrow>
          reply StatusOK (JObj [(''node_id'', JStr (nc_NodeID (nd_cfg n))), (''state'', JStr (rv_State rv)),
            (''leader_addr'', JStr (rv_LeaderAddr rv)), (''leader_id'', JStr (rv_LeaderID rv)),
            (''servers'', JArr (map server_info servers)), (''stats'', json_map (rv_Stats rv))])
      | _ \<Rightarrow> reply_error StatusInternalServerError ''failed to get cluster config'')"

definition handleLeader :: "raft_view \<Rightarrow> response" where
  "handleLeader rv =
     reply StatusOK (json_map [(''leader_addr'', rv_LeaderAddr rv), (''leader_id'', rv_LeaderID rv)])"

text \<open>The members added by the request; \<open>err\<close> is the text of the JSON error.\<close>

definition handleJoin ::
    "raft_view \<Rightarrow> (string \<Rightarrow> string \<Rightarrow> string option) \<Rightarrow> string \<Rightarrow> string \<Rightarrow> response \<times> (string \<times> string) list" where
  "handleJoin rv addVoter err body =
     (case dec_join body of
        None \<Rightarrow> (reply_error StatusBadRequest (''bad request: '' @ err), [])
      | Some req \<Rightarrow>
          (if jr_NodeID req = [] \<or> jr_BindAddr req = []
           then (reply_error StatusBadRequest ''node_id and bind_addr are required'', [])
           else if \<not> IsLeader rv
           then (reply_error StatusTemporaryRedirect (''not leader; redirect to '' @ rv_LeaderAddr rv), [])
           else case addVoter (jr_NodeID req) (jr_BindAddr req) of
             Some e \<Rightarrow> (reply_error StatusInternalServerError (''join failed: cluster.Node.Join: AddVoter: '' @ e), [])
           | None \<Rightarrow>
               (reply StatusOK (json_map [(''status'', ''joined''), (''node_id'', jr_NodeID req)]),
                [(jr_NodeID req, jr_BindAddr req)])))"

definition handleRemove ::
    "raft_view \<Rightarrow> (string \<Rightarrow> string option) \<Rightarrow> string \<Rightarrow> string \<Rightarrow> response \<times> string list" where
  "handleRemove rv removeServer err body =
     (case dec_remove body of
        None \<Rightarrow> (reply_error StatusBadRequest (''bad request: '' @ err), [])
      | Some nid \<Rightarrow>
          (if nid = [] then (reply_error StatusBadRequest ''node_id is required'', [])
           else if \<not> IsLeader rv
           then (reply_error StatusTemporaryRedirect (''not leader; redirect to '' @ rv_LeaderAddr rv), [])
           else case removeServer nid of
             Some e \<Rightarrow> (reply_error StatusInternalServerError (''remove failed: cluster.Node.Remove: '' @ e), [])
           | None \<Rightarrow> (reply StatusOK (json_map [(''status'', ''removed''), (''node_id'', nid)]), [nid])))"

text \<open>The four routes of \<open>Handler\<close>.\<close>

datatype cluster_route = RStatus | RLeader | RJoin | RRemove

definition cluster_Handler :: "string \<Rightarrow> string \<Rightarrow> cluster_route option" where
  "cluster_Handler verb path =
     (if (verb = ''GET'' \<or> verb = ''HEAD'') \<and> path = ''/cluster/status'' then Some RStatus
      else if (verb = ''GET'' \<or> verb = ''HEAD'') \<and> path = ''/cluster/leader'' then Some RLeader
      else if verb = ''POST'' \<and> path = ''/cluster/join'' then Some RJoin
      else if verb = ''POST'' \<and> path = ''/cluster/remove'' then Some RRemove
      else None)"

section \<open>Commands reach the state machine as they were sent\<close>

lemma cn_names [simp]: "sanitize ''op'' = ''op''" "sanitize ''payload'' = ''payload''"
  by (simp_all add: sanitize_ascii code_def)

lemma cn_folds: "fold_name ''op'' = [79, 80]" "fold_name ''payload'' = [80, 65, 89, 76, 79, 65, 68]"
  by (simp_all add: fold_name_def fold_code_def)

lemma cm_decode_encode:
  assumes "valid_utf8 oper" "json_wf v" "clean v"
  shows "cm_decode (cm_encode \<lparr>cm_Op = oper, cm_Payload = Some v\<rparr>) = Some \<lparr>cm_Op = oper, cm_Payload = Some v\<rparr>"
proof -
  have wf: "json_wf (JObj [(''op'', JStr oper), (''payload'', v)])" using assms(2) by simp
  have "json_Unmarshal (json_enc (JObj [(''op'', JStr oper), (''payload'', v)])) = Some (JObj [(''op'', JStr oper), (''payload'', v)])"
    using json_roundtrip [OF wf] assms(1,3) by (simp add: valid_utf8_def clean_def del: json_enc.simps)
  then show ?thesis
    by (simp add: cm_decode_def cm_encode_def get_field_def raw_field_def cn_folds del: json_enc.simps)
qed

definition enc_generate_key :: "generate_key \<Rightarrow> jval" where
  "enc_generate_key g = JObj [(''key_id'', JStr (gk_KeyID g)), (''level'', JStr (gk_Level g)),
     (''ek'', enc_bytes (gk_EK g)), (''dk'', enc_bytes (gk_DK g))]"

definition enc_delete_key :: "string \<Rightarrow> jval" where
  "enc_delete_key k = JObj [(''key_id'', JStr k)]"

lemma valid_ops [simp]: "valid_utf8 OpGenerateKey" "valid_utf8 OpDeleteKey"
  by (simp_all add: op_defs valid_ascii code_def)

lemma cn_valid [simp]:
  "valid_utf8 ''key_id''" "valid_utf8 ''level''" "valid_utf8 ''ek''" "valid_utf8 ''dk''"
  by (simp_all add: valid_utf8_def)

lemma clean_enc_bytes [simp]: "clean (enc_bytes b)"
  by (simp add: clean_def)

lemma dec_generate_key_back:
  assumes "valid_utf8 (gk_KeyID g)" "valid_utf8 (gk_Level g)"
  shows "dec_generate_key (Some (enc_generate_key g)) = Some g" "json_wf (enc_generate_key g)" "clean (enc_generate_key g)"
proof -
  show "dec_generate_key (Some (enc_generate_key g)) = Some g"
    by (cases "gk_EK g = None"; cases "gk_DK g = None")
      (simp_all add: dec_generate_key_def enc_generate_key_def get_field_def cl_folds)
qed (use assms in \<open>simp_all add: enc_generate_key_def\<close>)

lemma dec_delete_key_back:
  "dec_delete_key (Some (enc_delete_key k)) = Some k" "json_wf (enc_delete_key k)" "clean (enc_delete_key k) \<longleftrightarrow> valid_utf8 k"
  by (simp_all add: dec_delete_key_def enc_delete_key_def get_field_def cl_folds)

lemma fsm_Apply_generate:
  assumes "valid_utf8 (gk_KeyID g)" "valid_utf8 (gk_Level g)"
  shows "fsm_Apply cr now (cm_encode \<lparr>cm_Op = OpGenerateKey, cm_Payload = Some (enc_generate_key g)\<rparr>) s =
    (Ok (), s\<lparr>fs_Keys := gm_put (gk_KeyID g)
       (Some \<lparr>ke_KeyID = gk_KeyID g, ke_Level = gk_Level g, ke_EK = gk_EK g, ke_DK = gk_DK g\<rparr>) (fs_Keys s)\<rparr>)"
  using dec_generate_key_back [OF assms]
  by (simp add: fsm_Apply_def cm_decode_encode applyGenerateKey_def)

lemma fsm_Apply_delete:
  assumes "valid_utf8 k"
  shows "fsm_Apply cr now (cm_encode \<lparr>cm_Op = OpDeleteKey, cm_Payload = Some (enc_delete_key k)\<rparr>) s =
    (Ok (), s\<lparr>fs_Keys := gm_del k (fs_Keys s)\<rparr>)"
proof -
  have "OpDeleteKey \<noteq> OpGenerateKey" by (simp add: op_defs)
  then show ?thesis
    using dec_delete_key_back [of k] assms by (simp add: fsm_Apply_def cm_decode_encode applyDeleteKey_def)
qed

text \<open>A failed \<open>NewNode\<close> leaves nothing open, except that it forgets the store when the snapshot
  directory cannot be opened.\<close>

lemma NewNode_handles:
  "NewNode env cfg fsm = (r, hs) \<Longrightarrow>
     hs = (if is_ok r then [HTransport, HBolt] else if r = Err NodeSnapStore then [HBolt] else [])"
  by (auto simp: NewNode_def Let_def split: if_splits option.splits)

text \<open>The replicated state depends on the local clock: the moment a revocation is recorded with is the
  one at which this node applied it.\<close>

lemma revoke_records_local_clock:
  assumes "dec_ca_revoke p = Some serial" "fs_CARoot s = Some snap" "ca_Restore cr snap = Ok root"
    and "trim_space serial \<noteq> []" "gm_get (sn_Revoked snap) (trim_space serial) = None"
  shows "\<exists>r. fs_CARoot (snd (applyCARevoke cr now p s)) = Some r \<and> gm_get (sn_Revoked r) (trim_space serial) = Some now"
  using assms ca_Restore_keeps [OF assms(3)] by (simp add: applyCARevoke_def ca_Revoke_def Let_def ca_Export_def)

text \<open>The membership operations of the command type are refused by the state machine.\<close>

lemma membership_ops_unknown:
  "cm_decode data = Some cmd \<Longrightarrow> cm_Op cmd = OpAddVoter \<or> cm_Op cmd = OpRemoveVoter \<Longrightarrow>
     fsm_Apply cr now data s = (Err (FsmUnknownOp (cm_Op cmd)), s)"
  by (auto simp: fsm_Apply_def op_defs)

lemma node_Apply_Ok:
  "node_Apply rv raftApply n cmd = Ok () \<longleftrightarrow>
     IsLeader rv \<and> raftApply (cm_encode cmd) (nc_ApplyTimeout (nd_cfg n)) = Applied (Ok ())"
  by (auto simp: node_Apply_def split: apply_outcome.splits result.splits)

lemma join_only_leader:
  "handleJoin rv addVoter err body = (r, added) \<Longrightarrow> added \<noteq> [] \<Longrightarrow>
     IsLeader rv \<and> rs_Code r = StatusOK \<and> (\<exists>i a. added = [(i, a)] \<and> i \<noteq> [] \<and> a \<noteq> [] \<and> addVoter i a = None)"
  by (auto simp: handleJoin_def split: option.splits if_splits)

section \<open>Polling\<close>

declare wait_loop.simps [code]

lemma wait_loop_steps:
  assumes "fst (polls (i + n)) \<ge> deadline" "\<And>j. j < n \<Longrightarrow> fst (polls (i + j)) < deadline"
  shows "wait_loop polls deadline timeout i =
    (case find (\<lambda>j. snd (polls j) \<noteq> []) [i..<i + n] of
       Some j \<Rightarrow> Some (Ok (snd (polls j))) | None \<Rightarrow> Some (Err (NodeNoLeader timeout)))"
  using assms
proof (induction n arbitrary: i)
  case 0
  then show ?case by (subst wait_loop.simps) simp
next
  case (Suc n)
  have here: "fst (polls i) < deadline" using Suc.prems(2) [of 0] by simp
  have rest: "wait_loop polls deadline timeout (Suc i) =
    (case find (\<lambda>j. snd (polls j) \<noteq> []) [Suc i..<Suc i + n] of
       Some j \<Rightarrow> Some (Ok (snd (polls j))) | None \<Rightarrow> Some (Err (NodeNoLeader timeout)))"
    by (rule Suc.IH) (use Suc.prems(1) Suc.prems(2) [of "Suc _"] in auto)
  have upt: "[i..<i + Suc n] = i # [Suc i..<Suc i + n]" by (simp add: upt_conv_Cons)
  show ?case
    unfolding upt by (subst wait_loop.simps) (simp add: here rest)
qed

lemma polls_reach:
  assumes "\<And>i. fst (polls (Suc i)) \<ge> fst (polls i) + 25000000"
  shows "fst (polls (i + n)) \<ge> fst (polls i) + int n * (25000000 :: int)"
proof (induction n)
  case (Suc n)
  then show ?case using assms [of "i + n"] by simp
qed simp

lemma polls_stop:
  assumes "\<And>i. fst (polls (Suc i)) \<ge> fst (polls i) + (25000000 :: int)"
  obtains n where "fst (polls n) \<ge> deadline" "\<And>j. j < n \<Longrightarrow> fst (polls j) < deadline"
proof -
  define n where "n = nat (deadline - fst (polls 0))"
  have "fst (polls (0 + n)) \<ge> fst (polls 0) + int n * 25000000" by (rule polls_reach) (rule assms)
  moreover have "int n \<ge> deadline - fst (polls 0)" unfolding n_def by simp
  ultimately have "fst (polls n) \<ge> deadline" by simp
  then have ex: "\<exists>n. fst (polls n) \<ge> deadline" by blast
  show thesis
    by (rule that [of "LEAST n. fst (polls n) \<ge> deadline"], rule LeastI_ex [OF ex])
      (drule not_less_Least, simp)
qed

section \<open>Properties\<close>

text \<open>C31. Over any sequence of commits, deliveries, snapshot transfers and restarts, every node is,
  up to the revocation times of its root CA, in the state that replaying its part of the log gives: those
  times (and only those) are taken from each node's own clock, as \<open>revoke_records_local_clock\<close> shows. So
  two nodes that applied the same entries hold the same keys, the same root CA with the same revoked
  serials, though perhaps revoked at different times, and the same intermediates, and they answer the
  next command alike whatever their clocks.\<close>

theorem cluster_agreement:
  assumes "(cl_step cr)\<^sup>*\<^sup>* cl_init c"
  shows "fsm_eq (replay cr (take (cl_applied c i) (cl_log c))) (cl_fsm c i) \<and>
    (cl_applied c i = cl_applied c j \<longrightarrow>
      gm_get (fs_Keys (cl_fsm c i)) = gm_get (fs_Keys (cl_fsm c j)) \<and>
      rel_option snap_eq (fs_CARoot (cl_fsm c i)) (fs_CARoot (cl_fsm c j)) \<and>
      (\<forall>k. rel_option (rel_option snap_same) (gm_get (fs_CAIntermediates (cl_fsm c i)) k)
         (gm_get (fs_CAIntermediates (cl_fsm c j)) k)) \<and>
      (\<forall>d now now'. fst (fsm_Apply cr now d (cl_fsm c i)) = fst (fsm_Apply cr now' d (cl_fsm c j))))"
proof -
  have at: "fsm_eq (replay cr (take (cl_applied c n) (cl_log c))) (cl_fsm c n)" for n
    using cl_inv_reachable [OF assms] by (simp add: cl_inv_def)
  have "fsm_eq (cl_fsm c i) (cl_fsm c j)" if "cl_applied c i = cl_applied c j"
    using fsm_eq_trans [OF fsm_eq_sym [OF at [of i]], of "cl_fsm c j"] at [of j] that by simp
  then show ?thesis using at [of i] fsm_Apply_eq by (auto simp: fsm_eq_def rel_fun_def)
qed

text \<open>A key the leader replicates is found with the same bytes on every node that applies the entry,
  whatever else is stored, and is gone once the deletion is applied; no other key changes.\<close>

theorem cluster_key_replicated:
  assumes "valid_utf8 (gk_KeyID g)" "valid_utf8 (gk_Level g)"
    and "fsm_Apply cr now (cm_encode \<lparr>cm_Op = OpGenerateKey, cm_Payload = Some (enc_generate_key g)\<rparr>) s = (r, s')"
    and "fsm_Apply cr now' (cm_encode \<lparr>cm_Op = OpDeleteKey, cm_Payload = Some (enc_delete_key (gk_KeyID g))\<rparr>) s' = (r', s'')"
  shows "r = Ok () \<and>
    fsm_Key s' (gk_KeyID g) = Some \<lparr>ke_KeyID = gk_KeyID g, ke_Level = gk_Level g, ke_EK = gk_EK g, ke_DK = gk_DK g\<rparr> \<and>
    r' = Ok () \<and> fsm_Key s'' (gk_KeyID g) = None \<and>
    (\<forall>k. k \<noteq> gk_KeyID g \<longrightarrow> fsm_Key s' k = fsm_Key s k \<and> fsm_Key s'' k = fsm_Key s k)"
  using assms(3,4) unfolding fsm_Apply_generate [OF assms(1,2)] fsm_Apply_delete [OF assms(1)]
  by (auto simp: fsm_Key_def)

text \<open>C32. \<open>WaitForLeader\<close> returns: since every poll costs at least 25 ms the loop ends, with the first
  leader it saw before the deadline, or with the timeout error when no poll before the deadline saw one.\<close>

theorem wait_terminates:
  assumes "\<And>i. fst (polls (Suc i)) \<ge> fst (polls i) + 25000000"
  shows "\<exists>r. WaitForLeader polls now timeout = Some r \<and>
    (case r of
       Ok a \<Rightarrow> \<exists>i. fst (polls i) < now + timeout \<and> a = snd (polls i) \<and> a \<noteq> [] \<and> (\<forall>j < i. snd (polls j) = [])
     | Err e \<Rightarrow> e = NodeNoLeader timeout \<and> (\<forall>i. fst (polls i) < now + timeout \<longrightarrow> snd (polls i) = [])
     | Panic \<Rightarrow> False)"
proof -
  obtain n where n: "fst (polls n) \<ge> now + timeout" "\<And>j. j < n \<Longrightarrow> fst (polls j) < now + timeout"
    using polls_stop [of polls "now + timeout"] assms by blast
  have before: "j < n" if "fst (polls j) < now + timeout" for j
  proof (rule ccontr)
    assume "\<not> j < n"
    then have "fst (polls (n + (j - n))) \<ge> fst (polls n) + int (j - n) * 25000000" by (intro polls_reach assms)
    then show False using \<open>\<not> j < n\<close> n(1) that by (simp add: not_less)
  qed
  have run: "WaitForLeader polls now timeout =
    (case find (\<lambda>j. snd (polls j) \<noteq> []) [0..<n] of
       Some j \<Rightarrow> Some (Ok (snd (polls j))) | None \<Rightarrow> Some (Err (NodeNoLeader timeout)))"
    using wait_loop_steps [of "now + timeout" polls 0 n timeout] n by (simp add: WaitForLeader_def)
  show ?thesis
  proof (cases "find (\<lambda>j. snd (polls j) \<noteq> []) [0..<n]")
    case None
    then have "snd (polls i) = []" if "fst (polls i) < now + timeout" for i
      using before [OF that] by (auto simp: find_None_iff)
    then show ?thesis using run unfolding None by auto
  next
    case (Some j)
    then have "j < n" "snd (polls j) \<noteq> []" "\<forall>k < j. snd (polls k) = []"
      by (auto simp: find_Some_iff)
    then show ?thesis using run n(2) unfolding Some by auto
  qed
qed

section \<open>Runs\<close>

definition demo_key :: generate_key where
  "demo_key = \<lparr>gk_KeyID = ''k1'', gk_Level = ''ML-KEM-768'', gk_EK = Some [1, 2], gk_DK = Some [3]\<rparr>"

lemma demo_key_valid: "valid_utf8 (gk_KeyID demo_key)" "valid_utf8 (gk_Level demo_key)"
  by (simp_all add: demo_key_def valid_ascii code_def)

theorem cluster_key_replicated_witness:
  "\<exists>s' s''. fsm_Apply toy_crypto 5 (cm_encode \<lparr>cm_Op = OpGenerateKey, cm_Payload = Some (enc_generate_key demo_key)\<rparr>) NewFSM
      = (Ok (), s') \<and>
     fsm_Apply toy_crypto 9 (cm_encode \<lparr>cm_Op = OpDeleteKey, cm_Payload = Some (enc_delete_key ''k1'')\<rparr>) s' = (Ok (), s'') \<and>
     fsm_Key s' ''k1'' \<noteq> None \<and> fsm_Key s'' ''k1'' = None"
proof -
  obtain r s' where a: "fsm_Apply toy_crypto 5
    (cm_encode \<lparr>cm_Op = OpGenerateKey, cm_Payload = Some (enc_generate_key demo_key)\<rparr>) NewFSM = (r, s')" by fastforce
  obtain r' s'' where b: "fsm_Apply toy_crypto 9
    (cm_encode \<lparr>cm_Op = OpDeleteKey, cm_Payload = Some (enc_delete_key (gk_KeyID demo_key))\<rparr>) s' = (r', s'')" by fastforce
  show ?thesis using cluster_key_replicated [OF demo_key_valid a b] a b by (auto simp: demo_key_def)
qed

text \<open>Two nodes apply the same entry at different times; a third receives nothing.\<close>

theorem cluster_agreement_witness:
  "\<exists>c. (cl_step toy_crypto)\<^sup>*\<^sup>* cl_init c \<and> cl_applied c 0 = 1 \<and> cl_applied c 1 = 1 \<and>
     gm_get (fs_Keys (cl_fsm c 0)) = gm_get (fs_Keys (cl_fsm c 1)) \<and> fsm_Key (cl_fsm c 0) ''k1'' \<noteq> None"
proof -
  let ?d = "cm_encode \<lparr>cm_Op = OpGenerateKey, cm_Payload = Some (enc_generate_key demo_key)\<rparr>"
  let ?ap = "\<lambda>t. snd (fsm_Apply toy_crypto t ?d NewFSM)"
  define c1 where "c1 = cl_init\<lparr>cl_log := cl_log cl_init @ [?d]\<rparr>"
  define c2 where "c2 = c1\<lparr>cl_fsm := (cl_fsm c1)(0 := snd (fsm_Apply toy_crypto 5 (cl_log c1 ! cl_applied c1 0) (cl_fsm c1 0))),
    cl_applied := (cl_applied c1)(0 := Suc (cl_applied c1 0))\<rparr>"
  define c3 where "c3 = c2\<lparr>cl_fsm := (cl_fsm c2)(1 := snd (fsm_Apply toy_crypto 7 (cl_log c2 ! cl_applied c2 1) (cl_fsm c2 1))),
    cl_applied := (cl_applied c2)(1 := Suc (cl_applied c2 1))\<rparr>"
  have "cl_step toy_crypto cl_init c1" unfolding c1_def by (rule cl_step.Commit)
  moreover have "cl_step toy_crypto c1 c2" unfolding c2_def by (rule cl_step.Deliver) (simp add: c1_def cl_init_def)
  moreover have "cl_step toy_crypto c2 c3" unfolding c3_def by (rule cl_step.Deliver) (simp add: c2_def c1_def cl_init_def)
  ultimately have reach: "(cl_step toy_crypto)\<^sup>*\<^sup>* cl_init c3"
    by (blast intro: converse_rtranclp_into_rtranclp)
  have ap: "cl_applied c3 0 = 1" "cl_applied c3 1 = 1" by (simp_all add: c3_def c2_def c1_def cl_init_def)
  have "cl_fsm c3 0 = ?ap 5" by (simp add: c3_def c2_def c1_def cl_init_def)
  then have "fsm_Key (cl_fsm c3 0) ''k1'' \<noteq> None"
    using fsm_Apply_generate [OF demo_key_valid, of toy_crypto 5 NewFSM] by (simp add: fsm_Key_def demo_key_def)
  then show ?thesis using cluster_agreement [OF reach, of 0 1] reach ap by auto
qed

theorem wait_terminates_witness:
  "\<exists>r. WaitForLeader (\<lambda>i. (int i * 30000000, if i = 2 then ''10.0.0.1:7000'' else [])) 0 1000000000 = Some r"
proof -
  define polls :: "nat \<Rightarrow> gotime \<times> string" where
    "polls = (\<lambda>i. (int i * 30000000, if i = 2 then ''10.0.0.1:7000'' else []))"
  have "fst (polls i) + 25000000 \<le> fst (polls (Suc i))" for i by (simp add: polls_def)
  then have "\<exists>r. WaitForLeader polls 0 1000000000 = Some r"
    using wait_terminates [where polls = polls and now = 0 and timeout = 1000000000] by blast
  then show ?thesis unfolding polls_def .
qed

end
