(* ===== verification/Float64.thy ===== *)
theory Float64
  imports Complex_Main Prelude
begin

text \<open>
  Go's \<open>float64\<close>: a rational or one of the special values, with the arithmetic of IEEE 754 that the
  program uses. Results are rounded to 53 binary digits, ties to even, subnormal below and infinite above
  the range; the sign of zero is not kept.
\<close>

datatype float64 = Fin rat | PosInf | NegInf | NaN

definition pow2 :: "int \<Rightarrow> rat" where
  "pow2 e = (if 0 \<le> e then 2 ^ nat e else 1 / 2 ^ nat (- e))"

fun bit_length :: "nat \<Rightarrow> nat" where
  "bit_length n = (if n = 0 then 0 else Suc (bit_length (n div 2)))"

declare bit_length.simps [simp del]

text \<open>For a positive \<open>r\<close> the exponent \<open>e\<close> with \<open>2 ^ e \<le> r < 2 ^ (e + 1)\<close>.\<close>

definition exponent :: "rat \<Rightarrow> int" where
  "exponent r =
     (case quotient_of r of (n, d) \<Rightarrow>
        let e = int (bit_length (nat n)) - int (bit_length (nat d)) in
        if pow2 e \<le> r then e else e - 1)"

definition f64_of :: "rat \<Rightarrow> float64" where
  "f64_of r =
     (if r = 0 then Fin 0
      else let ulp = pow2 (max (exponent (abs r) - 52) (- 1074));
               q = r / ulp; n = \<lfloor>q\<rfloor>; rest = q - of_int n;
               m = (if rest > 1 / 2 \<or> rest = 1 / 2 \<and> odd n then n + 1 else n);
               v = of_int m * ulp in
           if v \<ge> pow2 1024 then PosInf else if v \<le> - pow2 1024 then NegInf else Fin v)"

definition f64_of_int :: "int \<Rightarrow> float64" where
  "f64_of_int i = f64_of (of_int i)"

fun f64_add :: "float64 \<Rightarrow> float64 \<Rightarrow> float64" where
  "f64_add (Fin x) (Fin y) = f64_of (x + y)"
| "f64_add PosInf NegInf = NaN"
| "f64_add NegInf PosInf = NaN"
| "f64_add NaN y = NaN"
| "f64_add x NaN = NaN"
| "f64_add PosInf y = PosInf"
| "f64_add NegInf y = NegInf"
| "f64_add x y = y"

fun f64_neg :: "float64 \<Rightarrow> float64" where
  "f64_neg (Fin x) = Fin (- x)"
| "f64_neg PosInf = NegInf"
| "f64_neg NegInf = PosInf"
| "f64_neg NaN = NaN"

fun f64_le :: "float64 \<Rightarrow> float64 \<Rightarrow> bool" where
  "f64_le (Fin x) (Fin y) = (x \<le> y)"
| "f64_le NaN y = False"
| "f64_le x NaN = False"
| "f64_le NegInf y = True"
| "f64_le x PosInf = True"
| "f64_le x y = False"

text \<open>\<open>time.Duration.Seconds\<close>.\<close>

definition dur_Seconds :: "duration \<Rightarrow> float64" where
  "dur_Seconds d =
     (let sec = (if 0 \<le> d then d div Second else - (- d div Second)); nsec = d - sec * Second in
      f64_add (f64_of_int sec) (f64_of (of_int nsec / 1000000000)))"

text \<open>The conversion from an integer is exact up to 53 bits.\<close>

lemma bit_length_bounds: "0 < n \<Longrightarrow> 2 ^ (bit_length n - 1) \<le> n \<and> n < 2 ^ bit_length n \<and> 0 < bit_length n"
proof (induction n rule: bit_length.induct)
  case (1 n)
  show ?case
  proof (cases "n div 2 = 0")
    case True
    then have "n = 1" using "1.prems" by simp
    then show ?thesis by (simp add: bit_length.simps)
  next
    case False
    then have ih: "2 ^ (bit_length (n div 2) - 1) \<le> n div 2" "n div 2 < 2 ^ bit_length (n div 2)" "0 < bit_length (n div 2)"
      using "1.IH" "1.prems" by simp_all
    have b: "bit_length n = Suc (bit_length (n div 2))" using "1.prems" by (simp add: bit_length.simps [of n])
    have "2 * 2 ^ (bit_length (n div 2) - 1) \<le> n" using ih(1) by linarith
    moreover have "2 * 2 ^ (bit_length (n div 2) - 1) = (2 :: nat) ^ bit_length (n div 2)"
      using ih(3) by (simp flip: power_Suc)
    moreover have "n < 2 * 2 ^ bit_length (n div 2)" using ih(2) by linarith
    ultimately show ?thesis by (simp add: b)
  qed
qed

lemma bit_length_less: "0 < n \<Longrightarrow> n < 2 ^ k \<Longrightarrow> bit_length n \<le> k"
  using bit_length_bounds [of n] power_less_imp_less_exp [of "2 :: nat" "bit_length n - 1" k] by fastforce

lemma exponent_nat:
  assumes "0 < n"
  shows "exponent (of_nat n) = int (bit_length n) - 1"
proof -
  have q: "quotient_of (of_nat n) = (int n, 1)" using quotient_of_int [of "int n"] by (simp add: of_int_def)
  have one: "bit_length (Suc 0) = 1" by (simp add: bit_length.simps)
  obtain m where m: "bit_length n = Suc m" using bit_length_bounds [OF assms] by (cases "bit_length n") auto
  have "2 ^ m \<le> n" using bit_length_bounds [OF assms] by (simp add: m)
  then have "of_nat (2 ^ m) \<le> (of_nat n :: rat)" by (rule of_nat_mono)
  then have "pow2 (int m) \<le> of_nat n" by (simp add: pow2_def)
  then show ?thesis by (simp add: exponent_def q one m Let_def)
qed

lemma f64_of_int_exact:
  assumes "\<bar>i\<bar> < 2 ^ 53"
  shows "f64_of_int i = Fin (of_int i)"
proof (cases "i = 0")
  case False
  define n where "n = nat \<bar>i\<bar>"
  have n: "0 < n" "n < 2 ^ 53" "\<bar>of_int i\<bar> = (of_nat n :: rat)" using False assms by (auto simp: n_def)
  define k where "k = 53 - bit_length n"
  have "bit_length n \<le> 53" using bit_length_less [OF n(1,2)] .
  then have "max (exponent \<bar>of_int i\<bar> - 52) (- 1074) = - int k"
    using exponent_nat [OF n(1)] n(3) by (simp add: k_def)
  then have ulp: "pow2 (max (exponent \<bar>of_int i\<bar> - 52) (- 1074)) = 1 / 2 ^ k"
    by (cases k) (simp_all add: pow2_def nat_add_distrib)
  have fl: "\<lfloor>of_int i / (1 / 2 ^ k) :: rat\<rfloor> = i * 2 ^ k" by (simp add: floor_eq_iff)
  have "\<bar>of_int i\<bar> < (2 :: rat) ^ 53" using assms
    by (metis of_int_abs of_int_less_iff of_int_numeral of_int_power)
  then have "\<bar>of_int i\<bar> < (2 :: rat) ^ 1024" by (rule less_trans) (rule power_strict_increasing; simp)
  then have range: "\<not> of_int i \<ge> pow2 1024" "\<not> of_int i \<le> - pow2 1024" by (auto simp: pow2_def)
  show ?thesis
    unfolding f64_of_int_def f64_of_def ulp Let_def fl using False range by (simp add: pow2_def)
qed (simp add: f64_of_int_def f64_of_def)

end
