(* ===== verification/Fips.thy ===== *)
theory Fips
  imports Crypto Float64
begin

text \<open>
  The start-up and health probes of \<open>internal/fips/fips.go\<close>: one round trip through every primitive. A
  probe gets the random source and gives back its verdict with the source; a panic inside it becomes a
  failed probe. \<open>took\<close> says how long each probe runs.
\<close>

datatype fips_error =
    FipsGenerate string | FipsEncapsulate kem_error | FipsDecapsulate kem_error | FipsMismatch int
  | FipsDsaSign dsa_error | FipsDsaVerify int | FipsDsaTampered int
  | FipsSlhGenerate | FipsSlhSign slh_error | FipsSlhVerify
  | FipsRead string | FipsCipher | FipsGcmOpen | FipsGcmMismatch
  | FipsHkdfNotDeterministic | FipsAllZero string | FipsArgonLength nat | FipsPanic

datatype fips_status = StatusPass | StatusFail

record algorithm_probe =
  ap_Algorithm :: string
  ap_Standard :: string
  ap_Status :: fips_status
  ap_Error :: "fips_error option"
  ap_DurationMs :: float64

record fips_report =
  fr_Overall :: fips_status
  fr_Timestamp :: gotime
  fr_GoVersion :: string
  fr_Probes :: "algorithm_probe list"

type_synonym probe_fun = "entropy \<Rightarrow> (fips_error, unit) result \<times> entropy"

definition checkMLKEM :: "crypto \<Rightarrow> int \<Rightarrow> probe_fun" where
  "checkMLKEM cr level e =
     (case kem_GenerateKey level e of
        Ok (dk, e1) \<Rightarrow>
          (case kem_Encapsulate cr (Some (dk_EncapsulationKey cr dk)) e1 of
             Ok (sharedKey, ct, e2) \<Rightarrow>
               (case kem_Decapsulate cr (Some dk) ct of
                  Ok sharedKey2 \<Rightarrow>
                    (if sharedKey = sharedKey2 then Ok () else Err (FipsMismatch level), e2)
                | Err er \<Rightarrow> (Err (FipsDecapsulate er), e2)
                | Panic \<Rightarrow> (Panic, e2))
           | Err er \<Rightarrow> (Err (FipsEncapsulate er), e1)
           | Panic \<Rightarrow> (Panic, e1))
      | Err er \<Rightarrow> (Err (FipsGenerate ''ML-KEM''), e)
      | Panic \<Rightarrow> (Panic, e))"

definition probe_msg :: bytes where
  "probe_msg = str_bytes ''fips-probe-message''"

definition checkMLDSA :: "crypto \<Rightarrow> int \<Rightarrow> probe_fun" where
  "checkMLDSA cr level e =
     (case dsa_GenerateKey cr level e of
        Ok (pk, sk, e1) \<Rightarrow>
          (case dsa_Sign cr (Some sk) probe_msg of
             Ok sig \<Rightarrow>
               (if \<not> dsa_Verify cr (Some pk) probe_msg sig then (Err (FipsDsaVerify level), e1)
                else if dsa_Verify cr (Some pk) (probe_msg[0 := probe_msg ! 0 XOR 0xFF]) sig
                then (Err (FipsDsaTampered level), e1)
                else (Ok (), e1))
           | Err er \<Rightarrow> (Err (FipsDsaSign er), e1)
           | Panic \<Rightarrow> (Panic, e1))
      | Err er \<Rightarrow> (Err (FipsGenerate ''ML-DSA''), e)
      | Panic \<Rightarrow> (Panic, e))"

definition checkSLHDSA :: "crypto \<Rightarrow> slh_level \<Rightarrow> probe_fun" where
  "checkSLHDSA cr level e =
     (let msg = str_bytes ''fips-probe-slh-dsa'' in
      case slh_GenerateKey cr level e of
        Ok (pk, sk, e1) \<Rightarrow>
          (case slh_Sign cr (Some sk) msg e1 of
             Ok (sig, e2) \<Rightarrow> (if slh_Verify cr (Some pk) msg sig then Ok () else Err FipsSlhVerify, e2)
           | Err er \<Rightarrow> (Err (FipsSlhSign er), e1)
           | Panic \<Rightarrow> (Panic, e1))
      | Err er \<Rightarrow> (Err FipsSlhGenerate, e)
      | Panic \<Rightarrow> (Panic, e))"

definition checkAES256GCM :: "crypto \<Rightarrow> probe_fun" where
  "checkAES256GCM cr e =
     (case rand_read 32 e of
        None \<Rightarrow> (Err (FipsRead ''key''), e)
      | Some (key, e1) \<Rightarrow>
          (if \<not> aes_key_ok key then (Err FipsCipher, e1)
           else case rand_read 12 e1 of
             None \<Rightarrow> (Err (FipsRead ''nonce''), e1)
           | Some (nonce, e2) \<Rightarrow>
               (let plaintext = str_bytes ''fips-probe-aes-gcm'' in
                case gcm_open cr key nonce (gcm_seal cr key nonce plaintext []) [] of
                  None \<Rightarrow> (Err FipsGcmOpen, e2)
                | Some pt \<Rightarrow> (if plaintext = pt then Ok () else Err FipsGcmMismatch, e2))))"

definition checkHKDF :: "crypto \<Rightarrow> probe_fun" where
  "checkHKDF cr e =
     (let secret = str_bytes ''fips-probe-hkdf-secret''; salt = str_bytes ''fips-probe-hkdf-salt'';
          info = str_bytes ''fips-probe-hkdf-info'';
          key = hkdf cr secret salt info 32; key2 = hkdf cr secret salt info 32 in
      if key \<noteq> key2 then (Err FipsHkdfNotDeterministic, e)
      else if key = replicate 32 0 then (Err (FipsAllZero ''HKDF''), e) else (Ok (), e))"

definition checkArgon2id :: "crypto \<Rightarrow> probe_fun" where
  "checkArgon2id cr e =
     (case rand_read 16 e of
        None \<Rightarrow> (Err (FipsRead ''salt''), e)
      | Some (salt, e1) \<Rightarrow>
          (let key = argon2id cr 1 (str_bytes ''fips-probe-argon2id-password'') salt in
           if length key \<noteq> 32 then (Err (FipsArgonLength (length key)), e1)
           else if key = replicate 32 0 then (Err (FipsAllZero ''Argon2id''), e1) else (Ok (), e1)))"

definition checkCSPRNG :: probe_fun where
  "checkCSPRNG e =
     (case rand_read 32 e of
        None \<Rightarrow> (Err (FipsRead ''crypto/rand.Read''), e)
      | Some (buf, e1) \<Rightarrow> (if buf = replicate 32 0 then Err (FipsAllZero ''CSPRNG'') else Ok (), e1))"

text \<open>\<open>probe\<close> recovers from a panic; then the duration has not been set.\<close>

definition probe :: "duration \<Rightarrow> string \<Rightarrow> string \<Rightarrow> probe_fun \<Rightarrow> entropy \<Rightarrow> algorithm_probe \<times> entropy" where
  "probe took algorithm standard f e =
     (let ms = f64_of (of_int (took div 1000) / 1000) in
      case f e of
        (Ok _, e') \<Rightarrow>
          (\<lparr>ap_Algorithm = algorithm, ap_Standard = standard, ap_Status = StatusPass, ap_Error = None,
            ap_DurationMs = ms\<rparr>, e')
      | (Err er, e') \<Rightarrow>
          (\<lparr>ap_Algorithm = algorithm, ap_Standard = standard, ap_Status = StatusFail, ap_Error = Some er,
            ap_DurationMs = ms\<rparr>, e')
      | (Panic, e') \<Rightarrow>
          (\<lparr>ap_Algorithm = algorithm, ap_Standard = standard, ap_Status = StatusFail,
            ap_Error = Some FipsPanic, ap_DurationMs = Fin 0\<rparr>, e'))"

definition fips_probes :: "crypto \<Rightarrow> (string \<times> string \<times> probe_fun) list" where
  "fips_probes cr =
     [(''ML-KEM-768'', ''NIST FIPS 203'', checkMLKEM cr 768),
      (''ML-KEM-1024'', ''NIST FIPS 203'', checkMLKEM cr 1024),
      (''ML-DSA-44'', ''NIST FIPS 204'', checkMLDSA cr 44),
      (''ML-DSA-65'', ''NIST FIPS 204'', checkMLDSA cr 65),
      (''ML-DSA-87'', ''NIST FIPS 204'', checkMLDSA cr 87),
      (''SLH-DSA-SHA2-128f'', ''NIST FIPS 205'', checkSLHDSA cr Level128f),
      (''SLH-DSA-SHA2-256f'', ''NIST FIPS 205'', checkSLHDSA cr Level256f),
      (''AES-256-GCM'', ''NIST SP 800-38D'', checkAES256GCM cr),
      (''HKDF-SHA256'', ''RFC 5869'', checkHKDF cr),
      (''Argon2id'', ''RFC 9106'', checkArgon2id cr),
      (''CSPRNG'', ''NIST SP 800-90A'', checkCSPRNG)]"

fun run_probes :: "(string \<Rightarrow> duration) \<Rightarrow> (string \<times> string \<times> probe_fun) list \<Rightarrow> entropy \<Rightarrow> algorithm_probe list \<times> entropy" where
  "run_probes took [] e = ([], e)"
| "run_probes took ((a, st, f) # ps) e =
     (case probe (took a) a st f e of
        (r, e1) \<Rightarrow> (case run_probes took ps e1 of (rs, e2) \<Rightarrow> (r # rs, e2)))"

definition fips_Check ::
    "crypto \<Rightarrow> (string \<Rightarrow> duration) \<Rightarrow> string \<Rightarrow> gotime \<Rightarrow> entropy \<Rightarrow> fips_report \<times> entropy" where
  "fips_Check cr took goVersion now e =
     (case run_probes took (fips_probes cr) e of
        (probes, e') \<Rightarrow>
          (\<lparr>fr_Overall = fold (\<lambda>p overall. if ap_Status p = StatusFail then StatusFail else overall) probes StatusPass,
            fr_Timestamp = now, fr_GoVersion = goVersion, fr_Probes = probes\<rparr>, e'))"

section \<open>What the report says\<close>

lemma overall_fail:
  "fold (\<lambda>p overall. if ap_Status p = StatusFail then StatusFail else overall) ps st =
     (if \<exists>p \<in> set ps. ap_Status p = StatusFail then StatusFail else st)"
  by (induction ps arbitrary: st) auto

lemma probe_names:
  "ap_Algorithm (fst (probe t a st f e)) = a" "ap_Standard (fst (probe t a st f e)) = st"
  by (simp_all add: probe_def Let_def split: prod.split result.split)

lemma run_probes_Cons:
  "fst (run_probes took ((a, st, f) # ps) e) =
     fst (probe (took a) a st f e) # fst (run_probes took ps (snd (probe (took a) a st f e)))"
  by (simp split: prod.split)

lemma run_probes_names:
  "map (\<lambda>p. (ap_Algorithm p, ap_Standard p)) (fst (run_probes took ps e)) = map (\<lambda>(a, st, f). (a, st)) ps"
proof (induction ps arbitrary: e)
  case (Cons p ps)
  then show ?case by (cases p) (simp add: run_probes_Cons probe_names del: run_probes.simps)
qed simp

text \<open>A probe passes exactly when its function returns without an error; a panic fails it.\<close>

lemma probe_status: "ap_Status (fst (probe took a st f e)) = (if is_ok (fst (f e)) then StatusPass else StatusFail)"
  by (auto simp: probe_def Let_def split: prod.splits result.splits)

text \<open>With primitives that keep their laws and enough randomness that is not all zero, everything passes.\<close>

lemma checkMLKEM_ok:
  assumes "kem_correct cr" "l \<in> {768, 1024}" "96 \<le> length e"
  shows "checkMLKEM cr l e = (Ok (), drop 96 e)"
proof -
  have seed: "kem_GenerateKey l e = Ok ((if l = 768 then DK768 else DK1024) (take 64 e), drop 64 e)"
    using assms(2,3) by (auto simp: kem_GenerateKey_def rand_read_def)
  have rnd: "rand_read 32 (drop 64 e) = Some (take 32 (drop 64 e), drop 96 e)"
    using assms(3) by (simp add: rand_read_def)
  obtain ss ct where enc: "mlkem_encap cr l (mlkem_ek cr l (take 64 e)) (take 32 (drop 64 e)) = (ss, ct)" by fastforce
  then have "mlkem_decap cr l (take 64 e) ct = Some ss"
    using kem_correct_decap [OF assms(1) _ _ enc] assms(3) by simp
  then show ?thesis using assms(2) enc seed rnd
    by (auto simp: checkMLKEM_def kem_Encapsulate_def kem_Decapsulate_def)
qed

text \<open>The report is complete, and it passes exactly when each of its probes does.\<close>

lemma fips_report_exact:
  assumes "fips_Check cr took v now e = (rep, e')"
  shows "map (\<lambda>p. (ap_Algorithm p, ap_Standard p)) (fr_Probes rep) = map (\<lambda>(a, st, f). (a, st)) (fips_probes cr)"
    and "fr_Overall rep = StatusPass \<longleftrightarrow> (\<forall>p \<in> set (fr_Probes rep). ap_Status p = StatusPass)"
proof -
  obtain ps where ps: "run_probes took (fips_probes cr) e = (ps, e')" "fr_Probes rep = ps"
    "fr_Overall rep = fold (\<lambda>p overall. if ap_Status p = StatusFail then StatusFail else overall) ps StatusPass"
    using assms by (auto simp: fips_Check_def split: prod.splits)
  show "map (\<lambda>p. (ap_Algorithm p, ap_Standard p)) (fr_Probes rep) = map (\<lambda>(a, st, f). (a, st)) (fips_probes cr)"
    using run_probes_names [of took "fips_probes cr" e] ps by simp
  have "ap_Status p = StatusPass \<longleftrightarrow> ap_Status p \<noteq> StatusFail" for p by (cases "ap_Status p") simp_all
  then show "fr_Overall rep = StatusPass \<longleftrightarrow> (\<forall>p \<in> set (fr_Probes rep). ap_Status p = StatusPass)"
    using ps by (auto simp: overall_fail)
qed

text \<open>Encapsulation of the standard library crashes without randomness: the probe reports it.\<close>

lemma fips_panic_captured:
  assumes "64 \<le> length e" "length e < 96"
  shows "ap_Status (fst (probe t a st (checkMLKEM cr 768) e)) = StatusFail"
    and "ap_Error (fst (probe t a st (checkMLKEM cr 768) e)) = Some FipsPanic"
proof -
  have "length (drop 64 e) < 32" using assms by simp
  then have "rand_read 32 (drop 64 e) = None" unfolding rand_read_def by simp
  then have "fst (checkMLKEM cr 768 e) = Panic" using assms
    by (simp add: checkMLKEM_def kem_GenerateKey_def kem_Encapsulate_def rand_read_def [of 64])
  then show "ap_Status (fst (probe t a st (checkMLKEM cr 768) e)) = StatusFail"
    and "ap_Error (fst (probe t a st (checkMLKEM cr 768) e)) = Some FipsPanic"
    by (auto simp: probe_def Let_def split: prod.split)
qed

end
