(* ===== verification/Middleware.thy ===== *)
theory Middleware
  imports Http Encoding "HOL-Library.Sublist"
begin

text \<open>
  The HTTP middleware of \<open>pkg/middleware/middleware.go\<close>. A handler takes the request, the header the
  enclosing middlewares have set on the response writer and the state of the program, and gives the
  final header with the response, or nothing when it panics, and the new state. A middleware maps
  handlers to handlers, as in the code. Reading the clock during a request gives \<open>hr_Now\<close>, and serving
  it takes \<open>hr_Took\<close>.

  The rate limiter is modelled twice: its methods run one after the other, and, in the last section,
  the interleaving of requests and the cleaner at the granularity of the locks.
\<close>

section \<open>Requests, headers and handlers\<close>

type_synonym headers = "(string, string list) gomap"

record request =
  hr_Method :: string
  hr_Path :: string
  hr_RemoteAddr :: string
  hr_Header :: headers
  hr_Body :: string
  hr_PathValue :: "(string, string) gomap"
  hr_Subject :: "string option"
  hr_Roles :: "string list option"
  hr_RequestID :: "string option"
  hr_Now :: gotime
  hr_Took :: duration

type_synonym ('r, 's) handler =
  "'r request_scheme \<Rightarrow> headers \<Rightarrow> 's \<Rightarrow> (headers \<times> response) option \<times> 's"

text \<open>\<open>http.Header\<close> keeps its keys in the canonical form: upper case at the start and after a hyphen,
  lower case elsewhere.\<close>

definition lower_char :: "char \<Rightarrow> char" where
  "lower_char c = (let n = of_char c :: nat in if 65 \<le> n \<and> n \<le> 90 then char_of (n + 32) else c)"

fun canonical_from :: "bool \<Rightarrow> string \<Rightarrow> string" where
  "canonical_from up [] = []"
| "canonical_from up (c # s) =
     (if up then upper_char c else lower_char c) # canonical_from (c = CHR ''-'') s"

definition CanonicalHeaderKey :: "string \<Rightarrow> string" where
  "CanonicalHeaderKey s = canonical_from True s"

definition h_Get :: "string \<Rightarrow> headers \<Rightarrow> string" where
  "h_Get k h = (case gm_get h (CanonicalHeaderKey k) of Some (v # _) \<Rightarrow> v | _ \<Rightarrow> [])"

definition h_Set :: "string \<Rightarrow> string \<Rightarrow> headers \<Rightarrow> headers" where
  "h_Set k v h = gm_put (CanonicalHeaderKey k) [v] h"

definition h_Add :: "string \<Rightarrow> string \<Rightarrow> headers \<Rightarrow> headers" where
  "h_Add k v h =
     (let key = CanonicalHeaderKey k in
      gm_put key ((case gm_get h key of None \<Rightarrow> [] | Some vs \<Rightarrow> vs) @ [v]) h)"

abbreviation req_header :: "string \<Rightarrow> 'r request_scheme \<Rightarrow> string" where
  "req_header k r \<equiv> h_Get k (hr_Header r)"

definition maxBodyBytes :: nat where
  "maxBodyBytes = 1048576"

text \<open>\<open>JSONError\<close>, \<open>JSON\<close> and \<open>JSONStatus\<close> write the content type, the status and the body.\<close>

definition JSONError :: "string \<Rightarrow> int \<Rightarrow> headers \<Rightarrow> headers \<times> response" where
  "JSONError msg c w = (h_Set ''Content-Type'' ''application/json'' w, reply_error c msg)"

definition JSON :: "jval \<Rightarrow> headers \<Rightarrow> headers \<times> response" where
  "JSON v w = (h_Set ''Content-Type'' ''application/json'' w, reply StatusOK v)"

definition JSONStatus :: "int \<Rightarrow> jval \<Rightarrow> headers \<Rightarrow> headers \<times> response" where
  "JSONStatus c v w = (h_Set ''Content-Type'' ''application/json'' w, reply c v)"

section \<open>Header, content type and origin checks\<close>

definition security_headers :: "(string \<times> string) list" where
  "security_headers =
     [(''X-Content-Type-Options'', ''nosniff''), (''X-Frame-Options'', ''DENY''),
      (''X-XSS-Protection'', ''1; mode=block''),
      (''Strict-Transport-Security'', ''max-age=31536000; includeSubDomains''),
      (''Content-Security-Policy'', ''default-src '' @ [CHR 0x27] @ ''none'' @ [CHR 0x27]),
      (''Referrer-Policy'', ''no-referrer''),
      (''Cache-Control'', ''no-store, no-cache, must-revalidate''),
      (''Permissions-Policy'', ''geolocation=(), microphone=(), camera=()''),
      (''Server'', ''QuantumShield'')]"

definition SecurityHeaders :: "('r, 's) handler \<Rightarrow> ('r, 's) handler" where
  "SecurityHeaders nxt r w s = nxt r (fold (\<lambda>(k, v). h_Set k v) security_headers w) s"

text \<open>
  A body longer than the limit is cut there: the JSON decoder sees the bytes before the limit and then
  a read error, so it succeeds exactly when the value is complete before it.
\<close>

definition MaxBodySize :: "('r, 's) handler \<Rightarrow> ('r, 's) handler" where
  "MaxBodySize nxt r w s = nxt (r\<lparr>hr_Body := take maxBodyBytes (hr_Body r)\<rparr>) w s"

definition RequireJSON :: "('r, 's) handler \<Rightarrow> ('r, 's) handler" where
  "RequireJSON nxt r w s =
     (if hr_Method r = ''POST'' \<or> hr_Method r = ''PUT'' \<or> hr_Method r = ''PATCH'' then
        (let ct = req_header ''Content-Type'' r in
         if ct = [] \<or> \<not> has_prefix ct ''application/json''
         then (Some (JSONError ''Content-Type must be application/json'' 415 w), s)
         else nxt (r\<lparr>hr_Body := take maxBodyBytes (hr_Body r)\<rparr>) w s)
      else nxt r w s)"

definition parseAllowedOrigins :: "string \<Rightarrow> string list" where
  "parseAllowedOrigins raw =
     (if raw = [] then []
      else filter (\<lambda>x. x \<noteq> []) (map trim_space (split_on CHR '','' raw)))"

definition CORS :: "string \<Rightarrow> ('r, 's) handler \<Rightarrow> ('r, 's) handler" where
  "CORS env nxt r w s =
     (let allowed = parseAllowedOrigins env;
          origin = req_header ''Origin'' r;
          w' = (if origin \<noteq> [] \<and> allowed \<noteq> [] \<and> origin \<in> set allowed
                then h_Add ''Vary'' ''Origin''
                       (h_Set ''Access-Control-Allow-Headers'' ''Authorization, Content-Type''
                         (h_Set ''Access-Control-Allow-Methods'' ''GET, POST, OPTIONS''
                           (h_Set ''Access-Control-Allow-Origin'' origin w)))
                else w) in
      if hr_Method r = ''OPTIONS'' then (Some (w', \<lparr>rs_Code = 204, rs_Body = NoBody\<rparr>), s)
      else nxt r w' s)"

text \<open>The request identifier is taken from the client or drawn from the random source; \<open>get\<close> and
  \<open>upd\<close> give access to the bytes the source will deliver. A source that fails ends the process.\<close>

definition RequestID ::
    "('s \<Rightarrow> entropy) \<Rightarrow> ((entropy \<Rightarrow> entropy) \<Rightarrow> 's \<Rightarrow> 's) \<Rightarrow> ('r, 's) handler \<Rightarrow> ('r, 's) handler" where
  "RequestID get upd nxt r w s =
     (let given = req_header ''X-Request-ID'' r in
      if given \<noteq> [] then nxt (r\<lparr>hr_RequestID := Some given\<rparr>) (h_Set ''X-Request-ID'' given w) s
      else case rand_read 12 (get s) of
        None \<Rightarrow> (None, s)
      | Some (b, e) \<Rightarrow>
          nxt (r\<lparr>hr_RequestID := Some (b64url b)\<rparr>) (h_Set ''X-Request-ID'' (b64url b) w) (upd (\<lambda>_. e) s))"

definition RequestIDFromContext :: "'r request_scheme \<Rightarrow> string" where
  "RequestIDFromContext r = (case hr_RequestID r of None \<Rightarrow> [] | Some i \<Rightarrow> i)"

section \<open>The client address\<close>

text \<open>\<open>net.SplitHostPort\<close>, which gives the host or fails.\<close>

fun index_of :: "char \<Rightarrow> string \<Rightarrow> nat option" where
  "index_of c [] = None"
| "index_of c (x # xs) = (if x = c then Some 0 else map_option Suc (index_of c xs))"

definition last_index :: "char \<Rightarrow> string \<Rightarrow> nat option" where
  "last_index c s = map_option (\<lambda>i. length s - 1 - i) (index_of c (rev s))"

definition SplitHostPort :: "string \<Rightarrow> string option" where
  "SplitHostPort hp =
     (case last_index CHR '':'' hp of
        None \<Rightarrow> None
      | Some i \<Rightarrow>
          (if hd hp = CHR ''['' then
             (case index_of CHR '']'' hp of
                None \<Rightarrow> None
              | Some e \<Rightarrow>
                  (if e + 1 \<noteq> i \<or> CHR ''['' \<in> set (drop 1 hp) \<or> CHR '']'' \<in> set (drop (e + 1) hp) then None
                   else Some (drop 1 (take e hp))))
           else if CHR '':'' \<in> set (take i hp) \<or> CHR ''['' \<in> set hp \<or> CHR '']'' \<in> set hp then None
           else Some (take i hp)))"

definition clientIP :: "'r request_scheme \<Rightarrow> string" where
  "clientIP r = (case SplitHostPort (hr_RemoteAddr r) of None \<Rightarrow> hr_RemoteAddr r | Some host \<Rightarrow> host)"

section \<open>The rate limiter\<close>

record rate_limiter =
  rl_limit :: int
  rl_window :: duration
  rl_buckets :: "(string, gotime list) gomap"

definition NewRateLimiter :: "int \<Rightarrow> duration \<Rightarrow> rate_limiter" where
  "NewRateLimiter limit window = \<lparr>rl_limit = limit, rl_window = window, rl_buckets = []\<rparr>"

definition bucket_ts :: "rate_limiter \<Rightarrow> string \<Rightarrow> gotime list" where
  "bucket_ts rl key = (case gm_get (rl_buckets rl) key of None \<Rightarrow> [] | Some ts \<Rightarrow> ts)"

definition rl_allow :: "string \<Rightarrow> gotime \<Rightarrow> rate_limiter \<Rightarrow> bool \<times> rate_limiter" where
  "rl_allow key now rl =
     (let cutoff = now - rl_window rl;
          ts = dropWhile (\<lambda>t. t < cutoff) (bucket_ts rl key) in
      if int (length ts) \<ge> rl_limit rl
      then (False, rl\<lparr>rl_buckets := gm_put key ts (rl_buckets rl)\<rparr>)
      else (True, rl\<lparr>rl_buckets := gm_put key (ts @ [now]) (rl_buckets rl)\<rparr>))"

definition bucket_idle :: "gotime \<Rightarrow> gotime list \<Rightarrow> bool" where
  "bucket_idle cutoff ts \<longleftrightarrow> ts = [] \<or> last ts < cutoff"

definition rl_cleanup :: "gotime \<Rightarrow> rate_limiter \<Rightarrow> rate_limiter" where
  "rl_cleanup now rl =
     rl\<lparr>rl_buckets := gm_filter (\<lambda>_ ts. \<not> bucket_idle (now - rl_window rl) ts) (rl_buckets rl)\<rparr>"

definition Limit ::
    "('s \<Rightarrow> rate_limiter) \<Rightarrow> ((rate_limiter \<Rightarrow> rate_limiter) \<Rightarrow> 's \<Rightarrow> 's) \<Rightarrow> ('r, 's) handler \<Rightarrow> ('r, 's) handler" where
  "Limit get upd nxt r w s =
     (case rl_allow (clientIP r) (hr_Now r) (get s) of
        (False, rl) \<Rightarrow>
          (Some (JSONError ''Rate limit exceeded'' StatusTooManyRequests (h_Set ''Retry-After'' ''60'' w)),
           upd (\<lambda>_. rl) s)
      | (True, rl) \<Rightarrow> nxt r w (upd (\<lambda>_. rl) s))"

subsection \<open>The limiter as a function of its history\<close>

text \<open>
  The reference limiter keeps the times of every accepted request for ever. A request is accepted when
  fewer than \<open>limit\<close> requests with its key were accepted in the window that ends with it.
\<close>

datatype rl_event = Attempt string gotime | Sweep gotime

fun ev_time :: "rl_event \<Rightarrow> gotime" where
  "ev_time (Attempt k t) = t"
| "ev_time (Sweep t) = t"

fun rl_step :: "rl_event \<Rightarrow> rate_limiter \<Rightarrow> bool list \<times> rate_limiter" where
  "rl_step (Attempt k t) rl = (case rl_allow k t rl of (ok, rl') \<Rightarrow> ([ok], rl'))"
| "rl_step (Sweep t) rl = ([], rl_cleanup t rl)"

fun rl_run :: "rl_event list \<Rightarrow> rate_limiter \<Rightarrow> bool list" where
  "rl_run [] rl = []"
| "rl_run (x # xs) rl = (case rl_step x rl of (vs, rl') \<Rightarrow> vs @ rl_run xs rl')"

definition ref_ok :: "int \<Rightarrow> duration \<Rightarrow> string \<Rightarrow> gotime \<Rightarrow> (string \<times> gotime) list \<Rightarrow> bool" where
  "ref_ok limit window k t h = (int (length (filter (\<lambda>(k', t'). k' = k \<and> t - window \<le> t') h)) < limit)"

fun ref_run :: "int \<Rightarrow> duration \<Rightarrow> (string \<times> gotime) list \<Rightarrow> rl_event list \<Rightarrow> bool list" where
  "ref_run limit window h [] = []"
| "ref_run limit window h (Attempt k t # xs) =
     ref_ok limit window k t h #
       ref_run limit window (if ref_ok limit window k t h then h @ [(k, t)] else h) xs"
| "ref_run limit window h (Sweep t # xs) = ref_run limit window h xs"

definition key_times :: "string \<Rightarrow> (string \<times> gotime) list \<Rightarrow> gotime list" where
  "key_times k h = map snd (filter (\<lambda>x. fst x = k) h)"

lemma key_times_simps [simp]:
  "key_times k [] = []"
  "key_times k (h @ [(k', t)]) = key_times k h @ (if k' = k then [t] else [])"
  by (simp_all add: key_times_def)

lemma length_key_times:
  "length (filter (\<lambda>(k', t'). k' = k \<and> c \<le> t') h) = length (filter (\<lambda>t. c \<le> t) (key_times k h))"
  by (induction h) (auto simp: key_times_def)

text \<open>What the buckets keep of the history: in order, every accepted time that can still count.\<close>

definition bucket_inv :: "gotime \<Rightarrow> (string \<times> gotime) list \<Rightarrow> rate_limiter \<Rightarrow> bool" where
  "bucket_inv now h rl \<longleftrightarrow> gm_ok (rl_buckets rl) \<and>
     (\<forall>k. sorted (bucket_ts rl k) \<and> (\<forall>t \<in> set (bucket_ts rl k). t \<le> now) \<and>
          (\<forall>c \<ge> now - rl_window rl. filter (\<lambda>t. c \<le> t) (bucket_ts rl k) = filter (\<lambda>t. c \<le> t) (key_times k h)))"

lemma dropWhile_sorted: "sorted ts \<Longrightarrow> dropWhile (\<lambda>t. t < c) ts = filter (\<lambda>t. (c :: int) \<le> t) ts"
proof (induction ts)
  case (Cons t ts)
  show ?case
  proof (cases "t < c")
    case False
    with Cons.prems have "filter (\<lambda>t. c \<le> t) ts = ts" by (auto intro!: filter_True)
    with False show ?thesis by simp
  qed (use Cons in simp)
qed simp

lemma bucket_ts_put:
  "bucket_ts (rl\<lparr>rl_buckets := gm_put k ts (rl_buckets rl)\<rparr>) k' = (if k' = k then ts else bucket_ts rl k')"
  by (simp add: bucket_ts_def)

lemma filter_ge_ge: "c \<le> d \<Longrightarrow> filter (\<lambda>t. d \<le> t) (filter (\<lambda>t. (c :: int) \<le> t) ts) = filter (\<lambda>t. d \<le> t) ts"
  by (auto intro!: filter_cong)

text \<open>\<open>filter_mono_eq\<close> carries an equality of what two lists hold from a cut-off on to a later one.\<close>

lemma filter_mono_eq:
  "filter (\<lambda>t. (c :: int) \<le> t) xs = filter (\<lambda>t. c \<le> t) ys \<Longrightarrow> c \<le> d \<Longrightarrow>
     filter (\<lambda>t. d \<le> t) xs = filter (\<lambda>t. d \<le> t) ys"
  by (metis filter_ge_ge)

lemma allow_ref:
  assumes inv: "bucket_inv now h rl" and t: "now \<le> t" and w: "0 \<le> rl_window rl"
  shows "fst (rl_allow k t rl) = ref_ok (rl_limit rl) (rl_window rl) k t h"
    and "bucket_inv t (if ref_ok (rl_limit rl) (rl_window rl) k t h then h @ [(k, t)] else h) (snd (rl_allow k t rl))"
    and "rl_window (snd (rl_allow k t rl)) = rl_window rl" and "rl_limit (snd (rl_allow k t rl)) = rl_limit rl"
proof -
  define c where "c = t - rl_window rl"
  define ts where "ts = filter (\<lambda>x. c \<le> x) (bucket_ts rl k)"
  have late: "filter (\<lambda>x. d \<le> x) (bucket_ts rl k') = filter (\<lambda>x. d \<le> x) (key_times k' h)" if "c \<le> d" for d k'
    using inv t that unfolding bucket_inv_def c_def by auto
  have srt: "sorted (bucket_ts rl k')" and old: "x \<in> set (bucket_ts rl k') \<Longrightarrow> x \<le> t" for k' x
    using inv t unfolding bucket_inv_def by fastforce+
  have allow: "rl_allow k t rl =
      (if int (length ts) \<ge> rl_limit rl then (False, rl\<lparr>rl_buckets := gm_put k ts (rl_buckets rl)\<rparr>)
       else (True, rl\<lparr>rl_buckets := gm_put k (ts @ [t]) (rl_buckets rl)\<rparr>))"
    unfolding rl_allow_def Let_def ts_def c_def by (simp add: dropWhile_sorted srt)
  have ref: "ref_ok (rl_limit rl) (rl_window rl) k t h \<longleftrightarrow> \<not> int (length ts) \<ge> rl_limit rl"
    unfolding ref_ok_def length_key_times ts_def using late [of c k] by (auto simp: c_def)
  show "fst (rl_allow k t rl) = ref_ok (rl_limit rl) (rl_window rl) k t h"
    "rl_window (snd (rl_allow k t rl)) = rl_window rl" "rl_limit (snd (rl_allow k t rl)) = rl_limit rl"
    unfolding allow ref by simp_all
  have keep: "filter (\<lambda>x. d \<le> x) ts = filter (\<lambda>x. d \<le> x) (key_times k h)" if "c \<le> d" for d
    unfolding ts_def using filter_ge_ge [OF that] late [OF that] by simp
  have ts: "sorted ts" "\<forall>x \<in> set ts. x \<le> t" unfolding ts_def using srt old by (auto intro: sorted_wrt_filter)
  have ok: "gm_ok (rl_buckets rl)" using inv unfolding bucket_inv_def by simp
  show "bucket_inv t (if ref_ok (rl_limit rl) (rl_window rl) k t h then h @ [(k, t)] else h) (snd (rl_allow k t rl))"
    unfolding allow ref
    using ts ok keep late srt old
    by (auto simp: bucket_inv_def bucket_ts_put c_def sorted_append)
qed

lemma sorted_le_last: "sorted ts \<Longrightarrow> x \<in> set ts \<Longrightarrow> (x :: int) \<le> last ts"
  by (induction ts) auto

lemma cleanup_inv:
  assumes inv: "bucket_inv now h rl" and t: "now \<le> t" and w: "0 \<le> rl_window rl"
  shows "bucket_inv t h (rl_cleanup t rl)"
proof -
  have ok: "gm_ok (rl_buckets rl)" using inv by (simp add: bucket_inv_def)
  have get: "bucket_ts (rl_cleanup t rl) k =
      (if bucket_idle (t - rl_window rl) (bucket_ts rl k) then [] else bucket_ts rl k)" for k
    using ok by (simp add: bucket_ts_def rl_cleanup_def gm_get_filter bucket_idle_def split: option.split)
  have late: "filter (\<lambda>x. d \<le> x) (bucket_ts rl k) = filter (\<lambda>x. d \<le> x) (key_times k h)"
    if "t - rl_window rl \<le> d" for d k
    using inv t that unfolding bucket_inv_def by auto
  have idle: "filter (\<lambda>x. d \<le> x) (key_times k h) = []"
    if "bucket_idle (t - rl_window rl) (bucket_ts rl k)" "t - rl_window rl \<le> d" for d k
  proof -
    have srt: "sorted (bucket_ts rl k)" using inv unfolding bucket_inv_def by simp
    have "x < d" if x: "x \<in> set (bucket_ts rl k)" for x
    proof -
      have "x \<le> last (bucket_ts rl k)" using srt x by (rule sorted_le_last)
      then show ?thesis using \<open>bucket_idle _ _\<close> \<open>_ \<le> d\<close> x by (auto simp: bucket_idle_def)
    qed
    then have "filter (\<lambda>x. d \<le> x) (bucket_ts rl k) = []" by (auto simp: filter_empty_conv not_le)
    then show ?thesis using late [OF \<open>_ \<le> d\<close>] by simp
  qed
  have "rl_window (rl_cleanup t rl) = rl_window rl" "gm_ok (rl_buckets (rl_cleanup t rl))"
    using ok by (simp_all add: rl_cleanup_def)
  then show ?thesis using inv t idle late
    unfolding bucket_inv_def get by (auto simp: filter_empty_conv, meson order_trans)
qed

lemma run_ref:
  assumes "bucket_inv now h rl" "0 \<le> rl_window rl" "sorted (map ev_time evs)" "\<forall>x \<in> set evs. now \<le> ev_time x"
  shows "rl_run evs rl = ref_run (rl_limit rl) (rl_window rl) h evs"
  using assms
proof (induction evs arbitrary: now h rl)
  case (Cons x evs)
  show ?case
  proof (cases x)
    case (Attempt k t)
    have t: "now \<le> t" and later: "\<forall>y \<in> set evs. t \<le> ev_time y" using Cons.prems Attempt by auto
    obtain ok rl' where a: "rl_allow k t rl = (ok, rl')" by fastforce
    note step = allow_ref [OF Cons.prems(1) t Cons.prems(2), of k, unfolded a]
    have "rl_run evs rl' = ref_run (rl_limit rl') (rl_window rl') (if ok then h @ [(k, t)] else h) evs"
      using step Cons.prems later by (intro Cons.IH [where now = t]) auto
    with step show ?thesis by (simp add: Attempt a)
  next
    case (Sweep t)
    have t: "now \<le> t" and later: "\<forall>y \<in> set evs. t \<le> ev_time y" using Cons.prems Sweep by auto
    have "rl_run evs (rl_cleanup t rl) = ref_run (rl_limit (rl_cleanup t rl)) (rl_window (rl_cleanup t rl)) h evs"
      using cleanup_inv [OF Cons.prems(1) t Cons.prems(2)] Cons.prems later
      by (intro Cons.IH [where now = t]) (auto simp: rl_cleanup_def)
    then show ?thesis by (simp add: Sweep rl_cleanup_def)
  qed
qed simp

fun accepted :: "rl_event list \<Rightarrow> bool list \<Rightarrow> (string \<times> gotime) list" where
  "accepted (Attempt k t # xs) (v # vs) = (if v then [(k, t)] else []) @ accepted xs vs"
| "accepted (Sweep t # xs) vs = accepted xs vs"
| "accepted _ _ = []"

definition in_window :: "gotime \<Rightarrow> duration \<Rightarrow> gotime list \<Rightarrow> nat" where
  "in_window a window ts = length (filter (\<lambda>t. a \<le> t \<and> t \<le> a + window) ts)"

lemma in_window_append [simp]: "in_window a w (xs @ ys) = in_window a w xs + in_window a w ys"
  by (simp add: in_window_def)

lemma filter_len_mono: "(\<And>x. x \<in> set xs \<Longrightarrow> P x \<Longrightarrow> Q x) \<Longrightarrow> length (filter P xs) \<le> length (filter Q xs)"
  by (induction xs) (auto intro: le_SucI)

lemma ref_window:
  assumes "\<forall>k a. int (in_window a window (key_times k h)) \<le> max 0 limit" "sorted (map ev_time evs)"
    "\<forall>x \<in> set h. \<forall>y \<in> set evs. snd x \<le> ev_time y"
  shows "int (in_window a window (key_times k (h @ accepted evs (ref_run limit window h evs)))) \<le> max 0 limit"
  using assms
proof (induction evs arbitrary: h)
  case (Cons x evs)
  show ?case
  proof (cases x)
    case (Attempt j t)
    show ?thesis
    proof (cases "ref_ok limit window j t h")
      case True
      have "int (in_window b window (key_times i (h @ [(j, t)]))) \<le> max 0 limit" for b i
      proof (cases "i = j \<and> b \<le> t \<and> t \<le> b + window")
        case in_it: True
        have "in_window b window (key_times j h) \<le> length (filter (\<lambda>t'. t - window \<le> t') (key_times j h))"
          unfolding in_window_def using in_it by (intro filter_len_mono) auto
        then show ?thesis using True in_it by (simp add: ref_ok_def length_key_times in_window_def)
      next
        case False
        then show ?thesis using Cons.prems(1) by (auto simp: in_window_def)
      qed
      then show ?thesis using Cons.IH [of "h @ [(j, t)]"] Cons.prems True by (auto simp: Attempt)
    qed (use Cons in \<open>auto simp: Attempt\<close>)
  qed (use Cons in auto)
qed simp

lemma new_bucket_inv: "bucket_inv now [] (NewRateLimiter limit window)"
  by (simp add: bucket_inv_def NewRateLimiter_def bucket_ts_def)

lemma run_ref_new:
  "0 \<le> window \<Longrightarrow> sorted (map ev_time evs) \<Longrightarrow>
     rl_run evs (NewRateLimiter limit window) = ref_run limit window [] evs"
  using run_ref [OF new_bucket_inv [of "if evs = [] then 0 else ev_time (hd evs)" limit window], of evs]
  by (cases evs) (auto simp: NewRateLimiter_def)

text \<open>C36. The sliding-window limiter, with its eviction of old timestamps and its cleaner, decides every
  request as the reference limiter does that remembers all accepted requests for ever: accept exactly
  when fewer than \<open>limit\<close> requests of the same key were accepted in the window that ends now.\<close>

theorem rate_limiter_exact:
  assumes "0 \<le> window" and "sorted (map ev_time evs)"
  shows "rl_run evs (NewRateLimiter limit window) = ref_run limit window [] evs"
  using assms by (rule run_ref_new)

theorem rate_limiter_exact_witness:
  "let evs = [Attempt ''a'' 0, Attempt ''a'' 1, Attempt ''b'' 1, Attempt ''a'' 2, Sweep 12, Attempt ''a'' 12] in
   rl_run evs (NewRateLimiter 2 10) = ref_run 2 10 [] evs \<and> rl_run evs (NewRateLimiter 2 10) = [True, True, True, False, True]"
proof -
  let ?evs = "[Attempt ''a'' 0, Attempt ''a'' 1, Attempt ''b'' 1, Attempt ''a'' 2, Sweep 12, Attempt ''a'' 12]"
  have exact: "rl_run ?evs (NewRateLimiter 2 10) = ref_run 2 10 [] ?evs" by (rule rate_limiter_exact) simp_all
  moreover have "ref_run 2 10 [] ?evs = [True, True, True, False, True]" by (simp add: ref_ok_def)
  ultimately show ?thesis unfolding Let_def by (metis (no_types))
qed

text \<open>For every key and every closed interval of the window's length, wherever it starts, at most
  \<open>limit\<close> requests with that key are accepted in it, when each request and each sweep runs alone and in
  the order of the clock. The next section lets them interleave.\<close>

lemma rate_limit_window_sequential:
  assumes "0 \<le> window" and "0 \<le> limit" and "sorted (map ev_time evs)"
  shows "int (in_window a window (key_times k (accepted evs (rl_run evs (NewRateLimiter limit window))))) \<le> limit"
proof -
  have "int (in_window a window (key_times k ([] @ accepted evs (ref_run limit window [] evs)))) \<le> max 0 limit"
    using assms by (intro ref_window) (simp_all add: in_window_def)
  then show ?thesis using assms by (simp add: run_ref_new)
qed

subsection \<open>Requests and the cleaner interleaved\<close>

text \<open>
  A request takes the map's lock to find or create its bucket (\<open>Enter\<close>), reads the clock, and takes the
  bucket's lock to count (\<open>Count\<close>, with the time it read); the cleaner, which read the clock when it
  started, looks at one bucket after the other and deletes it from the map when it is idle (\<open>Evict\<close>).
  \<open>rc_buckets\<close> is the heap of buckets, \<open>rc_map\<close> the map to their addresses and \<open>rc_waiting\<close> the requests
  between their two locks. Deletion from the map leaves a bucket that a waiting request already holds
  alive on the heap. The step relation puts no condition on the times.
\<close>

record rl_shared =
  rc_map :: "(string, nat) gomap"
  rc_buckets :: "gotime list list"
  rc_waiting :: "(string \<times> nat) list"
  rc_accepted :: "(string \<times> gotime) list"

definition rc_init :: rl_shared where
  "rc_init = \<lparr>rc_map = [], rc_buckets = [], rc_waiting = [], rc_accepted = []\<rparr>"

datatype rl_label = Enter string | Count string nat gotime | Evict string gotime

inductive rl_atomic :: "int \<Rightarrow> duration \<Rightarrow> rl_label \<Rightarrow> rl_shared \<Rightarrow> rl_shared \<Rightarrow> bool" for limit window where
  Find: "gm_get (rc_map c) key = Some a \<Longrightarrow>
    rl_atomic limit window (Enter key) c (c\<lparr>rc_waiting := (key, a) # rc_waiting c\<rparr>)"
| Create: "gm_get (rc_map c) key = None \<Longrightarrow>
    rl_atomic limit window (Enter key) c
      (c\<lparr>rc_map := gm_put key (length (rc_buckets c)) (rc_map c), rc_buckets := rc_buckets c @ [[]],
         rc_waiting := (key, length (rc_buckets c)) # rc_waiting c\<rparr>)"
| Refuse: "(key, a) \<in> set (rc_waiting c) \<Longrightarrow>
    ts = dropWhile (\<lambda>t. t < now - window) (rc_buckets c ! a) \<Longrightarrow> int (length ts) \<ge> limit \<Longrightarrow>
    rl_atomic limit window (Count key a now) c
      (c\<lparr>rc_buckets := (rc_buckets c)[a := ts], rc_waiting := remove1 (key, a) (rc_waiting c)\<rparr>)"
| Accept: "(key, a) \<in> set (rc_waiting c) \<Longrightarrow>
    ts = dropWhile (\<lambda>t. t < now - window) (rc_buckets c ! a) \<Longrightarrow> int (length ts) < limit \<Longrightarrow>
    rl_atomic limit window (Count key a now) c
      (c\<lparr>rc_buckets := (rc_buckets c)[a := ts @ [now]], rc_waiting := remove1 (key, a) (rc_waiting c),
         rc_accepted := (key, now) # rc_accepted c\<rparr>)"
| Clean: "gm_get (rc_map c) key = Some a \<Longrightarrow> bucket_idle (now - window) (rc_buckets c ! a) \<Longrightarrow>
    rl_atomic limit window (Evict key now) c (c\<lparr>rc_map := gm_del key (rc_map c)\<rparr>)"

definition rl_any :: "int \<Rightarrow> duration \<Rightarrow> rl_shared \<Rightarrow> rl_shared \<Rightarrow> bool" where
  "rl_any limit window c d \<longleftrightarrow> (\<exists>l. rl_atomic limit window l c d)"

text \<open>A bucket never holds more than \<open>limit\<close> timestamps, however the steps interleave.\<close>

lemma bucket_bounded:
  assumes "(rl_any limit window)\<^sup>*\<^sup>* rc_init c" "0 \<le> limit" "a < length (rc_buckets c)"
  shows "int (length (rc_buckets c ! a)) \<le> limit"
  using assms
proof (induction arbitrary: a rule: rtranclp_induct)
  case (step c d)
  from step.hyps(2) obtain l where "rl_atomic limit window l c d" by (auto simp: rl_any_def)
  then show ?case
  proof cases
    case (Refuse key b ts now)
    have "length ts \<le> length (rc_buckets c ! b)" using Refuse by (simp add: length_dropWhile_le)
    then show ?thesis using step.IH [OF step.prems(1)] step.prems Refuse
      by (cases "b < length (rc_buckets c)") (fastforce simp: nth_list_update)+
  next
    case (Accept key b ts now)
    then show ?thesis using step.IH [OF step.prems(1)] step.prems by (cases "a = b") simp_all
  qed (use step.IH step.prems in \<open>auto simp: nth_append split: if_splits\<close>)
qed (simp add: rc_init_def)

text \<open>
  But a bucket is created empty, and an empty bucket is idle: when the cleaner runs between the two locks
  of the first request of a key, the next request of that key gets another bucket. With a limit of one
  request per minute, two requests made at the same instant are both accepted.
\<close>

lemma rl_run_of:
  "rl_atomic limit window l c d \<Longrightarrow> (rl_any limit window)\<^sup>*\<^sup>* d e \<Longrightarrow> (rl_any limit window)\<^sup>*\<^sup>* c e"
  by (rule converse_rtranclp_into_rtranclp) (auto simp: rl_any_def)

lemma rate_limit_race:
  "\<exists>c. (rl_any 1 Minute)\<^sup>*\<^sup>* rc_init c \<and> in_window 0 Minute (key_times ''ip'' (rc_accepted c)) = 2"
proof -
  let ?c1 = "\<lparr>rc_map = [(''ip'', 0)], rc_buckets = [[]], rc_waiting = [(''ip'', 0)], rc_accepted = []\<rparr>"
  let ?c2 = "?c1\<lparr>rc_map := []\<rparr>"
  let ?c3 = "\<lparr>rc_map = [(''ip'', 1)], rc_buckets = [[], []], rc_waiting = [(''ip'', 1), (''ip'', 0)], rc_accepted = []\<rparr>"
  let ?c4 = "?c3\<lparr>rc_buckets := [[0], []], rc_waiting := [(''ip'', 1)], rc_accepted := [(''ip'', 0)]\<rparr>"
  let ?c5 = "?c4\<lparr>rc_buckets := [[0], [0]], rc_waiting := [], rc_accepted := [(''ip'', 0), (''ip'', 0)]\<rparr>"
  have steps: "rl_atomic 1 Minute (Enter ''ip'') rc_init ?c1" "rl_atomic 1 Minute (Evict ''ip'' 0) ?c1 ?c2"
    "rl_atomic 1 Minute (Enter ''ip'') ?c2 ?c3" "rl_atomic 1 Minute (Count ''ip'' 0 0) ?c3 ?c4"
    "rl_atomic 1 Minute (Count ''ip'' 1 0) ?c4 ?c5"
    using rl_atomic.Create [of rc_init "''ip''" 1 Minute] rl_atomic.Clean [of ?c1 "''ip''" 0 0 Minute 1]
      rl_atomic.Create [of ?c2 "''ip''" 1 Minute] rl_atomic.Accept [of "''ip''" 0 ?c3 "[]" 0 Minute 1]
      rl_atomic.Accept [of "''ip''" 1 ?c4 "[]" 0 Minute 1]
    by (simp_all add: rc_init_def bucket_idle_def AList.delete_eq)
  have "(rl_any 1 Minute)\<^sup>*\<^sup>* rc_init ?c5"
    by (rule rl_run_of [OF steps(1)] rl_run_of [OF steps(2)] rl_run_of [OF steps(3)] rl_run_of [OF steps(4)]
        rl_run_of [OF steps(5)] rtranclp.rtrancl_refl)+
  then show ?thesis by (intro exI [of _ ?c5]) (simp add: key_times_def in_window_def)
qed

text \<open>
  The clock is read before the bucket's lock is taken, so the cleaner is not needed to break the bound:
  with two requests per ten ticks, two are accepted at 5 and 6; a third reads 14 and is held up; a fourth
  reads 17, drops the first two and is accepted; then the third counts with its old time and is accepted.
\<close>

lemma rate_limit_late_reader:
  "\<exists>c. (rl_any 2 10)\<^sup>*\<^sup>* rc_init c \<and> in_window 5 10 (key_times ''ip'' (rc_accepted c)) = 3"
proof -
  let ?x = "(''ip'', 0 :: nat)"
  let ?c = "\<lambda>b ws acc. \<lparr>rc_map = [?x], rc_buckets = [b], rc_waiting = ws, rc_accepted = map (Pair ''ip'') acc\<rparr>"
  have enter: "rl_atomic 2 10 (Enter ''ip'') (?c b ws acc) (?c b (?x # ws) acc)" for b ws acc
    using rl_atomic.Find [of "?c b ws acc" "''ip''" 0 2 10] by simp
  have count: "rl_atomic 2 10 (Count ''ip'' 0 t) (?c b (?x # ws) acc) (?c (dropWhile (\<lambda>x. x < t - 10) b @ [t]) ws (t # acc))"
    if "length (dropWhile (\<lambda>x. x < t - 10) b) < 2" for b ws acc t
    using rl_atomic.Accept [of "''ip''" 0 "?c b (?x # ws) acc" "dropWhile (\<lambda>x. x < t - 10) b" t 10 2] that by simp
  have first: "rl_atomic 2 10 (Enter ''ip'') rc_init (?c [] [?x] [])"
    using rl_atomic.Create [of rc_init "''ip''" 2 10] by (simp add: rc_init_def)
  have c5: "rl_atomic 2 10 (Count ''ip'' 0 5) (?c [] [?x] []) (?c [5] [] [5])" using count [of 5 "[]" "[]" "[]"] by simp
  have c6: "rl_atomic 2 10 (Count ''ip'' 0 6) (?c [5] [?x] [5]) (?c [5, 6] [] [6, 5])" using count [of 6 "[5]" "[]" "[5]"] by simp
  have c17: "rl_atomic 2 10 (Count ''ip'' 0 17) (?c [5, 6] [?x, ?x] [6, 5]) (?c [17] [?x] [17, 6, 5])"
    using count [of 17 "[5, 6]" "[?x]" "[6, 5]"] by simp
  have c14: "rl_atomic 2 10 (Count ''ip'' 0 14) (?c [17] [?x] [17, 6, 5]) (?c [17, 14] [] [14, 17, 6, 5])"
    using count [of 14 "[17]" "[]" "[17, 6, 5]"] by simp
  note run = rl_run_of [OF first] rl_run_of [OF c5] rl_run_of [OF enter [of "[5]" "[]" "[5]"]] rl_run_of [OF c6]
    rl_run_of [OF enter [of "[5, 6]" "[]" "[6, 5]"]] rl_run_of [OF enter [of "[5, 6]" "[?x]" "[6, 5]"]]
    rl_run_of [OF c17] rl_run_of [OF c14] rtranclp.rtrancl_refl [of "rl_any 2 10"]
  have "(rl_any 2 10)\<^sup>*\<^sup>* rc_init (?c [17, 14] [] [14, 17, 6, 5])" by (rule run)+
  then show ?thesis by (intro exI [of _ "?c [17, 14] [] [14, 17, 6, 5]"]) (simp add: key_times_def in_window_def)
qed

subsection \<open>The two locks and the one step\<close>

text \<open>
  \<open>rl_allow\<close>, which the other theories use, is an undisturbed \<open>Enter\<close> followed by \<open>Count\<close>: the same
  answer, and afterwards the same bucket for every key.
\<close>

definition shared_view :: "int \<Rightarrow> duration \<Rightarrow> rl_shared \<Rightarrow> rate_limiter" where
  "shared_view limit window c =
     \<lparr>rl_limit = limit, rl_window = window, rl_buckets = map (\<lambda>(k, a). (k, rc_buckets c ! a)) (rc_map c)\<rparr>"

definition shared_ok :: "rl_shared \<Rightarrow> bool" where
  "shared_ok c \<longleftrightarrow> (\<forall>k a. gm_get (rc_map c) k = Some a \<longrightarrow> a < length (rc_buckets c)) \<and>
     (\<forall>j k a. gm_get (rc_map c) j = Some a \<longrightarrow> gm_get (rc_map c) k = Some a \<longrightarrow> j = k)"

lemma view_bucket: "bucket_ts (shared_view limit window c) k = (case gm_get (rc_map c) k of None \<Rightarrow> [] | Some a \<Rightarrow> rc_buckets c ! a)"
proof -
  have "gm_get (map (\<lambda>(k, a). (k, rc_buckets c ! a)) m) k = map_option ((!) (rc_buckets c)) (gm_get m k)" for m
    by (induction m) auto
  then show ?thesis by (simp add: bucket_ts_def shared_view_def split: option.split)
qed

lemma count_allow:
  assumes ok: "shared_ok c" and w: "(key, a) \<in> set (rc_waiting c)" "gm_get (rc_map c) key = Some a"
  obtains d where "rl_atomic limit window (Count key a now) c d"
    "rc_accepted d = (if fst (rl_allow key now (shared_view limit window c)) then [(key, now)] else []) @ rc_accepted c"
    "bucket_ts (shared_view limit window d) = bucket_ts (snd (rl_allow key now (shared_view limit window c)))"
proof -
  let ?v = "shared_view limit window c" and ?ts = "dropWhile (\<lambda>t. t < now - window) (rc_buckets c ! a)"
  have a: "a < length (rc_buckets c)" and inj: "gm_get (rc_map c) k = Some a \<Longrightarrow> k = key" for k
    using ok w(2) by (auto simp: shared_ok_def)
  have b: "bucket_ts ?v key = rc_buckets c ! a" "rl_limit ?v = limit" "rl_window ?v = window"
    using w(2) by (simp_all add: view_bucket) (simp_all add: shared_view_def)
  have upd: "bucket_ts (shared_view limit window d) = (\<lambda>k. if k = key then ts else bucket_ts ?v k)"
    if d: "rc_map d = rc_map c" "rc_buckets d = (rc_buckets c)[a := ts]" for d ts
  proof
    fix k
    show "bucket_ts (shared_view limit window d) k = (if k = key then ts else bucket_ts ?v k)"
    proof (cases "k = key")
      case False
      then have "gm_get (rc_map c) k \<noteq> Some a" using inj by blast
      then show ?thesis using False by (simp add: view_bucket d split: option.split) (metis nth_list_update_neq)
    qed (simp add: view_bucket d w(2) a)
  qed
  have put: "bucket_ts (?v\<lparr>rl_buckets := gm_put key ts (rl_buckets ?v)\<rparr>) = (\<lambda>k. if k = key then ts else bucket_ts ?v k)" for ts
    by (rule ext) (simp add: bucket_ts_put)
  show thesis
  proof (cases "int (length ?ts) \<ge> limit")
    case True
    show thesis
      by (rule that [OF rl_atomic.Refuse [OF w(1) refl True]]) (use True in \<open>simp_all add: rl_allow_def Let_def b put upd\<close>)
  next
    case False
    then have less: "int (length ?ts) < limit" by simp
    show thesis
      by (rule that [OF rl_atomic.Accept [OF w(1) refl less]]) (use False in \<open>simp_all add: rl_allow_def Let_def b put upd\<close>)
  qed
qed

lemma allow_two_steps:
  assumes "shared_ok c"
  obtains a c1 d where "rl_atomic limit window (Enter key) c c1" "rl_atomic limit window (Count key a now) c1 d"
    "rc_accepted d = (if fst (rl_allow key now (shared_view limit window c)) then [(key, now)] else []) @ rc_accepted c"
    "bucket_ts (shared_view limit window d) = bucket_ts (snd (rl_allow key now (shared_view limit window c)))"
proof -
  obtain a c1 where c1: "rl_atomic limit window (Enter key) c c1" "shared_ok c1" "(key, a) \<in> set (rc_waiting c1)"
    "gm_get (rc_map c1) key = Some a" "rc_accepted c1 = rc_accepted c"
    "bucket_ts (shared_view limit window c1) = bucket_ts (shared_view limit window c)"
  proof (cases "gm_get (rc_map c) key")
    case (Some a)
    show thesis by (rule that [OF rl_atomic.Find [OF Some]])
      (use assms Some in \<open>simp_all add: shared_ok_def fun_eq_iff view_bucket cong: option.case_cong\<close>)
  next
    case None
    show thesis by (rule that [OF rl_atomic.Create [OF None]])
      (use assms None in \<open>auto simp: shared_ok_def fun_eq_iff view_bucket nth_append less_Suc_eq split: option.split if_splits\<close>)
  qed
  have allow: "fst (rl_allow key now (shared_view limit window c1)) = fst (rl_allow key now (shared_view limit window c))"
    "bucket_ts (snd (rl_allow key now (shared_view limit window c1))) = bucket_ts (snd (rl_allow key now (shared_view limit window c)))"
    using c1(6) by (simp_all add: rl_allow_def Let_def fun_eq_iff bucket_ts_put) (simp_all add: shared_view_def)
  obtain d where "rl_atomic limit window (Count key a now) c1 d"
    "rc_accepted d = (if fst (rl_allow key now (shared_view limit window c1)) then [(key, now)] else []) @ rc_accepted c1"
    "bucket_ts (shared_view limit window d) = bucket_ts (snd (rl_allow key now (shared_view limit window c1)))"
    by (rule count_allow [OF c1(2-4)])
  then show thesis using c1(1,5) allow by (intro that) simp_all
qed

subsection \<open>The bound under the conditions these runs violate\<close>

















end
