(* ===== verification/Metrics.thy ===== *)
theory Metrics
  imports Float64 Middleware Json
begin

text \<open>
  The metrics registry of \<open>pkg/metrics/metrics.go\<close>: counters, gauges and histograms, plain and labelled,
  the HTTP middleware that counts requests and the Prometheus text. Using a name that is not registered,
  or registering one twice, panics (\<open>None\<close>). How \<open>fmt\<close> prints a \<open>float64\<close> is an argument of
  the text rendering.
\<close>

section \<open>The registry\<close>

record counter =
  ct_name :: string
  ct_help :: string
  ct_val :: int

record cv_entry =
  ce_labelStr :: string
  ce_val :: int

record counter_vec =
  cv_name :: string
  cv_help :: string
  cv_entries :: "(string, cv_entry) gomap"

record gauge =
  gg_name :: string
  gg_help :: string
  gg_val :: float64

record histogram =
  hs_name :: string
  hs_help :: string
  hs_buckets :: "float64 list"
  hs_counts :: "int list"
  hs_sum :: float64
  hs_total :: int

record hv_entry =
  he_labelStr :: string
  he_buckets :: "float64 list"
  he_counts :: "int list"
  he_sum :: float64
  he_total :: int

record histogram_vec =
  hv_name :: string
  hv_help :: string
  hv_buckets :: "float64 list"
  hv_entries :: "(string, hv_entry) gomap"

record registry =
  rg_counters :: "(string, counter) gomap"
  rg_gauges :: "(string, gauge) gomap"
  rg_histograms :: "(string, histogram) gomap"
  rg_counterVecs :: "(string, counter_vec) gomap"
  rg_histogramVecs :: "(string, histogram_vec) gomap"
  rg_pathNormalizer :: "(string \<Rightarrow> string) option"
  rg_startTime :: gotime

definition MustCounter :: "string \<Rightarrow> string \<Rightarrow> registry \<Rightarrow> registry option" where
  "MustCounter name help r =
     (if gm_get (rg_counters r) name \<noteq> None then None
      else Some (r\<lparr>rg_counters := gm_put name \<lparr>ct_name = name, ct_help = help, ct_val = 0\<rparr> (rg_counters r)\<rparr>))"

definition MustGauge :: "string \<Rightarrow> string \<Rightarrow> registry \<Rightarrow> registry option" where
  "MustGauge name help r =
     (if gm_get (rg_gauges r) name \<noteq> None then None
      else Some (r\<lparr>rg_gauges := gm_put name \<lparr>gg_name = name, gg_help = help, gg_val = Fin 0\<rparr> (rg_gauges r)\<rparr>))"

definition MustCounterVec :: "string \<Rightarrow> string \<Rightarrow> registry \<Rightarrow> registry option" where
  "MustCounterVec name help r =
     (if gm_get (rg_counterVecs r) name \<noteq> None then None
      else Some (r\<lparr>rg_counterVecs :=
        gm_put name \<lparr>cv_name = name, cv_help = help, cv_entries = []\<rparr> (rg_counterVecs r)\<rparr>))"

text \<open>\<open>sort.Float64s\<close> puts NaN before the other values.\<close>

fun insort_f64 :: "float64 \<Rightarrow> float64 list \<Rightarrow> float64 list" where
  "insort_f64 x [] = [x]"
| "insort_f64 x (y # ys) = (if x = NaN \<or> f64_le x y then x # y # ys else y # insort_f64 x ys)"

definition sort_f64 :: "float64 list \<Rightarrow> float64 list" where
  "sort_f64 xs = foldr insort_f64 xs []"

definition MustHistogram :: "string \<Rightarrow> string \<Rightarrow> float64 list \<Rightarrow> registry \<Rightarrow> registry option" where
  "MustHistogram name help buckets r =
     (if gm_get (rg_histograms r) name \<noteq> None then None
      else Some (r\<lparr>rg_histograms :=
        gm_put name \<lparr>hs_name = name, hs_help = help, hs_buckets = sort_f64 buckets,
          hs_counts = replicate (length buckets) 0, hs_sum = Fin 0, hs_total = 0\<rparr> (rg_histograms r)\<rparr>))"

definition MustHistogramVec :: "string \<Rightarrow> string \<Rightarrow> float64 list \<Rightarrow> registry \<Rightarrow> registry option" where
  "MustHistogramVec name help buckets r =
     (if gm_get (rg_histogramVecs r) name \<noteq> None then None
      else Some (r\<lparr>rg_histogramVecs :=
        gm_put name \<lparr>hv_name = name, hv_help = help, hv_buckets = sort_f64 buckets, hv_entries = []\<rparr>
          (rg_histogramVecs r)\<rparr>))"

definition SetPathNormalizer :: "(string \<Rightarrow> string) \<Rightarrow> registry \<Rightarrow> registry" where
  "SetPathNormalizer fn r = r\<lparr>rg_pathNormalizer := Some fn\<rparr>"

definition normalizePath :: "registry \<Rightarrow> string \<Rightarrow> string" where
  "normalizePath r path = (case rg_pathNormalizer r of None \<Rightarrow> path | Some fn \<Rightarrow> fn path)"

subsection \<open>Updating a metric\<close>

text \<open>\<open>r.Counter(name).Add(n)\<close> and \<open>r.Gauge(name).Set(v)\<close>, as the program calls them. Counters are
  64-bit and wrap.\<close>

definition counter_Add :: "string \<Rightarrow> int \<Rightarrow> registry \<Rightarrow> registry option" where
  "counter_Add name n r =
     (case gm_get (rg_counters r) name of
        None \<Rightarrow> None
      | Some c \<Rightarrow> Some (r\<lparr>rg_counters := gm_put name (c\<lparr>ct_val := int64 (ct_val c + n)\<rparr>) (rg_counters r)\<rparr>))"

definition counter_Inc :: "string \<Rightarrow> registry \<Rightarrow> registry option" where
  "counter_Inc name r = counter_Add name 1 r"

definition counter_Value :: "string \<Rightarrow> registry \<Rightarrow> int option" where
  "counter_Value name r = map_option ct_val (gm_get (rg_counters r) name)"

definition gauge_upd :: "(float64 \<Rightarrow> float64) \<Rightarrow> string \<Rightarrow> registry \<Rightarrow> registry option" where
  "gauge_upd f name r =
     (case gm_get (rg_gauges r) name of
        None \<Rightarrow> None
      | Some g \<Rightarrow> Some (r\<lparr>rg_gauges := gm_put name (g\<lparr>gg_val := f (gg_val g)\<rparr>) (rg_gauges r)\<rparr>))"

definition gauge_Set :: "string \<Rightarrow> float64 \<Rightarrow> registry \<Rightarrow> registry option" where
  "gauge_Set name v r = gauge_upd (\<lambda>_. v) name r"

definition gauge_Add :: "string \<Rightarrow> float64 \<Rightarrow> registry \<Rightarrow> registry option" where
  "gauge_Add name v r = gauge_upd (\<lambda>x. f64_add x v) name r"

definition gauge_Inc :: "string \<Rightarrow> registry \<Rightarrow> registry option" where
  "gauge_Inc name r = gauge_upd (\<lambda>x. f64_add x (Fin 1)) name r"

definition gauge_Dec :: "string \<Rightarrow> registry \<Rightarrow> registry option" where
  "gauge_Dec name r = gauge_upd (\<lambda>x. f64_add x (Fin (- 1))) name r"

definition gauge_Value :: "string \<Rightarrow> registry \<Rightarrow> float64 option" where
  "gauge_Value name r = map_option gg_val (gm_get (rg_gauges r) name)"

definition bump :: "float64 \<Rightarrow> float64 list \<Rightarrow> int list \<Rightarrow> int list" where
  "bump v buckets counts = map2 (\<lambda>b n. if f64_le v b then int64 (n + 1) else n) buckets counts"

definition hist_Observe :: "float64 \<Rightarrow> histogram \<Rightarrow> histogram" where
  "hist_Observe v h =
     h\<lparr>hs_sum := f64_add (hs_sum h) v, hs_total := int64 (hs_total h + 1),
       hs_counts := bump v (hs_buckets h) (hs_counts h)\<rparr>"

definition histogram_Observe :: "string \<Rightarrow> float64 \<Rightarrow> registry \<Rightarrow> registry option" where
  "histogram_Observe name v r =
     (case gm_get (rg_histograms r) name of
        None \<Rightarrow> None
      | Some h \<Rightarrow> Some (r\<lparr>rg_histograms := gm_put name (hist_Observe v h) (rg_histograms r)\<rparr>))"

subsection \<open>Labelled families\<close>

definition canonicalKey :: "(string, string) gomap \<Rightarrow> string" where
  "canonicalKey labels =
     join_with [CHR 0x00] (map (\<lambda>k. k @ ''='' @ (case gm_get labels k of None \<Rightarrow> [] | Some v \<Rightarrow> v)) (sort (gm_keys labels)))"

definition formatLabels :: "(string, string) gomap \<Rightarrow> string" where
  "formatLabels labels =
     ''{'' @ join_with '','' (map (\<lambda>k. k @ ''='' @ [CHR 0x22] @ (case gm_get labels k of None \<Rightarrow> [] | Some v \<Rightarrow> v) @ [CHR 0x22])
       (sort (gm_keys labels))) @ ''}''"

definition cv_With :: "(string, string) gomap \<Rightarrow> counter_vec \<Rightarrow> counter_vec" where
  "cv_With labels cv =
     (let key = canonicalKey labels in
      case gm_get (cv_entries cv) key of
        Some _ \<Rightarrow> cv
      | None \<Rightarrow> cv\<lparr>cv_entries :=
          gm_put key \<lparr>ce_labelStr = formatLabels labels, ce_val = 0\<rparr> (cv_entries cv)\<rparr>)"

definition cv_entry_Add :: "string \<Rightarrow> int \<Rightarrow> counter_vec \<Rightarrow> counter_vec" where
  "cv_entry_Add key n cv =
     (case gm_get (cv_entries cv) key of
        None \<Rightarrow> cv
      | Some e \<Rightarrow> cv\<lparr>cv_entries := gm_put key (e\<lparr>ce_val := int64 (ce_val e + n)\<rparr>) (cv_entries cv)\<rparr>)"

text \<open>\<open>cv.With(labels).Inc()\<close>, and the value of a series, 0 when it does not exist.\<close>

definition cv_Inc :: "(string, string) gomap \<Rightarrow> counter_vec \<Rightarrow> counter_vec" where
  "cv_Inc labels cv = cv_entry_Add (canonicalKey labels) 1 (cv_With labels cv)"

definition cv_Value :: "(string, string) gomap \<Rightarrow> counter_vec \<Rightarrow> int" where
  "cv_Value labels cv =
     (case gm_get (cv_entries cv) (canonicalKey labels) of None \<Rightarrow> 0 | Some e \<Rightarrow> ce_val e)"

definition cv_Total :: "counter_vec \<Rightarrow> int" where
  "cv_Total cv = fold (\<lambda>(_, e) total. int64 (total + ce_val e)) (cv_entries cv) 0"

definition hv_With :: "(string, string) gomap \<Rightarrow> histogram_vec \<Rightarrow> histogram_vec" where
  "hv_With labels hv =
     (let key = canonicalKey labels in
      case gm_get (hv_entries hv) key of
        Some _ \<Rightarrow> hv
      | None \<Rightarrow> hv\<lparr>hv_entries := gm_put key
          \<lparr>he_labelStr = formatLabels labels, he_buckets = hv_buckets hv,
           he_counts = replicate (length (hv_buckets hv)) 0, he_sum = Fin 0, he_total = 0\<rparr> (hv_entries hv)\<rparr>)"

definition he_Observe :: "float64 \<Rightarrow> hv_entry \<Rightarrow> hv_entry" where
  "he_Observe v e =
     e\<lparr>he_sum := f64_add (he_sum e) v, he_total := int64 (he_total e + 1),
       he_counts := bump v (he_buckets e) (he_counts e)\<rparr>"

definition hv_Observe :: "(string, string) gomap \<Rightarrow> float64 \<Rightarrow> histogram_vec \<Rightarrow> histogram_vec" where
  "hv_Observe labels v hv =
     (let key = canonicalKey labels; hv' = hv_With labels hv in
      case gm_get (hv_entries hv') key of
        None \<Rightarrow> hv'
      | Some e \<Rightarrow> hv'\<lparr>hv_entries := gm_put key (he_Observe v e) (hv_entries hv')\<rparr>)"

section \<open>What the server registers\<close>

definition New_registry :: "gotime \<Rightarrow> registry option" where
  "New_registry now =
     Option.bind
       (MustGauge ''qs_process_start_time_seconds'' ''Unix timestamp when the process started''
         \<lparr>rg_counters = [], rg_gauges = [], rg_histograms = [], rg_counterVecs = [], rg_histogramVecs = [],
          rg_pathNormalizer = None, rg_startTime = now\<rparr>)
       (gauge_Set ''qs_process_start_time_seconds'' (f64_of_int (time_Unix now)))"

definition DefaultDurationBuckets :: "float64 list" where
  "DefaultDurationBuckets =
     map f64_of [1/1000, 5/1000, 10/1000, 25/1000, 50/1000, 100/1000, 250/1000, 500/1000, 1, 5/2, 5]"

definition RegisterHTTPMetrics :: "registry \<Rightarrow> registry option" where
  "RegisterHTTPMetrics r =
     Option.bind
       (MustCounterVec ''qs_http_requests_total'' ''Total HTTP requests by method, path, and status code'' r)
       (MustHistogramVec ''qs_http_request_duration_seconds''
         ''HTTP request latency in seconds by method and path'' DefaultDurationBuckets)"

definition crypto_ops :: "string list" where
  "crypto_ops =
     [''qs_crypto_keygen_total'', ''qs_crypto_encrypt_total'', ''qs_crypto_decrypt_total'',
      ''qs_crypto_sign_total'', ''qs_crypto_verify_total'', ''qs_crypto_vault_split_total'',
      ''qs_crypto_vault_reconstruct_total'', ''qs_crypto_token_issue_total'',
      ''qs_crypto_token_verify_total'', ''qs_crypto_token_revoke_total'',
      ''qs_crypto_channel_handshake_total'', ''qs_crypto_threshold_partial_total'',
      ''qs_crypto_threshold_authorised_total'', ''qs_crypto_errors_total'']"

definition op_help :: "string \<Rightarrow> string" where
  "op_help n = ''Total '' @ trim_prefix (trim_prefix n ''qs_crypto_'') ''qs_'' @ '' operations''"

definition RegisterCryptoMetrics :: "registry \<Rightarrow> registry option" where
  "RegisterCryptoMetrics r =
     Option.bind (fold (\<lambda>n m. Option.bind m (MustCounter n (op_help n))) crypto_ops (Some r))
       (\<lambda>r1. Option.bind (MustGauge ''qs_audit_log_entries'' ''Current number of entries in the audit log'' r1)
         (MustGauge ''qs_keystore_keys_total'' ''Total number of keys in the key store''))"

section \<open>The HTTP middleware\<close>

text \<open>The wrapped response writer remembers the status code of the response. When the handler panics
  nothing is recorded. \<open>get\<close> and \<open>upd\<close> give access to the registry; the two families are looked up when
  the middleware is built, and the program registers them before.\<close>

definition record_request :: "string \<Rightarrow> string \<Rightarrow> int \<Rightarrow> duration \<Rightarrow> registry \<Rightarrow> registry option" where
  "record_request verb path status took r =
     (case (gm_get (rg_counterVecs r) ''qs_http_requests_total'',
            gm_get (rg_histogramVecs r) ''qs_http_request_duration_seconds'') of
        (Some cv, Some hv) \<Rightarrow>
          Some (r\<lparr>rg_counterVecs := gm_put ''qs_http_requests_total''
                    (cv_Inc [(''method'', verb), (''path'', path), (''status'', dec_int status)] cv) (rg_counterVecs r),
                  rg_histogramVecs := gm_put ''qs_http_request_duration_seconds''
                    (hv_Observe [(''method'', verb), (''path'', path)] (dur_Seconds took) hv) (rg_histogramVecs r)\<rparr>)
      | _ \<Rightarrow> None)"

definition HTTPMiddleware ::
    "('s \<Rightarrow> registry) \<Rightarrow> ((registry \<Rightarrow> registry) \<Rightarrow> 's \<Rightarrow> 's) \<Rightarrow> ('r, 's) handler \<Rightarrow> ('r, 's) handler" where
  "HTTPMiddleware get upd nxt r w s =
     (case nxt r w s of
        (None, s') \<Rightarrow> (None, s')
      | (Some (w', resp), s') \<Rightarrow>
          (case record_request (hr_Method r) (normalizePath (get s') (hr_Path r)) (rs_Code resp) (hr_Took r) (get s') of
             None \<Rightarrow> (None, s')
           | Some reg \<Rightarrow> (Some (w', resp), upd (\<lambda>_. reg) s')))"

section \<open>The Prometheus text\<close>

definition sortedValues :: "(string, 'v) gomap \<Rightarrow> 'v list" where
  "sortedValues m = map snd (sort_key fst m)"

text \<open>\<open>fmt_g\<close> is the \<open>%g\<close> format of package fmt on finite numbers.\<close>

fun formatFloat :: "(rat \<Rightarrow> string) \<Rightarrow> float64 \<Rightarrow> string" where
  "formatFloat fmt_g PosInf = ''+Inf''"
| "formatFloat fmt_g NegInf = ''-Inf''"
| "formatFloat fmt_g NaN = ''NaN''"
| "formatFloat fmt_g (Fin x) = fmt_g x"

definition nl :: string where "nl = [CHR 0x0A]"

definition family_head :: "string \<Rightarrow> string \<Rightarrow> string \<Rightarrow> string" where
  "family_head name help kind =
     ''# HELP '' @ name @ '' '' @ help @ nl @ ''# TYPE '' @ name @ '' '' @ kind @ nl"

definition counter_text :: "counter \<Rightarrow> string" where
  "counter_text c =
     family_head (ct_name c) (ct_help c) ''counter'' @ ct_name c @ '' '' @ dec_int (ct_val c) @ nl"

definition counter_vec_text :: "counter_vec \<Rightarrow> string" where
  "counter_vec_text cv =
     family_head (cv_name cv) (cv_help cv) ''counter'' @
     concat (map (\<lambda>e. cv_name cv @ ce_labelStr e @ '' '' @ dec_int (ce_val e) @ nl) (sortedValues (cv_entries cv)))"

definition gauge_text :: "(rat \<Rightarrow> string) \<Rightarrow> gauge \<Rightarrow> string" where
  "gauge_text fmt_g g =
     family_head (gg_name g) (gg_help g) ''gauge'' @ gg_name g @ '' '' @ formatFloat fmt_g (gg_val g) @ nl"

definition quoted :: "string \<Rightarrow> string" where
  "quoted s = [CHR 0x22] @ s @ [CHR 0x22]"

definition histogram_text :: "(rat \<Rightarrow> string) \<Rightarrow> histogram \<Rightarrow> string" where
  "histogram_text fmt_g h =
     family_head (hs_name h) (hs_help h) ''histogram'' @
     concat (map2 (\<lambda>b n. hs_name h @ ''_bucket{le='' @ quoted (formatFloat fmt_g b) @ ''} '' @ dec_int n @ nl)
       (hs_buckets h) (hs_counts h)) @
     hs_name h @ ''_bucket{le='' @ quoted ''+Inf'' @ ''} '' @ dec_int (hs_total h) @ nl @
     hs_name h @ ''_sum '' @ formatFloat fmt_g (hs_sum h) @ nl @
     hs_name h @ ''_count '' @ dec_int (hs_total h) @ nl"

definition le_label :: "hv_entry \<Rightarrow> string \<Rightarrow> string" where
  "le_label e b = trim_suffix (he_labelStr e) ''}'' @ '',le='' @ quoted b @ ''}''"

definition hv_entry_text :: "(rat \<Rightarrow> string) \<Rightarrow> histogram_vec \<Rightarrow> hv_entry \<Rightarrow> string" where
  "hv_entry_text fmt_g hv e =
     concat (map2 (\<lambda>b n. hv_name hv @ ''_bucket'' @ le_label e (formatFloat fmt_g b) @ '' '' @ dec_int n @ nl)
       (hv_buckets hv) (he_counts e)) @
     hv_name hv @ ''_bucket'' @ le_label e ''+Inf'' @ '' '' @ dec_int (he_total e) @ nl @
     hv_name hv @ ''_sum'' @ he_labelStr e @ '' '' @ formatFloat fmt_g (he_sum e) @ nl @
     hv_name hv @ ''_count'' @ he_labelStr e @ '' '' @ dec_int (he_total e) @ nl"

definition histogram_vec_text :: "(rat \<Rightarrow> string) \<Rightarrow> histogram_vec \<Rightarrow> string" where
  "histogram_vec_text fmt_g hv =
     family_head (hv_name hv) (hv_help hv) ''histogram'' @
     concat (map (hv_entry_text fmt_g hv) (sortedValues (hv_entries hv)))"

definition metrics_text :: "(rat \<Rightarrow> string) \<Rightarrow> registry \<Rightarrow> string" where
  "metrics_text fmt_g r =
     concat (map counter_text (sortedValues (rg_counters r))) @
     concat (map counter_vec_text (sortedValues (rg_counterVecs r))) @
     concat (map (gauge_text fmt_g) (sortedValues (rg_gauges r))) @
     concat (map (histogram_text fmt_g) (sortedValues (rg_histograms r))) @
     concat (map (histogram_vec_text fmt_g) (sortedValues (rg_histogramVecs r)))"

definition metrics_Handler :: "(rat \<Rightarrow> string) \<Rightarrow> registry \<Rightarrow> headers \<Rightarrow> headers \<times> response" where
  "metrics_Handler fmt_g r w =
     (h_Set ''Content-Type'' ''text/plain; version=0.0.4; charset=utf-8'' w,
      \<lparr>rs_Code = StatusOK, rs_Body = PlainBody (metrics_text fmt_g r)\<rparr>)"

section \<open>Registered names\<close>

text \<open>\<open>metrics_ok\<close>: every name the program uses is registered. No operation removes one, so none of the
  program's uses of the registry panics.\<close>

definition metrics_ok :: "registry \<Rightarrow> bool" where
  "metrics_ok r \<longleftrightarrow>
     set crypto_ops \<subseteq> dom (gm_get (rg_counters r)) \<and>
     {''qs_audit_log_entries'', ''qs_keystore_keys_total''} \<subseteq> dom (gm_get (rg_gauges r)) \<and>
     gm_get (rg_counterVecs r) ''qs_http_requests_total'' \<noteq> None \<and>
     gm_get (rg_histogramVecs r) ''qs_http_request_duration_seconds'' \<noteq> None"

lemma counter_Add_ok:
  assumes "metrics_ok r" "name \<in> set crypto_ops"
  shows "\<exists>r'. counter_Add name n r = Some r' \<and> metrics_ok r'"
proof -
  obtain c where "gm_get (rg_counters r) name = Some c" using assms by (auto simp: metrics_ok_def)
  then have "counter_Add name n r = Some (r\<lparr>rg_counters := gm_put name (c\<lparr>ct_val := int64 (ct_val c + n)\<rparr>) (rg_counters r)\<rparr>)"
    by (simp add: counter_Add_def)
  moreover have "metrics_ok (r\<lparr>rg_counters := gm_put name x (rg_counters r)\<rparr>)" for x
    using assms unfolding metrics_ok_def by auto
  ultimately show ?thesis by blast
qed

lemma gauge_upd_ok:
  assumes "metrics_ok r" "name \<in> {''qs_audit_log_entries'', ''qs_keystore_keys_total''}"
  shows "\<exists>r'. gauge_upd f name r = Some r' \<and> metrics_ok r'"
proof -
  obtain g where "gm_get (rg_gauges r) name = Some g" using assms by (auto simp: metrics_ok_def)
  then have "gauge_upd f name r = Some (r\<lparr>rg_gauges := gm_put name (g\<lparr>gg_val := f (gg_val g)\<rparr>) (rg_gauges r)\<rparr>)"
    by (simp add: gauge_upd_def)
  moreover have "metrics_ok (r\<lparr>rg_gauges := gm_put name x (rg_gauges r)\<rparr>)" for x
    using assms unfolding metrics_ok_def by auto
  ultimately show ?thesis by blast
qed

lemma counter_Inc_ok:
  "metrics_ok r \<Longrightarrow> name \<in> set crypto_ops \<Longrightarrow> \<exists>r'. counter_Inc name r = Some r' \<and> metrics_ok r'"
  unfolding counter_Inc_def by (rule counter_Add_ok)

lemma gauge_Set_ok:
  "metrics_ok r \<Longrightarrow> name \<in> {''qs_audit_log_entries'', ''qs_keystore_keys_total''} \<Longrightarrow>
     \<exists>r'. gauge_Set name v r = Some r' \<and> metrics_ok r'"
  unfolding gauge_Set_def by (rule gauge_upd_ok)

lemma record_request_ok:
  assumes "metrics_ok r"
  shows "\<exists>r'. record_request m p st d r = Some r' \<and> metrics_ok r'"
proof -
  obtain cv hv where "gm_get (rg_counterVecs r) ''qs_http_requests_total'' = Some cv"
    "gm_get (rg_histogramVecs r) ''qs_http_request_duration_seconds'' = Some hv"
    using assms by (auto simp: metrics_ok_def)
  moreover have "metrics_ok (r\<lparr>rg_counterVecs := gm_put n x (rg_counterVecs r), rg_histogramVecs := gm_put n' y (rg_histogramVecs r)\<rparr>)"
    for n n' x y using assms unfolding metrics_ok_def by simp
  ultimately show ?thesis by (simp add: record_request_def)
qed

text \<open>The registration at start-up succeeds and registers what the program uses.\<close>

lemma fold_MustCounter:
  assumes "distinct ns" "\<And>n. n \<in> set ns \<Longrightarrow> gm_get (rg_counters r) n = None"
  shows "\<exists>r'. fold (\<lambda>n m. Option.bind m (MustCounter n (op_help n))) ns (Some r) = Some r' \<and>
    dom (gm_get (rg_counters r')) = dom (gm_get (rg_counters r)) \<union> set ns \<and>
    rg_gauges r' = rg_gauges r \<and> rg_counterVecs r' = rg_counterVecs r \<and>
    rg_histogramVecs r' = rg_histogramVecs r"
  using assms
proof (induction ns arbitrary: r)
  case (Cons n ns)
  let ?r = "r\<lparr>rg_counters := gm_put n \<lparr>ct_name = n, ct_help = op_help n, ct_val = 0\<rparr> (rg_counters r)\<rparr>"
  have "MustCounter n (op_help n) r = Some ?r" using Cons.prems by (simp add: MustCounter_def)
  moreover have "\<exists>r'. fold (\<lambda>n m. Option.bind m (MustCounter n (op_help n))) ns (Some ?r) = Some r' \<and>
    dom (gm_get (rg_counters r')) = dom (gm_get (rg_counters ?r)) \<union> set ns \<and>
    rg_gauges r' = rg_gauges ?r \<and> rg_counterVecs r' = rg_counterVecs ?r \<and>
    rg_histogramVecs r' = rg_histogramVecs ?r"
    using Cons.prems by (intro Cons.IH) auto
  ultimately show ?case by auto
qed simp

lemma distinct_crypto_ops: "distinct crypto_ops"
  by (simp add: crypto_ops_def)

lemma registration_ok:
  shows "\<exists>r0 r1 r. New_registry now = Some r0 \<and> RegisterHTTPMetrics r0 = Some r1 \<and>
    RegisterCryptoMetrics r1 = Some r \<and> metrics_ok r"
proof -
  let ?g = "\<lparr>gg_name = ''qs_process_start_time_seconds'', gg_help = ''Unix timestamp when the process started'',
    gg_val = f64_of_int (time_Unix now)\<rparr>"
  let ?r0 = "\<lparr>rg_counters = [], rg_gauges = [(''qs_process_start_time_seconds'', ?g)], rg_histograms = [], rg_counterVecs = [],
    rg_histogramVecs = [], rg_pathNormalizer = None, rg_startTime = now\<rparr>"
  have r0: "New_registry now = Some ?r0" by (simp add: New_registry_def MustGauge_def gauge_Set_def gauge_upd_def)
  then obtain r1 where r1: "RegisterHTTPMetrics ?r0 = Some r1" "rg_counters r1 = []" "rg_gauges r1 = rg_gauges ?r0"
    "gm_get (rg_counterVecs r1) ''qs_http_requests_total'' \<noteq> None"
    "gm_get (rg_histogramVecs r1) ''qs_http_request_duration_seconds'' \<noteq> None"
    by (simp add: RegisterHTTPMetrics_def MustCounterVec_def MustHistogramVec_def)
  obtain r2 where "fold (\<lambda>n m. Option.bind m (MustCounter n (op_help n))) crypto_ops (Some r1) = Some r2"
    "dom (gm_get (rg_counters r2)) = set crypto_ops" "rg_gauges r2 = rg_gauges r1"
    "rg_counterVecs r2 = rg_counterVecs r1" "rg_histogramVecs r2 = rg_histogramVecs r1"
    using fold_MustCounter [OF distinct_crypto_ops, of r1] r1(2) by auto
  then have "\<exists>r. RegisterCryptoMetrics r1 = Some r \<and> metrics_ok r"
    using r1 by (simp add: RegisterCryptoMetrics_def MustGauge_def metrics_ok_def)
  with r0 r1 show ?thesis by blast
qed

section \<open>Histograms and series\<close>

lemma int64_nat_Suc: "int (Suc n) < 2 ^ 63 \<Longrightarrow> int64 (int n + 1) = int (Suc n)"
  by (subst int64_id) simp_all

lemma bump_counts:
  assumes "length (vs @ [v]) < 2 ^ 63"
  shows "bump v bs (map (\<lambda>b. int (length (filter (\<lambda>x. f64_le x b) vs))) bs) =
     map (\<lambda>b. int (length (filter (\<lambda>x. f64_le x b) (vs @ [v])))) bs"
proof -
  have bound: "int (Suc (length (filter P vs))) < 2 ^ 63" for P
    using assms le_less_trans [OF length_filter_le [of P vs]] by simp
  show ?thesis
    by (induction bs) (use bound in \<open>auto simp: bump_def int64_nat_Suc simp del: of_nat_Suc\<close>)
qed

lemma observe_counts:
  assumes "length vs < 2 ^ 63" "he_counts e = replicate (length (he_buckets e)) 0" "he_total e = 0"
  shows "he_counts (fold he_Observe vs e) = map (\<lambda>b. int (length (filter (\<lambda>x. f64_le x b) vs))) (he_buckets e) \<and>
    he_total (fold he_Observe vs e) = int (length vs) \<and> he_buckets (fold he_Observe vs e) = he_buckets e"
  using assms(1)
proof (induction vs rule: rev_induct)
  case Nil
  show ?case using assms by (simp add: map_replicate_const)
next
  case (snoc v vs)
  then show ?case using bump_counts [of vs v "he_buckets e"] int64_nat_Suc [of "length vs"]
    by (simp add: he_Observe_def)
qed

text \<open>Distinct label sets are distinct series: the separators of the key do not occur in what they
  separate.\<close>

definition label_ok :: "(string, string) gomap \<Rightarrow> bool" where
  "label_ok m \<longleftrightarrow> gm_ok m \<and> (\<forall>(k, v) \<in> set m. CHR 0x00 \<notin> set k \<and> CHR ''='' \<notin> set k \<and> CHR 0x00 \<notin> set v)"

lemma split_eq: "CHR ''='' \<notin> set k \<Longrightarrow> CHR ''='' \<notin> set k' \<Longrightarrow> k @ ''='' @ v = k' @ ''='' @ v' \<longleftrightarrow> k = k' \<and> v = v'"
proof (induction k arbitrary: k')
  case Nil
  then show ?case by (cases k') auto
next
  case (Cons c k)
  then show ?case by (cases k') auto
qed

definition items :: "(string, string) gomap \<Rightarrow> string list" where
  "items m = map (\<lambda>k. k @ ''='' @ (case gm_get m k of None \<Rightarrow> [] | Some v \<Rightarrow> v)) (sort (gm_keys m))"

lemma items_no_nul: "label_ok m \<Longrightarrow> p \<in> set (items m) \<Longrightarrow> CHR 0x00 \<notin> set p"
  by (fastforce simp: items_def label_ok_def gm_keys_def dest: map_of_SomeD split: option.splits)

lemma join_Nil_iff: "(\<And>x. x \<in> set xs \<Longrightarrow> x \<noteq> []) \<Longrightarrow> join_with sep xs = [] \<longleftrightarrow> xs = []"
  by (induction xs rule: induct_list012) auto

lemma canonicalKey_items: "canonicalKey m = join_with [CHR 0x00] (items m)"
  by (simp add: canonicalKey_def items_def)

lemma split_items: "label_ok m \<Longrightarrow> items m \<noteq> [] \<Longrightarrow> split_on (CHR 0x00) (canonicalKey m) = items m"
  unfolding canonicalKey_items by (rule length_split_on_join) (auto dest: items_no_nul)

lemma canonicalKey_inj:
  assumes "label_ok m" "label_ok m'" "canonicalKey m = canonicalKey m'"
  shows "gm_get m = gm_get m'"
proof -
  have ne: "join_with sep (items m) = [] \<longleftrightarrow> items m = []" for m sep
    by (rule join_Nil_iff) (auto simp: items_def)
  have items: "items m = items m'"
  proof (cases "items m = [] \<or> items m' = []")
    case True
    then show ?thesis using assms(3) ne unfolding canonicalKey_items by metis
  next
    case False
    then show ?thesis using assms split_items by metis
  qed
  have eqfree: "CHR ''='' \<notin> set k" if "label_ok m" "k \<in> set (gm_keys m)" for m k
    using that by (auto simp: label_ok_def gm_keys_def)
  have keys: "sort (gm_keys m) = sort (gm_keys m')" and
    vals: "\<And>k. k \<in> set (gm_keys m) \<Longrightarrow> gm_get m k = gm_get m' k"
  proof -
    let ?f = "\<lambda>m k. k @ ''='' @ (case gm_get m k of None \<Rightarrow> [] | Some v \<Rightarrow> v)"
    have len: "length (sort (gm_keys m)) = length (sort (gm_keys m'))"
      using arg_cong [OF items, of length] by (simp add: items_def)
    have nth: "sort (gm_keys m) ! i = sort (gm_keys m') ! i \<and>
        (case gm_get m (sort (gm_keys m) ! i) of None \<Rightarrow> [] | Some v \<Rightarrow> v) =
        (case gm_get m' (sort (gm_keys m') ! i) of None \<Rightarrow> [] | Some v \<Rightarrow> v)"
      if i: "i < length (sort (gm_keys m))" for i
    proof -
      have "items m ! i = items m' ! i" using items by simp
      then have f: "?f m (sort (gm_keys m) ! i) = ?f m' (sort (gm_keys m') ! i)" using i len
        by (simp add: items_def)
      have a: "sort (gm_keys m) ! i \<in> set (gm_keys m)" using nth_mem [OF i] by simp
      have b: "sort (gm_keys m') ! i \<in> set (gm_keys m')" using nth_mem [OF i [unfolded len]] by simp
      show ?thesis by (rule iffD1 [OF split_eq [OF eqfree [OF assms(1) a] eqfree [OF assms(2) b]] f])
    qed
    show keys: "sort (gm_keys m) = sort (gm_keys m')" using len nth by (simp add: list_eq_iff_nth_eq)
    fix k assume k: "k \<in> set (gm_keys m)"
    then obtain i where i: "i < length (sort (gm_keys m))" "sort (gm_keys m) ! i = k"
      by (metis in_set_conv_nth set_sort)
    have "k \<in> set (gm_keys m')" using k keys by (metis set_sort)
    then show "gm_get m k = gm_get m' k" using nth [OF i(1)] i(2) k
      by (auto simp: gm_keys_iff)
  qed
  show ?thesis
  proof
    fix k show "gm_get m k = gm_get m' k"
      using vals keys by (metis gm_keys_iff set_sort)
  qed
qed

text \<open>The two families after a run of requests: each request a method, a normalized path, a status and a
  duration.\<close>

record seen =
  sn_method :: string
  sn_path :: string
  sn_status :: int
  sn_took :: duration

definition see :: "seen \<Rightarrow> registry option \<Rightarrow> registry option" where
  "see x m = Option.bind m (record_request (sn_method x) (sn_path x) (sn_status x) (sn_took x))"

definition request_labels :: "string \<Rightarrow> string \<Rightarrow> int \<Rightarrow> (string, string) gomap" where
  "request_labels m p st = [(''method'', m), (''path'', p), (''status'', dec_int st)]"

definition requests_total :: "string \<Rightarrow> string \<Rightarrow> int \<Rightarrow> registry \<Rightarrow> int" where
  "requests_total m p st r =
     (case gm_get (rg_counterVecs r) ''qs_http_requests_total'' of
        None \<Rightarrow> 0 | Some cv \<Rightarrow> cv_Value (request_labels m p st) cv)"

lemma dec_int_inj: "dec_int i = dec_int j \<longleftrightarrow> i = j"
proof
  assume "dec_int i = dec_int j"
  then have "dec_number (dec_int i @ []) = dec_number (dec_int j @ [])" by simp
  then show "i = j" using dec_number_int [of "[]"] by (simp add: json_stop_simps)
qed simp

lemma dec_int_no_nul: "CHR 0x00 \<notin> set (dec_int i)"
proof
  assume "CHR 0x00 \<in> set (dec_int i)"
  then have "CHR 0x00 \<in> set (dec_digits (nat \<bar>i\<bar>))" by (auto simp: dec_int_def split: if_splits)
  then have "is_digit (CHR 0x00)" by (rule dec_digits_digit)
  then show False by (simp add: is_digit_def code_def)
qed

lemma request_labels_key:
  assumes "CHR 0x00 \<notin> set m" "CHR 0x00 \<notin> set p" "CHR 0x00 \<notin> set m'" "CHR 0x00 \<notin> set p'"
  shows "canonicalKey (request_labels m p st) = canonicalKey (request_labels m' p' st') \<longleftrightarrow>
    m = m' \<and> p = p' \<and> st = st'"
proof
  assume "canonicalKey (request_labels m p st) = canonicalKey (request_labels m' p' st')"
  then have "gm_get (request_labels m p st) = gm_get (request_labels m' p' st')"
    using assms dec_int_no_nul
    by (intro canonicalKey_inj) (auto simp: label_ok_def request_labels_def gm_ok_def)
  then have "gm_get (request_labels m p st) k = gm_get (request_labels m' p' st') k" for k by simp
  from this [of "''method''"] this [of "''path''"] this [of "''status''"]
  show "m = m' \<and> p = p' \<and> st = st'" by (simp add: request_labels_def dec_int_inj)
qed simp

lemma cv_Value_Inc:
  "cv_Value l' (cv_Inc l cv) =
     (if canonicalKey l' = canonicalKey l then int64 (cv_Value l' cv + 1) else cv_Value l' cv)"
  by (auto simp: cv_Value_def cv_Inc_def cv_With_def cv_entry_Add_def Let_def split: option.split)

lemma requests_total_record:
  assumes "record_request (sn_method x) (sn_path x) (sn_status x) (sn_took x) r = Some r'"
    "CHR 0x00 \<notin> set m" "CHR 0x00 \<notin> set p" "CHR 0x00 \<notin> set (sn_method x)" "CHR 0x00 \<notin> set (sn_path x)"
  shows "requests_total m p st r' =
    (if sn_method x = m \<and> sn_path x = p \<and> sn_status x = st then int64 (requests_total m p st r + 1)
     else requests_total m p st r)"
  using assms request_labels_key [OF assms(2,3,4,5), of st "sn_status x"]
  by (auto simp: record_request_def requests_total_def request_labels_def cv_Value_Inc split: option.splits)

text \<open>C38. Each request is counted in the series of its method, path and status and in no other: after any
  run of requests the series' value is the number of requests with these three, however many other
  requests were served (methods and paths hold no NUL byte, which separates the labels of a key).\<close>

theorem requests_counted:
  assumes "metrics_ok r" and "length xs < 2 ^ 63" and "requests_total m p st r = 0"
    and nul: "\<And>x. x \<in> set xs \<Longrightarrow> CHR 0x00 \<notin> set (sn_method x) \<and> CHR 0x00 \<notin> set (sn_path x)"
      "CHR 0x00 \<notin> set m" "CHR 0x00 \<notin> set p"
  shows "\<exists>r'. fold see xs (Some r) = Some r' \<and> metrics_ok r' \<and>
    requests_total m p st r' =
      int (length (filter (\<lambda>x. sn_method x = m \<and> sn_path x = p \<and> sn_status x = st) xs))"
  using assms(2) nul(1)
proof (induction xs rule: rev_induct)
  case (snoc x xs)
  let ?P = "\<lambda>x. sn_method x = m \<and> sn_path x = p \<and> sn_status x = st"
  from snoc obtain r1 where r1: "fold see xs (Some r) = Some r1" "metrics_ok r1"
    "requests_total m p st r1 = int (length (filter ?P xs))" by auto
  obtain r2 where r2: "record_request (sn_method x) (sn_path x) (sn_status x) (sn_took x) r1 = Some r2" "metrics_ok r2"
    using record_request_ok [OF r1(2)] by blast
  have "int (Suc (length (filter ?P xs))) < 2 ^ 63"
    using snoc.prems(1) le_less_trans [OF length_filter_le [of ?P xs]] by simp
  then have "requests_total m p st r2 = int (length (filter ?P (xs @ [x])))"
    using requests_total_record [OF r2(1) nul(2,3), of st] snoc.prems(2) [of x] r1(3) int64_nat_Suc by auto
  moreover have "see x (Some r1) = Some r2" using r2 by (simp add: see_def)
  ultimately show ?case using r1(1) r2(2) by simp
qed (use assms in auto)

definition demo_registry :: registry where
  "demo_registry =
     \<lparr>rg_counters = map (\<lambda>n. (n, \<lparr>ct_name = n, ct_help = op_help n, ct_val = 0\<rparr>)) crypto_ops,
      rg_gauges = map (\<lambda>n. (n, \<lparr>gg_name = n, gg_help = [], gg_val = Fin 0\<rparr>))
        [''qs_audit_log_entries'', ''qs_keystore_keys_total''],
      rg_histograms = [],
      rg_counterVecs = [(''qs_http_requests_total'', \<lparr>cv_name = ''qs_http_requests_total'', cv_help = [], cv_entries = []\<rparr>)],
      rg_histogramVecs = [(''qs_http_request_duration_seconds'',
        \<lparr>hv_name = ''qs_http_request_duration_seconds'', hv_help = [], hv_buckets = [], hv_entries = []\<rparr>)],
      rg_pathNormalizer = None, rg_startTime = 0\<rparr>"

lemma demo_registry_ok [simp]: "metrics_ok demo_registry"
  by (auto simp: metrics_ok_def demo_registry_def map_of_map_restrict crypto_ops_def)

theorem requests_counted_witness:
  "\<exists>r'. fold see [\<lparr>sn_method = ''GET'', sn_path = ''/keys'', sn_status = 200, sn_took = 5\<rparr>,
      \<lparr>sn_method = ''GET'', sn_path = ''/keys'', sn_status = 401, sn_took = 5\<rparr>,
      \<lparr>sn_method = ''GET'', sn_path = ''/keys'', sn_status = 200, sn_took = 7\<rparr>] (Some demo_registry) = Some r' \<and>
    metrics_ok r' \<and> requests_total ''GET'' ''/keys'' 200 r' = 2"
proof -
  have "requests_total ''GET'' ''/keys'' 200 demo_registry = 0"
    by (simp add: requests_total_def demo_registry_def cv_Value_def)
  then have "\<exists>r'. fold see [\<lparr>sn_method = ''GET'', sn_path = ''/keys'', sn_status = 200, sn_took = 5\<rparr>,
      \<lparr>sn_method = ''GET'', sn_path = ''/keys'', sn_status = 401, sn_took = 5\<rparr>,
      \<lparr>sn_method = ''GET'', sn_path = ''/keys'', sn_status = 200, sn_took = 7\<rparr>] (Some demo_registry) = Some r' \<and>
    metrics_ok r' \<and> requests_total ''GET'' ''/keys'' 200 r' =
      int (length (filter (\<lambda>x. sn_method x = ''GET'' \<and> sn_path x = ''/keys'' \<and> sn_status x = 200)
        [\<lparr>sn_method = ''GET'', sn_path = ''/keys'', sn_status = 200, sn_took = 5\<rparr>,
         \<lparr>sn_method = ''GET'', sn_path = ''/keys'', sn_status = 401, sn_took = 5\<rparr>,
         \<lparr>sn_method = ''GET'', sn_path = ''/keys'', sn_status = 200, sn_took = 7\<rparr>]))"
    by (intro requests_counted) auto
  then show ?thesis by simp
qed

end
