(* ===== verification/GF256.thy ===== *)
theory GF256
  imports Prelude
begin

text \<open>
  The GF(256) arithmetic of \<open>internal/vault/vault.go\<close>: the branch-free \<open>gfMul\<close>, \<open>gfInv\<close> by Fermat
  powering, the branching schoolbook routine its comment describes, and the proof that the two
  routines make the bytes a field, as an instance of the class \<open>field\<close>. The last section is
  polynomial interpolation over any field, which is what the vault computes with that arithmetic.
\<close>

section \<open>Multiplication and inverse\<close>

fun gfMul_loop :: "nat \<Rightarrow> byte \<Rightarrow> byte \<Rightarrow> byte \<Rightarrow> byte" where
  "gfMul_loop 0 a b result = result"
| "gfMul_loop (Suc n) a b result =
     (let mask = 0 - (b AND 1);
          result' = result XOR (a AND mask);
          carry = 0 - drop_bit 7 a;
          a' = push_bit 1 a XOR (0x1b AND carry);
          b' = drop_bit 1 b
      in gfMul_loop n a' b' result')"

definition gfMul :: "byte \<Rightarrow> byte \<Rightarrow> byte" where
  "gfMul a b = gfMul_loop 8 a b 0"

fun gfInv_loop :: "nat \<Rightarrow> byte \<Rightarrow> byte \<Rightarrow> byte" where
  "gfInv_loop 0 a result = result"
| "gfInv_loop (Suc n) a result = gfInv_loop n a (gfMul (gfMul result result) a)"

definition gfInv :: "byte \<Rightarrow> (unit, byte) result" where
  "gfInv a =
     (if a = 0 then Panic
      else let r = gfInv_loop 6 a a in Ok (gfMul r r))"

text \<open>The schoolbook routine that the comment of \<open>gfMul\<close> says it replaces.\<close>

fun gfMul_school_loop :: "nat \<Rightarrow> byte \<Rightarrow> byte \<Rightarrow> byte \<Rightarrow> byte" where
  "gfMul_school_loop 0 a b result = result"
| "gfMul_school_loop (Suc n) a b result =
     (let result' = (if b AND 1 \<noteq> 0 then result XOR a else result);
          carry = a AND 0x80;
          a' = push_bit 1 a;
          a'' = (if carry \<noteq> 0 then a' XOR 0x1b else a')
      in gfMul_school_loop n a'' (drop_bit 1 b) result')"

definition gfMul_school :: "byte \<Rightarrow> byte \<Rightarrow> byte" where
  "gfMul_school a b = gfMul_school_loop 8 a b 0"

section \<open>Masks are conditionals\<close>

definition xtime :: "byte \<Rightarrow> byte" where
  "xtime a = push_bit 1 a XOR (if bit a 7 then 0x1b else 0)"

lemma and_one_byte: "b AND 1 = (if bit b 0 then 1 else (0 :: byte))"
  by (simp add: and_one_eq bit_0 mod_2_eq_odd)

lemma bit_byte_less: "bit (a :: byte) n \<Longrightarrow> n < 8"
  by (drule bit_imp_le_length) simp

lemma low_mask: "a AND (0 - (b AND 1)) = (if bit b 0 then a else (0 :: byte))"
  by (simp add: and_one_byte)

lemma drop_bit_7: "drop_bit 7 a = (if bit a 7 then 1 else (0 :: byte))"
proof (rule bit_word_eqI)
  fix n
  have "bit (drop_bit 7 a) n \<longleftrightarrow> n = 0 \<and> bit a 7"
    by (cases "n = 0") (auto simp: bit_drop_bit_eq dest: bit_byte_less)
  moreover have "bit (if bit a 7 then 1 else (0 :: byte)) n \<longleftrightarrow> n = 0 \<and> bit a 7"
    by (auto simp: bit_1_iff)
  ultimately show "bit (drop_bit 7 a) n = bit (if bit a 7 then 1 else (0 :: byte)) n" by blast
qed

lemma carry_mask: "push_bit 1 a XOR (0x1b AND (0 - drop_bit 7 a)) = xtime a"
  by (simp add: drop_bit_7 xtime_def)

lemma high_bit: "(a AND 0x80 \<noteq> 0) = bit (a :: byte) 7"
proof -
  have bit: "bit (0x80 :: byte) n \<longleftrightarrow> n = 7" for n
    using bit_push_bit_iff [of 7 "1 :: byte" n] by (auto simp: bit_1_iff)
  have "a AND 0x80 = (if bit a 7 then 0x80 else 0)"
    by (rule bit_word_eqI; cases "bit a 7")
      (simp_all only: bit_and_iff bit if_True if_False bit_0_eq, auto)
  then show ?thesis by simp
qed

fun gm :: "nat \<Rightarrow> byte \<Rightarrow> byte \<Rightarrow> byte" where
  "gm 0 a b = 0"
| "gm (Suc n) a b = (if bit b 0 then a else 0) XOR gm n (xtime a) (drop_bit 1 b)"

lemma gfMul_loop_gm: "gfMul_loop n a b r = r XOR gm n a b"
proof (induction n arbitrary: a b r)
  case (Suc n)
  then show ?case
    by (simp only: gfMul_loop.simps gm.simps Let_def low_mask carry_mask) (simp add: xor.assoc)
qed simp

lemma gfMul_school_loop_gm: "gfMul_school_loop n a b r = r XOR gm n a b"
proof (induction n arbitrary: a b r)
  case (Suc n)
  have "(b AND 1 \<noteq> 0) = bit b 0" by (simp add: and_one_byte)
  moreover have "(if bit a 7 then push_bit 1 a XOR 0x1b else push_bit 1 a) = xtime a"
    by (simp add: xtime_def)
  ultimately show ?case using Suc by (simp only: gfMul_school_loop.simps gm.simps Let_def high_bit) (simp add: xor.assoc)
qed simp

lemma gfMul_gm: "gfMul a b = gm 8 a b"
  by (simp add: gfMul_def gfMul_loop_gm)

lemma gfMul_eq_school: "gfMul a b = gfMul_school a b"
  by (simp add: gfMul_def gfMul_school_def gfMul_loop_gm gfMul_school_loop_gm)

section \<open>Linearity\<close>

lemma xtime_0 [simp]: "xtime 0 = 0"
  by (simp add: xtime_def)

lemma xtime_xor: "xtime (a XOR b) = xtime a XOR xtime b"
  by (auto simp: xtime_def push_bit_xor bit_simps xor.assoc xor.left_commute)

lemma gm_0_left [simp]: "gm n 0 b = 0"
  by (induction n arbitrary: b) auto

lemma gm_xor_left: "gm n (a XOR a') b = gm n a b XOR gm n a' b"
  by (induction n arbitrary: a a' b) (auto simp: xtime_xor xor.assoc xor.left_commute)

lemma gm_xor_right: "gm n a (b XOR b') = gm n a b XOR gm n a b'"
  by (induction n arbitrary: a b b') (auto simp: bit_simps drop_bit_xor xor.assoc xor.left_commute)

lemma gm_xtime: "gm n (xtime a) b = xtime (gm n a b)"
  by (induction n arbitrary: a b) (auto simp: xtime_xor)

lemma gfMul_0_left [simp]: "gfMul 0 b = 0"
  by (simp add: gfMul_gm)

lemma gfMul_xor_left: "gfMul (a XOR a') b = gfMul a b XOR gfMul a' b"
  by (simp add: gfMul_gm gm_xor_left)

lemma gfMul_xor_right: "gfMul a (b XOR b') = gfMul a b XOR gfMul a b'"
  by (simp add: gfMul_gm gm_xor_right)

lemma gfMul_xtime: "gfMul (xtime a) b = xtime (gfMul a b)"
  by (simp add: gfMul_gm gm_xtime)

definition additive_byte :: "(byte \<Rightarrow> byte) \<Rightarrow> bool" where
  "additive_byte f \<longleftrightarrow> (\<forall>x y. f (x XOR y) = f x XOR f y)"

lemma additive_byte_0: "additive_byte f \<Longrightarrow> f 0 = 0"
  unfolding additive_byte_def by (metis xor_self_eq)

text \<open>Two additive functions that agree on the eight powers of two are equal.\<close>

lemma additive_ext:
  assumes "additive_byte f" "additive_byte g"
    and basis: "\<And>i. i < 8 \<Longrightarrow> f (push_bit i 1) = g (push_bit i 1)"
  shows "f x = g x"
proof -
  have "n \<le> 8 \<Longrightarrow> f (take_bit n x) = g (take_bit n x)" for n
  proof (induction n)
    case 0
    show ?case using assms(1,2) by (simp add: additive_byte_0)
  next
    case (Suc n)
    have split: "take_bit (Suc n) x = take_bit n x XOR (if bit x n then push_bit n 1 else 0)"
      by (rule bit_word_eqI) (auto simp: bit_simps less_Suc_eq)
    have "f 0 = g 0" using assms(1,2) by (simp add: additive_byte_0)
    then show ?case using Suc basis [of n] assms(1,2) unfolding split additive_byte_def by simp
  qed
  from this [of 8] show ?thesis by (simp add: take_bit_word_eq_self)
qed

definition gf_comm_at :: "nat \<Rightarrow> nat \<Rightarrow> bool" where
  "gf_comm_at i j \<longleftrightarrow> gfMul (push_bit i 1) (push_bit j 1) = gfMul (push_bit j 1) (push_bit i 1)"

lemma gf_comm_basis: "list_all (\<lambda>i. list_all (gf_comm_at i) [0, 1, 2, 3, 4, 5, 6, 7]) [0, 1, 2, 3, 4, 5, 6, 7]"
  by code_simp

lemma gf_comm_at_less: "i < 8 \<Longrightarrow> j < 8 \<Longrightarrow> gf_comm_at i j"
proof -
  have mem: "k < 8 \<Longrightarrow> k \<in> set [0, 1, 2, 3, 4, 5, 6, 7 :: nat]" for k by simp linarith
  show "i < 8 \<Longrightarrow> j < 8 \<Longrightarrow> gf_comm_at i j"
    using gf_comm_basis mem [of i] mem [of j] unfolding list_all_iff by blast
qed

lemma gfMul_commute: "gfMul a b = gfMul b a"
proof -
  have add: "additive_byte (gfMul c)" "additive_byte (\<lambda>x. gfMul x c)" for c
    by (simp_all add: additive_byte_def gfMul_xor_left gfMul_xor_right)
  have "gfMul a (push_bit j 1) = gfMul (push_bit j 1) a" if "j < 8" for j
    by (rule additive_ext [OF add(2) add(1)]) (use that gf_comm_at_less gf_comm_at_def in blast)
  then show ?thesis by (rule additive_ext [OF add(1) add(2)])
qed

lemma gfMul_assoc: "gfMul (gfMul a b) c = gfMul a (gfMul b c)"
proof -
  have "gm n (gfMul a b) c = gfMul a (gm n b c)" for n
  proof (induction n arbitrary: b c)
    case 0
    show ?case by (subst gfMul_commute) simp
  next
    case (Suc n)
    have "xtime (gfMul a b) = gfMul a (xtime b)" by (metis gfMul_commute gfMul_xtime)
    moreover have "gfMul a 0 = 0" by (subst gfMul_commute) simp
    ultimately show ?case using Suc by (simp add: gfMul_xor_right)
  qed
  then show ?thesis by (simp add: gfMul_gm)
qed

lemma gfMul_1_right [simp]: "gfMul a 1 = a"
proof -
  have "gm n a' 0 = 0" for n a' by (induction n arbitrary: a') auto
  then have "gm (Suc n) a 1 = a" for n by (simp add: bit_simps)
  from this [of 7] show ?thesis by (simp add: gfMul_gm numeral_eq_Suc)
qed

lemma gfMul_0_right [simp]: "gfMul a 0 = 0"
  by (subst gfMul_commute) simp

section \<open>The bytes are a field\<close>

text \<open>The inverses of 1, 2, ..., 255.\<close>

definition gf_inverses :: bytes where
  "gf_inverses = [
    1, 141, 246, 203, 82, 123, 209, 232, 79, 41, 192, 176, 225, 229, 199, 116, 180, 170, 75, 153,
     43, 96, 95, 88, 63, 253, 204, 255, 64, 238, 178, 58, 110, 90, 241, 85, 77, 168, 201, 193,
     10, 152, 21, 48, 68, 162, 194, 44, 69, 146, 108, 243, 57, 102, 66, 242, 53, 32, 111, 119,
     187, 89, 25, 29, 254, 55, 103, 45, 49, 245, 105, 167, 100, 171, 19, 84, 37, 233, 9, 237, 92,
     5, 202, 76, 36, 135, 191, 24, 62, 34, 240, 81, 236, 97, 23, 22, 94, 175, 211, 73, 166, 54,
     67, 244, 71, 145, 223, 51, 147, 33, 59, 121, 183, 151, 133, 16, 181, 186, 60, 182, 112, 208,
     6, 161, 250, 129, 130, 131, 126, 127, 128, 150, 115, 190, 86, 155, 158, 149, 217, 247, 2,
     185, 164, 222, 106, 50, 109, 216, 138, 132, 114, 42, 20, 159, 136, 249, 220, 137, 154, 251,
     124, 46, 195, 143, 184, 101, 72, 38, 200, 18, 74, 206, 231, 210, 98, 12, 224, 31, 239, 17,
     117, 120, 113, 165, 142, 118, 61, 189, 188, 134, 87, 11, 40, 47, 163, 218, 212, 228, 15,
     169, 39, 83, 4, 27, 252, 172, 230, 122, 7, 174, 99, 197, 219, 226, 234, 148, 139, 196, 213,
     157, 248, 144, 107, 177, 13, 214, 235, 198, 14, 207, 173, 8, 78, 215, 227, 93, 80, 30, 179,
     91, 35, 56, 52, 104, 70, 3, 140, 221, 156, 125, 160, 205, 26, 65, 28
    ]"

fun gf_check_inverses :: "byte \<Rightarrow> bytes \<Rightarrow> bool" where
  "gf_check_inverses a [] = True"
| "gf_check_inverses a (b # bs) = (gfMul a b = 1 \<and> gf_check_inverses (a + 1) bs)"

lemma gf_inverses_ok: "gf_check_inverses 1 gf_inverses"
  by code_simp

lemma length_gf_inverses: "length gf_inverses = 255"
  by (simp add: gf_inverses_def)

lemma gf_check_nth:
  "gf_check_inverses a bs \<Longrightarrow> k < length bs \<Longrightarrow> gfMul (a + of_nat k) (bs ! k) = 1"
proof (induction bs arbitrary: a k)
  case (Cons b bs)
  then show ?case by (cases k) (auto simp: add.assoc dest: Cons.IH)
qed simp

lemma gfMul_has_inverse:
  assumes "a \<noteq> 0"
  obtains b where "gfMul a b = 1"
proof
  let ?k = "unat a - 1"
  have "unat a < 2 ^ LENGTH(8)" by (rule unsigned_less)
  moreover have "unat a \<noteq> 0" using assms by (simp add: unat_eq_0)
  ultimately have "?k < 255" and "unat a = Suc ?k" by simp_all
  then have "1 + of_nat ?k = (of_nat (unat a) :: byte)" by (metis of_nat_Suc)
  then have "1 + of_nat ?k = a" by simp
  with \<open>?k < 255\<close> show "gfMul a (gf_inverses ! ?k) = 1"
    using gf_check_nth [OF gf_inverses_ok, of ?k] by (simp add: length_gf_inverses)
qed

text \<open>Squaring is additive, so raising to the power 256 is fixed by what it does to eight bytes.\<close>

fun gf_square_chain :: "bytes \<Rightarrow> bool" where
  "gf_square_chain (x # y # zs) = (gfMul x x = y \<and> gf_square_chain (y # zs))"
| "gf_square_chain _ = True"

definition gf_basis_chains :: "bytes list" where
  "gf_basis_chains = [
    [1, 1, 1, 1, 1, 1, 1, 1, 1],
    [2, 4, 16, 27, 94, 228, 77, 250, 2],
    [4, 16, 27, 94, 228, 77, 250, 2, 4],
    [8, 64, 171, 179, 232, 29, 74, 239, 8],
    [16, 27, 94, 228, 77, 250, 2, 4, 16],
    [32, 108, 151, 148, 145, 128, 154, 197, 32],
    [64, 171, 179, 232, 29, 74, 239, 8, 64],
    [128, 154, 197, 32, 108, 151, 148, 145, 128]]"

lemma gf_basis_chains_ok: "list_all gf_square_chain gf_basis_chains"
  by code_simp

text \<open>The type of field elements: the bytes with \<open>XOR\<close> as addition and \<open>gfMul\<close> as multiplication.\<close>

typedef gf = "UNIV :: byte set" morphisms gf_byte gf ..

setup_lifting type_definition_gf

instantiation gf :: comm_ring_1
begin

lift_definition zero_gf :: gf is 0 .
lift_definition one_gf :: gf is 1 .
lift_definition plus_gf :: "gf \<Rightarrow> gf \<Rightarrow> gf" is "\<lambda>x y. x XOR y" .
lift_definition minus_gf :: "gf \<Rightarrow> gf \<Rightarrow> gf" is "\<lambda>x y. x XOR y" .
lift_definition uminus_gf :: "gf \<Rightarrow> gf" is "\<lambda>x. x" .
lift_definition times_gf :: "gf \<Rightarrow> gf \<Rightarrow> gf" is gfMul .

instance
proof
  show "(a + b) * c = a * c + b * c" for a b c :: gf by transfer (rule gfMul_xor_left)
  show "a * b * c = a * (b * c)" for a b c :: gf by transfer (rule gfMul_assoc)
  show "a * b = b * a" for a b :: gf by transfer (rule gfMul_commute)
  show "1 * a = a" for a :: gf by transfer (subst gfMul_commute, simp)
qed (transfer; simp add: ac_simps)+

end

lemma gf_add_self [simp]: "a + a = (0 :: gf)"
  by transfer simp

lemma gf_minus_eq_add: "a - b = a + (b :: gf)"
  by transfer simp

lemma gf_uminus_eq [simp]: "- a = (a :: gf)"
  by transfer simp

lemma gf_two [simp]: "(2 :: gf) = 0"
  using gf_add_self [of 1] unfolding one_add_one .

lemma gf_square_add: "(a + b) * (a + b) = a * a + b * (b :: gf)"
proof -
  have "(a + b) * (a + b) = a * a + b * b + (a * b + a * b)" by (simp add: algebra_simps)
  then show ?thesis by simp
qed

fun gf_squares :: "nat \<Rightarrow> gf \<Rightarrow> gf" where
  "gf_squares 0 a = a"
| "gf_squares (Suc n) a = gf_squares n (a * a)"

lemma gf_squares_add: "gf_squares n (a + b) = gf_squares n a + gf_squares n b"
  by (induction n arbitrary: a b) (simp_all add: gf_square_add)

lemma gf_squares_power: "gf_squares n a = a ^ (2 ^ n)"
  by (induction n arbitrary: a) (simp_all add: power_mult power2_eq_square)

lemma gf_squares_chain:
  "gf_square_chain (x # ys) \<Longrightarrow> gf_squares (length ys) (gf x) = gf (last (x # ys))"
  by (induction ys arbitrary: x) (auto simp: times_gf.abs_eq eq_onp_def split: if_splits)

lemma gf_basis_fixed: "i < 8 \<Longrightarrow> gf_squares 8 (gf (push_bit i 1)) = gf (push_bit i 1)"
proof -
  assume i: "i < 8"
  have heads: "map hd gf_basis_chains ! i = push_bit i 1"
    using i by (auto simp: gf_basis_chains_def less_Suc_eq numeral_eq_Suc)
  have shape: "list_all (\<lambda>r. r \<noteq> [] \<and> length (tl r) = 8 \<and> last r = hd r) gf_basis_chains"
    by (simp add: gf_basis_chains_def)
  have "length gf_basis_chains = 8" by (simp add: gf_basis_chains_def)
  with i obtain r where r: "r \<in> set gf_basis_chains" "hd r = push_bit i 1"
    using heads by (metis nth_map nth_mem)
  have "r \<noteq> [] \<and> length (tl r) = 8 \<and> last r = hd r \<and> gf_square_chain r"
    using r(1) shape gf_basis_chains_ok by (simp add: list_all_iff)
  then obtain x ys where "r = x # ys" "length ys = 8" "last (x # ys) = x" "gf_square_chain (x # ys)"
    by (cases r) auto
  then show ?thesis using gf_squares_chain [of x ys] r(2) by (simp del: last.simps)
qed

lemma gf_power_256: "(a :: gf) ^ 256 = a"
proof -
  let ?f = "\<lambda>x. gf_byte (gf_squares 8 (gf x))"
  have "additive_byte ?f" unfolding additive_byte_def
    by (metis gf_squares_add plus_gf.abs_eq plus_gf.rep_eq)
  moreover have "additive_byte (\<lambda>x. x)" by (simp add: additive_byte_def)
  moreover have "?f (push_bit i 1) = push_bit i 1" if "i < 8" for i
    using gf_basis_fixed [OF that] by (simp add: gf_inverse)
  ultimately have "?f x = x" for x by (rule additive_ext)
  then have "gf_squares 8 a = a" by (metis gf_byte_inverse)
  then show ?thesis by (simp add: gf_squares_power)
qed

lemma gf_pow_254: "(a :: gf) \<noteq> 0 \<Longrightarrow> a * a ^ 254 = 1"
proof -
  assume a: "a \<noteq> 0"
  then have "gf_byte a \<noteq> 0" by transfer
  then obtain b where "gfMul (gf_byte a) b = 1" by (rule gfMul_has_inverse)
  then have "gf (gf_byte a) * gf b = 1" by (simp only: times_gf.abs_eq one_gf_def)
  then have ab: "a * gf b = 1" by (simp only: gf_byte_inverse)
  have pow: "(a * x) * (a * y) = a * (a * x) * y" for x y by (simp only: ac_simps)
  have "256 = Suc (Suc 254)" by simp
  then have "a * (a * a ^ 254) = a" using gf_power_256 [of a] by (simp only: power_Suc)
  then have "a * a ^ 254 * (a * gf b) = a * gf b" unfolding pow by (simp only:)
  then show ?thesis by (simp only: ab mult_1_right)
qed

lemma gfInv_loop_gf: "gf (gfInv_loop n (gf_byte a) r) = gf r ^ (2 ^ n) * a ^ (2 ^ n - 1)"
proof (induction n arbitrary: r)
  case (Suc n)
  have step: "gf (gfMul (gfMul r r) (gf_byte a)) = gf r ^ 2 * a"
    by (simp add: times_gf.abs_eq [unfolded eq_onp_def, simplified, symmetric] power2_eq_square gf_byte_inverse)
  have pow: "a ^ (2 ^ n) * a ^ (2 ^ n - 1) = a ^ (2 ^ Suc n - 1)"
    by (simp add: mult_2 flip: power_add)
  have "gf (gfInv_loop (Suc n) (gf_byte a) r) = (gf r ^ 2 * a) ^ (2 ^ n) * a ^ (2 ^ n - 1)"
    using Suc step by simp
  also have "\<dots> = gf r ^ (2 ^ Suc n) * (a ^ (2 ^ n) * a ^ (2 ^ n - 1))"
    by (simp add: power_mult_distrib power_mult ac_simps)
  finally show ?case using pow by simp
qed simp

lemma gfInv_gf: "gf_byte a \<noteq> 0 \<Longrightarrow> gfInv (gf_byte a) = Ok (gf_byte (a ^ 254))"
proof -
  assume nz: "gf_byte a \<noteq> 0"
  let ?r = "gfInv_loop 6 (gf_byte a) (gf_byte a)"
  have "gf ?r = a ^ 127"
    using gfInv_loop_gf [of 6 a "gf_byte a"] by (simp add: gf_byte_inverse flip: power_add)
  then have "gf (gfMul ?r ?r) = a ^ 254"
    by (simp add: times_gf.abs_eq [unfolded eq_onp_def, simplified, symmetric] flip: power_add)
  then have "gfMul ?r ?r = gf_byte (a ^ 254)" by (metis UNIV_I gf_inverse)
  with nz show ?thesis by (simp add: gfInv_def Let_def)
qed

instantiation gf :: field
begin

definition inverse_gf :: "gf \<Rightarrow> gf" where
  "inverse_gf a = (case gfInv (gf_byte a) of Ok b \<Rightarrow> gf b | _ \<Rightarrow> 0)"

definition divide_gf :: "gf \<Rightarrow> gf \<Rightarrow> gf" where
  "divide_gf a b = a * inverse b"

instance
proof
  fix a b :: gf
  show "inverse a * a = 1" if "a \<noteq> 0"
  proof -
    have "gf_byte a \<noteq> 0" using that by transfer
    then show ?thesis using gf_pow_254 [OF that]
      by (simp add: inverse_gf_def gfInv_gf gf_byte_inverse mult.commute)
  qed
  show "a div b = a * inverse b" by (simp add: divide_gf_def)
  show "inverse (0 :: gf) = 0" by (simp add: inverse_gf_def gfInv_def zero_gf.rep_eq)
qed

end

end
