(* ===== verification/Interpolation.thy ===== *)
theory Interpolation
  imports Prelude
begin

text \<open>
  Polynomials over a field as coefficient lists, and Lagrange interpolation: a polynomial with
  \<open>k\<close> coefficients is determined by its values at \<open>k\<close> distinct points, and every choice of values
  is taken by one. The secret sharing of \<open>internal/vault\<close> is an instance of it.
\<close>

section \<open>Polynomial functions\<close>

fun horner :: "'a :: comm_ring_1 list \<Rightarrow> 'a \<Rightarrow> 'a" where
  "horner [] x = 0"
| "horner (c # cs) x = c + x * horner cs x"

definition is_poly :: "nat \<Rightarrow> ('a :: comm_ring_1 \<Rightarrow> 'a) \<Rightarrow> bool" where
  "is_poly n f \<longleftrightarrow> (\<exists>cs. length cs = n \<and> f = horner cs)"

lemma is_poly_horner: "is_poly (length cs) (horner cs)"
  by (auto simp: is_poly_def)

lemma horner_0 [simp]: "cs \<noteq> [] \<Longrightarrow> horner cs 0 = hd cs"
  by (cases cs) auto

lemma horner_add: "length as = length bs \<Longrightarrow> horner as x + horner bs x = horner (map2 (+) as bs) x"
proof (induction as bs rule: list_induct2)
  case (Cons a as b bs)
  then have "x * horner (map2 (+) as bs) x = x * horner as x + x * horner bs x"
    by (metis distrib_left)
  then show ?case by (simp add: ac_simps)
qed simp

lemma is_poly_add: "is_poly n f \<Longrightarrow> is_poly n g \<Longrightarrow> is_poly n (\<lambda>x. f x + g x)"
proof -
  assume "is_poly n f" "is_poly n g"
  then obtain as bs where *: "length as = n" "length bs = n" "f = horner as" "g = horner bs"
    by (auto simp: is_poly_def)
  then have "(\<lambda>x. f x + g x) = horner (map2 (+) as bs)" by (auto simp: horner_add)
  then show ?thesis using * by (auto simp: is_poly_def intro!: exI [of _ "map2 (+) as bs"])
qed

lemma horner_scale: "c * horner as x = horner (map ((*) c) as) x"
proof (induction as)
  case (Cons a as)
  then have "x * horner (map ((*) c) as) x = c * (x * horner as x)"
    by (metis mult.left_commute)
  then show ?case by (simp add: distrib_left)
qed simp

lemma is_poly_scale: "is_poly n f \<Longrightarrow> is_poly n (\<lambda>x. c * f x)"
  unfolding is_poly_def
  by (elim exE conjE, rule_tac x = "map ((*) c) cs" in exI) (auto simp: horner_scale)

lemma horner_snoc_0: "horner (as @ [0]) x = horner as x"
  by (induction as) auto

lemma is_poly_Suc: "is_poly n f \<Longrightarrow> is_poly (Suc n) f"
  unfolding is_poly_def
  by (elim exE conjE, rule_tac x = "cs @ [0]" in exI) (auto simp: horner_snoc_0)

lemma is_poly_shift: "is_poly n f \<Longrightarrow> is_poly (Suc n) (\<lambda>x. x * f x)"
  unfolding is_poly_def
  by (elim exE conjE, rule_tac x = "0 # cs" in exI) auto

lemma is_poly_const: "is_poly 1 (\<lambda>x. c)"
  unfolding is_poly_def by (rule exI [of _ "[c]"]) auto

lemma is_poly_linear: "is_poly n f \<Longrightarrow> is_poly (Suc n) (\<lambda>x. (x - a) * f x)"
proof -
  assume f: "is_poly n f"
  have "is_poly (Suc n) (\<lambda>x. x * f x + - a * f x)"
    by (rule is_poly_add [OF is_poly_shift [OF f] is_poly_Suc [OF is_poly_scale [OF f]]])
  then show ?thesis by (simp add: algebra_simps)
qed

lemma is_poly_zero: "is_poly n (\<lambda>x. 0)"
proof -
  have "horner (replicate n 0) x = 0" for x :: 'a by (induction n) auto
  then show ?thesis unfolding is_poly_def by (intro exI [of _ "replicate n 0"]) auto
qed

lemma is_poly_sum: "finite I \<Longrightarrow> (\<And>i. i \<in> I \<Longrightarrow> is_poly n (f i)) \<Longrightarrow> is_poly n (\<lambda>x. \<Sum>i\<in>I. f i x)"
  by (induction I rule: finite_induct) (auto simp: is_poly_zero is_poly_add)

lemma is_poly_prod:
  fixes c d :: "'i \<Rightarrow> 'a :: field"
  shows "finite J \<Longrightarrow> is_poly (Suc (card J)) (\<lambda>x. \<Prod>j\<in>J. (x - c j) / d j)"
proof (induction J rule: finite_induct)
  case empty
  show ?case using is_poly_const [of 1] by simp
next
  case (insert j J)
  have "is_poly (Suc (Suc (card J))) (\<lambda>x. (x - c j) * (inverse (d j) * (\<Prod>j\<in>J. (x - c j) / d j)))"
    by (intro is_poly_linear is_poly_scale insert.IH)
  then show ?case using insert by (simp add: divide_inverse ac_simps)
qed

section \<open>Roots\<close>

lemma synthetic_division:
  "\<exists>g. is_poly (length cs) g \<and> (\<forall>x. horner (c # cs) x = (x - a) * g x + horner (c # cs) a)"
proof (induction cs arbitrary: c)
  case Nil
  show ?case by (rule exI [of _ "\<lambda>x. 0"]) (simp add: is_poly_zero)
next
  case (Cons d ds)
  then obtain g where g: "is_poly (length ds) g"
    "\<And>x. horner (d # ds) x = (x - a) * g x + horner (d # ds) a" by blast
  define h where "h = horner (d # ds) a"
  have poly: "is_poly (Suc (length ds)) (\<lambda>x. (\<lambda>x. h) x + x * g x)"
  proof (rule is_poly_add [OF _ is_poly_shift [OF g(1)]])
    have "is_poly (Suc n) (\<lambda>x. h)" for n by (induction n) (use is_poly_const is_poly_Suc in auto)
    then show "is_poly (Suc (length ds)) (\<lambda>x. h)" .
  qed
  have "horner (c # d # ds) x = (x - a) * (h + x * g x) + horner (c # d # ds) a" for x
  proof -
    have "horner (c # d # ds) x = c + x * ((x - a) * g x + h)"
      unfolding horner.simps(2) [of c] g(2) [of x] h_def ..
    moreover have "horner (c # d # ds) a = c + a * h" by (simp only: horner.simps(2) [of c] h_def)
    ultimately show ?thesis by (simp only:) (simp add: algebra_simps del: horner.simps)
  qed
  moreover have "is_poly (length (d # ds)) (\<lambda>x. h + x * g x)" using poly by simp
  ultimately show ?case by blast
qed

lemma poly_roots_zero:
  fixes f :: "'a :: field \<Rightarrow> 'a"
  assumes "is_poly n f" "distinct xs" "n \<le> length xs" "\<forall>x \<in> set xs. f x = 0"
  shows "f x = 0"
  using assms
proof (induction n arbitrary: f xs x)
  case 0
  then show ?case by (auto simp: is_poly_def)
next
  case (Suc n)
  obtain c cs where cs: "length cs = n" "f = horner (c # cs)"
    using Suc.prems(1) by (auto simp: is_poly_def length_Suc_conv)
  obtain a as where xs: "xs = a # as" using Suc.prems(3) by (cases xs) auto
  obtain g where g: "is_poly n g" "\<And>x. f x = (x - a) * g x + f a"
    using synthetic_division [of cs c a] cs by metis
  have fa: "f a = 0" using Suc.prems(4) xs by simp
  have "g y = 0" if "y \<in> set as" for y
  proof -
    have "f y = 0" "y \<noteq> a" using that Suc.prems xs by auto
    then show ?thesis using g(2) [of y] fa by simp
  qed
  then have "g x = 0" using Suc.IH [OF g(1), of as x] Suc.prems xs by simp
  then show ?case using g(2) [of x] fa by simp
qed

section \<open>Interpolation\<close>

definition lagrange :: "'a :: field list \<Rightarrow> nat \<Rightarrow> 'a \<Rightarrow> 'a" where
  "lagrange xs i x = (\<Prod>j\<in>{..<length xs} - {i}. (x - xs ! j) / (xs ! i - xs ! j))"

lemma is_poly_lagrange: "i < length xs \<Longrightarrow> is_poly (length xs) (lagrange xs i)"
  using is_poly_prod [of "{..<length xs} - {i}" "\<lambda>j. xs ! j" "\<lambda>j. xs ! i - xs ! j"]
  unfolding lagrange_def [abs_def] by (cases "length xs") auto

lemma lagrange_at:
  assumes "distinct xs" "i < length xs" "m < length xs"
  shows "lagrange xs i (xs ! m) = (if m = i then 1 else 0)"
proof (cases "m = i")
  case True
  have "xs ! i - xs ! j \<noteq> 0" if "j \<in> {..<length xs} - {i}" for j
    using that assms by (auto simp: nth_eq_iff_index_eq)
  with True show ?thesis by (simp add: lagrange_def)
next
  case False
  then show ?thesis using assms by (auto simp: lagrange_def intro!: prod_zero bexI [of _ m])
qed

definition interpolate :: "'a :: field list \<Rightarrow> 'a list \<Rightarrow> 'a \<Rightarrow> 'a" where
  "interpolate xs ys x = (\<Sum>i<length xs. ys ! i * lagrange xs i x)"

lemma is_poly_interpolate: "is_poly (length xs) (interpolate xs ys)"
  unfolding interpolate_def [abs_def]
  by (intro is_poly_sum is_poly_scale is_poly_lagrange) auto

lemma interpolate_at: "distinct xs \<Longrightarrow> m < length xs \<Longrightarrow> interpolate xs ys (xs ! m) = ys ! m"
  by (simp add: interpolate_def lagrange_at if_distrib cong: if_cong)

theorem interpolation_unique:
  fixes f :: "'a :: field \<Rightarrow> 'a"
  assumes "is_poly k f" "distinct xs" "length xs = k"
  shows "f x = interpolate xs (map f xs) x"
proof -
  let ?d = "\<lambda>x. f x + - 1 * interpolate xs (map f xs) x"
  have "is_poly k ?d"
    using assms is_poly_interpolate by (intro is_poly_add is_poly_scale) auto
  moreover have "\<forall>x \<in> set xs. ?d x = 0"
    using assms(2) by (auto simp: in_set_conv_nth interpolate_at)
  ultimately have "?d x = 0" using assms by (intro poly_roots_zero [of k ?d xs]) auto
  then show ?thesis by simp
qed

theorem interpolation_exists:
  fixes xs ys :: "'a :: field list"
  assumes "distinct xs" "length ys = length xs"
  obtains cs where "length cs = length xs" "map (horner cs) xs = ys"
proof -
  obtain cs where cs: "length cs = length xs" "interpolate xs ys = horner cs"
    using is_poly_interpolate [of xs ys] by (auto simp: is_poly_def)
  have "map (horner cs) xs = ys"
    using assms cs(1) interpolate_at [OF assms(1), where ys = ys] unfolding cs(2)
    by (intro nth_equalityI) auto
  with cs(1) show thesis by (rule that)
qed

end
