(* ===== verification/Vault.thy ===== *)
theory Vault
  imports Crypto GF256 Interpolation
begin

text \<open>
  \<open>internal/vault/vault.go\<close>: Shamir secret sharing over GF(256) with a checksum on every shard that
  is keyed by the secret. \<open>vault_Split\<close> and \<open>vault_Reconstruct\<close> are \<open>Split\<close> and \<open>Reconstruct\<close>; the
  loops of the code are the recursive functions before them. An index out of range and the inverse
  of zero are the value \<open>Panic\<close>.
\<close>

record shard =
  sh_index :: byte
  sh_value :: bytes
  sh_checksum :: bytes

datatype vault_error =
    EmptySecret | InvalidParameters int int | CoefficientRandom
  | NeedShards int nat | NoShards | ZeroIndex | DuplicateIndex byte | ThresholdRange int nat
  | EmptyFirstValue | ChecksumMismatch nat byte

definition shardHMACKey :: "crypto \<Rightarrow> bytes \<Rightarrow> bytes" where
  "shardHMACKey cr secret = sha256 cr (str_bytes ''qs-shard-integrity-v1:'' @ secret)"

definition shardChecksum :: "crypto \<Rightarrow> byte \<Rightarrow> bytes \<Rightarrow> bytes \<Rightarrow> bytes" where
  "shardChecksum cr index val hmacKey = hmac cr hmacKey (index # val)"

section \<open>Split\<close>

fun split_coeffs :: "nat \<Rightarrow> nat \<Rightarrow> entropy \<Rightarrow> (bytes list \<times> entropy) option" where
  "split_coeffs 0 len e = Some ([], e)"
| "split_coeffs (Suc m) len e =
     (case rand_read len e of
        None \<Rightarrow> None
      | Some (c, e') \<Rightarrow>
          (case split_coeffs m len e' of
             None \<Rightarrow> None
           | Some (cs, e'') \<Rightarrow> Some (c # cs, e'')))"

definition eval_byte :: "bytes list \<Rightarrow> byte \<Rightarrow> nat \<Rightarrow> byte" where
  "eval_byte coeffs x bi = foldr (\<lambda>c result. gfMul result x XOR c ! bi) coeffs 0"

definition make_shard :: "crypto \<Rightarrow> bytes list \<Rightarrow> nat \<Rightarrow> bytes \<Rightarrow> nat \<Rightarrow> shard" where
  "make_shard cr coeffs len hmacKey si =
     (let x = of_nat ((si + 1) * 2) :: byte;
          val = map (eval_byte coeffs x) [0..<len]
      in \<lparr>sh_index = x, sh_value = val, sh_checksum = shardChecksum cr x val hmacKey\<rparr>)"

definition vault_Split ::
    "crypto \<Rightarrow> bytes \<Rightarrow> int \<Rightarrow> int \<Rightarrow> entropy \<Rightarrow> (vault_error, shard list \<times> entropy) result" where
  "vault_Split cr secret n k e =
     (if length secret = 0 then Err EmptySecret
      else if k < 2 \<or> k > n \<or> n > 255 then Err (InvalidParameters n k)
      else case split_coeffs (nat (k - 1)) (length secret) e of
        None \<Rightarrow> Err CoefficientRandom
      | Some (cs, e') \<Rightarrow>
          (let coeffs = secret # cs;
               hmacKey = shardHMACKey cr secret
           in Ok (map (make_shard cr coeffs (length secret) hmacKey) [0..<nat n], e')))"

section \<open>Reconstruct\<close>

fun check_indices :: "byte list \<Rightarrow> shard list \<Rightarrow> vault_error option" where
  "check_indices seen [] = None"
| "check_indices seen (s # rest) =
     (if sh_index s = 0 then Some ZeroIndex
      else if sh_index s \<in> set seen then Some (DuplicateIndex (sh_index s))
      else check_indices (sh_index s # seen) rest)"

fun lagrange_terms :: "nat \<Rightarrow> byte \<Rightarrow> (nat \<times> shard) list \<Rightarrow> byte \<Rightarrow> byte \<Rightarrow> byte \<times> byte" where
  "lagrange_terms i xi [] num den = (num, den)"
| "lagrange_terms i xi ((j, sj) # rest) num den =
     (if i = j then lagrange_terms i xi rest num den
      else lagrange_terms i xi rest (gfMul num (sh_index sj)) (gfMul den (xi XOR sh_index sj)))"

fun recon_byte ::
    "nat \<Rightarrow> (nat \<times> shard) list \<Rightarrow> (nat \<times> shard) list \<Rightarrow> byte \<Rightarrow> (vault_error, byte) result" where
  "recon_byte bi active [] acc = Ok acc"
| "recon_byte bi active ((i, si) # rest) acc =
     (case lagrange_terms i (sh_index si) active 1 1 of
        (num, den) \<Rightarrow>
          (case gfInv den of
             Ok dinv \<Rightarrow>
               (if bi < length (sh_value si)
                then recon_byte bi active rest (acc XOR gfMul (sh_value si ! bi) (gfMul num dinv))
                else Panic)
           | _ \<Rightarrow> Panic))"

fun recon_bytes :: "(nat \<times> shard) list \<Rightarrow> nat list \<Rightarrow> (vault_error, bytes) result" where
  "recon_bytes active [] = Ok []"
| "recon_bytes active (bi # bis) =
     (case recon_byte bi active active 0 of
        Ok b \<Rightarrow>
          (case recon_bytes active bis of
             Ok bs \<Rightarrow> Ok (b # bs)
           | Err er \<Rightarrow> Err er
           | Panic \<Rightarrow> Panic)
      | Err er \<Rightarrow> Err er
      | Panic \<Rightarrow> Panic)"

fun verify_checksums :: "crypto \<Rightarrow> bytes \<Rightarrow> nat \<Rightarrow> shard list \<Rightarrow> vault_error option" where
  "verify_checksums cr hmacKey i [] = None"
| "verify_checksums cr hmacKey i (s # rest) =
     (if sh_checksum s \<noteq> shardChecksum cr (sh_index s) (sh_value s) hmacKey
      then Some (ChecksumMismatch i (sh_index s))
      else verify_checksums cr hmacKey (i + 1) rest)"

definition vault_Reconstruct :: "crypto \<Rightarrow> shard list \<Rightarrow> int \<Rightarrow> (vault_error, bytes) result" where
  "vault_Reconstruct cr shards k =
     (if int (length shards) < k then Err (NeedShards k (length shards))
      else if length shards = 0 then Err NoShards
      else case check_indices [] shards of
        Some er \<Rightarrow> Err er
      | None \<Rightarrow>
          (if k \<le> 0 \<or> k > int (length shards) then Err (ThresholdRange k (length shards))
           else let active = take (nat k) shards in
             if length (sh_value (hd active)) = 0 then Err EmptyFirstValue
             else case recon_bytes (enumerate 0 active) [0..<length (sh_value (hd active))] of
               Ok secret \<Rightarrow>
                 (case verify_checksums cr (shardHMACKey cr secret) 0 shards of
                    Some er \<Rightarrow> Err er
                  | None \<Rightarrow> Ok secret)
             | Err er \<Rightarrow> Err er
             | Panic \<Rightarrow> Panic))"

section \<open>The loops compute in the field\<close>

lemma gf_mul [simp]: "gf (gfMul a b) = gf a * gf b"
  by (simp add: times_gf.abs_eq)

lemma gf_xor [simp]: "gf (a XOR b) = gf a + gf b"
  by (simp add: plus_gf.abs_eq)

lemma gf_eq_iff [simp]: "gf a = gf b \<longleftrightarrow> a = b"
  by (simp add: gf_inject)

lemma gf_01 [simp]: "gf 0 = 0" "gf 1 = 1"
  by (simp_all add: zero_gf_def one_gf_def)

lemma gf_0_iff [simp]: "gf a = 0 \<longleftrightarrow> a = 0"
  using gf_eq_iff [of a 0] by simp

lemma gfInv_inverse: "a \<noteq> 0 \<Longrightarrow> \<exists>b. gfInv a = Ok b \<and> gf b = inverse (gf a)"
  unfolding inverse_gf_def by (simp add: gf_inverse gfInv_def Let_def)

lemma eval_byte_horner: "gf (eval_byte coeffs x bi) = horner (map (\<lambda>c. gf (c ! bi)) coeffs) (gf x)"
  by (induction coeffs) (simp_all add: eval_byte_def ac_simps)

lemma lagrange_terms_prod:
  "lagrange_terms i xi es num den = (num', den') \<Longrightarrow>
     gf num' = gf num * prod_list (map (\<lambda>(j, s). gf (sh_index s)) (filter (\<lambda>(j, s). j \<noteq> i) es)) \<and>
     gf den' = gf den * prod_list (map (\<lambda>(j, s). gf xi + gf (sh_index s)) (filter (\<lambda>(j, s). j \<noteq> i) es))"
  by (induction i xi es num den rule: lagrange_terms.induct) (auto split: if_splits simp: mult.assoc)

lemma prod_list_enumerate:
  fixes g :: "'a \<Rightarrow> 'b :: comm_monoid_mult"
  shows "prod_list (map (\<lambda>(j, s). g s) (filter (\<lambda>(j, s). j \<noteq> i) (enumerate 0 xs))) =
    (\<Prod>j\<in>{..<length xs} - {i}. g (xs ! j))"
proof -
  have enum: "enumerate 0 xs = map (\<lambda>j. (j, xs ! j)) [0..<length xs]"
    by (rule nth_equalityI) (auto simp: nth_enumerate_eq)
  have "prod_list (map (\<lambda>j. g (xs ! j)) (filter (\<lambda>j. j \<noteq> i) [0..<length xs])) =
      (\<Prod>j\<in>set (filter (\<lambda>j. j \<noteq> i) [0..<length xs]). g (xs ! j))"
    by (rule prod.distinct_set_conv_list [symmetric]) simp
  moreover have "set (filter (\<lambda>j. j \<noteq> i) [0..<length xs]) = {..<length xs} - {i}" by auto
  ultimately show ?thesis by (simp add: enum filter_map comp_def)
qed

lemma lagrange_terms_lagrange:
  assumes "distinct (map sh_index act)" "i < length act"
    and "lagrange_terms i (sh_index (act ! i)) (enumerate 0 act) 1 1 = (num, den)"
  shows "den \<noteq> 0" and "gf num * inverse (gf den) = lagrange (map (\<lambda>s. gf (sh_index s)) act) i 0"
proof -
  let ?x = "\<lambda>j. gf (sh_index (act ! j))" and ?J = "{..<length act} - {i}"
  have num: "gf num = (\<Prod>j\<in>?J. ?x j)" and den: "gf den = (\<Prod>j\<in>?J. ?x i + ?x j)"
    using lagrange_terms_prod [OF assms(3)]
      prod_list_enumerate [of "\<lambda>s. gf (sh_index s)" i act]
      prod_list_enumerate [of "\<lambda>s. ?x i + gf (sh_index s)" i act] by simp_all
  have "?x i + ?x j \<noteq> 0" if "j \<in> ?J" for j
  proof -
    have "sh_index (act ! i) \<noteq> sh_index (act ! j)"
      using that assms(1,2) by (auto simp: distinct_conv_nth)
    then show ?thesis by (metis eq_iff_diff_eq_0 gf_eq_iff gf_minus_eq_add)
  qed
  then have "gf den \<noteq> 0" unfolding den by (simp add: prod_zero_iff)
  then show "den \<noteq> 0" by auto
  have "lagrange (map (\<lambda>s. gf (sh_index s)) act) i 0 = (\<Prod>j\<in>?J. ?x j / (?x i + ?x j))"
    using assms(2) unfolding lagrange_def
    by (intro prod.cong) (auto simp: gf_minus_eq_add)
  then show "gf num * inverse (gf den) = lagrange (map (\<lambda>s. gf (sh_index s)) act) i 0"
    unfolding num den divide_inverse [symmetric] by (simp only: prod_dividef)
qed
lemma recon_byte_ok:
  assumes "distinct (map sh_index act)" and "\<forall>s \<in> set act. bi < length (sh_value s)"
    and "\<forall>(i, s) \<in> set es. i < length act \<and> s = act ! i"
  shows "\<exists>b. recon_byte bi (enumerate 0 act) es acc = Ok b \<and>
    gf b = gf acc + sum_list (map (\<lambda>(i, s). gf (sh_value s ! bi) *
      lagrange (map (\<lambda>s. gf (sh_index s)) act) i 0) es)"
  using assms(3)
proof (induction es arbitrary: acc)
  case (Cons p es)
  obtain i where p: "p = (i, act ! i)" and i: "i < length act" using Cons.prems by (cases p) auto
  obtain num den where terms:
    "lagrange_terms i (sh_index (act ! i)) (enumerate 0 act) 1 1 = (num, den)" by fastforce
  note lag = lagrange_terms_lagrange [OF assms(1) i terms]
  obtain d where d: "gfInv den = Ok d" "gf d = inverse (gf den)" using gfInv_inverse [OF lag(1)] by auto
  have bi: "bi < length (sh_value (act ! i))" using assms(2) i by simp
  let ?acc = "acc XOR gfMul (sh_value (act ! i) ! bi) (gfMul num d)"
  have "\<forall>(i, s) \<in> set es. i < length act \<and> s = act ! i" using Cons.prems by auto
  from Cons.IH [OF this, of ?acc] show ?case
    using p terms d bi lag(2) by (auto simp: add.assoc)
qed simp

lemma recon_byte_interpolate:
  assumes "distinct (map sh_index act)" and "\<forall>s \<in> set act. bi < length (sh_value s)"
  shows "\<exists>b. recon_byte bi (enumerate 0 act) (enumerate 0 act) 0 = Ok b \<and>
    gf b = interpolate (map (\<lambda>s. gf (sh_index s)) act) (map (\<lambda>s. gf (sh_value s ! bi)) act) 0"
proof -
  let ?L = "lagrange (map (\<lambda>s. gf (sh_index s)) act)"
  have enum: "enumerate 0 act = map (\<lambda>j. (j, act ! j)) [0..<length act]"
    by (rule nth_equalityI) (auto simp: nth_enumerate_eq)
  have "\<forall>(i, s) \<in> set (enumerate 0 act). i < length act \<and> s = act ! i"
    by (auto simp: enum)
  from recon_byte_ok [OF assms this, of 0] obtain b
    where b: "recon_byte bi (enumerate 0 act) (enumerate 0 act) 0 = Ok b"
      "gf b = sum_list (map (\<lambda>(i, s). gf (sh_value s ! bi) * ?L i 0) (enumerate 0 act))" by auto
  have "gf b = (\<Sum>i<length act. gf (sh_value (act ! i) ! bi) * ?L i 0)"
    unfolding b(2) enum by (simp add: comp_def interv_sum_list_conv_sum_set_nat atLeast0LessThan)
  also have "\<dots> = interpolate (map (\<lambda>s. gf (sh_index s)) act) (map (\<lambda>s. gf (sh_value s ! bi)) act) 0"
    by (simp add: interpolate_def)
  finally show ?thesis using b(1) by blast
qed

lemma recon_bytes_Ok_iff:
  "(\<And>bi. bi \<in> set bis \<Longrightarrow> recon_byte bi act act 0 = Ok (f bi)) \<Longrightarrow>
     recon_bytes act bis = Ok (map f bis)"
  by (induction bis) auto

lemma recon_byte_not_Err: "recon_byte bi act es acc \<noteq> Err er"
  by (induction bi act es acc rule: recon_byte.induct) (auto split: prod.splits result.splits)

lemma recon_bytes_not_Err: "recon_bytes act bis \<noteq> Err er"
  by (induction act bis rule: recon_bytes.induct) (auto simp: recon_byte_not_Err split: result.splits)

lemma recon_byte_OkD: "recon_byte bi act es acc = Ok b \<Longrightarrow> (i, s) \<in> set es \<Longrightarrow> bi < length (sh_value s)"
  by (induction bi act es acc rule: recon_byte.induct) (auto split: prod.splits result.splits if_splits)

lemma recon_bytes_OkD: "recon_bytes act bis = Ok bs \<Longrightarrow> bi \<in> set bis \<Longrightarrow> \<exists>b. recon_byte bi act act 0 = Ok b"
  by (induction act bis arbitrary: bs rule: recon_bytes.induct) (auto split: result.splits)

section \<open>The shards of a split\<close>

lemma split_coeffs_length:
  "split_coeffs m len e = Some (cs, e') \<Longrightarrow> length cs = m \<and> (\<forall>c \<in> set cs. length c = len)"
proof (induction m len e arbitrary: cs e' rule: split_coeffs.induct)
  case (2 m len e)
  then obtain c e1 cs' where *: "rand_read len e = Some (c, e1)" "split_coeffs m len e1 = Some (cs', e')"
    "cs = c # cs'" by (auto split: option.splits)
  then have "length cs' = m \<and> (\<forall>c \<in> set cs'. length c = len)" using "2.IH" by simp
  then show ?case using * rand_read_length [OF *(1)] by simp
qed simp

lemma split_coeffs_concat:
  "\<forall>c \<in> set cs. length c = len \<Longrightarrow> split_coeffs (length cs) len (concat cs @ e) = Some (cs, e)"
  by (induction cs) (auto simp: rand_read_def)

lemma vault_Split_Ok:
  assumes "vault_Split cr secret n k e = Ok (shards, e')"
  obtains cs where "secret \<noteq> []" "2 \<le> k" "k \<le> n" "n \<le> 255" "length cs = nat (k - 1)"
    "\<forall>c \<in> set cs. length c = length secret"
    "shards = map (make_shard cr (secret # cs) (length secret) (shardHMACKey cr secret)) [0..<nat n]"
  using assms
  by (auto simp: vault_Split_def Let_def split: if_splits option.splits dest: split_coeffs_length)

text \<open>A shard that \<open>Split\<close> made for this polynomial.\<close>

definition honest_shard :: "crypto \<Rightarrow> bytes \<Rightarrow> bytes list \<Rightarrow> shard \<Rightarrow> bool" where
  "honest_shard cr secret cs s \<longleftrightarrow>
     length (sh_value s) = length secret \<and>
     (\<forall>bi < length secret.
        gf (sh_value s ! bi) = horner (map (\<lambda>c. gf (c ! bi)) (secret # cs)) (gf (sh_index s))) \<and>
     sh_checksum s = shardChecksum cr (sh_index s) (sh_value s) (shardHMACKey cr secret)"

lemma honest_make_shard:
  "honest_shard cr secret cs (make_shard cr (secret # cs) (length secret) (shardHMACKey cr secret) si)"
  by (simp add: honest_shard_def make_shard_def Let_def eval_byte_horner del: horner.simps)

lemma make_shard_index: "si < 127 \<Longrightarrow> unat (sh_index (make_shard cr cs len key si)) = 2 * (si + 1)"
  by (simp add: make_shard_def Let_def unat_of_nat del: of_nat_add of_nat_mult of_nat_Suc)

lemma check_indices_None:
  "distinct (map sh_index ss) \<Longrightarrow> 0 \<notin> sh_index ` set ss \<Longrightarrow> set seen \<inter> sh_index ` set ss = {} \<Longrightarrow>
     check_indices seen ss = None"
  by (induction seen ss rule: check_indices.induct) (auto split: if_splits)

lemma check_indices_NoneD:
  "check_indices seen ss = None \<Longrightarrow>
     distinct (map sh_index ss) \<and> 0 \<notin> sh_index ` set ss \<and> set seen \<inter> sh_index ` set ss = {}"
  by (induction seen ss rule: check_indices.induct) (auto split: if_splits)

lemma verify_checksums_None_iff:
  "verify_checksums cr key i ss = None \<longleftrightarrow>
     (\<forall>s \<in> set ss. sh_checksum s = shardChecksum cr (sh_index s) (sh_value s) key)"
  by (induction cr key i ss rule: verify_checksums.induct) auto

lemma split_shards:
  assumes "vault_Split cr secret n k e = Ok (shards, e')" and "n \<le> 127"
  obtains cs where "secret \<noteq> []" "2 \<le> k" "k \<le> n" "length cs = nat (k - 1)"
    "\<forall>c \<in> set cs. length c = length secret" "length shards = nat n"
    "\<And>s. s \<in> set shards \<Longrightarrow> honest_shard cr secret cs s"
    "inj_on sh_index (set shards)" "0 \<notin> sh_index ` set shards"
    "\<And>i. i < nat n \<Longrightarrow> sh_index (shards ! i) = of_nat ((i + 1) * 2)"
proof -
  obtain cs where cs: "secret \<noteq> []" "2 \<le> k" "k \<le> n" "length cs = nat (k - 1)"
    "\<forall>c \<in> set cs. length c = length secret"
    and shards: "shards = map (make_shard cr (secret # cs) (length secret) (shardHMACKey cr secret)) [0..<nat n]"
    using assms(1) by (rule vault_Split_Ok)
  have idx: "unat (sh_index (make_shard cr c l key i)) = 2 * (i + 1)" if "i < nat n" for c l key i
    using make_shard_index that assms(2) by simp
  have inj: "inj_on sh_index (set shards)"
  proof (rule inj_onI)
    fix s t assume "s \<in> set shards" "t \<in> set shards" and eq: "sh_index s = sh_index t"
    then obtain i j where ij: "i < nat n" "j < nat n"
      "s = make_shard cr (secret # cs) (length secret) (shardHMACKey cr secret) i"
      "t = make_shard cr (secret # cs) (length secret) (shardHMACKey cr secret) j"
      by (auto simp: shards)
    then have "2 * (i + 1) = 2 * (j + 1)" using idx eq by metis
    then show "s = t" using ij by simp
  qed
  have "0 \<notin> sh_index ` set shards"
  proof
    assume "0 \<in> sh_index ` set shards"
    then obtain i where "i < nat n"
      "sh_index (make_shard cr (secret # cs) (length secret) (shardHMACKey cr secret) i) = 0"
      by (auto simp: shards)
    with idx [of i "secret # cs" "length secret" "shardHMACKey cr secret"] show False by simp
  qed
  moreover have "sh_index (shards ! i) = of_nat ((i + 1) * 2)" if "i < nat n" for i
    using that by (simp add: shards make_shard_def Let_def)
  moreover have "length shards = nat n" by (simp add: shards)
  moreover have "honest_shard cr secret cs s" if "s \<in> set shards" for s
    using that by (auto simp: shards honest_make_shard)
  ultimately show thesis using that [OF cs(1-5) _ _ inj] by blast
qed

lemma reconstruct_honest:
  assumes "secret \<noteq> []" "2 \<le> k" "length cs = nat (k - 1)"
    and honest: "\<And>s. s \<in> set sel \<Longrightarrow> honest_shard cr secret cs s"
    and dist: "distinct (map sh_index sel)" and nz: "0 \<notin> sh_index ` set sel"
    and k: "k \<le> int (length sel)"
  shows "vault_Reconstruct cr sel k = Ok secret"
proof -
  let ?act = "take (nat k) sel" and ?len = "length secret"
  have act: "length ?act = nat k" "distinct (map sh_index ?act)"
    using k dist by (auto simp flip: take_map)
  have act_honest: "s \<in> set ?act \<Longrightarrow> honest_shard cr secret cs s" for s
    using honest by (auto dest: in_set_takeD)
  have byte: "recon_byte bi (enumerate 0 ?act) (enumerate 0 ?act) 0 = Ok (secret ! bi)"
    if bi: "bi < ?len" for bi
  proof -
    let ?row = "map (\<lambda>c. gf (c ! bi)) (secret # cs)"
    let ?xs = "map (\<lambda>s. gf (sh_index s)) ?act"
    have vals: "map (\<lambda>s. gf (sh_value s ! bi)) ?act = map (horner ?row) ?xs"
      using act_honest bi by (auto simp: honest_shard_def simp del: horner.simps)
    have "distinct ?xs" using act(2) by (simp add: distinct_map inj_on_def)
    moreover have "length ?row = nat k" using assms(2,3) by simp
    ultimately have "interpolate ?xs (map (horner ?row) ?xs) 0 = horner ?row 0"
      using interpolation_unique [of "nat k" "horner ?row" ?xs 0] is_poly_horner [of ?row] act(1)
      by (metis length_map)
    then have "interpolate ?xs (map (\<lambda>s. gf (sh_value s ! bi)) ?act) 0 = gf (secret ! bi)"
      unfolding vals by simp
    moreover have "\<forall>s \<in> set ?act. bi < length (sh_value s)"
      using act_honest bi by (auto simp: honest_shard_def)
    ultimately show ?thesis using recon_byte_interpolate [OF act(2)] by fastforce
  qed
  have "recon_bytes (enumerate 0 ?act) [0..<?len] = Ok (map ((!) secret) [0..<?len])"
    by (rule recon_bytes_Ok_iff) (simp add: byte)
  then have bytes: "recon_bytes (enumerate 0 ?act) [0..<?len] = Ok secret" by (simp add: map_nth)
  have "sel \<noteq> []" and "?act \<noteq> []" using k assms(2) by auto
  then have "hd ?act \<in> set ?act" using hd_in_set by blast
  then have len: "length (sh_value (hd ?act)) = ?len" using act_honest by (simp add: honest_shard_def)
  then have "sh_value (hd ?act) \<noteq> []" using assms(1) by (metis length_0_conv)
  moreover note len
  moreover have "check_indices [] sel = None" by (rule check_indices_None) (use dist nz in auto)
  moreover have "verify_checksums cr (shardHMACKey cr secret) 0 sel = None"
    using honest by (simp add: verify_checksums_None_iff honest_shard_def)
  ultimately show ?thesis
    using bytes k assms(1,2) \<open>sel \<noteq> []\<close> by (simp add: vault_Reconstruct_def Let_def)
qed

lemma reconstruct_selection:
  assumes "vault_Split cr secret n k e = Ok (shards, e')" and "n \<le> 127"
    and "distinct sel" and "set sel \<subseteq> set shards" and "k \<le> int (length sel)"
  shows "vault_Reconstruct cr sel k = Ok secret"
proof -
  obtain cs where *: "secret \<noteq> []" "2 \<le> k" "length cs = nat (k - 1)"
    "\<And>s. s \<in> set shards \<Longrightarrow> honest_shard cr secret cs s"
    "inj_on sh_index (set shards)" "0 \<notin> sh_index ` set shards"
    using split_shards [OF assms(1,2)] by metis
  have "distinct (map sh_index sel)"
    using assms(3,4) *(5) by (auto simp: distinct_map intro: inj_on_subset)
  then show ?thesis using * assms(4,5) by (intro reconstruct_honest) auto
qed

section \<open>Counting the coefficients\<close>

lemma finite_gf: "finite (UNIV :: gf set)"
proof -
  have "(UNIV :: gf set) = gf ` UNIV" by (metis gf_byte_inverse surjI)
  then show ?thesis by (metis finite finite_imageI)
qed

lemma horner_values_inj:
  fixes pts :: "gf list"
  assumes "distinct pts" "length as = length pts" "length bs = length pts"
    and "map (horner as) pts = map (horner bs) pts"
  shows "as = bs"
proof -
  let ?A = "{cs :: gf list. length cs = length pts}"
  have "finite ?A" using finite_lists_length_eq [OF finite_gf, of "length pts"] by simp
  moreover have "?A \<subseteq> (\<lambda>cs. map (horner cs) pts) ` ?A"
  proof
    fix ys :: "gf list" assume "ys \<in> ?A"
    then have "length ys = length pts" by simp
    from interpolation_exists [OF assms(1) this] obtain cs
      where "length cs = length pts" "map (horner cs) pts = ys" .
    then show "ys \<in> (\<lambda>cs. map (horner cs) pts) ` ?A" by blast
  qed
  ultimately have "inj_on (\<lambda>cs. map (horner cs) pts) ?A" by (rule finite_surj_inj)
  then show ?thesis
  proof (rule inj_onD)
    show "map (horner as) pts = map (horner bs) pts" by (rule assms(4))
    show "as \<in> ?A" "bs \<in> ?A" by (simp_all only: mem_Collect_eq assms(2,3))
  qed
qed

lemma split_coeffs_Some:
  "m * len \<le> length e \<Longrightarrow> \<exists>cs e'. split_coeffs m len e = Some (cs, e') \<and> concat cs @ e' = e"
proof (induction m arbitrary: e)
  case (Suc m)
  then have "m * len \<le> length (drop len e)" by simp
  from Suc.IH [OF this] obtain cs e' where
    "split_coeffs m len (drop len e) = Some (cs, e')" "concat cs @ e' = drop len e" by blast
  then show ?case using Suc.prems by (auto simp: rand_read_def)
qed simp

lemma length_blocks: "length cs = m \<Longrightarrow> \<forall>c \<in> set cs. length c = len \<Longrightarrow> length (concat cs) = m * len"
  by (induction cs arbitrary: m) auto

text \<open>The coefficients of a secret as one row of field elements per byte.\<close>

definition coeff_row :: "bytes list \<Rightarrow> nat \<Rightarrow> gf list" where
  "coeff_row coeffs bi = map (\<lambda>c. gf (c ! bi)) coeffs"

lemma coeff_row_inj:
  assumes "length as = length bs" "\<forall>c \<in> set as. length c = len" "\<forall>c \<in> set bs. length c = len"
    and "\<And>bi. bi < len \<Longrightarrow> coeff_row as bi = coeff_row bs bi"
  shows "as = bs"
proof (rule nth_equalityI [OF assms(1)])
  fix i assume i: "i < length as"
  show "as ! i = bs ! i"
  proof (rule nth_equalityI)
    show "length (as ! i) = length (bs ! i)" using i assms(1-3) by simp
    fix bi assume "bi < length (as ! i)"
    then have "coeff_row as bi = coeff_row bs bi" using assms(2,4) i by simp
    then have "coeff_row as bi ! i = coeff_row bs bi ! i" by simp
    then show "as ! i ! bi = bs ! i ! bi" using i assms(1) by (simp add: coeff_row_def)
  qed
qed

lemma coeff_rows_exist:
  assumes "\<And>bi. bi < len \<Longrightarrow> length (row bi) = Suc m \<and> hd (row bi) = gf (secret ! bi)"
  obtains cs where "length cs = m" "\<forall>c \<in> set cs. length c = len"
    "\<And>bi. bi < len \<Longrightarrow> coeff_row (secret # cs) bi = row bi"
proof
  let ?cs = "map (\<lambda>i. map (\<lambda>bi. gf_byte (row bi ! Suc i)) [0..<len]) [0..<m]"
  show "length ?cs = m" "\<forall>c \<in> set ?cs. length c = len" by auto
  fix bi assume bi: "bi < len"
  show "coeff_row (secret # ?cs) bi = row bi"
  proof (rule nth_equalityI)
    show "length (coeff_row (secret # ?cs) bi) = length (row bi)"
      using assms [OF bi] by (simp add: coeff_row_def)
    obtain r rs where "row bi = r # rs" using assms [OF bi] by (cases "row bi") auto
    moreover fix i assume "i < length (coeff_row (secret # ?cs) bi)"
    ultimately show "coeff_row (secret # ?cs) bi ! i = row bi ! i"
      using assms [OF bi] bi by (cases i) (auto simp: coeff_row_def gf_byte_inverse)
  qed
qed

lemma split_of_coeffs:
  assumes "vault_Split cr secret n k e = Ok (shards, e')" and "length secret' = length secret"
    and "length cs = nat (k - 1)" "\<forall>c \<in> set cs. length c = length secret"
  shows "vault_Split cr secret' n k (concat cs) =
    Ok (map (make_shard cr (secret' # cs) (length secret') (shardHMACKey cr secret')) [0..<nat n], [])"
  using assms split_coeffs_concat [of cs "length secret" "[]"]
  by (auto simp: vault_Split_def Let_def split: if_splits)

lemma make_shard_value_eq:
  "sh_value (make_shard cr (s # as) len key i) = sh_value (make_shard cr (s' # bs) len key' i) \<longleftrightarrow>
     (\<forall>bi < len. horner (coeff_row (s # as) bi) (gf (of_nat ((i + 1) * 2))) =
        horner (coeff_row (s' # bs) bi) (gf (of_nat ((i + 1) * 2))))"
proof -
  have "(eval_byte (s # as) x bi = eval_byte (s' # bs) x bi) \<longleftrightarrow>
     horner (coeff_row (s # as) bi) (gf x) = horner (coeff_row (s' # bs) bi) (gf x)" for x bi
    unfolding coeff_row_def by (metis eval_byte_horner gf_eq_iff)
  then show ?thesis by (auto simp: make_shard_def Let_def map_eq_conv simp del: of_nat_mult of_nat_Suc)
qed

lemma split_points:
  assumes "n \<le> 127" "sel \<subseteq> {..<nat n}"
  shows "distinct (0 # map (\<lambda>i. gf (of_nat ((i + 1) * 2))) (sorted_list_of_set sel))"
proof -
  have u: "unat (of_nat ((i + 1) * 2) :: byte) = (i + 1) * 2" if "i \<in> sel" for i
  proof -
    have "i < 127" using that assms by auto
    then show ?thesis by (simp add: unat_of_nat del: of_nat_add of_nat_mult of_nat_Suc)
  qed
  have "inj_on (\<lambda>i. gf (of_nat ((i + 1) * 2))) sel"
  proof (rule inj_onI)
    fix i j assume ij: "i \<in> sel" "j \<in> sel" "gf (of_nat ((i + 1) * 2)) = gf (of_nat ((j + 1) * 2))"
    then have "(of_nat ((i + 1) * 2) :: byte) = of_nat ((j + 1) * 2)" by (simp only: gf_eq_iff)
    then have "(i + 1) * 2 = (j + 1) * 2" using u ij by metis
    then show "i = j" by simp
  qed
  moreover have "finite sel" using assms(2) finite_subset by blast
  moreover have "gf (of_nat ((i + 1) * 2)) \<noteq> 0" if "i \<in> sel" for i
  proof
    assume "gf (of_nat ((i + 1) * 2)) = 0"
    then have "(of_nat ((i + 1) * 2) :: byte) = 0" by (simp only: gf_0_iff)
    then show False using u [OF that] by simp
  qed
  ultimately show ?thesis by (force simp: distinct_map simp del: of_nat_mult of_nat_Suc)
qed

section \<open>Properties\<close>

text \<open>C5. Any selection of at least \<open>k\<close> of the shards that \<open>Split\<close> made, in any order, reconstructs
  exactly the secret, for up to 127 shards.\<close>

theorem vault_roundtrip:
  assumes "vault_Split cr secret n k e = Ok (shards, e')" and "n \<le> 127"
    and "distinct sel" and "set sel \<subseteq> set shards" and "k \<le> int (length sel)"
  shows "vault_Reconstruct cr sel k = Ok secret"
  using assms by (rule reconstruct_selection)

text \<open>Random text is a list of coefficient blocks, and there is exactly one choice of blocks that gives the
  polynomials of a secret prescribed values at \<open>m\<close> points besides 0.\<close>

lemma blocks_of_text:
  assumes "length (e :: bytes) = m * len"
  obtains cs where "length cs = m" "\<forall>c \<in> set cs. length c = len" "concat cs = e"
proof -
  obtain cs e' where cs: "split_coeffs m len e = Some (cs, e')" "concat cs @ e' = e"
    using split_coeffs_Some [of m len e] assms by auto
  then have l: "length cs = m" "\<forall>c \<in> set cs. length c = len" using split_coeffs_length [OF cs(1)] by auto
  moreover have "concat cs = e" using length_blocks [OF l] cs(2) assms by auto
  ultimately show thesis using that by blast
qed

lemma unique_masks:
  assumes pts: "distinct (0 # xs)" "length xs = m" and ys: "\<And>bi. length (ys bi) = m"
  shows "\<exists>!cs. length cs = m \<and> (\<forall>c \<in> set cs. length c = len) \<and>
    (\<forall>bi < len. map (horner (coeff_row (secret # cs) bi)) xs = ys bi)"
proof -
  have at0: "horner (coeff_row (secret # cs) bi) 0 = gf (secret ! bi)" for cs bi
    by (simp add: coeff_row_def)
  have "\<exists>row. length row = Suc m \<and> map (horner row) (0 # xs) = gf (secret ! bi) # ys bi" for bi
    using interpolation_exists [OF pts(1), of "gf (secret ! bi) # ys bi"] pts(2) ys [of bi]
    by (metis (no_types, lifting) length_Cons)
  then obtain row where row: "\<And>bi. length (row bi) = Suc m" "\<And>bi. map (horner (row bi)) (0 # xs) = gf (secret ! bi) # ys bi"
    by metis
  have "length (row bi) = Suc m \<and> hd (row bi) = gf (secret ! bi)" for bi
    using row(1) [of bi] row(2) [of bi] by (cases "row bi") auto
  then obtain cs1 where cs1: "length cs1 = m" "\<forall>c \<in> set cs1. length c = len"
    "\<And>bi. bi < len \<Longrightarrow> coeff_row (secret # cs1) bi = row bi"
    using coeff_rows_exist [of len row m secret] by blast
  show ?thesis
  proof (rule ex1I [of _ cs1])
    show "length cs1 = m \<and> (\<forall>c \<in> set cs1. length c = len) \<and>
        (\<forall>bi < len. map (horner (coeff_row (secret # cs1) bi)) xs = ys bi)"
      using cs1 row(2) by simp
  next
    fix cs2 assume cs2: "length cs2 = m \<and> (\<forall>c \<in> set cs2. length c = len) \<and>
        (\<forall>bi < len. map (horner (coeff_row (secret # cs2) bi)) xs = ys bi)"
    show "cs2 = cs1"
    proof (rule coeff_row_inj)
      fix bi assume bi: "bi < len"
      have "coeff_row (secret # cs2) bi = coeff_row (secret # cs1) bi"
        by (rule horner_values_inj [OF pts(1)])
          (use cs2 cs1 bi pts(2) row [of bi] at0 in \<open>simp_all add: coeff_row_def [of "_ # _"]\<close>)
      then show "coeff_row cs2 bi = coeff_row cs1 bi" by (simp add: coeff_row_def)
    qed (use cs1 cs2 in auto)
  qed
qed

text \<open>C6. Perfect secrecy of the shard values: whatever the secret was, any \<open>k - 1\<close> of the shard
  values fit every other secret of the same length, and each of them for exactly one choice of the
  random bytes; so with uniform randomness these values carry no information on the secret.\<close>

theorem vault_perfect_secrecy:
  assumes split: "vault_Split cr secret n k e = Ok (shards, e')" and n: "n \<le> 127"
    and sel: "sel \<subseteq> {..<nat n}" "card sel = nat (k - 1)"
    and len: "length secret' = length secret"
  shows "\<exists>!e2. length e2 = nat (k - 1) * length secret \<and>
    (\<exists>shards2 e2'. vault_Split cr secret' n k e2 = Ok (shards2, e2') \<and>
      (\<forall>i \<in> sel. sh_index (shards2 ! i) = sh_index (shards ! i) \<and>
        sh_value (shards2 ! i) = sh_value (shards ! i)))"
proof -
  let ?m = "nat (k - 1)" and ?len = "length secret" and ?is = "sorted_list_of_set sel"
  let ?x = "\<lambda>i. gf (of_nat ((i + 1) * 2))"
  obtain cs where cs: "length cs = ?m" "\<forall>c \<in> set cs. length c = ?len"
    and sh: "shards = map (make_shard cr (secret # cs) ?len (shardHMACKey cr secret)) [0..<nat n]"
    using vault_Split_Ok [OF split] by metis
  have fin: "finite sel" using sel(1) finite_subset by blast
  define ys where "ys bi = map (\<lambda>i. horner (coeff_row (secret # cs) bi) (?x i)) ?is" for bi
  define fits where "fits cs' \<longleftrightarrow> (\<forall>bi < ?len. map (horner (coeff_row (secret' # cs') bi)) (map ?x ?is) = ys bi)" for cs'
  have out: "vault_Split cr secret' n k (concat cs') =
      Ok (map (make_shard cr (secret' # cs') ?len (shardHMACKey cr secret')) [0..<nat n], [])"
    if "length cs' = ?m" "\<forall>c \<in> set cs'. length c = ?len" for cs'
    using split_of_coeffs [OF split len that] len by simp
  have agree: "(\<forall>i \<in> sel. sh_index (shards2 ! i) = sh_index (shards ! i) \<and>
      sh_value (shards2 ! i) = sh_value (shards ! i)) \<longleftrightarrow> fits cs'"
    if s2: "shards2 = map (make_shard cr (secret' # cs') ?len (shardHMACKey cr secret')) [0..<nat n]" for shards2 cs'
  proof -
    have "sh_index (shards2 ! i) = sh_index (shards ! i) \<and> (sh_value (shards2 ! i) = sh_value (shards ! i) \<longleftrightarrow>
        (\<forall>bi < ?len. horner (coeff_row (secret' # cs') bi) (?x i) = horner (coeff_row (secret # cs) bi) (?x i)))"
      if "i \<in> sel" for i
      using that sel(1) sh s2 make_shard_value_eq by (auto simp: make_shard_def Let_def subset_iff)
    then show ?thesis using fin by (auto simp: fits_def ys_def)
  qed
  have pts: "distinct (0 # map ?x ?is)" "length (map ?x ?is) = ?m"
    using split_points [OF n sel(1)] sel(2) fin by simp_all
  have "length (ys bi) = ?m" for bi using pts(2) by (simp add: ys_def)
  from unique_masks [OF pts this, of ?len secret']
  have "\<exists>!cs1. length cs1 = ?m \<and> (\<forall>c \<in> set cs1. length c = ?len) \<and> fits cs1" unfolding fits_def .
  then obtain cs1 where cs1: "length cs1 = ?m" "\<forall>c \<in> set cs1. length c = ?len" "fits cs1"
    and "\<forall>c. length c = ?m \<and> (\<forall>b \<in> set c. length b = ?len) \<and> fits c \<longrightarrow> c = cs1"
    by (elim ex1E conjE) (rule that)
  then have uniq: "c = cs1" if "length c = ?m" "\<forall>b \<in> set c. length b = ?len" "fits c" for c
    using that by blast
  have char: "(\<exists>shards2 e2'. vault_Split cr secret' n k (concat cs2) = Ok (shards2, e2') \<and>
      (\<forall>i \<in> sel. sh_index (shards2 ! i) = sh_index (shards ! i) \<and> sh_value (shards2 ! i) = sh_value (shards ! i)))
      \<longleftrightarrow> fits cs2" if "length cs2 = ?m" "\<forall>c \<in> set cs2. length c = ?len" for cs2
    using out [OF that] agree [OF refl, of cs2] by auto
  show ?thesis
  proof (rule ex1I [of _ "concat cs1"])
    fix e2 assume e2: "length e2 = ?m * ?len \<and>
      (\<exists>shards2 e2'. vault_Split cr secret' n k e2 = Ok (shards2, e2') \<and>
        (\<forall>i \<in> sel. sh_index (shards2 ! i) = sh_index (shards ! i) \<and> sh_value (shards2 ! i) = sh_value (shards ! i)))"
    obtain cs2 where cs2: "length cs2 = ?m" "\<forall>c \<in> set cs2. length c = ?len" "concat cs2 = e2"
      by (rule blocks_of_text [of e2 ?m ?len]) (use e2 in blast)
    then show "e2 = concat cs1" using char [OF cs2(1,2)] uniq [OF cs2(1,2)] e2 by blast
  qed (use char [OF cs1(1,2)] cs1(3) length_blocks [OF cs1(1,2)] in blast)
qed

text \<open>C7. What \<open>Reconstruct\<close> accepts: the indices are distinct and non-zero, there are at least
  \<open>k\<close> of them and every shard's checksum is valid under the key of the returned secret. If one of the
  shards is an untouched shard of a split of \<open>secret\<close>, then the result is that secret, whatever was
  done to the others, unless the two secrets or their two keys collide under SHA-256 or HMAC.\<close>

theorem vault_reconstruct_sound:
  assumes "vault_Reconstruct cr rcv k = Ok s'"
    and "vault_Split cr secret n k0 e = Ok (shards, e')" and "s \<in> set rcv" "s \<in> set shards"
  shows "1 \<le> k \<and> k \<le> int (length rcv) \<and> distinct (map sh_index rcv) \<and> 0 \<notin> sh_index ` set rcv \<and>
    (\<forall>s \<in> set rcv. sh_checksum s = shardChecksum cr (sh_index s) (sh_value s) (shardHMACKey cr s')) \<and>
    (s' = secret \<or>
     sha_collision cr (str_bytes ''qs-shard-integrity-v1:'' @ s') (str_bytes ''qs-shard-integrity-v1:'' @ secret) \<or>
     hmac_collision cr (shardHMACKey cr s', sh_index s # sh_value s)
       (shardHMACKey cr secret, sh_index s # sh_value s))"
proof -
  have idx: "check_indices [] rcv = None" and k: "1 \<le> k" "k \<le> int (length rcv)"
    and sums: "verify_checksums cr (shardHMACKey cr s') 0 rcv = None"
    using assms(1) by (auto simp: vault_Reconstruct_def Let_def
      split: if_splits option.splits result.splits)
  note sums = sums [unfolded verify_checksums_None_iff]
  obtain cs where "shards = map (make_shard cr (secret # cs) (length secret) (shardHMACKey cr secret)) [0..<nat n]"
    using vault_Split_Ok [OF assms(2)] by metis
  then have "sh_checksum s = shardChecksum cr (sh_index s) (sh_value s) (shardHMACKey cr secret)"
    using assms(4) by (auto simp: make_shard_def Let_def)
  then have "hmac cr (shardHMACKey cr s') (sh_index s # sh_value s) =
      hmac cr (shardHMACKey cr secret) (sh_index s # sh_value s)"
    using sums assms(3) by (simp add: shardChecksum_def)
  then have "s' = secret \<or>
     sha_collision cr (str_bytes ''qs-shard-integrity-v1:'' @ s') (str_bytes ''qs-shard-integrity-v1:'' @ secret) \<or>
     hmac_collision cr (shardHMACKey cr s', sh_index s # sh_value s)
       (shardHMACKey cr secret, sh_index s # sh_value s)"
    by (auto simp: shardHMACKey_def sha_collision_def hmac_collision_def)
  then show ?thesis using k sums check_indices_NoneD [OF idx] by blast
qed

text \<open>From 128 shards on the x-coordinate \<open>byte((si+1)*2)\<close> wraps: the 128th shard has index 0
  and its value is the secret itself, although the documented range of \<open>n\<close> goes to 255, and
  \<open>Reconstruct\<close> refuses every selection that contains it.\<close>

theorem vault_split_wraps:
  assumes "vault_Split cr secret n k e = Ok (shards, e')" and "128 \<le> n"
  shows "sh_index (shards ! 127) = 0 \<and> sh_value (shards ! 127) = secret \<and>
    (\<forall>rcv k' s'. shards ! 127 \<in> set rcv \<longrightarrow> vault_Reconstruct cr rcv k' \<noteq> Ok s')"
proof -
  obtain cs where sh: "shards = map (make_shard cr (secret # cs) (length secret) (shardHMACKey cr secret)) [0..<nat n]"
    using vault_Split_Ok [OF assms(1)] by metis
  have nth: "shards ! 127 = make_shard cr (secret # cs) (length secret) (shardHMACKey cr secret) 127"
    unfolding sh using assms(2) by (subst nth_map) auto
  have x: "(of_nat ((127 + 1) * 2) :: byte) = 0" by simp
  have "eval_byte (secret # cs) 0 bi = secret ! bi" for bi by (simp add: eval_byte_def)
  then have "sh_value (shards ! 127) = map ((!) secret) [0..<length secret]"
    unfolding nth make_shard_def Let_def x by simp
  then have val: "sh_value (shards ! 127) = secret" by (simp add: map_nth)
  have idx: "sh_index (shards ! 127) = 0" unfolding nth make_shard_def Let_def x by simp
  have bad: "check_indices [] rcv \<noteq> None" if "shards ! 127 \<in> set rcv" for rcv
  proof
    assume "check_indices [] rcv = None"
    then have "0 \<notin> sh_index ` set rcv" by (blast dest: check_indices_NoneD)
    then show False using that idx by (metis imageI)
  qed
  have "vault_Reconstruct cr rcv k' \<noteq> Ok s'" if "shards ! 127 \<in> set rcv" for rcv k' s'
    using bad [OF that] unfolding vault_Reconstruct_def by (cases "check_indices [] rcv") auto
  with val idx show ?thesis by blast
qed

text \<open>\<open>Reconstruct\<close> is partial: when the structural checks pass and one of the first \<open>k\<close> shards
  has a shorter value than the first one, it indexes that value out of range and panics, instead of
  returning one of its errors.\<close>

theorem vault_reconstruct_panics:
  assumes "1 \<le> k" "k \<le> int (length rcv)" "distinct (map sh_index rcv)" "0 \<notin> sh_index ` set rcv"
    and "s \<in> set (take (nat k) rcv)" "length (sh_value s) < length (sh_value (hd rcv))"
  shows "vault_Reconstruct cr rcv k = Panic"
proof -
  let ?act = "take (nat k) rcv"
  have hd: "hd ?act = hd rcv" using assms(1,5) by (cases rcv) (auto simp: take_Cons')
  have "snd ` set (enumerate 0 ?act) = set ?act" by (metis list.set_map map_snd_enumerate)
  then obtain i where i: "(i, s) \<in> set (enumerate 0 ?act)" using assms(5) by force
  have "recon_bytes (enumerate 0 ?act) [0..<length (sh_value (hd rcv))] \<noteq> Ok b" for b
  proof
    assume ok: "recon_bytes (enumerate 0 ?act) [0..<length (sh_value (hd rcv))] = Ok b"
    have "length (sh_value s) \<in> set [0..<length (sh_value (hd rcv))]" using assms(6) by simp
    from recon_bytes_OkD [OF ok this] obtain c
      where "recon_byte (length (sh_value s)) (enumerate 0 ?act) (enumerate 0 ?act) 0 = Ok c" by blast
    then show False using recon_byte_OkD i by fastforce
  qed
  then have "recon_bytes (enumerate 0 ?act) [0..<length (sh_value (hd rcv))] = Panic"
    using recon_bytes_not_Err by (metis result.exhaust)
  moreover have "check_indices [] rcv = None" by (rule check_indices_None) (use assms in auto)
  moreover have "rcv \<noteq> []" using assms(5) by auto
  moreover have "sh_value (hd rcv) \<noteq> []" using assms(6) by auto
  ultimately show ?thesis using assms(1,2) hd by (simp add: vault_Reconstruct_def Let_def)
qed

section \<open>Concrete runs\<close>

lemma demo_split:
  obtains ss where "vault_Split toy_crypto [42, 7] 3 2 [5, 6] = Ok (ss, [])" "length ss = 3"
    "ss ! 2 \<in> set ss" "ss ! 0 \<in> set ss" "ss ! 2 \<noteq> ss ! 0"
proof -
  have "is_ok (vault_Split toy_crypto [42, 7] 3 2 [5, 6])"
    by (simp add: vault_Split_def rand_read_def numeral_2_eq_2 Let_def)
  then obtain ss e where run: "vault_Split toy_crypto [42, 7] 3 2 [5, 6] = Ok (ss, e)"
    by (auto simp: is_ok_iff)
  then have "e = []" by (auto simp: vault_Split_def rand_read_def Let_def)
  have len: "length ss = 3" using run by (auto simp: vault_Split_def rand_read_def Let_def)
  have idx: "sh_index (ss ! i) = of_nat ((i + 1) * 2)" if "i < 3" for i
    by (rule split_shards [OF run]) (use that in simp_all)
  have "sh_index (ss ! 2) = 6" "sh_index (ss ! 0) = 2" using idx [of 2] idx [of 0] by simp_all
  then have "ss ! 2 \<noteq> ss ! 0" by auto
  moreover have "ss ! 2 \<in> set ss" "ss ! 0 \<in> set ss" using len by simp_all
  ultimately show thesis using that [of ss] run \<open>e = []\<close> len by simp
qed

theorem vault_roundtrip_witness:
  "case vault_Split toy_crypto [42, 7] 3 2 [5, 6] of
     Ok (ss, e) \<Rightarrow> vault_Reconstruct toy_crypto [ss ! 2, ss ! 0] 2 = Ok [42, 7] | _ \<Rightarrow> False"
proof -
  obtain ss where ss: "vault_Split toy_crypto [42, 7] 3 2 [5, 6] = Ok (ss, [])"
    "ss ! 2 \<in> set ss" "ss ! 0 \<in> set ss" "ss ! 2 \<noteq> ss ! 0" by (rule demo_split)
  then show ?thesis using vault_roundtrip [OF ss(1), of "[ss ! 2, ss ! 0]"] by simp
qed

theorem vault_perfect_secrecy_witness:
  "case vault_Split toy_crypto [42, 7] 3 2 [5, 6] of
     Ok (ss, e) \<Rightarrow> \<exists>!e2. length e2 = nat (2 - 1) * length [42, 7 :: byte] \<and>
       (\<exists>shards2 e2'. vault_Split toy_crypto [1, 2] 3 2 e2 = Ok (shards2, e2') \<and>
         (\<forall>i \<in> {1}. sh_index (shards2 ! i) = sh_index (ss ! i) \<and>
           sh_value (shards2 ! i) = sh_value (ss ! i)))
   | _ \<Rightarrow> False"
proof -
  obtain ss where ss: "vault_Split toy_crypto [42, 7] 3 2 [5, 6] = Ok (ss, [])" by (rule demo_split)
  show ?thesis unfolding ss result.case prod.case
    by (rule vault_perfect_secrecy [OF ss]) simp_all
qed

theorem vault_reconstruct_sound_witness:
  "case vault_Split toy_crypto [42, 7] 3 2 [5, 6] of
     Ok (ss, e) \<Rightarrow> distinct (map sh_index [ss ! 2, ss ! 0]) | _ \<Rightarrow> False"
proof -
  obtain ss where ss: "vault_Split toy_crypto [42, 7] 3 2 [5, 6] = Ok (ss, [])"
    "ss ! 2 \<in> set ss" "ss ! 0 \<in> set ss" "ss ! 2 \<noteq> ss ! 0" by (rule demo_split)
  then have "vault_Reconstruct toy_crypto [ss ! 2, ss ! 0] 2 = Ok [42, 7]"
    by (intro reconstruct_selection [OF ss(1)]) simp_all
  from vault_reconstruct_sound [OF this ss(1) _ ss(2)] ss show ?thesis by simp
qed

theorem vault_split_wraps_witness:
  "case vault_Split toy_crypto [42] 128 2 [5] of
     Ok (ss, e) \<Rightarrow> sh_index (ss ! 127) = 0 \<and> sh_value (ss ! 127) = [42] | _ \<Rightarrow> False"
proof -
  have "is_ok (vault_Split toy_crypto [42] 128 2 [5])"
    by (simp add: vault_Split_def rand_read_def numeral_2_eq_2 Let_def)
  then obtain ss e where "vault_Split toy_crypto [42] 128 2 [5] = Ok (ss, e)"
    by (auto simp: is_ok_iff)
  with vault_split_wraps [OF this] show ?thesis by simp
qed

theorem vault_reconstruct_panics_witness:
  "vault_Reconstruct toy_crypto
     [\<lparr>sh_index = 2, sh_value = [1, 2], sh_checksum = []\<rparr>, \<lparr>sh_index = 4, sh_value = [3], sh_checksum = []\<rparr>]
     2 = Panic"
  by (rule vault_reconstruct_panics
    [where s = "\<lparr>sh_index = 4, sh_value = [3], sh_checksum = []\<rparr>"]) (simp_all add: take_Cons')

end
