(* ===== verification/ServerState.thy ===== *)
theory ServerState
  imports AuditLog Auth Channel Threshold Hybrid Keystore CAStore ClusterNode Fips Metrics Vault
begin

text \<open>
  The API server of \<open>pkg/api/server.go\<close>: its state, the small steps its handlers are made of, start-up,
  shutdown, the background cleaner and the helpers. Requests are served one after another; while one is
  served the clock stands still, the disk behaves in one way and Raft gives one view of itself. The
  handlers are in \<open>ServerKeys\<close>, \<open>ServerCA\<close> and \<open>ServerSessions\<close>, the routes and the middleware chain
  in \<open>Server\<close>.
\<close>

section \<open>State and requests\<close>

record channel_init_entry =
  ci_initiator :: initiator
  ci_req :: init_request
  ci_createdAt :: gotime

record channel_sess_entry =
  cx_sess :: session
  cx_lastUsed :: gotime

record threshold_round_entry =
  tr_coord :: coordinator
  tr_msg :: bytes
  tr_nonce :: bytes
  tr_createdAt :: gotime

record signer_entry =
  sr_signer :: signer
  sr_lastUsed :: gotime

record mem_key =
  mk_EK :: bytes
  mk_DK :: bytes
  mk_level :: int

record srv =
  sv_auth :: authority
  sv_audit :: logger
  sv_encLevel :: int
  sv_rl :: rate_limiter
  sv_srl :: rate_limiter
  sv_metrics :: registry
  sv_bootstrapSecret :: string
  sv_ks :: "store option"
  sv_keypairs :: "(string, mem_key) gomap"
  sv_decryptors :: "(int, decrypter) gomap"
  sv_channelInitiators :: "(string, channel_init_entry) gomap"
  sv_channelSessions :: "(string, channel_sess_entry) gomap"
  sv_thresholdSigners :: "(string, signer_entry) gomap"
  sv_thresholdRounds :: "(string, threshold_round_entry) gomap"
  sv_caInstance :: "authority_ca option"
  sv_caIntermediates :: "(string, authority_ca) gomap"
  sv_caStore :: "ca_store option"
  sv_caStorePath :: string
  sv_caStorePassword :: string
  sv_fipsReport :: "fips_report option"
  sv_clusterNode :: "node option"
  sv_clusterHTTPAddr :: string
  sv_origins :: string
  sv_closed :: bool
  sv_files :: files
  sv_rand :: entropy

text \<open>
  A request with what the environment does while it is served: the disk, Raft and its answers, the text
  of the errors that end up in responses (\<open>ar_err\<close>), how a JSON number prints after its passage through
  \<open>float64\<close> (\<open>ar_reprint\<close>) and how \<open>fmt\<close> prints one (\<open>ar_fmt\<close>), how long a FIPS probe takes, and
  \<open>runtime.Version()\<close>.
\<close>

record api_request = request +
  ar_disk :: disk
  ar_raft :: raft_view
  ar_apply :: "string \<Rightarrow> duration \<Rightarrow> apply_outcome"
  ar_addVoter :: "string \<Rightarrow> string \<Rightarrow> string option"
  ar_removeServer :: "string \<Rightarrow> string option"
  ar_err :: string
  ar_reprint :: "jval \<Rightarrow> jval"
  ar_fmt :: "rat \<Rightarrow> string"
  ar_took :: "string \<Rightarrow> duration"
  ar_goVersion :: string

section \<open>Steps of a handler\<close>

text \<open>A step goes on with a value, or answers the request, or panics.\<close>

datatype 'a outcome = Next 'a | Answer response | Crash

type_synonym 'a act = "srv \<Rightarrow> 'a outcome \<times> srv"

definition give :: "'a \<Rightarrow> 'a act" where
  "give x s = (Next x, s)"

definition and_then :: "'a act \<Rightarrow> ('a \<Rightarrow> 'b act) \<Rightarrow> 'b act" where
  "and_then m k s =
     (case m s of (Next x, s') \<Rightarrow> k x s' | (Answer r, s') \<Rightarrow> (Answer r, s') | (Crash, s') \<Rightarrow> (Crash, s'))"

fun run_all :: "unit act list \<Rightarrow> unit act" where
  "run_all [] = give ()"
| "run_all (m # ms) = and_then m (\<lambda>_. run_all ms)"

definition asks :: "(srv \<Rightarrow> 'a) \<Rightarrow> 'a act" where
  "asks f s = (Next (f s), s)"

definition change :: "(srv \<Rightarrow> srv) \<Rightarrow> unit act" where
  "change f s = (Next (), f s)"

definition crash :: "'a act" where
  "crash s = (Crash, s)"

definition answer :: "int \<Rightarrow> jval \<Rightarrow> 'a act" where
  "answer c v s = (Answer (reply c v), s)"

definition ok_json :: "jval \<Rightarrow> 'a act" where
  "ok_json v = answer StatusOK v"

definition refuse :: "int \<Rightarrow> string \<Rightarrow> 'a act" where
  "refuse c msg s = (Answer (reply_error c msg), s)"

text \<open>The three ways a call into a package ends.\<close>

definition attempt :: "('e, 'x) result \<Rightarrow> ('x \<Rightarrow> 'a act) \<Rightarrow> ('e \<Rightarrow> 'a act) \<Rightarrow> 'a act" where
  "attempt r k h = (case r of Ok x \<Rightarrow> k x | Err er \<Rightarrow> h er | Panic \<Rightarrow> crash)"

definition put_rand :: "entropy \<Rightarrow> unit act" where
  "put_rand e = change (sv_rand_update (\<lambda>_. e))"

definition put_files :: "files \<Rightarrow> unit act" where
  "put_files fs = change (sv_files_update (\<lambda>_. fs))"

text \<open>Counters and gauges; an unregistered name panics.\<close>

definition inc :: "string \<Rightarrow> unit act" where
  "inc name s =
     (case counter_Inc name (sv_metrics s) of
        None \<Rightarrow> (Crash, s) | Some m \<Rightarrow> (Next (), s\<lparr>sv_metrics := m\<rparr>))"

definition set_gauge :: "string \<Rightarrow> int \<Rightarrow> unit act" where
  "set_gauge name n s =
     (case gauge_Set name (f64_of_int n) (sv_metrics s) of
        None \<Rightarrow> (Crash, s) | Some m \<Rightarrow> (Next (), s\<lparr>sv_metrics := m\<rparr>))"

definition req_subject :: "'r request_scheme \<Rightarrow> string" where
  "req_subject r = (case hr_Subject r of Some s \<Rightarrow> s | None \<Rightarrow> ''anonymous'')"

text \<open>The audit entry of a request; an error of the logger is ignored.\<close>

definition audit_as :: "crypto \<Rightarrow> string \<Rightarrow> 'r request_scheme \<Rightarrow> string \<Rightarrow> string \<Rightarrow> string \<Rightarrow> unit act" where
  "audit_as cr actor r action res resource =
     change (sv_audit_update (log_step cr \<lparr>lo_actor = actor, lo_action = action, lo_result = res,
       lo_resource = resource, lo_now = hr_Now r\<rparr>))"

definition audit :: "crypto \<Rightarrow> 'r request_scheme \<Rightarrow> string \<Rightarrow> string \<Rightarrow> string \<Rightarrow> unit act" where
  "audit cr r action res resource = audit_as cr (req_subject r) r action res resource"

definition audit_gauge :: "unit act" where
  "audit_gauge = and_then (asks (\<lambda>s. int (audit_Count (sv_audit s)))) (set_gauge ''qs_audit_log_entries'')"

section \<open>Keys\<close>

definition keyCount :: "srv \<Rightarrow> nat" where
  "keyCount s = (case sv_ks s of Some ks \<Rightarrow> length (ks_List ks) | None \<Rightarrow> length (sv_keypairs s))"

definition keys_gauge :: "unit act" where
  "keys_gauge = and_then (asks (\<lambda>s. int (keyCount s))) (set_gauge ''qs_keystore_keys_total'')"

definition put_ks :: "store \<Rightarrow> files \<Rightarrow> entropy \<Rightarrow> unit act" where
  "put_ks ks fs e = change (\<lambda>s. s\<lparr>sv_ks := Some ks, sv_files := fs, sv_rand := e\<rparr>)"

text \<open>A call on the keystore: its outcome after its effects on the store, the files and the random source.\<close>

definition on_ks :: "'a ks_out \<Rightarrow> (keystore_error, 'a) result act" where
  "on_ks r = (case r of (x, ks, fs, e) \<Rightarrow> and_then (put_ks ks fs e) (\<lambda>_. give x))"

definition storeKey ::
    "crypto \<Rightarrow> api_request \<Rightarrow> string \<Rightarrow> int \<Rightarrow> bytes \<Rightarrow> bytes \<Rightarrow> (keystore_error, unit) result act" where
  "storeKey cr r keyID level ek dk s =
     (case sv_ks s of
        Some ks \<Rightarrow> on_ks (ks_Put cr (ar_disk r) (hr_Now r) keyID level ek dk 0 ks (sv_files s) (sv_rand s)) s
      | None \<Rightarrow>
          (Next (Ok ()), s\<lparr>sv_keypairs := gm_put keyID \<lparr>mk_EK = ek, mk_DK = dk, mk_level = level\<rparr> (sv_keypairs s)\<rparr>))"

text \<open>\<open>Ok None\<close> is a key that is not found.\<close>

definition find_key :: "crypto \<Rightarrow> gotime \<Rightarrow> string \<Rightarrow> srv \<Rightarrow> (unit, mem_key option) result" where
  "find_key cr now keyID s =
     (case sv_ks s of
        Some ks \<Rightarrow>
          (case ks_GetActive cr now keyID ks of
             Ok kv \<Rightarrow> Ok (Some \<lparr>mk_EK = kv_EK kv, mk_DK = kv_DK kv, mk_level = kv_Level kv\<rparr>)
           | Err _ \<Rightarrow> Ok None
           | Panic \<Rightarrow> Panic)
      | None \<Rightarrow> Ok (gm_get (sv_keypairs s) keyID))"

definition lookupKey :: "crypto \<Rightarrow> 'r request_scheme \<Rightarrow> string \<Rightarrow> mem_key option act" where
  "lookupKey cr r keyID = and_then (asks (find_key cr (hr_Now r) keyID)) (\<lambda>res. attempt res give (\<lambda>_. give None))"

definition keystoreRequired :: "store act" where
  "keystoreRequired =
     and_then (asks sv_ks) (\<lambda>ks. case ks of
       Some k \<Rightarrow> give k
     | None \<Rightarrow> answer StatusServiceUnavailable (JObj [(''error'',
         JStr (''keystore not configured '' @ [CHR 0xE2, CHR 0x80, CHR 0x94] @ '' set KEYSTORE_PATH and KEYSTORE_PASSWORD''))]))"

section \<open>Small helpers\<close>

definition id_char :: "char \<Rightarrow> bool" where
  "id_char c = (let n = of_char c :: nat in
     97 \<le> n \<and> n \<le> 122 \<or> 65 \<le> n \<and> n \<le> 90 \<or> 48 \<le> n \<and> n \<le> 57 \<or> c \<in> set ''._@-:'')"

definition isValidUserID :: "string \<Rightarrow> bool" where
  "isValidUserID s \<longleftrightarrow> \<not> (length s = 0 \<or> length s > 64) \<and> list_all id_char s"

text \<open>A random source that fails ends the process.\<close>

definition randomID :: "string act" where
  "randomID s =
     (case rand_read 9 (sv_rand s) of
        None \<Rightarrow> (Crash, s) | Some (b, e) \<Rightarrow> (Next (b64url b), s\<lparr>sv_rand := e\<rparr>))"

definition getenv :: "(string, string) gomap \<Rightarrow> string \<Rightarrow> string" where
  "getenv env k = (case gm_get env k of None \<Rightarrow> [] | Some v \<Rightarrow> v)"

definition secretFromEnv :: "(string, string) gomap \<Rightarrow> files \<Rightarrow> string \<Rightarrow> string" where
  "secretFromEnv env fs name =
     (let path = getenv env (name @ ''_FILE'') in
      if path \<noteq> [] then
        (case gm_get fs path of
           Some data \<Rightarrow> trim_right_set data [CHR 0x0D, CHR 0x0A]
         | None \<Rightarrow> getenv env name)
      else getenv env name)"

definition knownAPISegment :: "string list" where
  "knownAPISegment =
     [[], ''health'', ''live'', ''ready'', ''fips'', ''metrics'', ''auth'', ''token'', ''verify'', ''revoke'', ''keys'',
      ''generate'', ''public'', ''encrypt'', ''decrypt'', ''sign'', ''verify-signature'', ''slh-dsa'', ''vault'',
      ''split'', ''reconstruct'', ''channel'', ''init'', ''complete'', ''seal'', ''open'', ''threshold'', ''round'',
      ''submit'', ''keystore'', ''rotate'', ''expire'', ''kdf'', ''hkdf'', ''argon2'', ''salt'', ''audit'', ''entries'',
      ''export'', ''import'', ''ca'', ''certificate'', ''crl'', ''intermediate'', ''chain-verify'']"

definition normalizeAPIPath :: "string \<Rightarrow> string" where
  "normalizeAPIPath path =
     join_with ''/'' (map (\<lambda>p. if p \<in> set knownAPISegment then p else ''{id}'') (split_on CHR ''/'' path))"

section \<open>Cluster\<close>

definition clusterEnabled :: "srv \<Rightarrow> bool" where
  "clusterEnabled s \<longleftrightarrow> sv_clusterNode s \<noteq> None"

definition isLeader :: "api_request \<Rightarrow> srv \<Rightarrow> bool" where
  "isLeader r s \<longleftrightarrow> sv_clusterNode s = None \<or> IsLeader (ar_raft r)"

text \<open>\<open>%q\<close> of a name without quotes, backslashes or control characters. The two headers with the
  leader's name and address repeat the body and are left out.\<close>

definition requireLeader :: "api_request \<Rightarrow> unit act" where
  "requireLeader r s =
     (if isLeader r s then (Next (), s)
      else if rv_LeaderAddr (ar_raft r) = []
      then refuse StatusServiceUnavailable
             (''cluster has no leader '' @ [CHR 0xE2, CHR 0x80, CHR 0x94] @ '' election in progress, retry shortly'') s
      else (Answer \<lparr>rs_Code = StatusServiceUnavailable,
              rs_Body = JsonBody (JObj [(''error'', JStr ''not the leader''), (''leader_id'', JStr (rv_LeaderID (ar_raft r))),
                (''leader_raft_addr'', JStr (rv_LeaderAddr (ar_raft r)))])\<rparr>, s))"

definition clusterApply :: "api_request \<Rightarrow> OpType \<Rightarrow> jval option \<Rightarrow> (node_error, unit) result act" where
  "clusterApply r oper payload s =
     (case sv_clusterNode s of
        None \<Rightarrow> (Next (Ok ()), s)
      | Some n \<Rightarrow> (Next (ApplyJSON (ar_raft r) (ar_apply r) n oper payload), s))"

section \<open>Authentication\<close>

type_synonym api_handler = "api_request \<Rightarrow> unit act"

definition hasRole :: "'r request_scheme \<Rightarrow> string \<Rightarrow> bool" where
  "hasRole r role \<longleftrightarrow> (case hr_Roles r of Some roles \<Rightarrow> role \<in> set roles | None \<Rightarrow> False)"

definition allow_subject :: "string \<Rightarrow> gotime \<Rightarrow> bool act" where
  "allow_subject sub now s =
     (case rl_allow sub now (sv_srl s) of (ok, rl) \<Rightarrow> (Next ok, s\<lparr>sv_srl := rl\<rparr>))"

text \<open>The header \<open>Retry-After\<close> of the 429 answer is set by \<open>serve\<close>, see \<open>Server\<close>.\<close>

definition requireAuth :: "crypto \<Rightarrow> api_handler \<Rightarrow> api_handler" where
  "requireAuth cr nxt r =
     (let token = trim_prefix (req_header ''Authorization'' r) ''Bearer '' in
      if token = [] then refuse StatusUnauthorized ''Authentication failed''
      else and_then (asks sv_auth) (\<lambda>a.
        attempt (auth_Verify cr a token (hr_Now r))
          (\<lambda>tok. and_then (allow_subject (c_sub (t_claims tok)) (hr_Now r)) (\<lambda>ok.
             if \<not> ok then refuse StatusTooManyRequests ''Rate limit exceeded''
             else nxt (r\<lparr>hr_Subject := Some (c_sub (t_claims tok)), hr_Roles := Some (c_roles (t_claims tok))\<rparr>)))
          (\<lambda>_. refuse StatusUnauthorized ''Authentication failed'')))"

definition requireRole :: "crypto \<Rightarrow> string \<Rightarrow> api_handler \<Rightarrow> api_handler" where
  "requireRole cr role nxt =
     requireAuth cr (\<lambda>r. if \<not> hasRole r role then refuse StatusForbidden ''Forbidden'' else nxt r)"

section \<open>Start-up, shutdown and the cleaner\<close>

abbreviation channelHandshakeTTL :: duration where "channelHandshakeTTL \<equiv> 5 * Minute"
abbreviation channelSessionTTL :: duration where "channelSessionTTL \<equiv> Hour"
abbreviation thresholdRoundTTL :: duration where "thresholdRoundTTL \<equiv> 30 * Minute"
abbreviation thresholdSignerTTL :: duration where "thresholdSignerTTL \<equiv> 24 * Hour"

definition pruneChannelState :: "gotime \<Rightarrow> srv \<Rightarrow> srv" where
  "pruneChannelState now s =
     s\<lparr>sv_channelInitiators :=
         gm_filter (\<lambda>_ e. \<not> time_Sub now (ci_createdAt e) > channelHandshakeTTL) (sv_channelInitiators s),
       sv_channelSessions :=
         gm_filter (\<lambda>_ e. \<not> time_Sub now (cx_lastUsed e) > channelSessionTTL) (sv_channelSessions s)\<rparr>"

definition pruneThresholdState :: "gotime \<Rightarrow> srv \<Rightarrow> srv" where
  "pruneThresholdState now s =
     s\<lparr>sv_thresholdRounds :=
         gm_filter (\<lambda>_ e. \<not> time_Sub now (tr_createdAt e) > thresholdRoundTTL) (sv_thresholdRounds s),
       sv_thresholdSigners :=
         gm_filter (\<lambda>_ e. \<not> time_Sub now (sr_lastUsed e) > thresholdSignerTTL) (sv_thresholdSigners s)\<rparr>"

definition stateCleanup :: "gotime \<Rightarrow> srv \<Rightarrow> srv" where
  "stateCleanup now s = (if sv_closed s then s else pruneThresholdState now (pruneChannelState now s))"

definition srv_Close :: "srv \<Rightarrow> srv" where
  "srv_Close s = (if sv_closed s then s else s\<lparr>sv_closed := True, sv_ks := map_option ks_Close (sv_ks s)\<rparr>)"

text \<open>The options of \<open>New\<close>.\<close>

datatype srv_option =
    IPRateLimit int duration | SubjectRateLimit int duration | ClusterNodeOption node string

fun apply_option :: "srv_option \<Rightarrow> srv \<Rightarrow> srv" where
  "apply_option (IPRateLimit limit window) s = s\<lparr>sv_rl := NewRateLimiter limit window\<rparr>"
| "apply_option (SubjectRateLimit limit window) s = s\<lparr>sv_srl := NewRateLimiter limit window\<rparr>"
| "apply_option (ClusterNodeOption n addr) s = s\<lparr>sv_clusterNode := Some n, sv_clusterHTTPAddr := addr\<rparr>"

datatype new_error =
    NewAuth auth_error | NewRevocation auth_error | NewAudit audit_error | NewKeystorePassword
  | NewKeystore keystore_error | NewCAStorePassword | NewCAStore castore_error

text \<open>The registry of a server: the package panics on a name registered twice.\<close>

definition server_metrics :: "gotime \<Rightarrow> registry option" where
  "server_metrics now =
     map_option (SetPathNormalizer normalizeAPIPath)
       (Option.bind (New_registry now) (\<lambda>r. Option.bind (RegisterHTTPMetrics r) RegisterCryptoMetrics))"

definition fresh_server ::
    "(string, string) gomap \<Rightarrow> authority \<Rightarrow> logger \<Rightarrow> registry \<Rightarrow> files \<Rightarrow> entropy \<Rightarrow> srv" where
  "fresh_server env a l m fs e =
     \<lparr>sv_auth = a, sv_audit = l, sv_encLevel = 768, sv_rl = NewRateLimiter 60 (60 * Second),
      sv_srl = NewRateLimiter 120 (60 * Second), sv_metrics = m,
      sv_bootstrapSecret = secretFromEnv env fs ''BOOTSTRAP_SECRET'', sv_ks = None, sv_keypairs = [],
      sv_decryptors = [(768, NewDecrypter 768), (1024, NewDecrypter 1024)], sv_channelInitiators = [],
      sv_channelSessions = [], sv_thresholdSigners = [], sv_thresholdRounds = [], sv_caInstance = None,
      sv_caIntermediates = [], sv_caStore = None, sv_caStorePath = [], sv_caStorePassword = [],
      sv_fipsReport = None, sv_clusterNode = None, sv_clusterHTTPAddr = [],
      sv_origins = getenv env ''ALLOWED_ORIGINS'', sv_closed = False, sv_files = fs, sv_rand = e\<rparr>"

definition open_keystore ::
    "crypto \<Rightarrow> disk \<Rightarrow> (string, string) gomap \<Rightarrow> srv \<Rightarrow> (new_error, srv) result" where
  "open_keystore cr d env s =
     (let ksPath = getenv env ''KEYSTORE_PATH'' in
      if ksPath = [] then Ok s
      else let ksPwd = secretFromEnv env (sv_files s) ''KEYSTORE_PASSWORD'' in
        if ksPwd = [] then Err NewKeystorePassword
        else case ks_Open cr d ksPath ksPwd (sv_files s) of
          (Ok ks, fs) \<Rightarrow> Ok (s\<lparr>sv_ks := Some ks, sv_files := fs\<rparr>)
        | (Err er, fs) \<Rightarrow> Err (NewKeystore er)
        | (Panic, fs) \<Rightarrow> Panic)"

definition open_caStore :: "crypto \<Rightarrow> (string, string) gomap \<Rightarrow> srv \<Rightarrow> (new_error, srv) result" where
  "open_caStore cr env s =
     (let caPath = secretFromEnv env (sv_files s) ''CA_STORE_PATH'' in
      if caPath = [] then Ok s
      else let caPwd = secretFromEnv env (sv_files s) ''CA_STORE_PASSWORD'' in
        if caPwd = [] then Err NewCAStorePassword
        else let s1 = s\<lparr>sv_caStorePath := caPath, sv_caStorePassword := caPwd\<rparr> in
          case gm_get (sv_files s) caPath of
            None \<Rightarrow> Ok (s1\<lparr>sv_caStore := Some cs_New\<rparr>)
          | Some _ \<Rightarrow>
              (case cs_Load cr caPath caPwd (sv_files s) of
                 Ok cs \<Rightarrow>
                   (let s2 = s1\<lparr>sv_caStore := Some cs\<rparr> in
                    case cs_root cs of
                      None \<Rightarrow> Ok s2
                    | Some rootCA \<Rightarrow>
                        Ok (s2\<lparr>sv_caInstance := Some rootCA,
                          sv_caIntermediates := fold (\<lambda>(k, sub) m. gm_put k sub m) (cs_intermediates cs) (sv_caIntermediates s2)\<rparr>))
               | Err er \<Rightarrow> Err (NewCAStore er)
               | Panic \<Rightarrow> Panic))"

definition srv_New ::
    "crypto \<Rightarrow> disk \<Rightarrow> (string, string) gomap \<Rightarrow> srv_option list \<Rightarrow> gotime \<Rightarrow> files \<Rightarrow> entropy \<Rightarrow> (new_error, srv) result"
  where
  "srv_New cr d env opts now fs e =
     (case NewAuthority cr ''QuantumShield-API'' (3600 * Second) 65 e of
        Err er \<Rightarrow> Err (NewAuth er)
      | Panic \<Rightarrow> Panic
      | Ok (a0, e1) \<Rightarrow>
          (let revFile = getenv env ''REVOCATION_FILE'' in
           case (if revFile = [] then Ok a0 else SetRevocationFile revFile now fs a0) of
             Err er \<Rightarrow> Err (NewRevocation er)
           | Panic \<Rightarrow> Panic
           | Ok a \<Rightarrow>
               (case NewLogger cr ''QuantumShield-API'' e1 of
                  Err er \<Rightarrow> Err (NewAudit er)
                | Panic \<Rightarrow> Panic
                | Ok (l, e2) \<Rightarrow>
                    (case server_metrics now of
                       None \<Rightarrow> Panic
                     | Some m \<Rightarrow>
                         (case open_keystore cr d env (fold apply_option opts (fresh_server env a l m fs e2)) of
                            Ok s \<Rightarrow> open_caStore cr env s
                          | Err er \<Rightarrow> Err er
                          | Panic \<Rightarrow> Panic)))))"

end
