(* ===== verification/ServerKeys.thy ===== *)
theory ServerKeys
  imports ServerState
begin

text \<open>
  The handlers of \<open>pkg/api/server.go\<close> for health, tokens, keys, encryption, signatures, secret sharing,
  the audit log, key derivation, the encrypted keystore and the export of keys. Each takes the request
  and is a sequence of steps on the server's state; the request bodies are decoded as
  \<open>json.NewDecoder(r.Body).Decode\<close> decodes them into the anonymous structs of the handlers.
\<close>

section \<open>Bodies\<close>

definition body_obj :: "'r request_scheme \<Rightarrow> (string \<times> jval) list option" where
  "body_obj r = Option.bind (json_Decode (hr_Body r)) as_obj"

text \<open>A handler that ignores the decoder's error goes on with the fields that could be decoded.\<close>

definition lax_body :: "'r request_scheme \<Rightarrow> (string \<times> jval) list" where
  "lax_body r = (case body_obj r of None \<Rightarrow> [] | Some kvs \<Rightarrow> kvs)"

definition lax_str :: "string \<Rightarrow> (string \<times> jval) list \<Rightarrow> string" where
  "lax_str f kvs = fold (\<lambda>v old. case as_str v of Some s \<Rightarrow> s | None \<Rightarrow> old) (field_vals f kvs) []"

text \<open>A field that is a struct: its members in every occurrence, the later ones overriding.\<close>

definition obj_field :: "string \<Rightarrow> (string \<times> jval) list \<Rightarrow> (string \<times> jval) list option" where
  "obj_field f kvs = map_option concat (those (map as_obj (field_vals f kvs)))"

fun as_uint64 :: "jval \<Rightarrow> u64 option" where
  "as_uint64 (JInt i) = (if 0 \<le> i \<and> i < 2 ^ 64 then Some (word_of_int i) else None)"
| "as_uint64 _ = None"

abbreviation "uint64_field \<equiv> get_field as_uint64 0"

text \<open>A printed map has its keys sorted.\<close>

definition json_obj :: "(string \<times> jval) list \<Rightarrow> jval" where
  "json_obj kvs = JObj (sort_key fst kvs)"

abbreviation "jb64 b \<equiv> JStr (b64std b)"
abbreviation "jnat n \<equiv> JInt (int n)"

abbreviation "bad_request \<equiv> refuse StatusBadRequest ''Bad request''"
abbreviation "server_error \<equiv> refuse StatusInternalServerError ''Internal server error''"

text \<open>A value that does not print (a time outside the range of RFC 3339) leaves an empty body.\<close>

definition ok_json_opt :: "int \<Rightarrow> jval option \<Rightarrow> 'a act" where
  "ok_json_opt c v s = (Answer \<lparr>rs_Code = c, rs_Body = (case v of None \<Rightarrow> NoBody | Some x \<Rightarrow> JsonBody x)\<rparr>, s)"

section \<open>Health\<close>

definition em_dash :: string where "em_dash = [CHR 0xE2, CHR 0x80, CHR 0x94]"

definition handleHealth :: "api_request \<Rightarrow> unit act" where
  "handleHealth r =
     (if hr_Path r \<noteq> ''/'' then refuse StatusNotFound ''Not found''
      else ok_json (json_obj
        [(''service'', JStr ''QuantumShield API''), (''version'', JStr ''2.0.0''), (''language'', JStr ''Go''),
         (''standards'', JArr (map JStr [''NIST FIPS 203'', ''NIST FIPS 204'', ''NIST FIPS 205''])),
         (''algorithms'', json_map
           [(''kem'', ''ML-KEM-768 (crypto/mlkem '' @ em_dash @ '' Go stdlib)''), (''signature'', ''ML-DSA-65 (cloudflare/circl)''),
            (''slh_dsa'', ''SLH-DSA-SHA2 (Trail of Bits go-slh-dsa)''),
            (''symmetric'', ''AES-256-GCM (crypto/cipher '' @ em_dash @ '' Go stdlib)'')]),
         (''status'', JStr ''operational''), (''timestamp'', JInt (time_Unix (hr_Now r)))]))"

definition handleLive :: "api_request \<Rightarrow> unit act" where
  "handleLive r = ok_json (json_map [(''status'', ''alive'')])"

fun status_text :: "fips_status \<Rightarrow> string" where
  "status_text StatusPass = ''pass''"
| "status_text StatusFail = ''fail''"

definition run_fips :: "crypto \<Rightarrow> api_request \<Rightarrow> fips_report act" where
  "run_fips cr r s =
     (case fips_Check cr (ar_took r) (ar_goVersion r) (hr_Now r) (sv_rand s) of
        (rep, e) \<Rightarrow> (Next rep, s\<lparr>sv_fipsReport := Some rep, sv_rand := e\<rparr>))"

definition fipsOverall :: "crypto \<Rightarrow> api_request \<Rightarrow> string act" where
  "fipsOverall cr r =
     and_then (asks sv_fipsReport) (\<lambda>cached. case cached of
       Some rep \<Rightarrow> give (status_text (fr_Overall rep))
     | None \<Rightarrow> and_then (run_fips cr r) (\<lambda>rep. give (status_text (fr_Overall rep))))"

definition handleReady :: "crypto \<Rightarrow> api_request \<Rightarrow> unit act" where
  "handleReady cr r =
     and_then (asks (\<lambda>s. VerifyChain cr (sv_audit s))) (\<lambda>res.
       if \<not> ir_valid res
       then answer StatusServiceUnavailable
              (json_obj [(''status'', JStr ''not ready''), (''reason'', JStr ''audit chain invalid'')])
       else and_then (fipsOverall cr r) (\<lambda>st.
         ok_json (json_obj [(''status'', JStr ''ready''), (''audit_entries'', jnat (ir_entries res)), (''fips_status'', JStr st)])))"

text \<open>A probe in the report: its error text is one the request's environment gives, its duration a number.\<close>

definition enc_probe :: "api_request \<Rightarrow> algorithm_probe \<Rightarrow> jval" where
  "enc_probe r p = JObj
     ([(''algorithm'', JStr (ap_Algorithm p)), (''standard'', JStr (ap_Standard p)), (''status'', JStr (status_text (ap_Status p)))]
      @ (case ap_Error p of None \<Rightarrow> [] | Some er \<Rightarrow> [(''error'', JStr (ar_err r))])
      @ [(''duration_ms'', JFloat (formatFloat (ar_fmt r) (ap_DurationMs p)))])"

definition enc_report :: "api_request \<Rightarrow> fips_report \<Rightarrow> jval option" where
  "enc_report r rep = map_option (\<lambda>t. JObj
     [(''overall'', JStr (status_text (fr_Overall rep))), (''timestamp'', t), (''go_version'', JStr (fr_GoVersion rep)),
      (''probes'', JArr (map (enc_probe r) (fr_Probes rep)))]) (enc_time (fr_Timestamp rep))"

definition handleFIPS :: "crypto \<Rightarrow> api_request \<Rightarrow> unit act" where
  "handleFIPS cr r =
     and_then (run_fips cr r) (\<lambda>rep.
       ok_json_opt (if fr_Overall rep = StatusFail then StatusServiceUnavailable else StatusOK) (enc_report r rep))"

section \<open>Tokens\<close>

text \<open>
  Values of a \<open>map[string]any\<close>: objects become maps, numbers pass through \<open>float64\<close>, and a number outside
  its range makes the whole call fail.
\<close>

definition pow10 :: "int \<Rightarrow> rat" where
  "pow10 e = (if 0 \<le> e then 10 ^ nat e else 1 / 10 ^ nat (- e))"

text \<open>The value of the text of a JSON number.\<close>

definition number_value :: "string \<Rightarrow> rat" where
  "number_value s =
     (let neg = (take 1 s = ''-''); s1 = (if neg then tl s else s);
          (ds, r1) = take_digits s1;
          (fs, r2) = (if take 1 r1 = ''.'' then take_digits (tl r1) else ([], r1));
          r3 = tl r2; plus = (take 1 r3 = ''+''); minus = (take 1 r3 = ''-'');
          n = int (digits_val (if plus \<or> minus then tl r3 else r3));
          ex = (if r2 = [] then 0 else if minus then - n else n);
          v = of_nat (digits_val (ds @ fs)) * pow10 (ex - int (length fs))
      in if neg then - v else v)"

fun as_float64 :: "jval \<Rightarrow> float64 option" where
  "as_float64 (JInt i) = Some (f64_of_int i)"
| "as_float64 (JFloat t) = Some (f64_of (number_value t))"
| "as_float64 _ = None"

fun is_finite :: "float64 \<Rightarrow> bool" where
  "is_finite (Fin x) = True"
| "is_finite _ = False"

fun any_ok :: "jval \<Rightarrow> bool" where
  "any_ok (JArr vs) = list_all any_ok vs"
| "any_ok (JObj kvs) = list_all (\<lambda>(k, v). any_ok v) kvs"
| "any_ok v = (case as_float64 v of None \<Rightarrow> True | Some x \<Rightarrow> is_finite x)"

fun any_value :: "(jval \<Rightarrow> jval) \<Rightarrow> jval \<Rightarrow> jval" where
  "any_value reprint (JInt i) = (if \<bar>i\<bar> \<le> 2 ^ 53 then JInt i else reprint (JInt i))"
| "any_value reprint (JFloat t) = reprint (JFloat t)"
| "any_value reprint (JArr vs) = JArr (map (any_value reprint) vs)"
| "any_value reprint (JObj kvs) =
     JObj (sort_key fst (merge_members (map (\<lambda>(k, v). (k, any_value reprint v)) kvs)))"
| "any_value reprint v = v"

record token_request =
  tq_UserID :: string
  tq_Roles :: "string list"
  tq_Extra :: "(string \<times> jval) list"

definition dec_token_request :: "api_request \<Rightarrow> token_request option" where
  "dec_token_request r =
     (case body_obj r of
        None \<Rightarrow> None
      | Some kvs \<Rightarrow>
          (case (str_field ''user_id'' kvs, strs_field ''roles'' kvs, obj_field ''extra'' kvs) of
             (Some u, Some rs, Some ex) \<Rightarrow>
               (if \<not> any_ok (JObj ex) then None
                else Some \<lparr>tq_UserID = u, tq_Roles = rs,
                     tq_Extra = merge_members (map (\<lambda>(k, v). (k, any_value (ar_reprint r) v)) ex)\<rparr>)
           | _ \<Rightarrow> None))"

definition maxRoles :: nat where "maxRoles = 16"

definition handleIssueToken :: "crypto \<Rightarrow> api_request \<Rightarrow> unit act" where
  "handleIssueToken cr r =
     and_then (asks sv_bootstrapSecret) (\<lambda>secret.
       if secret \<noteq> [] \<and> trim_prefix (req_header ''Authorization'' r) ''Bearer '' \<noteq> secret
       then refuse StatusUnauthorized ''Authentication failed''
       else case dec_token_request r of
         None \<Rightarrow> refuse StatusBadRequest ''user_id required''
       | Some req \<Rightarrow>
           (if tq_UserID req = [] then refuse StatusBadRequest ''user_id required''
            else let roles = (if length (tq_Roles req) = 0 then [''read''] else tq_Roles req) in
              if length roles > maxRoles then refuse StatusBadRequest ''too many roles (max 16)''
              else if length (tq_UserID req) > 64 \<or> \<not> isValidUserID (tq_UserID req)
              then refuse StatusBadRequest ''invalid user_id''
              else and_then (asks (\<lambda>s. auth_Issue cr (sv_auth s) (tq_UserID req) roles (tq_Extra req) (hr_Now r) (sv_rand s))) (\<lambda>res.
                attempt res
                  (\<lambda>(token, e). run_all
                     [put_rand e, inc ''qs_crypto_token_issue_total'', audit_as cr (tq_UserID req) r ''issue_token'' ''ok'' [],
                      audit_gauge,
                      ok_json (json_obj [(''token'', JStr token), (''expires_in'', JInt 3600), (''algorithm'', JStr ''ML-DSA-65''),
                        (''type'', JStr ''QST'')])])
                  (\<lambda>_. and_then (inc ''qs_crypto_errors_total'') (\<lambda>_. server_error)))))"

definition handleVerifyToken :: "crypto \<Rightarrow> api_request \<Rightarrow> unit act" where
  "handleVerifyToken cr r =
     and_then (asks (\<lambda>s. auth_Verify cr (sv_auth s) (lax_str ''token'' (lax_body r)) (hr_Now r))) (\<lambda>res.
     and_then (inc ''qs_crypto_token_verify_total'') (\<lambda>_.
       attempt res
         (\<lambda>tok. ok_json (json_obj [(''valid'', JBool True), (''subject'', JStr (c_sub (t_claims tok))),
            (''roles'', JArr (map JStr (c_roles (t_claims tok))))]))
         (\<lambda>_. answer StatusUnauthorized (json_obj [(''valid'', JBool False), (''error'', JStr ''Authentication failed'')]))))"

definition handleRevokeToken :: "crypto \<Rightarrow> api_request \<Rightarrow> unit act" where
  "handleRevokeToken cr r =
     run_all
       [change (\<lambda>s. case auth_Revoke (ar_disk r) (lax_str ''token'' (lax_body r)) (sv_auth s, sv_files s) of
          (a, fs) \<Rightarrow> s\<lparr>sv_auth := a, sv_files := fs\<rparr>),
        inc ''qs_crypto_token_revoke_total'', audit cr r ''revoke_token'' ''ok'' [], audit_gauge,
        ok_json (json_obj [(''revoked'', JBool True)])]"

section \<open>Keys\<close>

definition handleListKeys :: "api_request \<Rightarrow> unit act" where
  "handleListKeys r =
     and_then (asks sv_ks) (\<lambda>ks. and_then (asks sv_keypairs) (\<lambda>m.
       let (ids, backend) = (case ks of Some k \<Rightarrow> (ks_List k, ''encrypted-keystore'') | None \<Rightarrow> (gm_keys m, ''in-memory'')) in
       ok_json (json_obj [(''keys'', JArr (map JStr ids)), (''count'', jnat (length ids)), (''backend'', JStr backend)])))"

definition requested_level :: "string \<Rightarrow> int" where
  "requested_level s =
     (let u = to_upper (trim_space s) in if u = ''ML-KEM-1024'' \<or> u = ''HIGH'' then 1024 else 768)"

text \<open>The shards of a generated key are counted and dropped; an error of \<open>Split\<close> is ignored. What
  \<open>Split\<close> draws from the random source is not used again.\<close>

definition split_and_drop :: "crypto \<Rightarrow> bytes \<Rightarrow> nat act" where
  "split_and_drop cr dk s =
     (case vault_Split cr dk 5 3 (sv_rand s) of
        Ok (shards, e) \<Rightarrow> (Next (length shards), s\<lparr>sv_rand := e\<rparr>)
      | Err _ \<Rightarrow> (Next 0, s)
      | Panic \<Rightarrow> (Crash, s))"

definition handleGenerateKey :: "crypto \<Rightarrow> api_request \<Rightarrow> unit act" where
  "handleGenerateKey cr r =
     (case Option.bind (body_obj r) (str_field ''level'') of
        None \<Rightarrow> bad_request
      | Some level \<Rightarrow>
          (let lvl = requested_level level in
           and_then (asks (\<lambda>s. kem_GenerateKey lvl (sv_rand s))) (\<lambda>res.
           attempt res
             (\<lambda>(dk, e). let ekBytes = ek_Bytes (dk_EncapsulationKey cr dk); dkBytes = dk_Bytes dk in
                and_then (put_rand e) (\<lambda>_.
                and_then randomID (\<lambda>keyID.
                and_then (requireLeader r) (\<lambda>_.
                and_then (clusterApply r OpGenerateKey (Some (enc_generate_key
                    \<lparr>gk_KeyID = keyID, gk_Level = kem_level_String lvl, gk_EK = Some ekBytes, gk_DK = Some dkBytes\<rparr>))) (\<lambda>rep.
                attempt rep
                  (\<lambda>_. and_then (storeKey cr r keyID lvl ekBytes dkBytes) (\<lambda>st.
                     attempt st
                       (\<lambda>_. and_then (split_and_drop cr dkBytes) (\<lambda>shards. run_all
                          [inc ''qs_crypto_keygen_total'', keys_gauge, audit cr r ''generate_key'' ''ok'' keyID, audit_gauge,
                           ok_json (json_obj [(''key_id'', JStr keyID), (''public_key'', jb64 ekBytes),
                             (''algorithm'', JStr (kem_level_String lvl)), (''public_key_size'', jnat (length ekBytes)),
                             (''vault_shards'', jnat shards), (''vault_threshold'', JInt 3)])]))
                       (\<lambda>_. and_then (inc ''qs_crypto_errors_total'') (\<lambda>_. refuse StatusInternalServerError ''Failed to store key''))))
                  (\<lambda>_. and_then (inc ''qs_crypto_errors_total'') (\<lambda>_.
                     refuse StatusInternalServerError (''Cluster replication failed: '' @ ar_err r))))))))
             (\<lambda>_. server_error))))"

definition path_value :: "string \<Rightarrow> 'r request_scheme \<Rightarrow> string" where
  "path_value k r = (case gm_get (hr_PathValue r) k of None \<Rightarrow> [] | Some v \<Rightarrow> v)"

definition handleGetPublicKey :: "crypto \<Rightarrow> api_request \<Rightarrow> unit act" where
  "handleGetPublicKey cr r =
     (let keyID = path_value ''key_id'' r in
      and_then (lookupKey cr r keyID) (\<lambda>k. case k of
        None \<Rightarrow> refuse StatusNotFound ''Key not found''
      | Some key \<Rightarrow> ok_json (json_map [(''key_id'', keyID), (''public_key'', b64std (mk_EK key))])))"

section \<open>Encryption\<close>

record encrypt_request =
  eq_KeyID :: string
  eq_PublicKey :: string
  eq_Plaintext :: string

definition dec_encrypt_request :: "api_request \<Rightarrow> encrypt_request option" where
  "dec_encrypt_request r =
     (case body_obj r of
        None \<Rightarrow> None
      | Some kvs \<Rightarrow>
          (case (str_field ''key_id'' kvs, str_field ''public_key'' kvs, str_field ''plaintext'' kvs) of
             (Some k, Some p, Some t) \<Rightarrow> Some \<lparr>eq_KeyID = k, eq_PublicKey = p, eq_Plaintext = t\<rparr>
           | _ \<Rightarrow> None))"

text \<open>The encapsulation key of the request: a stored one, one in the body, or an error message.\<close>

definition encrypt_key :: "crypto \<Rightarrow> api_request \<Rightarrow> encrypt_request \<Rightarrow> bytes act" where
  "encrypt_key cr r req =
     (if eq_KeyID req \<noteq> [] then
        and_then (lookupKey cr r (eq_KeyID req)) (\<lambda>k. case k of
          None \<Rightarrow> refuse StatusBadRequest ''Key not found'' | Some key \<Rightarrow> give (mk_EK key))
      else if eq_PublicKey req \<noteq> [] then
        (case b64std_dec (eq_PublicKey req) of
           None \<Rightarrow> refuse StatusBadRequest ''Invalid public_key encoding'' | Some ek \<Rightarrow> give ek)
      else refuse StatusBadRequest ''key_id or public_key required'')"

definition handleEncrypt :: "crypto \<Rightarrow> api_request \<Rightarrow> unit act" where
  "handleEncrypt cr r =
     (case dec_encrypt_request r of
        None \<Rightarrow> bad_request
      | Some req \<Rightarrow>
          and_then (encrypt_key cr r req) (\<lambda>ek.
          and_then (asks (\<lambda>s. hy_Encrypt cr (sv_encLevel s) ek (str_bytes (eq_Plaintext req)) (hr_Now r) (sv_rand s))) (\<lambda>res.
          attempt res
            (\<lambda>(enc, e). run_all
               [put_rand e, inc ''qs_crypto_encrypt_total'', audit cr r ''encrypt'' ''ok'' (eq_KeyID req), audit_gauge,
                ok_json (json_obj
                  [(''encrypted'', json_obj [(''kem_ciphertext'', jb64 (en_KEMCiphertext enc)), (''nonce'', jb64 (en_Nonce enc)),
                     (''data'', jb64 (en_Data enc)), (''created_at'', JInt (en_CreatedAt enc))]),
                   (''algorithm'', JStr ''ML-KEM-768 + AES-256-GCM''), (''quantum_safe'', JBool True)])])
            (\<lambda>_. refuse StatusBadRequest ''Encryption failed''))))"

record decrypt_request =
  dq_KeyID :: string
  dq_KEMCiphertext :: string
  dq_Nonce :: string
  dq_Data :: string
  dq_CreatedAt :: int

definition dec_decrypt_request :: "api_request \<Rightarrow> decrypt_request option" where
  "dec_decrypt_request r =
     (case body_obj r of
        None \<Rightarrow> None
      | Some kvs \<Rightarrow>
          (case (str_field ''key_id'' kvs, obj_field ''encrypted'' kvs) of
             (Some k, Some es) \<Rightarrow>
               (case (str_field ''kem_ciphertext'' es, str_field ''nonce'' es, str_field ''data'' es, int_field ''created_at'' es) of
                  (Some c, Some n, Some d, Some t) \<Rightarrow>
                    Some \<lparr>dq_KeyID = k, dq_KEMCiphertext = c, dq_Nonce = n, dq_Data = d, dq_CreatedAt = t\<rparr>
                | _ \<Rightarrow> None)
           | _ \<Rightarrow> None))"

text \<open>The decrypter of a level is kept, with its replay cache; a level without one gets a new one that
  is dropped after the request.\<close>

definition run_decrypter :: "crypto \<Rightarrow> api_request \<Rightarrow> mem_key \<Rightarrow> encrypted \<Rightarrow> (hybrid_error, bytes) result act" where
  "run_decrypter cr r key enc s =
     (case gm_get (sv_decryptors s) (mk_level key) of
        Some d \<Rightarrow>
          (case hy_Decrypt cr (mk_DK key) (Some enc) (hr_Now r) d of
             (res, d') \<Rightarrow> (Next res, s\<lparr>sv_decryptors := gm_put (mk_level key) d' (sv_decryptors s)\<rparr>))
      | None \<Rightarrow> (Next (fst (hy_Decrypt cr (mk_DK key) (Some enc) (hr_Now r) (NewDecrypter (mk_level key)))), s))"

definition handleDecrypt :: "crypto \<Rightarrow> api_request \<Rightarrow> unit act" where
  "handleDecrypt cr r =
     (case dec_decrypt_request r of
        None \<Rightarrow> bad_request
      | Some req \<Rightarrow>
          and_then (lookupKey cr r (dq_KeyID req)) (\<lambda>k. case k of
            None \<Rightarrow> refuse StatusBadRequest ''Decryption failed''
          | Some key \<Rightarrow>
              and_then (run_decrypter cr r key \<lparr>en_KEMCiphertext = b64std_lax (dq_KEMCiphertext req),
                  en_Nonce = b64std_lax (dq_Nonce req), en_Data = b64std_lax (dq_Data req), en_CreatedAt = dq_CreatedAt req\<rparr>) (\<lambda>res.
              attempt res
                (\<lambda>plaintext. run_all
                   [inc ''qs_crypto_decrypt_total'', audit cr r ''decrypt'' ''ok'' (dq_KeyID req), audit_gauge,
                    ok_json (json_obj [(''plaintext'', JStr (bytes_str plaintext)), (''verified'', JBool True)])])
                (\<lambda>_. run_all
                   [inc ''qs_crypto_errors_total'', audit cr r ''decrypt'' ''failed'' (dq_KeyID req),
                    refuse StatusBadRequest ''Decryption failed'']))))"

section \<open>Signatures\<close>

definition handleSign :: "crypto \<Rightarrow> api_request \<Rightarrow> unit act" where
  "handleSign cr r =
     (let body = lax_body r; message = str_bytes (lax_str ''message'' body); level = lax_str ''level'' body;
          lvl = (if level = ''light'' then 44 else if level = ''high'' then 87 else 65) in
      and_then (asks (\<lambda>s. dsa_GenerateKey cr lvl (sv_rand s))) (\<lambda>res.
      attempt res
        (\<lambda>(pk, sk, e). and_then (put_rand e) (\<lambda>_.
           attempt (dsa_Sign cr (Some sk) message)
             (\<lambda>sig. run_all
                [inc ''qs_crypto_sign_total'',
                 ok_json (json_obj [(''signature'', jb64 sig), (''public_key'', jb64 (pk_bytes pk)),
                   (''algorithm'', JStr ''ML-DSA-65''), (''quantum_safe'', JBool True)])])
             (\<lambda>_. server_error)))
        (\<lambda>_. server_error)))"

record verify_request =
  vq_Message :: string
  vq_Signature :: string
  vq_PublicKey :: string
  vq_Level :: string

definition dec_verify_request :: "api_request \<Rightarrow> verify_request option" where
  "dec_verify_request r =
     (case body_obj r of
        None \<Rightarrow> None
      | Some kvs \<Rightarrow>
          (case (str_field ''message'' kvs, str_field ''signature'' kvs, str_field ''public_key'' kvs, str_field ''level'' kvs) of
             (Some m, Some g, Some p, Some l) \<Rightarrow>
               Some \<lparr>vq_Message = m, vq_Signature = g, vq_PublicKey = p, vq_Level = l\<rparr>
           | _ \<Rightarrow> None))"

definition handleVerifySignature :: "crypto \<Rightarrow> api_request \<Rightarrow> unit act" where
  "handleVerifySignature cr r =
     (case dec_verify_request r of
        None \<Rightarrow> bad_request
      | Some req \<Rightarrow>
          (case b64std_dec (vq_PublicKey req) of
             None \<Rightarrow> refuse StatusBadRequest ''Invalid public_key''
           | Some pkBytes \<Rightarrow>
               (case b64std_dec (vq_Signature req) of
                  None \<Rightarrow> refuse StatusBadRequest ''Invalid signature''
                | Some sigBytes \<Rightarrow>
                    attempt (dsa_ParsePublicKey cr 65 pkBytes)
                      (\<lambda>pk. run_all
                         [inc ''qs_crypto_verify_total'',
                          ok_json (json_obj [(''valid'', JBool (dsa_Verify cr (Some pk) (str_bytes (vq_Message req)) sigBytes)),
                            (''algorithm'', JStr ''ML-DSA-65'')])])
                      (\<lambda>_. refuse StatusBadRequest ''Invalid public_key''))))"

definition dec_slh_sign :: "api_request \<Rightarrow> (string \<times> string) option" where
  "dec_slh_sign r =
     (case body_obj r of
        None \<Rightarrow> None
      | Some kvs \<Rightarrow>
          (case (str_field ''message'' kvs, str_field ''level'' kvs) of
             (Some m, Some l) \<Rightarrow> Some (m, l) | _ \<Rightarrow> None))"

definition handleSLHDSASign :: "crypto \<Rightarrow> api_request \<Rightarrow> unit act" where
  "handleSLHDSASign cr r =
     (case dec_slh_sign r of
        None \<Rightarrow> bad_request
      | Some (message, level) \<Rightarrow>
          (if message = [] then refuse StatusBadRequest ''message is required''
           else attempt (slh_ParseLevel level)
             (\<lambda>lvl. and_then (asks (\<lambda>s. slh_GenerateKey cr lvl (sv_rand s))) (\<lambda>res.
                attempt res
                  (\<lambda>(pk, sk, e1). and_then (put_rand e1) (\<lambda>_.
                     attempt (slh_Sign cr (Some sk) (str_bytes message) e1)
                       (\<lambda>(sig, e2). run_all
                          [put_rand e2, inc ''qs_crypto_sign_total'',
                           ok_json (json_obj [(''signature'', jb64 sig), (''public_key'', jb64 (spk_bytes pk)),
                             (''algorithm'', JStr (slh_paramSetName lvl)), (''signature_size'', jnat (length sig)),
                             (''quantum_safe'', JBool True)])])
                       (\<lambda>_. server_error)))
                  (\<lambda>_. server_error)))
             (\<lambda>_. refuse StatusBadRequest (ar_err r))))"

definition handleSLHDSAVerify :: "crypto \<Rightarrow> api_request \<Rightarrow> unit act" where
  "handleSLHDSAVerify cr r =
     (case dec_verify_request r of
        None \<Rightarrow> bad_request
      | Some req \<Rightarrow>
          attempt (slh_ParseLevel (vq_Level req))
            (\<lambda>lvl.
               (case b64std_dec (vq_PublicKey req) of
                  None \<Rightarrow> refuse StatusBadRequest ''Invalid public_key encoding''
                | Some pkBytes \<Rightarrow>
                    (case b64std_dec (vq_Signature req) of
                       None \<Rightarrow> refuse StatusBadRequest ''Invalid signature encoding''
                     | Some sigBytes \<Rightarrow>
                         attempt (slh_ParsePublicKey cr lvl pkBytes)
                           (\<lambda>pk. run_all
                              [inc ''qs_crypto_verify_total'',
                               ok_json (json_obj [(''valid'', JBool (slh_Verify cr (Some pk) (str_bytes (vq_Message req)) sigBytes)),
                                 (''algorithm'', JStr (slh_paramSetName lvl))])])
                           (\<lambda>_. refuse StatusBadRequest ''Invalid public_key''))))
            (\<lambda>_. refuse StatusBadRequest (ar_err r)))"

section \<open>Secret sharing\<close>

record split_request =
  sq_Secret :: string
  sq_N :: int
  sq_Threshold :: int

definition dec_split_request :: "api_request \<Rightarrow> split_request option" where
  "dec_split_request r =
     (case body_obj r of
        None \<Rightarrow> None
      | Some kvs \<Rightarrow>
          (case (str_field ''secret'' kvs, int_field ''n'' kvs, int_field ''threshold'' kvs) of
             (Some s, Some n, Some t) \<Rightarrow> Some \<lparr>sq_Secret = s, sq_N = n, sq_Threshold = t\<rparr>
           | _ \<Rightarrow> None))"

definition enc_shard :: "shard \<Rightarrow> jval" where
  "enc_shard sh = JObj [(''index'', JInt (uint (sh_index sh))), (''value'', jb64 (sh_value sh)), (''checksum'', jb64 (sh_checksum sh))]"

definition handleVaultSplit :: "crypto \<Rightarrow> api_request \<Rightarrow> unit act" where
  "handleVaultSplit cr r =
     (case dec_split_request r of
        None \<Rightarrow> bad_request
      | Some req \<Rightarrow>
          (case b64std_dec (sq_Secret req) of
             None \<Rightarrow> refuse StatusBadRequest ''secret must be non-empty base64''
           | Some secret \<Rightarrow>
               (if length secret = 0 then refuse StatusBadRequest ''secret must be non-empty base64''
                else if sq_N req < 2 \<or> sq_Threshold req < 2 \<or> sq_Threshold req > sq_N req \<or> sq_N req > 255
                then refuse StatusBadRequest ''invalid n/threshold parameters''
                else and_then (asks (\<lambda>s. vault_Split cr secret (sq_N req) (sq_Threshold req) (sv_rand s))) (\<lambda>res.
                  attempt res
                    (\<lambda>(shards, e). run_all
                       [put_rand e, inc ''qs_crypto_vault_split_total'', audit cr r ''vault_split'' ''ok'' [], audit_gauge,
                        ok_json (json_obj [(''shards'', JArr (map enc_shard shards)), (''n'', JInt (sq_N req)),
                          (''threshold'', JInt (sq_Threshold req))])])
                    (\<lambda>_. refuse StatusBadRequest ''Split failed'')))))"

record shard_request =
  hq_Index :: int
  hq_Value :: string
  hq_Checksum :: string

text \<open>An element of an array of structs; null leaves the zero struct.\<close>

definition dec_shard_request :: "jval \<Rightarrow> shard_request option" where
  "dec_shard_request v =
     (case as_obj v of
        None \<Rightarrow> None
      | Some kvs \<Rightarrow>
          (case (int_field ''index'' kvs, str_field ''value'' kvs, str_field ''checksum'' kvs) of
             (Some i, Some b, Some c) \<Rightarrow> Some \<lparr>hq_Index = i, hq_Value = b, hq_Checksum = c\<rparr>
           | _ \<Rightarrow> None))"

fun as_shards :: "jval \<Rightarrow> shard_request list option" where
  "as_shards (JArr vs) = those (map dec_shard_request vs)"
| "as_shards _ = None"

definition dec_reconstruct_request :: "api_request \<Rightarrow> (shard_request list \<times> int) option" where
  "dec_reconstruct_request r =
     (case body_obj r of
        None \<Rightarrow> None
      | Some kvs \<Rightarrow>
          (case (get_field as_shards [] ''shards'' kvs, int_field ''threshold'' kvs) of
             (Some shs, Some t) \<Rightarrow> Some (shs, t) | _ \<Rightarrow> None))"

definition to_shard :: "shard_request \<Rightarrow> shard option" where
  "to_shard q =
     (case (b64std_dec (hq_Value q), b64std_dec (hq_Checksum q)) of
        (Some v, Some c) \<Rightarrow> Some \<lparr>sh_index = word_of_int (hq_Index q), sh_value = v, sh_checksum = c\<rparr>
      | _ \<Rightarrow> None)"

definition handleVaultReconstruct :: "crypto \<Rightarrow> api_request \<Rightarrow> unit act" where
  "handleVaultReconstruct cr r =
     (case dec_reconstruct_request r of
        None \<Rightarrow> bad_request
      | Some (reqs, thresh) \<Rightarrow>
          (if length reqs = 0 then bad_request
           else case those (map to_shard reqs) of
             None \<Rightarrow> refuse StatusBadRequest ''Invalid shard encoding''
           | Some shards \<Rightarrow>
               attempt (vault_Reconstruct cr shards thresh)
                 (\<lambda>secret. run_all
                    [inc ''qs_crypto_vault_reconstruct_total'', audit cr r ''vault_reconstruct'' ''ok'' [], audit_gauge,
                     ok_json (json_map [(''secret'', b64std secret)])])
                 (\<lambda>_. run_all
                    [inc ''qs_crypto_errors_total'', audit cr r ''vault_reconstruct'' ''failed'' [],
                     refuse StatusBadRequest ''Reconstruction failed''])))"

section \<open>The audit log\<close>

definition enc_audit_entry :: "entry \<Rightarrow> jval" where
  "enc_audit_entry e = JObj
     ([(''seq'', JInt (uint (e_seq e))), (''ts'', JInt (e_ts e)), (''service'', JStr (e_service e)),
       (''actor'', JStr (e_actor e)), (''action'', JStr (e_action e)), (''result'', JStr (e_result e))]
      @ (if e_resource e = [] then [] else [(''resource'', JStr (e_resource e))])
      @ [(''prev_hash'', JStr (e_prev e)), (''hash'', JStr (e_hash e)), (''sig'', JStr (e_sig e))])"

definition handleAuditEntries :: "api_request \<Rightarrow> unit act" where
  "handleAuditEntries r =
     and_then (asks (\<lambda>s. (audit_Entries (sv_audit s), audit_Count (sv_audit s)))) (\<lambda>(es, n).
       ok_json (json_obj [(''entries'', JArr (map enc_audit_entry es)), (''count'', jnat n)]))"

fun integrity_text :: "integrity_msg \<Rightarrow> string" where
  "integrity_text MsgEmpty = ''empty log''"
| "integrity_text (MsgPrevHash i) = ''chain broken at entry '' @ dec_int (int i) @ '': prev_hash mismatch''"
| "integrity_text (MsgHash i) = ''hash mismatch at entry '' @ dec_int (int i)"
| "integrity_text (MsgSignature i) = ''invalid signature at entry '' @ dec_int (int i)"
| "integrity_text (MsgIntact n) = ''chain intact '' @ em_dash @ '' '' @ dec_int (int n) @ '' entries verified''"

definition enc_integrity :: "integrity \<Rightarrow> jval" where
  "enc_integrity x = JObj
     ([(''valid'', JBool (ir_valid x)), (''entries'', jnat (ir_entries x)), (''chain_broken'', JBool (ir_broken x))]
      @ (if ir_broken_at x = 0 then [] else [(''broken_at'', jnat (ir_broken_at x))])
      @ [(''message'', JStr (integrity_text (ir_msg x)))])"

definition handleAuditVerify :: "crypto \<Rightarrow> api_request \<Rightarrow> unit act" where
  "handleAuditVerify cr r = and_then (asks (\<lambda>s. VerifyChain cr (sv_audit s))) (\<lambda>res. ok_json (enc_integrity res))"

section \<open>Key derivation\<close>

record hkdf_request =
  kq_Secret :: string
  kq_Salt :: string
  kq_Info :: string
  kq_KeyLen :: int

definition dec_hkdf_request :: "api_request \<Rightarrow> hkdf_request option" where
  "dec_hkdf_request r =
     (case body_obj r of
        None \<Rightarrow> None
      | Some kvs \<Rightarrow>
          (case (str_field ''secret'' kvs, str_field ''salt'' kvs, str_field ''info'' kvs, int_field ''key_len'' kvs) of
             (Some s, Some t, Some i, Some n) \<Rightarrow> Some \<lparr>kq_Secret = s, kq_Salt = t, kq_Info = i, kq_KeyLen = n\<rparr>
           | _ \<Rightarrow> None))"

definition handleKDFHKDF :: "crypto \<Rightarrow> api_request \<Rightarrow> unit act" where
  "handleKDFHKDF cr r =
     (case dec_hkdf_request r of
        None \<Rightarrow> bad_request
      | Some req \<Rightarrow>
          (if kq_KeyLen req \<le> 0 \<or> kq_KeyLen req > 512 then refuse StatusBadRequest ''key_len must be 1-512''
           else case b64std_dec (kq_Secret req) of
             None \<Rightarrow> refuse StatusBadRequest ''secret must be non-empty base64''
           | Some secret \<Rightarrow>
               (if length secret = 0 then refuse StatusBadRequest ''secret must be non-empty base64''
                else case (if kq_Salt req \<noteq> [] then b64std_dec (kq_Salt req) else Some []) of
                  None \<Rightarrow> refuse StatusBadRequest ''invalid salt encoding''
                | Some salt \<Rightarrow>
                    attempt (DeriveHKDF cr secret salt (str_bytes (kq_Info req)) (kq_KeyLen req))
                      (\<lambda>derived. run_all
                         [audit cr r ''kdf_hkdf'' ''ok'' [],
                          ok_json (json_obj [(''key'', jb64 derived), (''key_len'', jnat (length derived)),
                            (''algorithm'', JStr ''HKDF-SHA256'')])])
                      (\<lambda>_. refuse StatusBadRequest (''HKDF failed: '' @ ar_err r)))))"

definition dec_argon_request :: "api_request \<Rightarrow> (string \<times> string) option" where
  "dec_argon_request r =
     (case body_obj r of
        None \<Rightarrow> None
      | Some kvs \<Rightarrow>
          (case (str_field ''password'' kvs, str_field ''salt'' kvs) of
             (Some p, Some s) \<Rightarrow> Some (p, s) | _ \<Rightarrow> None))"

definition handleKDFArgon2 :: "crypto \<Rightarrow> api_request \<Rightarrow> unit act" where
  "handleKDFArgon2 cr r =
     (case dec_argon_request r of
        None \<Rightarrow> bad_request
      | Some (pw, sl) \<Rightarrow>
          (case b64std_dec pw of
             None \<Rightarrow> refuse StatusBadRequest ''password must be non-empty base64''
           | Some password \<Rightarrow>
               (if length password = 0 then refuse StatusBadRequest ''password must be non-empty base64''
                else case b64std_dec sl of
                  None \<Rightarrow> refuse StatusBadRequest ''salt must be base64-encoded and at least 16 bytes''
                | Some salt \<Rightarrow>
                    (if length salt < 16 then refuse StatusBadRequest ''salt must be base64-encoded and at least 16 bytes''
                     else attempt (DeriveArgon2id cr password salt)
                       (\<lambda>derived. run_all
                          [audit cr r ''kdf_argon2id'' ''ok'' [],
                           ok_json (json_obj [(''key'', jb64 derived), (''key_len'', jnat (length derived)),
                             (''algorithm'', JStr ''Argon2id''),
                             (''params'', json_obj [(''time'', JInt 2), (''memory_kb'', JInt 65536), (''threads'', JInt 4)])])])
                       (\<lambda>_. refuse StatusBadRequest (''Argon2id failed: '' @ ar_err r))))))"

definition handleKDFSalt :: "api_request \<Rightarrow> unit act" where
  "handleKDFSalt r =
     and_then (asks (\<lambda>s. NewSalt (sv_rand s))) (\<lambda>res.
       attempt res
         (\<lambda>(salt, e). run_all
            [put_rand e, ok_json (json_obj [(''salt'', jb64 salt), (''size'', jnat (length salt)), (''encoding'', JStr ''base64'')])])
         (\<lambda>_. refuse StatusInternalServerError ''Failed to generate salt''))"

section \<open>The encrypted keystore\<close>

definition handleKeystoreGenerate :: "crypto \<Rightarrow> api_request \<Rightarrow> unit act" where
  "handleKeystoreGenerate cr r =
     and_then keystoreRequired (\<lambda>ks0.
       (let body = lax_body r; keyID = lax_str ''key_id'' body; lvl = requested_level (lax_str ''level'' body) in
        if keyID = [] \<or> \<not> isValidUserID keyID
        then refuse StatusBadRequest ''key_id required (alphanumeric, max 64 chars)''
        else and_then (asks (\<lambda>s. kem_GenerateKey lvl (sv_rand s))) (\<lambda>res.
          attempt res
            (\<lambda>(dk, e). let ekBytes = ek_Bytes (dk_EncapsulationKey cr dk) in
               and_then (put_rand e) (\<lambda>_.
               and_then (storeKey cr r keyID lvl ekBytes (dk_Bytes dk)) (\<lambda>st.
               attempt st
                 (\<lambda>_. run_all
                    [inc ''qs_crypto_keygen_total'', keys_gauge, audit cr r ''keystore_generate'' ''ok'' keyID,
                     ok_json (json_obj [(''key_id'', JStr keyID), (''public_key'', jb64 ekBytes),
                       (''algorithm'', JStr ''ML-KEM-768''), (''stored'', JStr ''encrypted-keystore'')])])
                 (\<lambda>_. and_then (inc ''qs_crypto_errors_total'') (\<lambda>_.
                    refuse StatusInternalServerError (''Failed to store key: '' @ ar_err r))))))
            (\<lambda>_. refuse StatusInternalServerError ''Key generation failed''))))"

definition handleKeystoreList :: "api_request \<Rightarrow> unit act" where
  "handleKeystoreList r =
     and_then keystoreRequired (\<lambda>ks.
       ok_json (json_obj [(''keys'', JArr (map JStr (ks_List ks))), (''count'', jnat (length (ks_List ks)))]))"

definition enc_key_version :: "string \<Rightarrow> key_version \<Rightarrow> jval option" where
  "enc_key_version keyID kv =
     (case (enc_time (kv_CreatedAt kv), enc_time (kv_ExpiresAt kv)) of
        (Some c, Some x) \<Rightarrow> Some (json_obj
          [(''key_id'', JStr keyID), (''version'', JInt (kv_Version kv)), (''public_key'', jb64 (kv_EK kv)),
           (''created_at'', c), (''expires_at'', x), (''active'', JBool (kv_Active kv))])
      | _ \<Rightarrow> None)"

definition handleKeystoreGet :: "crypto \<Rightarrow> api_request \<Rightarrow> unit act" where
  "handleKeystoreGet cr r =
     and_then keystoreRequired (\<lambda>ks.
       (let keyID = path_value ''key_id'' r in
        attempt (ks_GetActive cr (hr_Now r) keyID ks)
          (\<lambda>kv. ok_json_opt StatusOK (enc_key_version keyID kv))
          (\<lambda>_. refuse StatusNotFound ''Key not found'')))"

definition handleKeystoreRotate :: "crypto \<Rightarrow> api_request \<Rightarrow> unit act" where
  "handleKeystoreRotate cr r =
     and_then keystoreRequired (\<lambda>ks.
       (let keyID = path_value ''key_id'' r in
        and_then (asks (\<lambda>s. ks_Rotate cr (ar_disk r) (hr_Now r) keyID ks (sv_files s) (sv_rand s))) (\<lambda>out.
        and_then (on_ks out) (\<lambda>res.
        attempt res
          (\<lambda>newEK. run_all
             [inc ''qs_crypto_keygen_total'', audit cr r ''keystore_rotate'' ''ok'' keyID,
              ok_json (json_obj [(''key_id'', JStr keyID), (''new_public_key'', jb64 newEK), (''rotated'', JBool True)])])
          (\<lambda>_. refuse StatusBadRequest (''Rotation failed: '' @ ar_err r))))))"

text \<open>\<open>Expire\<close> and \<open>Delete\<close> draw nothing from the random source.\<close>

definition with_rand :: "(keystore_error, unit) result \<times> store \<times> files \<Rightarrow> entropy \<Rightarrow> unit ks_out" where
  "with_rand x e = (case x of (res, ks, fs) \<Rightarrow> (res, ks, fs, e))"

definition handleKeystoreExpire :: "crypto \<Rightarrow> api_request \<Rightarrow> unit act" where
  "handleKeystoreExpire cr r =
     and_then keystoreRequired (\<lambda>ks.
       (let keyID = path_value ''key_id'' r in
        and_then (asks (\<lambda>s. with_rand (ks_Expire (ar_disk r) keyID ks (sv_files s)) (sv_rand s))) (\<lambda>out.
        and_then (on_ks out) (\<lambda>res.
        attempt res
          (\<lambda>_. run_all [audit cr r ''keystore_expire'' ''ok'' keyID, ok_json (json_obj [(''expired'', JBool True)])])
          (\<lambda>_. refuse StatusBadRequest (''Expire failed: '' @ ar_err r))))))"

definition handleKeystoreDelete :: "crypto \<Rightarrow> api_request \<Rightarrow> unit act" where
  "handleKeystoreDelete cr r =
     and_then keystoreRequired (\<lambda>ks.
       (let keyID = path_value ''key_id'' r in
        and_then (asks (\<lambda>s. with_rand (ks_Delete (ar_disk r) keyID ks (sv_files s)) (sv_rand s))) (\<lambda>out.
        and_then (on_ks out) (\<lambda>res.
        attempt res
          (\<lambda>_. run_all [keys_gauge, audit cr r ''keystore_delete'' ''ok'' keyID, ok_json (json_obj [(''deleted'', JBool True)])])
          (\<lambda>_. refuse StatusBadRequest (''Delete failed: '' @ ar_err r))))))"

section \<open>Export and import\<close>

record envelope =
  ev_Version :: int
  ev_Algorithm :: string
  ev_Level :: int
  ev_KDF :: string
  ev_Salt :: string
  ev_Nonce :: string
  ev_WrappedKey :: string
  ev_PublicKey :: string

definition enc_envelope :: "envelope \<Rightarrow> jval" where
  "enc_envelope v = JObj
     [(''version'', JInt (ev_Version v)), (''algorithm'', JStr (ev_Algorithm v)), (''level'', JInt (ev_Level v)),
      (''kdf'', JStr (ev_KDF v)), (''salt'', JStr (ev_Salt v)), (''nonce'', JStr (ev_Nonce v)),
      (''wrapped_key'', JStr (ev_WrappedKey v)), (''public_key'', JStr (ev_PublicKey v))]"

definition dec_envelope :: "(string \<times> jval) list \<Rightarrow> envelope option" where
  "dec_envelope kvs =
     (case (int_field ''version'' kvs, str_field ''algorithm'' kvs, int_field ''level'' kvs, str_field ''kdf'' kvs,
            str_field ''salt'' kvs, str_field ''nonce'' kvs, str_field ''wrapped_key'' kvs, str_field ''public_key'' kvs) of
        (Some v, Some a, Some l, Some k, Some s, Some n, Some w, Some p) \<Rightarrow>
          Some \<lparr>ev_Version = v, ev_Algorithm = a, ev_Level = l, ev_KDF = k, ev_Salt = s, ev_Nonce = n,
                ev_WrappedKey = w, ev_PublicKey = p\<rparr>
      | _ \<Rightarrow> None)"

text \<open>Two reads: 32 bytes of salt and 12 of nonce.\<close>

definition export_random :: "(bytes \<times> bytes) act" where
  "export_random s =
     (case rand_read 32 (sv_rand s) of
        None \<Rightarrow> server_error s
      | Some (salt, e1) \<Rightarrow>
          (case rand_read 12 e1 of
             None \<Rightarrow> server_error (s\<lparr>sv_rand := e1\<rparr>)
           | Some (nonce, e2) \<Rightarrow> (Next (salt, nonce), s\<lparr>sv_rand := e2\<rparr>)))"

definition handleKeyExport :: "crypto \<Rightarrow> api_request \<Rightarrow> unit act" where
  "handleKeyExport cr r =
     (let keyID = path_value ''key_id'' r in
      case Option.bind (body_obj r) (str_field ''password'') of
        None \<Rightarrow> bad_request
      | Some password \<Rightarrow>
          (if password = [] then refuse StatusBadRequest ''password is required''
           else and_then (lookupKey cr r keyID) (\<lambda>k. case k of
             None \<Rightarrow> refuse StatusNotFound ''Key not found''
           | Some key \<Rightarrow>
               and_then export_random (\<lambda>(salt, nonce).
               attempt (DeriveArgon2id cr (str_bytes password) salt)
                 (\<lambda>wrapKey.
                    if \<not> aes_key_ok wrapKey then server_error
                    else run_all
                      [audit cr r ''key_export'' ''ok'' keyID, audit_gauge,
                       ok_json (enc_envelope
                         \<lparr>ev_Version = 1, ev_Algorithm = (if mk_level key = 1024 then ''ML-KEM-1024'' else ''ML-KEM-768''),
                          ev_Level = mk_level key, ev_KDF = ''argon2id'', ev_Salt = b64std salt, ev_Nonce = b64std nonce,
                          ev_WrappedKey = b64std (gcm_seal cr wrapKey nonce (mk_DK key) []), ev_PublicKey = b64std (mk_EK key)\<rparr>)])
                 (\<lambda>_. refuse StatusInternalServerError ''Key derivation failed'')))))"

record import_request =
  iq_KeyID :: string
  iq_Password :: string
  iq_Wrapped :: envelope

definition dec_import_request :: "api_request \<Rightarrow> import_request option" where
  "dec_import_request r =
     (case body_obj r of
        None \<Rightarrow> None
      | Some kvs \<Rightarrow>
          (case (str_field ''key_id'' kvs, str_field ''password'' kvs, Option.bind (obj_field ''wrapped'' kvs) dec_envelope) of
             (Some k, Some p, Some w) \<Rightarrow> Some \<lparr>iq_KeyID = k, iq_Password = p, iq_Wrapped = w\<rparr>
           | _ \<Rightarrow> None))"

text \<open>The last part of the import: the unwrapped bytes become a key and are stored.\<close>

definition import_key :: "crypto \<Rightarrow> api_request \<Rightarrow> import_request \<Rightarrow> bytes \<Rightarrow> unit act" where
  "import_key cr r req dkBytes =
     (let level = (if ev_Level (iq_Wrapped req) = 1024 then 1024 else 768) in
      attempt (kem_ParseDecapsulationKey level dkBytes)
        (\<lambda>dk. let ekBytes = ek_Bytes (dk_EncapsulationKey cr dk) in
           and_then (storeKey cr r (iq_KeyID req) level ekBytes dkBytes) (\<lambda>st.
           attempt st
             (\<lambda>_. run_all
                [inc ''qs_crypto_keygen_total'', keys_gauge, audit cr r ''key_import'' ''ok'' (iq_KeyID req), audit_gauge,
                 ok_json (json_obj [(''key_id'', JStr (iq_KeyID req)), (''public_key'', jb64 ekBytes),
                   (''algorithm'', JStr (ev_Algorithm (iq_Wrapped req))), (''imported'', JBool True)])])
             (\<lambda>_. and_then (inc ''qs_crypto_errors_total'') (\<lambda>_. refuse StatusInternalServerError ''Failed to store key''))))
        (\<lambda>_. refuse StatusBadRequest ''Invalid key material in envelope''))"

text \<open>\<open>gcm.Open\<close> panics on a nonce that is not 12 bytes long.\<close>

definition handleKeyImport :: "crypto \<Rightarrow> api_request \<Rightarrow> unit act" where
  "handleKeyImport cr r =
     (case dec_import_request r of
        None \<Rightarrow> bad_request
      | Some req \<Rightarrow>
          (if iq_KeyID req = [] \<or> \<not> isValidUserID (iq_KeyID req)
           then refuse StatusBadRequest ''key_id required (alphanumeric, max 64 chars)''
           else if iq_Password req = [] then refuse StatusBadRequest ''password is required''
           else if ev_Version (iq_Wrapped req) \<noteq> 1 then refuse StatusBadRequest ''unsupported wrapped key version''
           else case b64std_dec (ev_Salt (iq_Wrapped req)) of
             None \<Rightarrow> refuse StatusBadRequest ''invalid salt encoding''
           | Some salt \<Rightarrow>
               (if length salt = 0 then refuse StatusBadRequest ''invalid salt encoding''
                else case b64std_dec (ev_Nonce (iq_Wrapped req)) of
                  None \<Rightarrow> refuse StatusBadRequest ''invalid nonce encoding''
                | Some nonce \<Rightarrow>
                    (case b64std_dec (ev_WrappedKey (iq_Wrapped req)) of
                       None \<Rightarrow> refuse StatusBadRequest ''invalid wrapped_key encoding''
                     | Some wrappedBytes \<Rightarrow>
                         attempt (DeriveArgon2id cr (str_bytes (iq_Password req)) salt)
                           (\<lambda>wrapKey.
                              if \<not> aes_key_ok wrapKey then server_error
                              else if length nonce \<noteq> 12 then crash
                              else case gcm_open cr wrapKey nonce wrappedBytes [] of
                                None \<Rightarrow> and_then (inc ''qs_crypto_errors_total'') (\<lambda>_.
                                  refuse StatusBadRequest ''Unwrap failed: invalid password or corrupted envelope'')
                              | Some dkBytes \<Rightarrow> import_key cr r req dkBytes)
                           (\<lambda>_. refuse StatusInternalServerError ''Key derivation failed'')))))"

end
