(* ===== verification/ServerCA.thy ===== *)
theory ServerCA
  imports ServerKeys
begin

text \<open>
  The handlers of \<open>pkg/api/server.go\<close> for the certificate authority: the root, leaf certificates, the
  revocation list, intermediate authorities, and the encrypted file in which the hierarchy survives a
  restart.
\<close>

text \<open>
  \<open>caStoreSave\<close>: the store takes over the hierarchy and writes it; a failure is audited and otherwise
  ignored. The 44 bytes of salt and nonce the file may have used are not drawn again.
\<close>

definition caStoreSave :: "crypto \<Rightarrow> api_request \<Rightarrow> unit act" where
  "caStoreSave cr r s =
     (case sv_caStore s of
        None \<Rightarrow> (Next (), s)
      | Some st0 \<Rightarrow>
          (let st = fold (\<lambda>(serial, sub) x. SetIntermediate serial sub x) (sv_caIntermediates s) (SetRoot (sv_caInstance s) st0) in
           case cs_Save cr (ar_disk r) (sv_caStorePath s) (sv_caStorePassword s) st (sv_files s) (sv_rand s) of
             (res, fs) \<Rightarrow>
               (let s' = s\<lparr>sv_caStore := Some st, sv_files := fs, sv_rand := drop (saltLen + nonceLen) (sv_rand s)\<rparr> in
                attempt res (\<lambda>_. give ())
                  (\<lambda>_. audit_as cr ''system'' r ''ca_store_save_failed'' ''error'' (ar_err r)) s')))"

abbreviation "ca_missing \<equiv> refuse StatusServiceUnavailable ''CA not initialised''"

definition ca_init_first :: "'a act" where
  "ca_init_first = refuse StatusServiceUnavailable (''CA not initialised '' @ em_dash @ '' call POST /ca/init first'')"

definition replication_failed :: "api_request \<Rightarrow> 'a act" where
  "replication_failed r = refuse StatusInternalServerError (''Cluster replication failed: '' @ ar_err r)"

text \<open>In a cluster the new authority's snapshot goes through Raft first.\<close>

definition replicate_ca :: "api_request \<Rightarrow> authority_ca \<Rightarrow> unit act" where
  "replicate_ca r authority =
     and_then (asks clusterEnabled) (\<lambda>en.
       if \<not> en then give ()
       else and_then (clusterApply r OpCAInit
              (Some (JObj [(''snapshot'', (case enc_snapshot (ca_Export authority) of None \<Rightarrow> JNull | Some v \<Rightarrow> v))]))) (\<lambda>res.
         attempt res (\<lambda>_. give ()) (\<lambda>_. replication_failed r)))"

definition handleCAInit :: "crypto \<Rightarrow> api_request \<Rightarrow> unit act" where
  "handleCAInit cr r =
     (case Option.bind (body_obj r) (str_field ''subject'') of
        None \<Rightarrow> bad_request
      | Some subject \<Rightarrow>
          (if subject = [] then refuse StatusBadRequest ''subject is required''
           else and_then (asks sv_caInstance) (\<lambda>existing.
             if existing \<noteq> None
             then refuse StatusConflict (''CA already initialised '' @ em_dash @ '' use POST /ca/reinit to replace'')
             else and_then (asks (\<lambda>s. ca_Init cr subject (hr_Now r) (sv_rand s))) (\<lambda>res.
               attempt res
                 (\<lambda>(authority, e).
                    and_then (put_rand e) (\<lambda>_.
                    and_then (requireLeader r) (\<lambda>_.
                    and_then (replicate_ca r authority) (\<lambda>_.
                    and_then (asks sv_caInstance) (\<lambda>again.
                      if again \<noteq> None then refuse StatusConflict ''CA already initialised''
                      else run_all
                        [change (sv_caInstance_update (\<lambda>_. Some authority)), caStoreSave cr r,
                         audit cr r ''ca_init'' ''ok'' subject, audit_gauge,
                         ok_json_opt StatusOK (map_option (\<lambda>c. json_obj [(''status'', JStr ''initialised''), (''certificate'', c)])
                           (enc_cert (ca_cert authority)))])))))
                 (\<lambda>_. refuse StatusInternalServerError (''CA initialisation failed: '' @ ar_err r))))))"

record sign_request =
  gq_Subject :: string
  gq_PublicKey :: string
  gq_PublicKeyType :: string
  gq_TTLDays :: int

definition dec_sign_request :: "api_request \<Rightarrow> sign_request option" where
  "dec_sign_request r =
     (case body_obj r of
        None \<Rightarrow> None
      | Some kvs \<Rightarrow>
          (case (str_field ''subject'' kvs, str_field ''public_key'' kvs, str_field ''public_key_type'' kvs, int_field ''ttl_days'' kvs) of
             (Some s, Some p, Some t, Some d) \<Rightarrow>
               Some \<lparr>gq_Subject = s, gq_PublicKey = p, gq_PublicKeyType = t, gq_TTLDays = d\<rparr>
           | _ \<Rightarrow> None))"

text \<open>The checks both ways of signing make on the fields of the request.\<close>

definition check_sign_request :: "sign_request \<Rightarrow> 'a act \<Rightarrow> 'a act" where
  "check_sign_request req nxt =
     (if gq_Subject req = [] then refuse StatusBadRequest ''subject is required''
      else if gq_PublicKey req = [] then refuse StatusBadRequest ''public_key is required''
      else if gq_PublicKeyType req = [] then refuse StatusBadRequest ''public_key_type is required''
      else nxt)"

definition maxTTLDays :: int where "maxTTLDays = 25 * 365"

text \<open>\<open>time.Duration(days) * 24 * time.Hour\<close>: the product wraps in 64 bits.\<close>

definition days_ttl :: "int \<Rightarrow> duration" where
  "days_ttl days = int64 (int64 (days * 24) * Hour)"

definition issue_leaf :: "crypto \<Rightarrow> api_request \<Rightarrow> string \<Rightarrow> authority_ca \<Rightarrow> sign_request \<Rightarrow> bytes \<Rightarrow> unit act" where
  "issue_leaf cr r action authority req pkBytes =
     and_then (asks (\<lambda>s. ca_Issue cr authority (gq_Subject req) (gq_PublicKeyType req) pkBytes
         (days_ttl (gq_TTLDays req)) (hr_Now r) (sv_rand s))) (\<lambda>res.
       attempt res
         (\<lambda>(cert, e). run_all
            [put_rand e, inc ''qs_crypto_sign_total'', audit cr r action ''ok'' (gq_Subject req), audit_gauge,
             ok_json_opt StatusOK (enc_cert cert)])
         (\<lambda>_. refuse StatusInternalServerError (''Certificate issuance failed: '' @ ar_err r)))"

definition decode_pk :: "string \<Rightarrow> (bytes \<Rightarrow> 'a act) \<Rightarrow> 'a act" where
  "decode_pk text k =
     (case b64std_dec text of
        None \<Rightarrow> refuse StatusBadRequest ''invalid public_key encoding''
      | Some pkBytes \<Rightarrow> if length pkBytes = 0 then refuse StatusBadRequest ''invalid public_key encoding'' else k pkBytes)"

definition handleCASign :: "crypto \<Rightarrow> api_request \<Rightarrow> unit act" where
  "handleCASign cr r =
     (case dec_sign_request r of
        None \<Rightarrow> bad_request
      | Some req \<Rightarrow>
          check_sign_request req
            (and_then (asks sv_caInstance) (\<lambda>a. case a of
               None \<Rightarrow> ca_init_first
             | Some authority \<Rightarrow>
                 decode_pk (gq_PublicKey req) (\<lambda>pkBytes.
                   if gq_TTLDays req < 0 then refuse StatusBadRequest ''ttl_days must not be negative''
                   else if gq_TTLDays req > maxTTLDays
                   then refuse StatusBadRequest (''ttl_days exceeds maximum of 9125 days'')
                   else issue_leaf cr r ''ca_sign'' authority req pkBytes))))"

text \<open>A field of the struct type \<open>Certificate\<close>: absent, it is the zero certificate.\<close>

definition zero_cert :: certificate where
  "zero_cert = \<lparr>ce_Version = 0, ce_Serial = [], ce_Subject = [], ce_Issuer = [], ce_Algorithm = [], ce_PublicKey = [],
     ce_PublicKeyType = [], ce_NotBefore = zero_time, ce_NotAfter = zero_time, ce_IsCA = False, ce_Signature = []\<rparr>"

definition cert_field :: "(string \<times> jval) list \<Rightarrow> certificate option" where
  "cert_field kvs = Option.bind (obj_field ''certificate'' kvs) (\<lambda>ms. as_cert (JObj ms))"

definition verdict :: "api_request \<Rightarrow> (ca_error, unit) result \<Rightarrow> unit act" where
  "verdict r res =
     attempt res (\<lambda>_. ok_json (json_obj [(''valid'', JBool True)]))
       (\<lambda>_. ok_json (json_obj [(''valid'', JBool False), (''error'', JStr (ar_err r))]))"

definition handleCAVerify :: "crypto \<Rightarrow> api_request \<Rightarrow> unit act" where
  "handleCAVerify cr r =
     (case Option.bind (body_obj r) cert_field of
        None \<Rightarrow> bad_request
      | Some cert \<Rightarrow>
          and_then (asks sv_caInstance) (\<lambda>a. case a of
            None \<Rightarrow> ca_missing
          | Some authority \<Rightarrow>
              and_then (inc ''qs_crypto_verify_total'') (\<lambda>_. verdict r (ca_Verify cr authority (Some cert) (hr_Now r)))))"

definition handleCACertificate :: "api_request \<Rightarrow> unit act" where
  "handleCACertificate r =
     and_then (asks sv_caInstance) (\<lambda>a. case a of
       None \<Rightarrow> ca_init_first | Some authority \<Rightarrow> ok_json_opt StatusOK (enc_cert (ca_cert authority)))"

text \<open>\<open>Revoke\<close> changes the authority the server and its store share.\<close>

definition handleCARevoke :: "crypto \<Rightarrow> api_request \<Rightarrow> unit act" where
  "handleCARevoke cr r =
     (case Option.bind (body_obj r) (str_field ''serial'') of
        None \<Rightarrow> bad_request
      | Some serial \<Rightarrow>
          (if serial = [] then refuse StatusBadRequest ''serial is required''
           else and_then (asks sv_caInstance) (\<lambda>a. case a of
             None \<Rightarrow> ca_missing
           | Some authority \<Rightarrow>
               and_then (requireLeader r) (\<lambda>_.
               and_then (clusterApply r OpCARevoke (Some (JObj [(''serial'', JStr serial)]))) (\<lambda>rep.
               attempt rep
                 (\<lambda>_. case ca_Revoke (hr_Now r) serial authority of
                    (res, authority') \<Rightarrow>
                      and_then (change (sv_caInstance_update (\<lambda>_. Some authority'))) (\<lambda>_.
                      attempt res
                        (\<lambda>_. run_all
                           [caStoreSave cr r, audit cr r ''ca_revoke'' ''ok'' serial, audit_gauge,
                            ok_json (json_obj [(''revoked'', JBool True), (''serial'', JStr serial)])])
                        (\<lambda>_. refuse StatusBadRequest (''Revocation failed: '' @ ar_err r))))
                 (\<lambda>_. replication_failed r))))))"

definition enc_crl_entry :: "crl_entry \<Rightarrow> jval option" where
  "enc_crl_entry e = map_option (\<lambda>t. JObj [(''serial'', JStr (cl_Serial e)), (''revoked_at'', t)]) (enc_time (cl_RevokedAt e))"

definition enc_crl :: "crl \<Rightarrow> jval option" where
  "enc_crl c =
     (case (enc_time (cl_ThisUpdate c), those (map enc_crl_entry (cl_Entries c))) of
        (Some t, Some es) \<Rightarrow>
          Some (JObj [(''version'', JInt (cl_Version c)), (''issuer'', JStr (cl_Issuer c)), (''this_update'', t), (''entries'', JArr es)])
      | _ \<Rightarrow> None)"

definition handleCACRL :: "api_request \<Rightarrow> unit act" where
  "handleCACRL r =
     and_then (asks sv_caInstance) (\<lambda>a. case a of
       None \<Rightarrow> ca_missing | Some authority \<Rightarrow> ok_json_opt StatusOK (enc_crl (ca_CRL authority (hr_Now r))))"

section \<open>Intermediate authorities\<close>

definition handleCAIntermediate :: "crypto \<Rightarrow> api_request \<Rightarrow> unit act" where
  "handleCAIntermediate cr r =
     (case Option.bind (body_obj r) (\<lambda>kvs. case (str_field ''subject'' kvs, int_field ''ttl_days'' kvs) of
             (Some s, Some d) \<Rightarrow> Some (s, d) | _ \<Rightarrow> None) of
        None \<Rightarrow> bad_request
      | Some (subject, days) \<Rightarrow>
          (if subject = [] then refuse StatusBadRequest ''subject is required''
           else and_then (asks sv_caInstance) (\<lambda>a. case a of
             None \<Rightarrow> ca_init_first
           | Some authority \<Rightarrow>
               (if days < 0 then refuse StatusBadRequest ''ttl_days must not be negative''
                else and_then (asks (\<lambda>s. IssueIntermediate cr authority subject (days_ttl days) (hr_Now r) (sv_rand s))) (\<lambda>res.
                  attempt res
                    (\<lambda>(subCA, cert, e). run_all
                       [put_rand e,
                        change (\<lambda>s. s\<lparr>sv_caIntermediates := gm_put (ce_Serial cert) subCA (sv_caIntermediates s)\<rparr>),
                        caStoreSave cr r, audit cr r ''ca_intermediate'' ''ok'' subject, audit_gauge,
                        ok_json_opt StatusCreated (map_option (\<lambda>c. json_obj [(''certificate'', c), (''serial'', JStr (ce_Serial cert))])
                          (enc_cert cert))])
                    (\<lambda>_. refuse StatusInternalServerError (''Intermediate CA creation failed: '' @ ar_err r)))))))"

definition handleCAIntermediateSign :: "crypto \<Rightarrow> api_request \<Rightarrow> unit act" where
  "handleCAIntermediateSign cr r =
     and_then (asks (\<lambda>s. gm_get (sv_caIntermediates s) (path_value ''serial'' r))) (\<lambda>sub. case sub of
       None \<Rightarrow> refuse StatusNotFound ''intermediate CA not found''
     | Some subCA \<Rightarrow>
         (case dec_sign_request r of
            None \<Rightarrow> bad_request
          | Some req \<Rightarrow>
              check_sign_request req
                (decode_pk (gq_PublicKey req) (\<lambda>pkBytes.
                   if gq_TTLDays req < 0 then refuse StatusBadRequest ''ttl_days must not be negative''
                   else issue_leaf cr r ''ca_intermediate_sign'' subCA req pkBytes))))"

text \<open>The chain is a list of certificates, none of them nil; null elements are zero certificates.\<close>

fun as_certs :: "jval \<Rightarrow> certificate list option" where
  "as_certs (JArr vs) = those (map (\<lambda>v. if v = JNull then Some zero_cert else as_cert v) vs)"
| "as_certs _ = None"

definition handleCAChainVerify :: "crypto \<Rightarrow> api_request \<Rightarrow> unit act" where
  "handleCAChainVerify cr r =
     (case Option.bind (body_obj r) (\<lambda>kvs. case (cert_field kvs, get_field as_certs [] ''chain'' kvs) of
             (Some c, Some cs) \<Rightarrow> Some (c, cs) | _ \<Rightarrow> None) of
        None \<Rightarrow> bad_request
      | Some (cert, chain) \<Rightarrow>
          and_then (asks sv_caInstance) (\<lambda>a. case a of
            None \<Rightarrow> ca_missing
          | Some authority \<Rightarrow>
              and_then (inc ''qs_crypto_verify_total'') (\<lambda>_.
                verdict r (ca_VerifyChain cr (hr_Now r) (Some cert) (map Some chain) (Some (ca_cert authority))))))"

end
