(* ===== verification/ServerSessions.thy ===== *)
theory ServerSessions
  imports ServerKeys
begin

text \<open>
  The handlers of \<open>pkg/api/server.go\<close> that keep sessions on the server: the channel, whose initiator side
  the server plays, and the rounds and signers of threshold approval.
\<close>

section \<open>The channel\<close>

definition maxPendingChannels :: nat where "maxPendingChannels = 256"

text \<open>\<open>Begin\<close> on a new initiator, with the random source read so far.\<close>

definition begin_handshake :: "crypto \<Rightarrow> initiator \<Rightarrow> ((channel_error, init_request) result \<times> initiator) act" where
  "begin_handshake cr i s =
     (case chan_Begin cr i (sv_rand s) of (res, i', e) \<Rightarrow> (Next (res, i'), s\<lparr>sv_rand := e\<rparr>))"

definition put_initiator :: "string \<Rightarrow> channel_init_entry \<Rightarrow> unit act" where
  "put_initiator k x = change (\<lambda>s. s\<lparr>sv_channelInitiators := gm_put k x (sv_channelInitiators s)\<rparr>)"

definition put_session :: "string \<Rightarrow> channel_sess_entry \<Rightarrow> unit act" where
  "put_session k x = change (\<lambda>s. s\<lparr>sv_channelSessions := gm_put k x (sv_channelSessions s)\<rparr>)"

definition handleChannelInit :: "crypto \<Rightarrow> api_request \<Rightarrow> unit act" where
  "handleChannelInit cr r =
     and_then (asks (\<lambda>s. dsa_GenerateKey cr 65 (sv_rand s))) (\<lambda>res.
     attempt res
       (\<lambda>(pk, sk, e). and_then (put_rand e) (\<lambda>_.
          attempt (NewInitiator (Some sk) (Some pk))
            (\<lambda>i. and_then (begin_handshake cr i) (\<lambda>(started, i').
               attempt started
                 (\<lambda>req. and_then (asks (\<lambda>s. length (sv_channelInitiators s))) (\<lambda>pending.
                    if pending \<ge> maxPendingChannels
                    then refuse StatusTooManyRequests
                      (''too many pending channel sessions '' @ em_dash @ '' complete or wait for expiry'')
                    else run_all
                      [put_initiator (rq_SessionID req) \<lparr>ci_initiator = i', ci_req = req, ci_createdAt = hr_Now r\<rparr>,
                       inc ''qs_crypto_channel_handshake_total'', audit cr r ''channel_init'' ''ok'' (rq_SessionID req),
                       ok_json (json_obj [(''session_id'', JStr (rq_SessionID req)), (''ek_bytes'', jb64 (rq_EKBytes req)),
                         (''identity_pk'', jb64 (rq_IdentityPK req)), (''signature'', jb64 (rq_Signature req))])]))
                 (\<lambda>_. server_error)))
            (\<lambda>_. server_error)))
       (\<lambda>_. and_then (inc ''qs_crypto_errors_total'') (\<lambda>_. server_error)))"

text \<open>The body of the second message; the encodings are not checked.\<close>

definition dec_complete_request :: "api_request \<Rightarrow> init_response option" where
  "dec_complete_request r =
     (case body_obj r of
        None \<Rightarrow> None
      | Some kvs \<Rightarrow>
          (case (str_field ''session_id'' kvs, str_field ''kem_ciphertext'' kvs, str_field ''identity_pk'' kvs,
                 str_field ''signature'' kvs) of
             (Some sid, Some ct, Some pk, Some sig) \<Rightarrow>
               Some \<lparr>rs_SessionID = sid, rs_KEMCiphertext = b64std_lax ct, rs_IdentityPK = b64std_lax pk,
                     rs_Signature = b64std_lax sig\<rparr>
           | _ \<Rightarrow> None))"

text \<open>The initiator is claimed: the entry is gone, whatever the handshake then says.\<close>

definition claim_initiator :: "string \<Rightarrow> channel_init_entry act" where
  "claim_initiator k s =
     (case gm_get (sv_channelInitiators s) k of
        None \<Rightarrow> refuse StatusNotFound ''Session not found'' s
      | Some x \<Rightarrow> (Next x, s\<lparr>sv_channelInitiators := gm_del k (sv_channelInitiators s)\<rparr>))"

definition handleChannelComplete :: "crypto \<Rightarrow> api_request \<Rightarrow> unit act" where
  "handleChannelComplete cr r =
     (case dec_complete_request r of
        None \<Rightarrow> bad_request
      | Some resp \<Rightarrow>
          (if rs_SessionID resp = [] then bad_request
           else and_then (claim_initiator (rs_SessionID resp)) (\<lambda>x.
             attempt (chan_Complete cr (ci_initiator x) resp)
               (\<lambda>sess. run_all
                  [put_session (rs_SessionID resp) \<lparr>cx_sess = sess, cx_lastUsed = hr_Now r\<rparr>,
                   audit cr r ''channel_complete'' ''ok'' (rs_SessionID resp),
                   ok_json (json_map [(''session_id'', rs_SessionID resp), (''status'', ''established'')])])
               (\<lambda>_. and_then (inc ''qs_crypto_errors_total'') (\<lambda>_. refuse StatusBadRequest ''Handshake failed'')))))"

definition find_session :: "string \<Rightarrow> channel_sess_entry act" where
  "find_session k s =
     (case gm_get (sv_channelSessions s) k of
        None \<Rightarrow> refuse StatusNotFound ''Session not found'' s | Some x \<Rightarrow> (Next x, s))"

definition dec_seal_request :: "api_request \<Rightarrow> (string \<times> string) option" where
  "dec_seal_request r =
     (case body_obj r of
        None \<Rightarrow> None
      | Some kvs \<Rightarrow>
          (case (str_field ''session_id'' kvs, str_field ''plaintext'' kvs) of
             (Some i, Some p) \<Rightarrow> Some (i, p) | _ \<Rightarrow> None))"

text \<open>\<open>session_id\<close> in the answer is the nonce of the session, printed as bytes are.\<close>

definition handleChannelSeal :: "crypto \<Rightarrow> api_request \<Rightarrow> unit act" where
  "handleChannelSeal cr r =
     (case dec_seal_request r of
        None \<Rightarrow> bad_request
      | Some (sid, plaintext) \<Rightarrow>
          (if sid = [] then bad_request
           else and_then (find_session sid) (\<lambda>x.
             (case chan_Seal cr (cx_sess x) (str_bytes plaintext) of
                (msg, sess) \<Rightarrow> run_all
                  [put_session sid \<lparr>cx_sess = sess, cx_lastUsed = hr_Now r\<rparr>, inc ''qs_crypto_encrypt_total'',
                   ok_json (json_obj [(''session_id'', jb64 (m_SessionID msg)), (''seq_num'', JInt (uint (m_SeqNum msg))),
                     (''ciphertext'', jb64 (m_Ciphertext msg))])]))))"

record open_request =
  oq_SessionID :: string
  oq_MsgNonce :: string
  oq_SeqNum :: u64
  oq_Ciphertext :: string

definition dec_open_request :: "api_request \<Rightarrow> open_request option" where
  "dec_open_request r =
     (case body_obj r of
        None \<Rightarrow> None
      | Some kvs \<Rightarrow>
          (case (str_field ''session_id'' kvs, str_field ''msg_nonce'' kvs, uint64_field ''seq_num'' kvs,
                 str_field ''ciphertext'' kvs) of
             (Some i, Some n, Some q, Some c) \<Rightarrow>
               Some \<lparr>oq_SessionID = i, oq_MsgNonce = n, oq_SeqNum = q, oq_Ciphertext = c\<rparr>
           | _ \<Rightarrow> None))"

text \<open>A message that does not open still changes the session, as \<open>Open\<close> does, but does not refresh it.\<close>

definition handleChannelOpen :: "crypto \<Rightarrow> api_request \<Rightarrow> unit act" where
  "handleChannelOpen cr r =
     (case dec_open_request r of
        None \<Rightarrow> bad_request
      | Some req \<Rightarrow>
          (if oq_SessionID req = [] then bad_request
           else and_then (find_session (oq_SessionID req)) (\<lambda>x.
             (case chan_Open cr (cx_sess x) \<lparr>m_SessionID = b64std_lax (oq_MsgNonce req), m_SeqNum = oq_SeqNum req,
                     m_Ciphertext = b64std_lax (oq_Ciphertext req)\<rparr> of
                (res, sess) \<Rightarrow>
                  and_then (put_session (oq_SessionID req) (x\<lparr>cx_sess := sess\<rparr>)) (\<lambda>_.
                  attempt res
                    (\<lambda>plain. run_all
                       [put_session (oq_SessionID req) \<lparr>cx_sess = sess, cx_lastUsed = hr_Now r\<rparr>,
                        inc ''qs_crypto_decrypt_total'', ok_json (json_map [(''plaintext'', bytes_str plain)])])
                    (\<lambda>_. and_then (inc ''qs_crypto_errors_total'') (\<lambda>_. refuse StatusBadRequest ''Decryption failed'')))))))"

section \<open>Threshold approval\<close>

definition dec_round_request :: "api_request \<Rightarrow> (string \<times> int) option" where
  "dec_round_request r =
     (case body_obj r of
        None \<Rightarrow> None
      | Some kvs \<Rightarrow>
          (case (str_field ''message'' kvs, strs_field ''signer_ids'' kvs, int_field ''threshold'' kvs) of
             (Some m, Some ids, Some t) \<Rightarrow> Some (m, t) | _ \<Rightarrow> None))"

definition put_round :: "string \<Rightarrow> threshold_round_entry \<Rightarrow> unit act" where
  "put_round k x = change (\<lambda>s. s\<lparr>sv_thresholdRounds := gm_put k x (sv_thresholdRounds s)\<rparr>)"

definition put_signer :: "string \<Rightarrow> signer_entry \<Rightarrow> unit act" where
  "put_signer k x = change (\<lambda>s. s\<lparr>sv_thresholdSigners := gm_put k x (sv_thresholdSigners s)\<rparr>)"

definition handleThresholdRound :: "crypto \<Rightarrow> api_request \<Rightarrow> unit act" where
  "handleThresholdRound cr r =
     (case dec_round_request r of
        None \<Rightarrow> bad_request
      | Some (message, thresh) \<Rightarrow>
          (if message = [] then bad_request
           else if thresh < 1
           then refuse StatusBadRequest (''threshold must be '' @ [CHR 0xE2, CHR 0x89, CHR 0xA5] @ '' 1'')
           else and_then (asks (\<lambda>s. NewNonce (sv_rand s))) (\<lambda>res.
             attempt res
               (\<lambda>(nonce, e). and_then (put_rand e) (\<lambda>_.
                  attempt (NewCoordinator (str_bytes message) nonce thresh)
                    (\<lambda>coord. run_all
                       [put_round (RoundID cr nonce) \<lparr>tr_coord = coord, tr_msg = str_bytes message, tr_nonce = nonce,
                          tr_createdAt = hr_Now r\<rparr>,
                        audit cr r ''threshold_round_open'' ''ok'' (RoundID cr nonce),
                        ok_json (json_obj [(''round_id'', JStr (RoundID cr nonce)), (''nonce'', jb64 nonce),
                          (''threshold'', JInt thresh)])])
                    (\<lambda>_. refuse StatusBadRequest (ar_err r))))
               (\<lambda>_. server_error))))"

record th_sign_request =
  nq_SignerID :: string
  nq_Nonce :: string
  nq_Message :: string

definition dec_th_sign_request :: "api_request \<Rightarrow> th_sign_request option" where
  "dec_th_sign_request r =
     (case body_obj r of
        None \<Rightarrow> None
      | Some kvs \<Rightarrow>
          (case (str_field ''signer_id'' kvs, str_field ''round_id'' kvs, str_field ''nonce'' kvs, str_field ''message'' kvs) of
             (Some i, Some rd, Some n, Some m) \<Rightarrow> Some \<lparr>nq_SignerID = i, nq_Nonce = n, nq_Message = m\<rparr>
           | _ \<Rightarrow> None))"

text \<open>The signer of an id is created on first use.\<close>

definition get_signer :: "crypto \<Rightarrow> api_request \<Rightarrow> string \<Rightarrow> signer act" where
  "get_signer cr r k =
     and_then (asks (\<lambda>s. gm_get (sv_thresholdSigners s) k)) (\<lambda>known. case known of
       Some x \<Rightarrow> and_then (put_signer k (x\<lparr>sr_lastUsed := hr_Now r\<rparr>)) (\<lambda>_. give (sr_signer x))
     | None \<Rightarrow>
         and_then (asks (\<lambda>s. NewSigner cr k (sv_rand s))) (\<lambda>res.
           attempt res
             (\<lambda>(sgn, e). and_then (put_rand e) (\<lambda>_.
                and_then (put_signer k \<lparr>sr_signer = sgn, sr_lastUsed = hr_Now r\<rparr>) (\<lambda>_. give sgn)))
             (\<lambda>_. server_error)))"

definition handleThresholdSign :: "crypto \<Rightarrow> api_request \<Rightarrow> unit act" where
  "handleThresholdSign cr r =
     (case dec_th_sign_request r of
        None \<Rightarrow> bad_request
      | Some req \<Rightarrow>
          (if nq_SignerID req = [] then bad_request
           else and_then (get_signer cr r (nq_SignerID req)) (\<lambda>sgn.
             (case b64std_dec (nq_Nonce req) of
                None \<Rightarrow> refuse StatusBadRequest ''Invalid nonce encoding''
              | Some nonce \<Rightarrow>
                  attempt (signer_Sign cr sgn (str_bytes (nq_Message req)) nonce)
                    (\<lambda>p. run_all
                       [inc ''qs_crypto_threshold_partial_total'',
                        ok_json (json_obj [(''signer_id'', JStr (ps_SignerID p)), (''public_key'', jb64 (ps_PublicKey p)),
                          (''signature'', jb64 (ps_Signature p)), (''nonce'', jb64 (ps_Nonce p))])])
                    (\<lambda>_. and_then (inc ''qs_crypto_errors_total'') (\<lambda>_.
                       refuse StatusBadRequest (''Sign failed: '' @ ar_err r)))))))"

text \<open>The round and the partial signature of a submission; the encodings are not checked.\<close>

definition dec_submit_request :: "api_request \<Rightarrow> (string \<times> partial_sig) option" where
  "dec_submit_request r =
     (case body_obj r of
        None \<Rightarrow> None
      | Some kvs \<Rightarrow>
          (case (str_field ''round_id'' kvs, str_field ''signer_id'' kvs, str_field ''public_key'' kvs,
                 str_field ''signature'' kvs, str_field ''nonce'' kvs) of
             (Some rd, Some i, Some pk, Some sig, Some n) \<Rightarrow>
               Some (rd, \<lparr>ps_SignerID = i, ps_PublicKey = b64std_lax pk, ps_Signature = b64std_lax sig, ps_Nonce = b64std_lax n\<rparr>)
           | _ \<Rightarrow> None))"

definition enc_partial :: "partial_sig \<Rightarrow> jval" where
  "enc_partial p = json_map [(''signer_id'', ps_SignerID p), (''public_key'', b64std (ps_PublicKey p)),
     (''signature'', b64std (ps_Signature p)), (''nonce'', b64std (ps_Nonce p))]"

definition AuthorisedSignatureToMap :: "authorised_sig \<Rightarrow> jval" where
  "AuthorisedSignatureToMap a = json_obj
     [(''threshold'', JInt (as_Threshold a)), (''msg_digest'', jb64 (as_MsgDigest a)), (''nonce'', jb64 (as_Nonce a)),
      (''partials'', JArr (map enc_partial (as_Partials a)))]"

text \<open>The coordinator collects the signature in place; a round that is done leaves the table.\<close>

definition handleThresholdSubmit :: "crypto \<Rightarrow> api_request \<Rightarrow> unit act" where
  "handleThresholdSubmit cr r =
     (case dec_submit_request r of
        None \<Rightarrow> bad_request
      | Some (roundID, p) \<Rightarrow>
          (if roundID = [] then bad_request
           else and_then (asks (\<lambda>s. gm_get (sv_thresholdRounds s) roundID)) (\<lambda>x. case x of
             None \<Rightarrow> refuse StatusNotFound ''Round not found''
           | Some rd \<Rightarrow>
               (case th_Submit cr (tr_coord rd) p of
                  (res, coord) \<Rightarrow>
                    and_then (put_round roundID (rd\<lparr>tr_coord := coord\<rparr>)) (\<lambda>_.
                    attempt res
                      (\<lambda>(fin, bundle). case (fin, bundle) of
                         (True, Some a) \<Rightarrow> run_all
                           [inc ''qs_crypto_threshold_authorised_total'', audit cr r ''threshold_authorised'' ''ok'' roundID,
                            audit_gauge, change (\<lambda>s. s\<lparr>sv_thresholdRounds := gm_del roundID (sv_thresholdRounds s)\<rparr>),
                            ok_json (json_obj [(''done'', JBool True), (''round_id'', JStr roundID),
                              (''authorised'', AuthorisedSignatureToMap a)])]
                       | _ \<Rightarrow> ok_json (json_obj [(''done'', JBool False), (''round_id'', JStr roundID),
                              (''collected'', jnat (th_Count coord))]))
                      (\<lambda>_. and_then (inc ''qs_crypto_errors_total'') (\<lambda>_.
                         refuse StatusBadRequest (''Submit failed: '' @ ar_err r))))))))"

text \<open>\<open>int(x)\<close> of a \<open>float64\<close>: towards zero; outside the range the result is the one of amd64.\<close>

definition f64_int :: "float64 \<Rightarrow> int" where
  "f64_int x =
     (case x of
        Fin q \<Rightarrow> (let n = (if 0 \<le> q then \<lfloor>q\<rfloor> else \<lceil>q\<rceil>) in if - (2 ^ 63) \<le> n \<and> n < 2 ^ 63 then n else - (2 ^ 63))
      | _ \<Rightarrow> - (2 ^ 63))"

text \<open>A failed type assertion with two results gives the zero value, one with a single result panics.\<close>

definition member :: "(jval \<Rightarrow> 'a option) \<Rightarrow> 'a \<Rightarrow> string \<Rightarrow> (string \<times> jval) list \<Rightarrow> 'a" where
  "member conv zero k m = (case Option.bind (gm_get m k) conv of None \<Rightarrow> zero | Some v \<Rightarrow> v)"

fun as_arr :: "jval \<Rightarrow> jval list option" where
  "as_arr (JArr vs) = Some vs"
| "as_arr _ = None"

definition partial_from :: "(string \<times> jval) list \<Rightarrow> partial_sig option" where
  "partial_from m =
     (let s = (\<lambda>k. Option.bind (gm_get m k) as_str) in
      case (s ''public_key'', s ''signature'', s ''nonce'', s ''signer_id'') of
        (Some pk, Some sig, Some n, Some i) \<Rightarrow>
          Some \<lparr>ps_SignerID = i, ps_PublicKey = b64std_lax pk, ps_Signature = b64std_lax sig, ps_Nonce = b64std_lax n\<rparr>
      | _ \<Rightarrow> None)"

fun partials_from :: "jval list \<Rightarrow> (unit, partial_sig list) result" where
  "partials_from [] = Ok []"
| "partials_from (JObj kvs # vs) =
     (case partial_from (merge_members kvs) of
        None \<Rightarrow> Panic
      | Some p \<Rightarrow>
          (case partials_from vs of Ok ps \<Rightarrow> Ok (p # ps) | Err er \<Rightarrow> Err er | Panic \<Rightarrow> Panic))"
| "partials_from (v # vs) = Err ()"

definition authFromMap :: "(string \<times> jval) list option \<Rightarrow> (unit, authorised_sig) result" where
  "authFromMap mo =
     (case mo of
        None \<Rightarrow> Err ()
      | Some m \<Rightarrow>
          (case b64std_dec (member as_str [] ''msg_digest'' m) of
             None \<Rightarrow> Err ()
           | Some digest \<Rightarrow>
               (case b64std_dec (member as_str [] ''nonce'' m) of
                  None \<Rightarrow> Err ()
                | Some nonce \<Rightarrow>
                    (case partials_from (member as_arr [] ''partials'' m) of
                       Ok ps \<Rightarrow> Ok \<lparr>as_Threshold = f64_int (member as_float64 (Fin 0) ''threshold'' m),
                                   as_MsgDigest = digest, as_Nonce = nonce, as_Partials = ps\<rparr>
                     | Err er \<Rightarrow> Err er
                     | Panic \<Rightarrow> Panic))))"

text \<open>The field \<open>authorised\<close> is a map, nil when absent; \<open>trusted\<close> maps names to strings.\<close>

definition map_field :: "string \<Rightarrow> (string \<times> jval) list \<Rightarrow> (string \<times> jval) list option option" where
  "map_field f kvs =
     (if field_vals f kvs = [] then Some None
      else case obj_field f kvs of
        None \<Rightarrow> None | Some ms \<Rightarrow> if any_ok (JObj ms) then Some (Some (merge_members ms)) else None)"

definition strings_field :: "string \<Rightarrow> (string \<times> jval) list \<Rightarrow> (string, string) gomap option" where
  "strings_field f kvs =
     (case obj_field f kvs of
        None \<Rightarrow> None
      | Some ms \<Rightarrow>
          map_option (\<lambda>xs. fold (\<lambda>(k, v) m. gm_put k v m) xs [])
            (those (map (\<lambda>(k, v). map_option (Pair k) (if v = JNull then Some [] else as_str v)) ms)))"

record th_verify_request =
  yq_Message :: string
  yq_Auth :: "(string \<times> jval) list option"
  yq_Trusted :: "(string, string) gomap"

definition dec_th_verify_request :: "api_request \<Rightarrow> th_verify_request option" where
  "dec_th_verify_request r =
     (case body_obj r of
        None \<Rightarrow> None
      | Some kvs \<Rightarrow>
          (case (str_field ''message'' kvs, map_field ''authorised'' kvs, strings_field ''trusted'' kvs) of
             (Some m, Some a, Some t) \<Rightarrow> Some \<lparr>yq_Message = m, yq_Auth = a, yq_Trusted = t\<rparr>
           | _ \<Rightarrow> None))"

text \<open>The keys of the trusted signers; of several that do not decode the first one is reported.\<close>

fun trusted_keys :: "(string, string) gomap \<Rightarrow> (string, (string, bytes) gomap) result" where
  "trusted_keys [] = Ok []"
| "trusted_keys ((k, t) # m) =
     (case b64std_dec t of
        None \<Rightarrow> Err k
      | Some b \<Rightarrow> (case trusted_keys m of Ok m' \<Rightarrow> Ok ((k, b) # m') | Err er \<Rightarrow> Err er | Panic \<Rightarrow> Panic))"

definition handleThresholdVerify :: "crypto \<Rightarrow> api_request \<Rightarrow> unit act" where
  "handleThresholdVerify cr r =
     (case dec_th_verify_request r of
        None \<Rightarrow> bad_request
      | Some req \<Rightarrow>
          (if yq_Message req = [] then bad_request
           else attempt (trusted_keys (yq_Trusted req))
             (\<lambda>trusted. attempt (authFromMap (yq_Auth req))
                (\<lambda>a. and_then (inc ''qs_crypto_verify_total'') (\<lambda>_.
                   attempt (th_Verify cr (str_bytes (yq_Message req)) (Some a) trusted)
                     (\<lambda>_. ok_json (json_obj [(''valid'', JBool True), (''threshold'', JInt (as_Threshold a))]))
                     (\<lambda>_. ok_json (json_obj [(''valid'', JBool False), (''error'', JStr (ar_err r))]))))
                (\<lambda>_. refuse StatusBadRequest (''Invalid authorised signature: '' @ ar_err r)))
             (\<lambda>bad. refuse StatusBadRequest (''Invalid trusted pk for '' @ bad))))"

end
