(* ===== verification/Server.thy ===== *)
theory Server
  imports ServerCA ServerSessions
begin

text \<open>
  The routes of \<open>pkg/api/server.go\<close>, the multiplexer of \<open>net/http\<close> they are registered with, the chain of
  middlewares around it, and a run of the server.
\<close>

section \<open>Routes\<close>

datatype access = Public | Authenticated | NeedsRole string

fun guarded :: "crypto \<Rightarrow> access \<Rightarrow> api_handler \<Rightarrow> api_handler" where
  "guarded cr Public h = h"
| "guarded cr Authenticated h = requireAuth cr h"
| "guarded cr (NeedsRole role) h = requireRole cr role h"

text \<open>The handlers of other packages: the metrics page and the cluster node.\<close>

definition handleMetrics :: "api_request \<Rightarrow> unit act" where
  "handleMetrics r s = (Answer (snd (metrics_Handler (ar_fmt r) (sv_metrics s) [])), s)"

definition handleCluster :: "api_request \<Rightarrow> unit act" where
  "handleCluster r =
     and_then (asks sv_clusterNode) (\<lambda>n. case n of
       None \<Rightarrow> give ()
     | Some node \<Rightarrow>
         (let send = (\<lambda>resp s. (Answer resp, s)) in
          case cluster_Handler (hr_Method r) (hr_Path r) of
            None \<Rightarrow> refuse StatusNotFound ''Not found''
          | Some RStatus \<Rightarrow> send (handleStatus node (ar_raft r))
          | Some RLeader \<Rightarrow> send (handleLeader (ar_raft r))
          | Some RJoin \<Rightarrow> send (fst (handleJoin (ar_raft r) (ar_addVoter r) (ar_err r) (hr_Body r)))
          | Some RRemove \<Rightarrow> send (fst (handleRemove (ar_raft r) (ar_removeServer r) (ar_err r) (hr_Body r)))))"

type_synonym route = "string \<times> string \<times> access \<times> api_handler"

abbreviation "reader \<equiv> NeedsRole ''read''"
abbreviation "writer \<equiv> NeedsRole ''write''"
abbreviation "admin \<equiv> NeedsRole ''admin''"

definition cluster_routes :: "route list" where
  "cluster_routes =
     [(''GET'', ''/cluster/status'', Public, handleCluster),
      (''GET'', ''/cluster/leader'', Public, handleCluster),
      (''POST'', ''/cluster/join'', admin, handleCluster),
      (''POST'', ''/cluster/remove'', admin, handleCluster)]"

text \<open>The catch-all comes last here: the multiplexer prefers the more specific pattern.\<close>

definition routes :: "crypto \<Rightarrow> bool \<Rightarrow> route list" where
  "routes cr clustered =
     [(''GET'', ''/metrics'', Public, handleMetrics),
      (''GET'', ''/health/live'', Public, handleLive),
      (''GET'', ''/health/ready'', Public, handleReady cr),
      (''GET'', ''/health/fips'', Public, handleFIPS cr),
      (''POST'', ''/auth/token'', Public, handleIssueToken cr),
      (''POST'', ''/auth/verify'', Public, handleVerifyToken cr),
      (''POST'', ''/auth/revoke'', Authenticated, handleRevokeToken cr),
      (''POST'', ''/verify-signature'', Public, handleVerifySignature cr),
      (''POST'', ''/slh-dsa/verify'', Public, handleSLHDSAVerify cr),
      (''POST'', ''/threshold/verify'', Public, handleThresholdVerify cr),
      (''GET'', ''/keys'', reader, handleListKeys),
      (''POST'', ''/keys/generate'', writer, handleGenerateKey cr),
      (''GET'', ''/keys/{key_id}/public'', reader, handleGetPublicKey cr),
      (''POST'', ''/encrypt'', writer, handleEncrypt cr),
      (''POST'', ''/decrypt'', writer, handleDecrypt cr),
      (''POST'', ''/sign'', writer, handleSign cr),
      (''POST'', ''/slh-dsa/sign'', writer, handleSLHDSASign cr),
      (''POST'', ''/vault/split'', writer, handleVaultSplit cr),
      (''POST'', ''/vault/reconstruct'', writer, handleVaultReconstruct cr),
      (''POST'', ''/channel/init'', writer, handleChannelInit cr),
      (''POST'', ''/channel/complete'', writer, handleChannelComplete cr),
      (''POST'', ''/channel/seal'', writer, handleChannelSeal cr),
      (''POST'', ''/channel/open'', writer, handleChannelOpen cr),
      (''POST'', ''/threshold/round'', writer, handleThresholdRound cr),
      (''POST'', ''/threshold/sign'', writer, handleThresholdSign cr),
      (''POST'', ''/threshold/submit'', writer, handleThresholdSubmit cr),
      (''POST'', ''/kdf/hkdf'', writer, handleKDFHKDF cr),
      (''POST'', ''/kdf/argon2'', writer, handleKDFArgon2 cr),
      (''POST'', ''/kdf/salt'', writer, handleKDFSalt),
      (''GET'', ''/audit/entries'', reader, handleAuditEntries),
      (''GET'', ''/audit/verify'', reader, handleAuditVerify cr),
      (''POST'', ''/keystore/generate'', admin, handleKeystoreGenerate cr),
      (''GET'', ''/keystore'', admin, handleKeystoreList),
      (''GET'', ''/keystore/{key_id}'', admin, handleKeystoreGet cr),
      (''POST'', ''/keystore/{key_id}/rotate'', admin, handleKeystoreRotate cr),
      (''POST'', ''/keystore/{key_id}/expire'', admin, handleKeystoreExpire cr),
      (''DELETE'', ''/keystore/{key_id}'', admin, handleKeystoreDelete cr),
      (''POST'', ''/keys/{key_id}/export'', admin, handleKeyExport cr),
      (''POST'', ''/keys/import'', admin, handleKeyImport cr),
      (''POST'', ''/ca/init'', admin, handleCAInit cr),
      (''POST'', ''/ca/sign'', writer, handleCASign cr),
      (''POST'', ''/ca/revoke'', admin, handleCARevoke cr),
      (''POST'', ''/ca/verify'', Public, handleCAVerify cr),
      (''GET'', ''/ca/certificate'', Public, handleCACertificate),
      (''GET'', ''/ca/crl'', Public, handleCACRL),
      (''POST'', ''/ca/intermediate'', admin, handleCAIntermediate cr),
      (''POST'', ''/ca/intermediate/{serial}/sign'', writer, handleCAIntermediateSign cr),
      (''POST'', ''/ca/chain-verify'', Public, handleCAChainVerify cr)]
     @ (if clustered then cluster_routes else [])
     @ [(''GET'', ''/'', Public, handleHealth)]"

section \<open>The multiplexer\<close>

text \<open>Paths are without percent-escapes. A path that is not clean is redirected to the clean one.\<close>

fun clean_segs :: "string list \<Rightarrow> string list \<Rightarrow> string list" where
  "clean_segs acc [] = acc"
| "clean_segs acc (x # xs) =
     clean_segs (if x = [] \<or> x = ''.'' then acc else if x = ''..'' then butlast acc else acc @ [x]) xs"

definition cleanPath :: "string \<Rightarrow> string" where
  "cleanPath p =
     (let np = CHR ''/'' # join_with ''/'' (clean_segs [] (split_on CHR ''/'' p)) in
      if p \<noteq> [] \<and> last p = CHR ''/'' \<and> np \<noteq> ''/'' then np @ ''/'' else np)"

definition path_segs :: "string \<Rightarrow> string list" where
  "path_segs p = split_on CHR ''/'' (tl p)"

text \<open>A wildcard matches one segment that is not empty; the pattern \<open>/\<close> matches every path.\<close>

fun match_segs :: "string list \<Rightarrow> string list \<Rightarrow> (string, string) gomap option" where
  "match_segs [] [] = Some []"
| "match_segs (p # ps) (x # xs) =
     (if take 1 p = ''{'' then
        (if x = [] then None else map_option (\<lambda>m. (butlast (tl p), x) # m) (match_segs ps xs))
      else if p = x then match_segs ps xs else None)"
| "match_segs _ _ = None"

definition match_pattern :: "string \<Rightarrow> string \<Rightarrow> (string, string) gomap option" where
  "match_pattern pat path = (if pat = ''/'' then Some [] else match_segs (path_segs pat) (path_segs path))"

fun find_in :: "route list \<Rightarrow> string \<Rightarrow> string \<Rightarrow> (access \<times> api_handler \<times> (string, string) gomap) option" where
  "find_in [] verb path = None"
| "find_in ((v, pat, acc, h) # rs) verb path =
     (if v = verb then
        (case match_pattern pat path of Some pv \<Rightarrow> Some (acc, h, pv) | None \<Rightarrow> find_in rs verb path)
      else find_in rs verb path)"

text \<open>A HEAD request is also served by the routes for GET.\<close>

definition find_route :: "route list \<Rightarrow> string \<Rightarrow> string \<Rightarrow> (access \<times> api_handler \<times> (string, string) gomap) option" where
  "find_route rs verb path =
     (case find_in rs verb path of
        Some x \<Rightarrow> Some x
      | None \<Rightarrow> if verb = ''HEAD'' then find_in rs ''GET'' path else None)"

definition allowed_methods :: "route list \<Rightarrow> string \<Rightarrow> string list" where
  "allowed_methods rs path =
     (let ms = map fst (filter (\<lambda>(v, pat, acc, h). match_pattern pat path \<noteq> None) rs) in
      sort (remdups (ms @ (if ''GET'' \<in> set ms then [''HEAD''] else []))))"

definition plain_error :: "int \<Rightarrow> string \<Rightarrow> response" where
  "plain_error c msg = \<lparr>rs_Code = c, rs_Body = PlainBody (msg @ [CHR 0x0A])\<rparr>"

abbreviation StatusMovedPermanently :: int where "StatusMovedPermanently \<equiv> 301"

text \<open>The path the multiplexer looks up, and its answer; the page of a redirection is left out.\<close>

definition mux_path :: "'r request_scheme \<Rightarrow> string" where
  "mux_path r = (if hr_Method r = ''CONNECT'' then hr_Path r else cleanPath (hr_Path r))"

definition mux :: "crypto \<Rightarrow> api_request \<Rightarrow> unit act" where
  "mux cr r =
     and_then (asks (\<lambda>s. routes cr (clusterEnabled s))) (\<lambda>rs.
       if mux_path r \<noteq> hr_Path r then (\<lambda>s. (Answer \<lparr>rs_Code = StatusMovedPermanently, rs_Body = NoBody\<rparr>, s))
       else case find_route rs (hr_Method r) (mux_path r) of
         Some (acc, h, pv) \<Rightarrow> guarded cr acc h (r\<lparr>hr_PathValue := pv\<rparr>)
       | None \<Rightarrow>
           (if allowed_methods rs (mux_path r) = [] then (\<lambda>s. (Answer (plain_error StatusNotFound ''404 page not found''), s))
            else (\<lambda>s. (Answer (plain_error StatusMethodNotAllowed ''Method Not Allowed''), s))))"

section \<open>The server as a handler\<close>

text \<open>The header of an answer: the content type, and what a redirection, a refused method and the rate
  limiter of \<open>requireAuth\<close> add.\<close>

definition answer_header :: "route list \<Rightarrow> 'r request_scheme \<Rightarrow> response \<Rightarrow> headers \<Rightarrow> headers" where
  "answer_header rs r resp w =
     (if rs_Code resp = StatusMovedPermanently then h_Set ''Location'' (mux_path r) w
      else case rs_Body resp of
        PlainBody _ \<Rightarrow>
          (if rs_Code resp = StatusOK then h_Set ''Content-Type'' ''text/plain; version=0.0.4; charset=utf-8'' w
           else h_Set ''Content-Type'' ''text/plain; charset=utf-8''
             (if rs_Code resp = StatusMethodNotAllowed
              then h_Set ''Allow'' (join_with '', '' (allowed_methods rs (mux_path r))) w else w))
      | _ \<Rightarrow>
          h_Set ''Content-Type'' ''application/json''
            (if resp = reply_error StatusTooManyRequests ''Rate limit exceeded'' then h_Set ''Retry-After'' ''60'' w else w))"

text \<open>A handler that returns without writing has answered 200; one that panics answers nothing.\<close>

definition mux_handler :: "crypto \<Rightarrow> (unit api_request_ext, srv) handler" where
  "mux_handler cr r w s =
     (case mux cr r s of
        (Answer resp, s') \<Rightarrow> (Some (answer_header (routes cr (clusterEnabled s)) r resp w, resp), s')
      | (Next _, s') \<Rightarrow> (Some (w, \<lparr>rs_Code = StatusOK, rs_Body = NoBody\<rparr>), s')
      | (Crash, s') \<Rightarrow> (None, s'))"

definition srv_Handler :: "crypto \<Rightarrow> string \<Rightarrow> (unit api_request_ext, srv) handler" where
  "srv_Handler cr origins =
     RequestID sv_rand sv_rand_update
       (SecurityHeaders
         (CORS origins
           (HTTPMiddleware sv_metrics sv_metrics_update
             (Limit sv_rl sv_rl_update
               (RequireJSON (mux_handler cr))))))"

definition serve :: "crypto \<Rightarrow> api_request \<Rightarrow> srv \<Rightarrow> (headers \<times> response) option \<times> srv" where
  "serve cr r s = srv_Handler cr (sv_origins s) r [] s"

text \<open>What happens to a running server: requests, and the cleaners with the clock they read.\<close>

datatype srv_event = Request api_request | CleanState gotime | CleanLimiters gotime | PruneRevoked disk gotime

fun srv_step :: "crypto \<Rightarrow> srv_event \<Rightarrow> srv \<Rightarrow> srv" where
  "srv_step cr (Request r) s = snd (serve cr r s)"
| "srv_step cr (CleanState now) s = stateCleanup now s"
| "srv_step cr (CleanLimiters now) s = s\<lparr>sv_rl := rl_cleanup now (sv_rl s), sv_srl := rl_cleanup now (sv_srl s)\<rparr>"
| "srv_step cr (PruneRevoked d now) s =
     (case auth_pruneExpired d now (sv_auth s, sv_files s) of (a, fs) \<Rightarrow> s\<lparr>sv_auth := a, sv_files := fs\<rparr>)"

end
