(* ===== verification/ServerSafety.thy ===== *)
theory ServerSafety
  imports Server
begin

text \<open>
  What holds of the server for every request. A small logic for the steps of handlers (\<open>keeps\<close>) carries
  an invariant through them and shows that they do not panic; the interface \<open>public_inv\<close> is what an
  invariant must allow for the public handlers to keep it, and is used for two invariants: the data behind
  authorisation does not change, and the server is well-formed (\<open>srv_ok\<close>).
\<close>

section \<open>A logic for steps\<close>

text \<open>Started where \<open>P\<close> holds, the step ends where \<open>I\<close> holds; it panics only if \<open>c\<close> allows it.\<close>

definition keeps :: "bool \<Rightarrow> (srv \<Rightarrow> bool) \<Rightarrow> (srv \<Rightarrow> bool) \<Rightarrow> 'a act \<Rightarrow> bool" where
  "keeps c I P m \<longleftrightarrow> (\<forall>s. P s \<longrightarrow> (c \<or> fst (m s) \<noteq> Crash) \<and> I (snd (m s)))"

named_theorems keeps_intro
named_theorems no_panic

lemma keepsI: "(\<And>s. P s \<Longrightarrow> (c \<or> fst (m s) \<noteq> Crash) \<and> I (snd (m s))) \<Longrightarrow> keeps c I P m"
  by (simp add: keeps_def)

lemma keepsD: "keeps c I P m \<Longrightarrow> P s \<Longrightarrow> (c \<or> fst (m s) \<noteq> Crash) \<and> I (snd (m s))"
  by (simp add: keeps_def)

lemma keeps_pre: "keeps c I P m \<Longrightarrow> (\<And>s. Q s \<Longrightarrow> P s) \<Longrightarrow> keeps c I Q m"
  by (simp add: keeps_def)

lemma keeps_answers [keeps_intro]:
  assumes "\<And>s. P s \<Longrightarrow> I s"
  shows "keeps c I P (give x)" "keeps c I P (asks f)" "keeps c I P (answer n v)" "keeps c I P (ok_json v)"
    "keeps c I P (refuse n msg)" "keeps c I P (ok_json_opt n vo)" "keeps c I P (\<lambda>s. (Answer resp, s))"
  using assms
  by (simp_all add: keeps_def give_def asks_def answer_def ok_json_def refuse_def ok_json_opt_def)

lemma keeps_crash [keeps_intro]: "c \<Longrightarrow> (\<And>s. P s \<Longrightarrow> I s) \<Longrightarrow> keeps c I P crash"
  by (simp add: keeps_def crash_def)

lemma srv_keeps_change: "(\<And>s. P s \<Longrightarrow> I (f s)) \<Longrightarrow> keeps c I P (change f)"
  by (simp add: keeps_def change_def)

lemma keeps_and_then:
  assumes m: "keeps c R P m" and k: "\<And>x. keeps c I R (k x)" and R: "\<And>s. R s \<Longrightarrow> I s"
  shows "keeps c I P (and_then m k)"
proof (rule keepsI)
  fix s
  assume "P s"
  then have s: "(c \<or> fst (m s) \<noteq> Crash) \<and> R (snd (m s))" by (rule keepsD [OF m])
  show "(c \<or> fst (and_then m k s) \<noteq> Crash) \<and> I (snd (and_then m k s))"
  proof (cases "m s")
    case (Pair r s')
    then show ?thesis using s keepsD [OF k, of s'] R [of s'] by (cases r) (auto simp: and_then_def)
  qed
qed

lemma keeps_then: "keeps c I P m \<Longrightarrow> (\<And>x. keeps c I I (k x)) \<Longrightarrow> keeps c I P (and_then m k)"
  by (rule keeps_and_then) auto

lemma keeps_asks [keeps_intro]:
  "(\<And>x. \<exists>s. P s \<and> f s = x \<Longrightarrow> keeps c I (\<lambda>s. P s \<and> f s = x) (k x)) \<Longrightarrow> keeps c I P (and_then (asks f) k)"
  by (auto simp: keeps_def and_then_def asks_def)

lemma keeps_Nil [keeps_intro]: "(\<And>s. P s \<Longrightarrow> I s) \<Longrightarrow> keeps c I P (run_all [])"
  by (simp add: keeps_answers)

lemma keeps_Cons [keeps_intro]: "keeps c I P m \<Longrightarrow> keeps c I I (run_all ms) \<Longrightarrow> keeps c I P (run_all (m # ms))"
  by (simp add: keeps_then)

lemma keeps_attempt [keeps_intro]:
  assumes "\<And>x. r = Ok x \<Longrightarrow> keeps c I P (k x)" and "\<And>er. r = Err er \<Longrightarrow> keeps c I P (h er)"
    and "\<And>s. P s \<Longrightarrow> r = Panic \<Longrightarrow> c \<and> I s"
  shows "keeps c I P (attempt r k h)"
  using assms by (cases r) (auto simp: attempt_def crash_def keeps_def)

lemma keeps_if [keeps_intro]:
  "(b \<Longrightarrow> keeps c I P m) \<Longrightarrow> (\<not> b \<Longrightarrow> keeps c I P m') \<Longrightarrow> keeps c I P (if b then m else m')"
  by simp

lemma keeps_option [keeps_intro]:
  "(x = None \<Longrightarrow> keeps c I P m) \<Longrightarrow> (\<And>y. x = Some y \<Longrightarrow> keeps c I P (f y)) \<Longrightarrow>
     keeps c I P (case x of None \<Rightarrow> m | Some y \<Rightarrow> f y)"
  by (cases x) simp_all

lemma keeps_prod [keeps_intro]:
  "(\<And>a b. x = (a, b) \<Longrightarrow> keeps c I P (f a b)) \<Longrightarrow> keeps c I P (case x of (a, b) \<Rightarrow> f a b)"
  by (cases x) simp

lemma keeps_let [keeps_intro]: "keeps c I P (f x) \<Longrightarrow> keeps c I P (let y = x in f y)"
  by simp

section \<open>Calls that do not panic\<close>

lemma schemeFor_no_panic [no_panic]: "dsa_schemeFor l \<noteq> Panic"
  by (simp add: dsa_schemeFor_def)

lemma crypto_no_panic [no_panic]:
  "kem_GenerateKey l e \<noteq> Panic" "kem_ParseDecapsulationKey l b \<noteq> Panic" "kem_ParseEncapsulationKey cr l b \<noteq> Panic"
  "kem_Decapsulate cr dk ct \<noteq> Panic" "dsa_GenerateKey cr l e \<noteq> Panic" "dsa_Sign cr sk msg \<noteq> Panic"
  "dsa_ParsePublicKey cr l b \<noteq> Panic" "dsa_ParsePrivateKey cr l b \<noteq> Panic" "slh_ParseLevel t \<noteq> Panic"
  "slh_GenerateKey cr sl e \<noteq> Panic" "slh_Sign cr ssk msg e \<noteq> Panic" "slh_ParsePublicKey cr sl b \<noteq> Panic"
  "DeriveHKDF cr a b d n \<noteq> Panic" "DeriveArgon2id cr a b \<noteq> Panic" "NewSalt e \<noteq> Panic"
  by (auto simp: kem_GenerateKey_def kem_ParseDecapsulationKey_def kem_ParseEncapsulationKey_def kem_Decapsulate_def
      dsa_GenerateKey_def dsa_Sign_def dsa_ParsePublicKey_def dsa_ParsePrivateKey_def slh_ParseLevel_def
      slh_GenerateKey_def slh_Sign_def slh_ParsePublicKey_def DeriveHKDF_def DeriveArgon2id_def NewSalt_def
      dsa_schemeFor_def Let_def split: option.splits prod.splits)

lemma auth_no_panic [no_panic]: "auth_Issue cr a u rs ex now e \<noteq> Panic" "auth_Verify cr a tok now \<noteq> Panic"
  using crypto_no_panic(6) [of cr "Some (au_sk a)"]
  by (auto simp: auth_Issue_def auth_Verify_def Let_def split: option.splits prod.splits result.splits list.splits)

lemma vault_Split_no_panic [no_panic]: "vault_Split cr secret n k e \<noteq> Panic"
  by (simp add: vault_Split_def Let_def split: option.splits prod.splits)

lemma deriveSession_no_panic [no_panic]: "deriveSession cr sid ss remote resp \<noteq> Panic"
  by (simp add: deriveSession_def DeriveHKDFMulti_def DeriveHKDF_def newGCM_def Let_def split: result.splits list.splits)

lemma channel_no_panic [no_panic]:
  "NewInitiator sk pk \<noteq> Panic" "fst (chan_Begin cr i e) \<noteq> Panic" "chan_Complete cr i resp \<noteq> Panic"
  using no_panic
  by (auto simp: NewInitiator_def chan_Begin_def chan_Complete_def Let_def
      split: option.splits prod.splits result.splits)

lemma threshold_no_panic [no_panic]:
  "NewNonce e \<noteq> Panic" "NewCoordinator msg nonce t \<noteq> Panic" "NewSigner cr i e \<noteq> Panic"
  "signer_Sign cr sg msg nonce \<noteq> Panic" "fst (th_Submit cr co p) \<noteq> Panic"
  using no_panic
  by (auto simp: NewNonce_def NewCoordinator_def NewSigner_def signer_Sign_def th_Submit_def Let_def
      split: option.splits prod.splits result.splits)

lemma verify_partials_no_panic [no_panic]: "verify_partials cr msg nonce trusted seen ps \<noteq> Panic"
  using no_panic by (induction seen ps rule: verify_partials.induct) (auto split: option.splits result.splits)

lemma th_Verify_no_panic [no_panic]: "th_Verify cr msg au trusted \<noteq> Panic" "trusted_keys m \<noteq> Panic"
  using no_panic by (auto simp: th_Verify_def split: option.splits)
    (induction m rule: trusted_keys.induct, auto split: option.splits result.splits)

lemma attachSignature_no_panic [no_panic]: "attachSignature cr c sk \<noteq> Panic"
  using no_panic by (auto simp: attachSignature_def split: option.splits result.splits)

lemma ca_link_no_panic [no_panic]: "verifySingleLink cr now a b \<noteq> Panic"
  using no_panic by (auto simp: verifySingleLink_def split: option.splits result.splits)

lemma check_chain_no_panic [no_panic]: "check_chain i cs \<noteq> Panic"
  by (induction i cs rule: check_chain.induct) (auto split: result.splits)

lemma walk_links_no_panic [no_panic]: "walk_links cr now i ls \<noteq> Panic"
  using no_panic by (induction cr now i ls rule: walk_links.induct) (auto split: result.splits)

lemma ca_no_panic [no_panic]:
  "ca_Init cr u now e \<noteq> Panic" "ca_Issue cr ca u t pk ttl now e \<noteq> Panic" "IssueIntermediate cr ca u ttl now e \<noteq> Panic"
  "ca_VerifyChain cr now ce chain anchor \<noteq> Panic" "ca_Verify cr ca ce now \<noteq> Panic" "fst (ca_Revoke now serial ca) \<noteq> Panic"
  using no_panic
  by (auto simp: ca_Init_def ca_Issue_def IssueIntermediate_def ca_VerifyChain_def ca_Verify_def ca_Revoke_def Let_def
      split: option.splits prod.splits result.splits)

lemma cs_Save_no_panic [no_panic]: "fst (cs_Save cr d path pw st fs e) \<noteq> Panic"
  by (auto simp: cs_Save_def cs_encrypt_def atomicWrite_def Let_def split: option.splits prod.splits result.splits)

section \<open>The public handlers\<close>

lemma op_names [simp]:
  "''qs_crypto_keygen_total'' \<in> set crypto_ops" "''qs_crypto_encrypt_total'' \<in> set crypto_ops"
  "''qs_crypto_decrypt_total'' \<in> set crypto_ops" "''qs_crypto_sign_total'' \<in> set crypto_ops"
  "''qs_crypto_verify_total'' \<in> set crypto_ops" "''qs_crypto_vault_split_total'' \<in> set crypto_ops"
  "''qs_crypto_vault_reconstruct_total'' \<in> set crypto_ops" "''qs_crypto_token_issue_total'' \<in> set crypto_ops"
  "''qs_crypto_token_verify_total'' \<in> set crypto_ops" "''qs_crypto_token_revoke_total'' \<in> set crypto_ops"
  "''qs_crypto_channel_handshake_total'' \<in> set crypto_ops" "''qs_crypto_threshold_partial_total'' \<in> set crypto_ops"
  "''qs_crypto_threshold_authorised_total'' \<in> set crypto_ops" "''qs_crypto_errors_total'' \<in> set crypto_ops"
  by (simp_all add: crypto_ops_def)

text \<open>What an invariant must allow, so that the handlers nobody has to authenticate for keep it.\<close>

locale public_inv =
  fixes cr :: crypto and c :: bool and I :: "srv \<Rightarrow> bool"
  assumes rand_I: "I s \<Longrightarrow> I (s\<lparr>sv_rand := e\<rparr>)"
    and metrics_I: "I s \<Longrightarrow> name \<in> set crypto_ops \<Longrightarrow> counter_Inc name (sv_metrics s) = Some m \<Longrightarrow> I (s\<lparr>sv_metrics := m\<rparr>)"
    and inc_I: "I s \<Longrightarrow> name \<in> set crypto_ops \<Longrightarrow> counter_Inc name (sv_metrics s) = None \<Longrightarrow> c"
    and gauge_I: "I s \<Longrightarrow> gauge_Set ''qs_audit_log_entries'' v (sv_metrics s) = Some m \<Longrightarrow> I (s\<lparr>sv_metrics := m\<rparr>)"
    and set_I: "I s \<Longrightarrow> gauge_Set ''qs_audit_log_entries'' v (sv_metrics s) = None \<Longrightarrow> c"
    and audit_I: "I s \<Longrightarrow> I (sv_audit_update (log_step cr x) s)"
    and fips_I: "I s \<Longrightarrow> I (s\<lparr>sv_fipsReport := rep\<rparr>)"
begin

lemma keeps_inc: "(\<And>s. P s \<Longrightarrow> I s) \<Longrightarrow> name \<in> set crypto_ops \<Longrightarrow> keeps c I P (inc name)"
  using metrics_I by (auto simp: keeps_def inc_def split: option.splits dest: inc_I)

lemma keeps_audit_as: "(\<And>s. P s \<Longrightarrow> I s) \<Longrightarrow> keeps c I P (audit_as cr actor r a res b)"
  using audit_I by (simp add: keeps_def audit_as_def change_def)

lemma keeps_audit: "(\<And>s. P s \<Longrightarrow> I s) \<Longrightarrow> keeps c I P (audit cr r a res b)"
  by (simp add: audit_def keeps_audit_as)

lemma keeps_audit_gauge: "(\<And>s. P s \<Longrightarrow> I s) \<Longrightarrow> keeps c I P audit_gauge"
  using gauge_I
  by (auto simp: keeps_def audit_gauge_def and_then_def asks_def set_gauge_def split: option.splits dest: set_I)

lemma keeps_put_rand: "(\<And>s. P s \<Longrightarrow> I s) \<Longrightarrow> keeps c I P (put_rand e)"
  using rand_I by (simp add: keeps_def put_rand_def change_def)

lemma keeps_run_fips: "(\<And>s. P s \<Longrightarrow> I s) \<Longrightarrow> keeps c I P (run_fips cr r)"
  using rand_I [OF fips_I]
  by (auto simp: keeps_def run_fips_def split: prod.splits)

lemmas steps = keeps_inc keeps_audit_as keeps_audit keeps_audit_gauge keeps_put_rand keeps_run_fips


lemma keeps_handleIssueToken: "keeps c I I (handleIssueToken cr r)"
  unfolding handleIssueToken_def Let_def
  by (intro keeps_intro steps keeps_then) (auto simp: no_panic)

lemma keeps_handleVerifyToken: "keeps c I I (handleVerifyToken cr r)"
  unfolding handleVerifyToken_def
  by (intro keeps_intro steps keeps_then) (auto simp: no_panic)

lemma keeps_health:
  "keeps c I I (handleHealth r)" "keeps c I I (handleLive r)" "keeps c I I (handleMetrics r)"
  by (auto simp: handleHealth_def handleLive_def handleMetrics_def keeps_def refuse_def ok_json_def answer_def)

lemma keeps_handleFIPS: "keeps c I I (handleFIPS cr r)"
  unfolding handleFIPS_def by (intro keeps_intro steps keeps_then) auto

lemma keeps_handleReady: "keeps c I I (handleReady cr r)"
  unfolding handleReady_def fipsOverall_def by (intro keeps_intro steps keeps_then) auto

lemma keeps_handleVerifySignature: "keeps c I I (handleVerifySignature cr r)"
  unfolding handleVerifySignature_def by (intro keeps_intro steps keeps_then) (auto simp: no_panic)

lemma keeps_handleSLHDSAVerify: "keeps c I I (handleSLHDSAVerify cr r)"
  unfolding handleSLHDSAVerify_def by (intro keeps_intro steps keeps_then) (auto simp: no_panic)

lemma keeps_handleThresholdVerify: "c \<Longrightarrow> keeps c I I (handleThresholdVerify cr r)"
  unfolding handleThresholdVerify_def by (intro keeps_intro steps keeps_then) (auto simp: no_panic)

lemma keeps_verdict: "res \<noteq> Panic \<Longrightarrow> (\<And>s. P s \<Longrightarrow> I s) \<Longrightarrow> keeps c I P (verdict r res)"
  unfolding verdict_def by (intro keeps_intro) auto

lemma keeps_public_ca:
  "keeps c I I (handleCAVerify cr r)" "keeps c I I (handleCAChainVerify cr r)"
  "keeps c I I (handleCACertificate r)" "keeps c I I (handleCACRL r)"
  unfolding handleCAVerify_def handleCAChainVerify_def handleCACertificate_def handleCACRL_def ca_init_first_def
  by ((intro keeps_intro steps keeps_then keeps_verdict; simp add: no_panic)+)

lemma keeps_handleCluster: "keeps c I I (handleCluster r)"
  unfolding handleCluster_def Let_def
  by (intro keeps_intro) (auto split: cluster_route.split intro!: keeps_answers)

lemmas keeps_public =
  keeps_handleIssueToken keeps_handleVerifyToken keeps_health keeps_handleFIPS keeps_handleReady
  keeps_handleVerifySignature keeps_handleSLHDSAVerify keeps_public_ca keeps_handleCluster

end

section \<open>Authorisation\<close>

text \<open>What authorisation protects: everything but the random source, the limiters, the metrics, the audit
  log and the cached report.\<close>

definition same_data :: "srv \<Rightarrow> srv \<Rightarrow> bool" where
  "same_data s t \<longleftrightarrow>
     sv_auth t = sv_auth s \<and> sv_encLevel t = sv_encLevel s \<and> sv_bootstrapSecret t = sv_bootstrapSecret s \<and>
     sv_ks t = sv_ks s \<and> sv_keypairs t = sv_keypairs s \<and> sv_decryptors t = sv_decryptors s \<and>
     sv_channelInitiators t = sv_channelInitiators s \<and> sv_channelSessions t = sv_channelSessions s \<and>
     sv_thresholdSigners t = sv_thresholdSigners s \<and> sv_thresholdRounds t = sv_thresholdRounds s \<and>
     sv_caInstance t = sv_caInstance s \<and> sv_caIntermediates t = sv_caIntermediates s \<and>
     sv_caStore t = sv_caStore s \<and> sv_caStorePath t = sv_caStorePath s \<and>
     sv_caStorePassword t = sv_caStorePassword s \<and> sv_clusterNode t = sv_clusterNode s \<and>
     sv_files t = sv_files s"

lemma same_data_refl [simp]: "same_data s s"
  by (simp add: same_data_def)

lemma same_data_upd [simp]:
  "same_data s (t\<lparr>sv_rand := e\<rparr>) = same_data s t" "same_data s (t\<lparr>sv_metrics := m\<rparr>) = same_data s t"
  "same_data s (sv_audit_update f t) = same_data s t" "same_data s (t\<lparr>sv_fipsReport := rep\<rparr>) = same_data s t"
  "same_data s (t\<lparr>sv_rl := rl\<rparr>) = same_data s t" "same_data s (t\<lparr>sv_srl := rl\<rparr>) = same_data s t"
  "same_data (s\<lparr>sv_rand := e\<rparr>) t = same_data s t" "same_data (s\<lparr>sv_rl := rl\<rparr>) t = same_data s t"
  "same_data (s\<lparr>sv_srl := rl\<rparr>) t = same_data s t"
  by (simp_all add: same_data_def)

interpretation data: public_inv cr True "same_data s0" for cr s0
  by unfold_locales simp_all

definition bearer :: "'r request_scheme \<Rightarrow> string" where
  "bearer r = trim_prefix (req_header ''Authorization'' r) ''Bearer ''"

definition has_access :: "token \<Rightarrow> access \<Rightarrow> bool" where
  "has_access tok acc \<longleftrightarrow> (\<forall>role. acc = NeedsRole role \<longrightarrow> role \<in> set (c_roles (t_claims tok)))"

definition as_subject :: "token \<Rightarrow> api_request \<Rightarrow> api_request" where
  "as_subject tok r = r\<lparr>hr_Subject := Some (c_sub (t_claims tok)), hr_Roles := Some (c_roles (t_claims tok))\<rparr>"

text \<open>The four ways a guarded route can go.\<close>

lemma guarded_exact:
  assumes "acc \<noteq> Public"
  shows "guarded cr acc h r s =
    (if bearer r = [] then (Answer (reply_error StatusUnauthorized ''Authentication failed''), s)
     else case auth_Verify cr (sv_auth s) (bearer r) (hr_Now r) of
       Ok tok \<Rightarrow>
         (case rl_allow (c_sub (t_claims tok)) (hr_Now r) (sv_srl s) of (ok, rl) \<Rightarrow>
            if \<not> ok then (Answer (reply_error StatusTooManyRequests ''Rate limit exceeded''), s\<lparr>sv_srl := rl\<rparr>)
            else if \<not> has_access tok acc then (Answer (reply_error StatusForbidden ''Forbidden''), s\<lparr>sv_srl := rl\<rparr>)
            else h (as_subject tok r) (s\<lparr>sv_srl := rl\<rparr>))
     | _ \<Rightarrow> (Answer (reply_error StatusUnauthorized ''Authentication failed''), s))"
  using assms auth_no_panic(2) [of cr "sv_auth s" "bearer r" "hr_Now r"]
  by (cases acc)
    (auto simp: requireRole_def requireAuth_def bearer_def has_access_def as_subject_def hasRole_def and_then_def asks_def
      attempt_def refuse_def allow_subject_def Let_def split: result.splits prod.splits)

lemma find_in_route: "find_in rs verb path = Some (acc, h, pv) \<Longrightarrow> \<exists>v pat. (v, pat, acc, h) \<in> set rs"
  by (induction rs verb path rule: find_in.induct) (auto split: if_splits option.splits)

lemma find_route_route: "find_route rs verb path = Some (acc, h, pv) \<Longrightarrow> \<exists>v pat. (v, pat, acc, h) \<in> set rs"
  by (auto simp: find_route_def dest: find_in_route split: option.splits if_splits)

lemma public_keeps_data:
  assumes "(v, pat, Public, h) \<in> set (routes cr en)"
  shows "keeps True (same_data s0) (same_data s0) (h r)"
  using assms by (auto simp: routes_def cluster_routes_def data.keeps_public data.keeps_handleThresholdVerify split: if_splits)

lemma mux_data:
  assumes "\<not> same_data s (snd (mux cr r s))"
  shows "\<exists>acc h pv tok. find_route (routes cr (clusterEnabled s)) (hr_Method r) (mux_path r) = Some (acc, h, pv) \<and>
    acc \<noteq> Public \<and> auth_Verify cr (sv_auth s) (bearer r) (hr_Now r) = Ok tok \<and> has_access tok acc"
proof -
  obtain acc h pv where fr: "find_route (routes cr (clusterEnabled s)) (hr_Method r) (mux_path r) = Some (acc, h, pv)"
    and run: "mux cr r s = guarded cr acc h (r\<lparr>hr_PathValue := pv\<rparr>) s"
    using assms by (auto simp: mux_def and_then_def asks_def split: if_splits option.splits)
  have "acc \<noteq> Public"
  proof
    assume acc: "acc = Public"
    then obtain v pat where "(v, pat, Public, h) \<in> set (routes cr (clusterEnabled s))"
      using find_route_route [OF fr] by blast
    then have "same_data s (snd (mux cr r s))"
      using keepsD [OF public_keeps_data, of v pat h cr _ s s] acc run by simp
    with assms show False by contradiction
  qed
  moreover have "bearer (r\<lparr>hr_PathValue := pv\<rparr>) = bearer r" by (simp add: bearer_def)
  ultimately show ?thesis
    using assms fr unfolding run
    by (auto simp: guarded_exact split: if_splits result.splits prod.splits)
qed

text \<open>What the chain of middlewares does around the multiplexer.\<close>

lemma request_upd [simp]:
  "mux_path (r\<lparr>hr_RequestID := i\<rparr>) = mux_path r" "mux_path (r\<lparr>hr_Body := b\<rparr>) = mux_path r"
  "bearer (r\<lparr>hr_RequestID := i\<rparr>) = bearer r" "bearer (r\<lparr>hr_Body := b\<rparr>) = bearer r"
  "clusterEnabled (s\<lparr>sv_rand := e\<rparr>) = clusterEnabled s" "clusterEnabled (s\<lparr>sv_rl := rl\<rparr>) = clusterEnabled s"
  by (simp_all add: mux_path_def bearer_def clusterEnabled_def)

lemma mux_handler_state: "snd (mux_handler cr r w s) = snd (mux cr r s)"
  by (auto simp: mux_handler_def split: prod.splits outcome.splits)

lemma limit_cases:
  assumes "Limit sv_rl sv_rl_update (RequireJSON (mux_handler cr)) r w s = (x, s')"
  shows "\<exists>rl b. s' = s\<lparr>sv_rl := rl\<rparr> \<or> s' = snd (mux cr (r\<lparr>hr_Body := b\<rparr>) (s\<lparr>sv_rl := rl\<rparr>))"
proof -
  have json: "snd (RequireJSON (mux_handler cr) r w t) = t \<or> (\<exists>b. snd (RequireJSON (mux_handler cr) r w t) = snd (mux cr (r\<lparr>hr_Body := b\<rparr>) t))"
    for t
  proof (cases "hr_Method r = ''POST'' \<or> hr_Method r = ''PUT'' \<or> hr_Method r = ''PATCH''")
    case True
    then show ?thesis by (auto simp: RequireJSON_def Let_def mux_handler_state)
  next
    case False
    then show ?thesis by (intro disjI2 exI [of _ "hr_Body r"]) (simp add: RequireJSON_def mux_handler_state)
  qed
  show ?thesis
    using assms json by (auto simp: Limit_def split: prod.splits bool.splits) (metis snd_conv)+
qed

lemma metrics_cases:
  assumes "HTTPMiddleware sv_metrics sv_metrics_update nxt r w s = (x, s')"
  shows "\<exists>y t. nxt r w s = (y, t) \<and>
    (s' = t \<or> (\<exists>p n m. record_request (hr_Method r) p n (hr_Took r) (sv_metrics t) = Some m \<and> s' = t\<lparr>sv_metrics := m\<rparr>))"
  using assms by (fastforce simp: HTTPMiddleware_def split: prod.splits option.splits)

lemma serve_cases:
  assumes "serve cr r s = (ans, s')"
  shows "\<exists>e rl i b t. (t = s\<lparr>sv_rand := e, sv_rl := rl\<rparr> \<or>
      t = snd (mux cr (r\<lparr>hr_RequestID := i, hr_Body := b\<rparr>) (s\<lparr>sv_rand := e, sv_rl := rl\<rparr>))) \<and>
    (s' = t \<or> (\<exists>p n m. record_request (hr_Method r) p n (hr_Took r) (sv_metrics t) = Some m \<and> s' = t\<lparr>sv_metrics := m\<rparr>))"
proof -
  let ?lim = "Limit sv_rl sv_rl_update (RequireJSON (mux_handler cr))"
  let ?rest = "SecurityHeaders (CORS (sv_origins s) (HTTPMiddleware sv_metrics sv_metrics_update ?lim))"
  have "s' = s \<or> (\<exists>i e w x. ?rest (r\<lparr>hr_RequestID := i\<rparr>) w (s\<lparr>sv_rand := e\<rparr>) = (x, s'))"
  proof (cases "req_header ''X-Request-ID'' r = []")
    case True
    then show ?thesis
      using assms by (cases "rand_read 12 (sv_rand s)") (auto simp: serve_def srv_Handler_def RequestID_def)
  next
    case False
    then have "?rest (r\<lparr>hr_RequestID := Some (req_header ''X-Request-ID'' r)\<rparr>)
        (h_Set ''X-Request-ID'' (req_header ''X-Request-ID'' r) []) (s\<lparr>sv_rand := sv_rand s\<rparr>) = (ans, s')"
      using False assms by (simp add: serve_def srv_Handler_def RequestID_def Let_def)
    then show ?thesis by blast
  qed
  then show ?thesis
  proof
    assume "s' = s"
    then show ?thesis by (intro exI [of _ "sv_rand s"] exI [of _ "sv_rl s"] exI [of _ None] exI [of _ "[]"] exI [of _ s]) simp
  next
    assume "\<exists>i e w x. ?rest (r\<lparr>hr_RequestID := i\<rparr>) w (s\<lparr>sv_rand := e\<rparr>) = (x, s')"
    then obtain i e w x where run: "?rest (r\<lparr>hr_RequestID := i\<rparr>) w (s\<lparr>sv_rand := e\<rparr>) = (x, s')" by blast
    then consider "s' = s\<lparr>sv_rand := e\<rparr>"
      | w' where "HTTPMiddleware sv_metrics sv_metrics_update ?lim (r\<lparr>hr_RequestID := i\<rparr>) w' (s\<lparr>sv_rand := e\<rparr>) = (x, s')"
      by (auto simp: SecurityHeaders_def CORS_def Let_def split: if_splits)
    then show ?thesis
    proof cases
      case 1
      then show ?thesis by (intro exI [of _ e] exI [of _ "sv_rl s"] exI [of _ None] exI [of _ "[]"] exI [of _ s']) simp
    next
      case 2
      from metrics_cases [OF this] obtain y t where t: "?lim (r\<lparr>hr_RequestID := i\<rparr>) w' (s\<lparr>sv_rand := e\<rparr>) = (y, t)"
        "s' = t \<or> (\<exists>p n m. record_request (hr_Method (r\<lparr>hr_RequestID := i\<rparr>)) p n (hr_Took (r\<lparr>hr_RequestID := i\<rparr>)) (sv_metrics t) = Some m \<and>
            s' = t\<lparr>sv_metrics := m\<rparr>)"
        by (elim exE conjE)
      then show ?thesis using limit_cases [OF t(1)] by simp blast
    qed
  qed
qed

text \<open>C2. A guarded route runs its handler only for a valid token whose subject is within its limit and whose
  roles contain the one of the route; otherwise the answer is 401, 429 or 403, in this order, and nothing
  but the limiter of subjects has changed.\<close>

theorem guarded_route:
  assumes "hr_Path r = mux_path r"
    and "find_route (routes cr (clusterEnabled s)) (hr_Method r) (hr_Path r) = Some (acc, h, pv)" and "acc \<noteq> Public"
  shows "mux cr r s =
    (if bearer r = [] then (Answer (reply_error StatusUnauthorized ''Authentication failed''), s)
     else case auth_Verify cr (sv_auth s) (bearer r) (hr_Now r) of
       Ok tok \<Rightarrow>
         (case rl_allow (c_sub (t_claims tok)) (hr_Now r) (sv_srl s) of (ok, rl) \<Rightarrow>
            if \<not> ok then (Answer (reply_error StatusTooManyRequests ''Rate limit exceeded''), s\<lparr>sv_srl := rl\<rparr>)
            else if \<not> has_access tok acc then (Answer (reply_error StatusForbidden ''Forbidden''), s\<lparr>sv_srl := rl\<rparr>)
            else h (as_subject tok (r\<lparr>hr_PathValue := pv\<rparr>)) (s\<lparr>sv_srl := rl\<rparr>))
     | _ \<Rightarrow> (Answer (reply_error StatusUnauthorized ''Authentication failed''), s))"
proof -
  have "mux cr r s = guarded cr acc h (r\<lparr>hr_PathValue := pv\<rparr>) s"
    using assms(1,2) by (simp add: mux_def and_then_def asks_def)
  moreover have "bearer (r\<lparr>hr_PathValue := pv\<rparr>) = bearer r" "hr_Now (r\<lparr>hr_PathValue := pv\<rparr>) = hr_Now r"
    by (simp_all add: bearer_def)
  ultimately show ?thesis by (simp only: guarded_exact [OF assms(3)])
qed

text \<open>C1. A request changes what authorisation protects only with a valid token: the route it takes is not
  public, the token in its \<open>Authorization\<close> header verifies at the time of the request, with the keys and
  revocations of the server, and its roles contain the role of the route.\<close>

theorem only_authorised_change:
  "same_data s (snd (serve cr r s)) \<or>
   (\<exists>acc h pv tok. find_route (routes cr (clusterEnabled s)) (hr_Method r) (mux_path r) = Some (acc, h, pv) \<and>
      acc \<noteq> Public \<and> auth_Verify cr (sv_auth s) (bearer r) (hr_Now r) = Ok tok \<and> has_access tok acc)"
proof (cases "same_data s (snd (serve cr r s))")
  case True
  then show ?thesis by (rule disjI1)
next
  case changed: False
  obtain ans s' where run: "serve cr r s = (ans, s')" by (cases "serve cr r s")
  obtain e rl i b t where t: "t = s\<lparr>sv_rand := e, sv_rl := rl\<rparr> \<or>
      t = snd (mux cr (r\<lparr>hr_RequestID := i, hr_Body := b\<rparr>) (s\<lparr>sv_rand := e, sv_rl := rl\<rparr>))"
    and s': "s' = t \<or> (\<exists>m. s' = t\<lparr>sv_metrics := m\<rparr>)"
    using serve_cases [OF run] by blast
  have "\<not> same_data s t" using changed run s' by auto
  then have "\<not> same_data (s\<lparr>sv_rand := e, sv_rl := rl\<rparr>)
      (snd (mux cr (r\<lparr>hr_RequestID := i, hr_Body := b\<rparr>) (s\<lparr>sv_rand := e, sv_rl := rl\<rparr>)))"
    using t by auto
  from mux_data [OF this] show ?thesis by (intro disjI2) simp
qed

section \<open>A concrete server\<close>

definition demo_log :: logger where
  "demo_log = \<lparr>lg_service = ''svc'', lg_pk = \<lparr>pk_level = 65, pk_bytes = replicate 32 7\<rparr>,
     lg_sk = \<lparr>sk_level = 65, sk_bytes = replicate 32 7\<rparr>, lg_entries = [], lg_prev = genesisHash toy_crypto\<rparr>"

definition demo_server :: srv where
  "demo_server = fresh_server [] demo_authority demo_log demo_registry [] (replicate 200 1)"

definition demo_request :: "string \<Rightarrow> string \<Rightarrow> string \<Rightarrow> api_request" where
  "demo_request verb path body =
     \<lparr>hr_Method = verb, hr_Path = path, hr_RemoteAddr = ''10.0.0.1:5000'',
      hr_Header = [(''Content-Type'', [''application/json''])], hr_Body = body, hr_PathValue = [], hr_Subject = None,
      hr_Roles = None, hr_RequestID = None, hr_Now = 6 * Second, hr_Took = 1000, ar_disk = DiskOk,
      ar_raft = \<lparr>rv_State = ''Leader'', rv_LeaderAddr = [], rv_LeaderID = [], rv_Servers = Ok [], rv_Stats = []\<rparr>,
      ar_apply = (\<lambda>oper t. Applied (Ok ())), ar_addVoter = (\<lambda>a b. None), ar_removeServer = (\<lambda>a. None), ar_err = [],
      ar_reprint = id, ar_fmt = (\<lambda>x. ''0''), ar_took = (\<lambda>a. 1), ar_goVersion = ''go1.25''\<rparr>"

theorem guarded_route_witness:
  "mux toy_crypto (demo_request ''POST'' ''/ca/init'' []) demo_server =
     (Answer (reply_error StatusUnauthorized ''Authentication failed''), demo_server)"
proof -
  let ?r = "demo_request ''POST'' ''/ca/init'' []"
  have path: "hr_Path ?r = mux_path ?r" by (simp add: demo_request_def mux_path_def cleanPath_def)
  have route: "find_route (routes toy_crypto (clusterEnabled demo_server)) (hr_Method ?r) (hr_Path ?r) = Some (admin, handleCAInit toy_crypto, [])"
    by (simp add: demo_request_def demo_server_def fresh_server_def clusterEnabled_def find_route_def routes_def
        match_pattern_def path_segs_def)
  have "bearer ?r = []"
    by (simp add: bearer_def demo_request_def h_Get_def CanonicalHeaderKey_def upper_char_def lower_char_def trim_prefix_def Let_def)
  then show ?thesis using guarded_route [OF path route] by simp
qed

end
