(* ===== verification/ServerInvariant.thy ===== *)
theory ServerInvariant
  imports ServerSafety
begin

text \<open>
  The server's invariant (\<open>srv_ok\<close>) and what follows from it: every handler keeps it and, but for three
  routes, answers every request; the audit log of a running server only grows and always verifies, and
  the table of pending handshakes stays within its limit.
\<close>

section \<open>A well-formed server\<close>

definition nonce_ok :: "disk_version \<Rightarrow> bool" where
  "nonce_ok v \<longleftrightarrow> (case b64std_dec (dv_Nonce v) of None \<Rightarrow> True | Some n \<Rightarrow> length n = 12)"

definition store_ready :: "store \<Rightarrow> bool" where
  "store_ready ks \<longleftrightarrow> st_gcm ks \<noteq> None \<and> list_all (\<lambda>kv. list_all nonce_ok (snd kv)) (df_Entries (st_data ks))"

definition srv_ok :: "crypto \<Rightarrow> logger \<Rightarrow> srv \<Rightarrow> bool" where
  "srv_ok cr l0 s \<longleftrightarrow>
     metrics_ok (sv_metrics s) \<and> logger_inv cr (sv_audit s) \<and> logger_ext l0 (sv_audit s) \<and>
     (case sv_ks s of None \<Rightarrow> True | Some ks \<Rightarrow> store_ready ks) \<and>
     list_all (\<lambda>kv. length (se_sessionKey (cx_sess (snd kv))) = 16) (sv_channelSessions s) \<and>
     length (sv_channelInitiators s) \<le> maxPendingChannels"

definition kem_sizes :: "crypto \<Rightarrow> bool" where
  "kem_sizes cr \<longleftrightarrow>
     (\<forall>l ek rnd. length rnd = 32 \<longrightarrow> length (fst (mlkem_encap cr l ek rnd)) = 32) \<and>
     (\<forall>l seed ct ss. mlkem_decap cr l seed ct = Some ss \<longrightarrow> length ss = 32)"

lemma list_all_get: "list_all p m \<Longrightarrow> gm_get m k = Some v \<Longrightarrow> p (k, v)"
  by (induction m) (auto split: if_splits)

lemma list_all_gm_filter: "list_all p m \<Longrightarrow> list_all p (gm_filter q m)"
  by (induction m) (auto simp: gm_filter_def)

lemma length_del_le: "length (gm_del k m) \<le> length m"
  by (induction m) auto

lemma length_gm_filter_le: "length (gm_filter q m) \<le> length m"
  by (simp add: gm_filter_def)

lemma srv_ok_upd [simp]:
  "srv_ok cr l0 (s\<lparr>sv_rand := e\<rparr>) = srv_ok cr l0 s" "srv_ok cr l0 (s\<lparr>sv_files := fs\<rparr>) = srv_ok cr l0 s"
  "srv_ok cr l0 (s\<lparr>sv_fipsReport := rep\<rparr>) = srv_ok cr l0 s" "srv_ok cr l0 (s\<lparr>sv_auth := a\<rparr>) = srv_ok cr l0 s"
  "srv_ok cr l0 (s\<lparr>sv_rl := rl\<rparr>) = srv_ok cr l0 s" "srv_ok cr l0 (s\<lparr>sv_srl := rl\<rparr>) = srv_ok cr l0 s"
  "srv_ok cr l0 (s\<lparr>sv_keypairs := kp\<rparr>) = srv_ok cr l0 s" "srv_ok cr l0 (s\<lparr>sv_decryptors := ds\<rparr>) = srv_ok cr l0 s"
  "srv_ok cr l0 (s\<lparr>sv_caStore := st\<rparr>) = srv_ok cr l0 s" "srv_ok cr l0 (s\<lparr>sv_caInstance := ca\<rparr>) = srv_ok cr l0 s"
  "srv_ok cr l0 (sv_caInstance_update f s) = srv_ok cr l0 s"
  "srv_ok cr l0 (s\<lparr>sv_caIntermediates := cas\<rparr>) = srv_ok cr l0 s" "srv_ok cr l0 (s\<lparr>sv_thresholdRounds := rs\<rparr>) = srv_ok cr l0 s"
  "srv_ok cr l0 (s\<lparr>sv_thresholdSigners := sg\<rparr>) = srv_ok cr l0 s"
  by (simp_all add: srv_ok_def)

lemma srv_ok_metrics: "srv_ok cr l0 s \<Longrightarrow> metrics_ok m \<Longrightarrow> srv_ok cr l0 (s\<lparr>sv_metrics := m\<rparr>)"
  by (simp add: srv_ok_def)

lemma srv_okD: "srv_ok cr l0 s \<Longrightarrow> metrics_ok (sv_metrics s)"
  by (simp add: srv_ok_def)

interpretation ok: public_inv cr c "srv_ok cr l0" for cr l0 c
proof
  fix s name m v x
  assume s: "srv_ok cr l0 s"
  show "srv_ok cr l0 (s\<lparr>sv_metrics := m\<rparr>)" if "name \<in> set crypto_ops" "counter_Inc name (sv_metrics s) = Some m"
    using counter_Inc_ok [OF srv_okD [OF s] that(1)] that(2) s by (auto intro: srv_ok_metrics)
  show c if "name \<in> set crypto_ops" "counter_Inc name (sv_metrics s) = None"
    using counter_Inc_ok [OF srv_okD [OF s] that(1)] that(2) by simp
  show "srv_ok cr l0 (s\<lparr>sv_metrics := m\<rparr>)" if "gauge_Set ''qs_audit_log_entries'' v (sv_metrics s) = Some m"
    using gauge_Set_ok [OF srv_okD [OF s], of "''qs_audit_log_entries''" v] that s by (auto intro: srv_ok_metrics)
  show c if "gauge_Set ''qs_audit_log_entries'' v (sv_metrics s) = None"
    using gauge_Set_ok [OF srv_okD [OF s], of "''qs_audit_log_entries''" v] that by simp
  show "srv_ok cr l0 (sv_audit_update (log_step cr x) s)" 
    using s log_step_ext [of cr "sv_audit s" x] by (auto simp: srv_ok_def log_step_inv intro: audit_log.ext_trans)
qed simp_all


section \<open>The keystore does not panic\<close>

lemma nonce_ok_new [simp]: "length n = 12 \<Longrightarrow> nonce_ok (v\<lparr>dv_Nonce := b64std n\<rparr>)"
  by (simp add: nonce_ok_def)

lemma nonce_ok_active [simp]: "nonce_ok (v\<lparr>dv_Active := b\<rparr>) = nonce_ok v"
  by (simp add: nonce_ok_def)

lemma nonces_deactivate: "list_all nonce_ok (deactivate vs) = list_all nonce_ok vs"
  by (simp add: deactivate_def list_all_iff)

lemma store_ready_versions: "store_ready ks \<Longrightarrow> versions ks k = Some vs \<Longrightarrow> list_all nonce_ok vs"
  by (auto simp: store_ready_def dest: list_all_get)

lemma store_ready_set: "store_ready ks \<Longrightarrow> list_all nonce_ok vs \<Longrightarrow> store_ready (set_versions k vs ks)"
  by (simp add: store_ready_def set_versions_def list_all_put)

lemma ks_decode_no_panic: "store_ready ks \<Longrightarrow> nonce_ok v \<Longrightarrow> ks_decode cr ks k v \<noteq> Panic"
  by (auto simp: ks_decode_def ks_decrypt_def store_ready_def nonce_ok_def split: option.splits result.splits)

lemma find_in_set: "find p xs = Some x \<Longrightarrow> x \<in> set xs"
  by (induction xs) (auto split: if_splits)

lemma ks_GetActive_no_panic:
  assumes "store_ready ks"
  shows "ks_GetActive cr now k ks \<noteq> Panic"
proof -
  have "nonce_ok v" if "versions ks k = Some vs" "find p (rev vs) = Some v" for vs p v
    using store_ready_versions [OF assms that(1)] find_in_set [OF that(2)] by (simp add: list_all_iff)
  then show ?thesis
    using ks_decode_no_panic [OF assms] by (auto simp: ks_GetActive_def split: option.splits)
qed

lemma ks_flush_no_panic: "fst (ks_flush d ks fs) \<noteq> Panic"
  by (auto simp: ks_flush_def split: option.splits prod.splits)

lemma ks_Put_ready:
  assumes "store_ready ks" "ks_Put cr d now k level ek dk ttl ks fs e = (res, ks', fs', e')"
  shows "res \<noteq> Panic \<and> store_ready ks'"
proof -
  have old: "list_all nonce_ok (case versions ks k of None \<Rightarrow> [] | Some vs \<Rightarrow> vs)"
    using store_ready_versions [OF assms(1)] by (auto split: option.splits)
  obtain key where key: "st_gcm ks = Some key" using assms(1) by (auto simp: store_ready_def)
  show ?thesis
    using assms old ks_flush_no_panic
    by (auto simp: ks_Put_def ks_encrypt_def key Let_def nonces_deactivate nonce_ok_def
        split: if_splits option.splits intro!: store_ready_set)
      (erule rand_read_length)+
qed

lemma ks_Rotate_ready:
  assumes "store_ready ks" "ks_Rotate cr d now k ks fs e = (res, ks', fs', e')"
  shows "res \<noteq> Panic \<and> store_ready ks'"
  using assms ks_Put_ready [OF assms(1)] crypto_no_panic(1)
  by (fastforce simp: ks_Rotate_def Let_def split: option.splits result.splits prod.splits)

lemma ks_Expire_ready:
  "store_ready ks \<Longrightarrow> ks_Expire d k ks fs = (res, ks', fs') \<Longrightarrow> res \<noteq> Panic \<and> store_ready ks'"
  using ks_flush_no_panic
  by (auto simp: ks_Expire_def Let_def nonces_deactivate split: option.splits
      intro!: store_ready_set dest: store_ready_versions)

lemma ks_Delete_ready:
  "store_ready ks \<Longrightarrow> ks_Delete d k ks fs = (res, ks', fs') \<Longrightarrow> res \<noteq> Panic \<and> store_ready ks'"
  using ks_flush_no_panic
  by (auto simp: ks_Delete_def Let_def store_ready_def list_all_del split: option.splits)

lemma hy_no_panic:
  assumes "kem_sizes cr"
  shows "32 \<le> length e \<Longrightarrow> hy_Encrypt cr level ek pt now e \<noteq> Panic"
    and "fst (hy_Decrypt cr dk enc now d) \<noteq> Panic"
proof -
  show "hy_Encrypt cr level ek pt now e \<noteq> Panic" if "32 \<le> length e"
  proof -
    have "length ss = 32" if "kem_Encapsulate cr (Some k) e = Ok (ss, ct, e1)" for k ss ct e1
      using that assms
      by (auto simp: kem_Encapsulate_def kem_sizes_def split: option.splits prod.splits dest!: rand_read_length)
        (metis fst_conv)
    moreover have "kem_Encapsulate cr (Some k) e \<noteq> Panic" for k
      using that by (simp add: kem_Encapsulate_def rand_read_def split: prod.splits)
    ultimately show ?thesis
      using crypto_no_panic(3)
      by (auto simp: hy_Encrypt_def keySize_def Let_def split: result.splits option.splits prod.splits)
  qed
  have "length ss = 32" if "kem_Decapsulate cr k ct = Ok ss" for k ct ss
    using that assms by (auto simp: kem_Decapsulate_def kem_sizes_def split: option.splits)
  then have "open_encrypted cr l dkb x \<noteq> Panic" for l dkb x
    using crypto_no_panic(2,4)
    by (auto simp: open_encrypted_def keySize_def Let_def split: result.splits option.splits)
  then show "fst (hy_Decrypt cr dk enc now d) \<noteq> Panic"
    by (auto simp: hy_Decrypt_def Let_def split: option.splits result.splits)
qed

lemma chan_Open_no_panic:
  assumes "length (se_sessionKey s) = 16"
  shows "fst (chan_Open cr s msg) \<noteq> Panic" "se_sessionKey (snd (chan_Open cr s msg)) = se_sessionKey s"
proof -
  have "same_nonce xs key \<noteq> None" if "length xs = length key" for xs key
    using that by (induction xs key rule: same_nonce.induct) auto
  then have "same_nonce (m_SessionID msg) (se_sessionKey s) \<noteq> None" if "length (m_SessionID msg) = 16"
    using assms that by simp
  then show "fst (chan_Open cr s msg) \<noteq> Panic"
    by (auto simp: chan_Open_def Let_def split: option.splits bool.splits)
  show "se_sessionKey (snd (chan_Open cr s msg)) = se_sessionKey s"
    by (auto simp: chan_Open_def Let_def split: option.splits bool.splits)
qed

lemma chan_Complete_key:
  assumes "hash_sizes cr" "chan_Complete cr i resp = Ok sess"
  shows "length (se_sessionKey sess) = 16"
proof -
  obtain ss remote where "deriveSession cr (in_sessionID i) ss remote False = Ok sess"
    using assms(2) by (auto simp: chan_Complete_def split: if_splits result.splits)
  then show ?thesis using deriveSession_Ok [OF assms(1), of "in_sessionID i" ss] by (metis result.inject(1) session.select_convs(2))
qed


section \<open>The guarded handlers\<close>

text \<open>What a request brings: the state machine behind Raft answers with a value or an error.\<close>

definition raft_answers :: "api_request \<Rightarrow> bool" where
  "raft_answers r \<longleftrightarrow> (\<forall>oper t. ar_apply r oper t \<noteq> Applied Panic)"

lemma srv_ok_ks: "srv_ok cr l0 s \<Longrightarrow> sv_ks s = Some ks \<Longrightarrow> store_ready ks"
  by (simp add: srv_ok_def)

lemma srv_ok_put_ks: "srv_ok cr l0 s \<Longrightarrow> store_ready ks \<Longrightarrow> srv_ok cr l0 (s\<lparr>sv_ks := Some ks\<rparr>)"
  by (simp add: srv_ok_def)

lemma keeps_keys_gauge: "(\<And>s. P s \<Longrightarrow> srv_ok cr l0 s) \<Longrightarrow> keeps c (srv_ok cr l0) P keys_gauge"
proof (rule keepsI)
  fix s
  assume P: "\<And>s. P s \<Longrightarrow> srv_ok cr l0 s" and "P s"
  then have s: "srv_ok cr l0 s" by simp
  obtain m where "gauge_Set ''qs_keystore_keys_total'' (f64_of_int (int (keyCount s))) (sv_metrics s) = Some m" "metrics_ok m"
    using gauge_Set_ok [OF srv_okD [OF s]] by blast
  then show "(c \<or> fst (keys_gauge s) \<noteq> Crash) \<and> srv_ok cr l0 (snd (keys_gauge s))"
    using s by (simp add: keys_gauge_def and_then_def asks_def set_gauge_def srv_ok_metrics)
qed

lemma keeps_requireLeader: "(\<And>s. P s \<Longrightarrow> srv_ok cr l0 s) \<Longrightarrow> keeps c (srv_ok cr l0) P (requireLeader r)"
  by (simp add: keeps_def requireLeader_def refuse_def)

lemma keeps_clusterApply:
  assumes "c \<or> raft_answers r" "\<And>s. P s \<Longrightarrow> srv_ok cr l0 s" "\<And>x. c \<or> x \<noteq> Panic \<Longrightarrow> keeps c (srv_ok cr l0) (srv_ok cr l0) (k x)"
  shows "keeps c (srv_ok cr l0) P (and_then (clusterApply r oper payload) k)"
proof (rule keepsI)
  fix s
  assume s: "P s"
  have "c \<or> ApplyJSON (ar_raft r) (ar_apply r) n oper payload \<noteq> Panic" for n
    using assms(1)
    by (auto simp: ApplyJSON_def node_Apply_def raft_answers_def split: option.splits apply_outcome.splits result.splits)
  then obtain x where x: "clusterApply r oper payload s = (Next x, s)" "c \<or> x \<noteq> Panic"
    by (cases "sv_clusterNode s") (auto simp: clusterApply_def)
  then show "(c \<or> fst (and_then (clusterApply r oper payload) k s) \<noteq> Crash) \<and> srv_ok cr l0 (snd (and_then (clusterApply r oper payload) k s))"
    using keepsD [OF assms(3), of x s] assms(2) [OF s] by (simp add: and_then_def)
qed

lemma keeps_storeKey:
  assumes "\<And>s. P s \<Longrightarrow> srv_ok cr l0 s" "\<And>x. x \<noteq> Panic \<Longrightarrow> keeps c (srv_ok cr l0) (srv_ok cr l0) (k x)"
  shows "keeps c (srv_ok cr l0) P (and_then (storeKey cr r keyID level ek dk) k)"
proof (rule keepsI)
  fix s
  assume s: "P s"
  obtain x s' where x: "storeKey cr r keyID level ek dk s = (Next x, s')" "x \<noteq> Panic" "srv_ok cr l0 s'"
  proof (cases "sv_ks s")
    case None
    then show ?thesis using that assms(1) [OF s] by (simp add: storeKey_def)
  next
    case (Some ks)
    obtain res ks' fs' e' where put: "ks_Put cr (ar_disk r) (hr_Now r) keyID level ek dk 0 ks (sv_files s) (sv_rand s) = (res, ks', fs', e')"
      using prod_cases4 by blast
    have "res \<noteq> Panic" "srv_ok cr l0 (s\<lparr>sv_ks := Some ks'\<rparr>)"
      using ks_Put_ready [OF srv_ok_ks [OF assms(1) [OF s] Some] put] srv_ok_put_ks [OF assms(1) [OF s]] by simp_all
    then show ?thesis using that put Some
      by (simp add: storeKey_def on_ks_def put_ks_def and_then_def change_def give_def)
  qed
  then show "(c \<or> fst (and_then (storeKey cr r keyID level ek dk) k s) \<noteq> Crash) \<and> srv_ok cr l0 (snd (and_then (storeKey cr r keyID level ek dk) k s))"
    using keepsD [OF assms(2), of x s'] by (simp add: and_then_def)
qed

text \<open>\<open>R\<close> may say more than the invariant, about the part of the state that looking up a key does not change.\<close>

lemma keeps_lookupKey:
  assumes "\<And>s. P s \<Longrightarrow> srv_ok cr l0 s" "\<And>x. keeps c (srv_ok cr l0) P (k x)"
  shows "keeps c (srv_ok cr l0) P (and_then (lookupKey cr r keyID) k)"
proof (rule keepsI)
  fix s
  assume s: "P s"
  have "find_key cr (hr_Now r) keyID s \<noteq> Panic"
    using ks_GetActive_no_panic [OF srv_ok_ks [OF assms(1) [OF s]]]
    by (auto simp: find_key_def split: option.splits result.splits)
  then obtain x where "lookupKey cr r keyID s = (Next x, s)"
    by (cases "find_key cr (hr_Now r) keyID s") (auto simp: lookupKey_def and_then_def asks_def attempt_def give_def)
  then show "(c \<or> fst (and_then (lookupKey cr r keyID) k s) \<noteq> Crash) \<and> srv_ok cr l0 (snd (and_then (lookupKey cr r keyID) k s))"
    using keepsD [OF assms(2) s, of x] by (simp add: and_then_def)
qed

lemma keeps_keystoreRequired:
  assumes "\<And>s. P s \<Longrightarrow> srv_ok cr l0 s" "\<And>x. keeps c (srv_ok cr l0) (\<lambda>s. P s \<and> sv_ks s = Some x) (k x)"
  shows "keeps c (srv_ok cr l0) P (and_then keystoreRequired k)"
proof (rule keepsI)
  fix s
  assume s: "P s"
  show "(c \<or> fst (and_then keystoreRequired k s) \<noteq> Crash) \<and> srv_ok cr l0 (snd (and_then keystoreRequired k s))"
    using keepsD [OF assms(2), of s] s assms(1) [OF s]
    by (cases "sv_ks s") (simp_all add: keystoreRequired_def and_then_def asks_def answer_def give_def)
qed

text \<open>A call on the keystore with an outcome that keeps it ready.\<close>

lemma keeps_on_ks:
  assumes "\<And>s. P s \<Longrightarrow> srv_ok cr l0 s"
    and "\<And>res ks fs e. out = (res, ks, fs, e) \<Longrightarrow> \<exists>s. P s \<Longrightarrow> res \<noteq> Panic \<and> store_ready ks"
    and "\<And>x. x \<noteq> Panic \<Longrightarrow> keeps c (srv_ok cr l0) (srv_ok cr l0) (k x)"
  shows "keeps c (srv_ok cr l0) P (and_then (on_ks out) k)"
proof (rule keepsI)
  fix s
  assume s: "P s"
  obtain res ks fs e where out: "out = (res, ks, fs, e)" using prod_cases4 by blast
  then have "res \<noteq> Panic" "srv_ok cr l0 (s\<lparr>sv_ks := Some ks\<rparr>)"
    using assms(2) s srv_ok_put_ks [OF assms(1) [OF s]] by blast+
  then show "(c \<or> fst (and_then (on_ks out) k s) \<noteq> Crash) \<and> srv_ok cr l0 (snd (and_then (on_ks out) k s))"
    using keepsD [OF assms(3), of res] out by (simp add: on_ks_def put_ks_def and_then_def change_def give_def)
qed


lemmas ok_steps = ok.steps keeps_keys_gauge keeps_requireLeader

lemma keeps_first_part: "keeps c (srv_ok cr l0) (srv_ok cr l0) m \<Longrightarrow> keeps c (srv_ok cr l0) (\<lambda>s. srv_ok cr l0 s \<and> Q s) m"
  by (simp add: keeps_def)

subsection \<open>Keys, encryption, signatures\<close>

lemma ok_simple_handlers:
  "keeps c (srv_ok cr l0) (srv_ok cr l0) (handleListKeys r)"
  "keeps c (srv_ok cr l0) (srv_ok cr l0) (handleAuditEntries r)"
  "keeps c (srv_ok cr l0) (srv_ok cr l0) (handleAuditVerify cr r)"
  "keeps c (srv_ok cr l0) (srv_ok cr l0) (handleKDFSalt r)"
  unfolding handleListKeys_def handleAuditEntries_def handleAuditVerify_def handleKDFSalt_def Let_def
  by ((intro keeps_intro ok_steps; simp add: no_panic)+)

lemma ok_handleRevokeToken: "keeps c (srv_ok cr l0) (srv_ok cr l0) (handleRevokeToken cr r)"
  unfolding handleRevokeToken_def
  by (intro keeps_intro ok_steps srv_keeps_change) (auto split: prod.splits)

lemma ok_kdf:
  "keeps c (srv_ok cr l0) (srv_ok cr l0) (handleKDFHKDF cr r)" "keeps c (srv_ok cr l0) (srv_ok cr l0) (handleKDFArgon2 cr r)"
  unfolding handleKDFHKDF_def handleKDFArgon2_def by ((intro keeps_intro ok_steps; simp add: no_panic)+)

lemma ok_handleGetPublicKey: "keeps c (srv_ok cr l0) (srv_ok cr l0) (handleGetPublicKey cr r)"
  unfolding handleGetPublicKey_def Let_def by (intro keeps_intro keeps_lookupKey) auto

lemma ok_handleSign: "keeps c (srv_ok cr l0) (srv_ok cr l0) (handleSign cr r)"
  unfolding handleSign_def Let_def by (intro keeps_intro ok_steps keeps_then) (auto simp: no_panic)

lemma ok_handleSLHDSASign: "keeps c (srv_ok cr l0) (srv_ok cr l0) (handleSLHDSASign cr r)"
  unfolding handleSLHDSASign_def by (intro keeps_intro ok_steps keeps_then) (auto simp: no_panic)

lemma ok_handleVaultSplit: "keeps c (srv_ok cr l0) (srv_ok cr l0) (handleVaultSplit cr r)"
  unfolding handleVaultSplit_def by (intro keeps_intro ok_steps) (auto simp: no_panic)

lemma ok_handleVaultReconstruct: "c \<Longrightarrow> keeps c (srv_ok cr l0) (srv_ok cr l0) (handleVaultReconstruct cr r)"
  unfolding handleVaultReconstruct_def by (intro keeps_intro ok_steps) auto

lemma keeps_run_decrypter:
  assumes "c \<or> kem_sizes cr" "\<And>s. P s \<Longrightarrow> srv_ok cr l0 s" "\<And>x. c \<or> x \<noteq> Panic \<Longrightarrow> keeps c (srv_ok cr l0) (srv_ok cr l0) (k x)"
  shows "keeps c (srv_ok cr l0) P (and_then (run_decrypter cr r key enc) k)"
proof (rule keepsI)
  fix s
  assume s: "P s"
  obtain x s' where "run_decrypter cr r key enc s = (Next x, s')" "c \<or> x \<noteq> Panic" "srv_ok cr l0 s'"
  proof (cases "gm_get (sv_decryptors s) (mk_level key)")
    case None
    then show ?thesis using that hy_no_panic(2) assms(1) assms(2) [OF s] by (auto simp: run_decrypter_def)
  next
    case (Some d)
    obtain res d' where d': "hy_Decrypt cr (mk_DK key) (Some enc) (hr_Now r) d = (res, d')" by fastforce
    then have "c \<or> res \<noteq> Panic" using assms(1) hy_no_panic(2) [of cr "mk_DK key" "Some enc" "hr_Now r" d] by auto
    then show ?thesis using that Some d' assms(2) [OF s] by (simp add: run_decrypter_def)
  qed
  then show "(c \<or> fst (and_then (run_decrypter cr r key enc) k s) \<noteq> Crash) \<and> srv_ok cr l0 (snd (and_then (run_decrypter cr r key enc) k s))"
    using keepsD [OF assms(3), of x s'] by (simp add: and_then_def)
qed

lemma ok_handleDecrypt: "c \<or> kem_sizes cr \<Longrightarrow> keeps c (srv_ok cr l0) (srv_ok cr l0) (handleDecrypt cr r)"
  unfolding handleDecrypt_def by (intro keeps_intro keeps_lookupKey keeps_run_decrypter ok_steps) auto

lemma keeps_encrypt_key:
  assumes "\<And>s. P s \<Longrightarrow> srv_ok cr l0 s" "\<And>x. keeps c (srv_ok cr l0) P (k x)"
  shows "keeps c (srv_ok cr l0) P (and_then (encrypt_key cr r req) k)"
proof (rule keepsI)
  fix s
  assume s: "P s"
  have "find_key cr (hr_Now r) (eq_KeyID req) s \<noteq> Panic"
    using ks_GetActive_no_panic [OF srv_ok_ks [OF assms(1) [OF s]]]
    by (auto simp: find_key_def split: option.splits result.splits)
  then have "\<exists>x. encrypt_key cr r req s = (x, s) \<and> x \<noteq> Crash"
    by (auto simp: encrypt_key_def lookupKey_def and_then_def asks_def attempt_def give_def refuse_def
        split: option.splits result.splits)
  then obtain x where x: "encrypt_key cr r req s = (x, s)" "x \<noteq> Crash" by blast
  then show "(c \<or> fst (and_then (encrypt_key cr r req) k s) \<noteq> Crash) \<and> srv_ok cr l0 (snd (and_then (encrypt_key cr r req) k s))"
    using keepsD [OF assms(2) s] assms(1) [OF s] by (cases x) (simp_all add: and_then_def)
qed

lemma ok_handleEncrypt:
  assumes "c \<or> kem_sizes cr"
  shows "keeps c (srv_ok cr l0) (\<lambda>s. srv_ok cr l0 s \<and> (c \<or> 32 \<le> length (sv_rand s))) (handleEncrypt cr r)"
  unfolding handleEncrypt_def
  by (intro keeps_intro keeps_encrypt_key ok_steps) (use assms in \<open>auto simp: hy_no_panic(1)\<close>)

lemma keeps_randomID:
  assumes "\<And>s. P s \<Longrightarrow> srv_ok cr l0 s" "c \<or> 9 \<le> length e" "\<And>x. keeps c (srv_ok cr l0) (srv_ok cr l0) (k x)"
  shows "keeps c (srv_ok cr l0) P (and_then (put_rand e) (\<lambda>_. and_then randomID k))"
proof (rule keepsI)
  fix s
  assume s: "P s"
  show "(c \<or> fst (and_then (put_rand e) (\<lambda>_. and_then randomID k) s) \<noteq> Crash) \<and>
      srv_ok cr l0 (snd (and_then (put_rand e) (\<lambda>_. and_then randomID k) s))"
    using assms(1) [OF s] assms(2) keepsD [OF assms(3)]
    by (auto simp: and_then_def put_rand_def change_def randomID_def rand_read_def)
qed

lemma keeps_split_and_drop: "(\<And>s. P s \<Longrightarrow> srv_ok cr l0 s) \<Longrightarrow> keeps c (srv_ok cr l0) P (split_and_drop cr dk)"
  using no_panic by (auto simp: keeps_def split_and_drop_def split: result.splits prod.splits)

lemma ok_handleGenerateKey:
  assumes "c \<or> raft_answers r"
  shows "keeps c (srv_ok cr l0) (\<lambda>s. srv_ok cr l0 s \<and> (c \<or> 73 \<le> length (sv_rand s))) (handleGenerateKey cr r)"
proof -
  have rest: "9 \<le> length e'" if "kem_GenerateKey l e = Ok (dk, e')" "73 \<le> length e" for l e dk e'
    using that by (auto simp: kem_GenerateKey_def rand_read_def split: if_splits)
  show ?thesis
    unfolding handleGenerateKey_def Let_def
    by (intro keeps_intro keeps_randomID keeps_clusterApply [OF assms] keeps_storeKey ok_steps keeps_then keeps_split_and_drop)
      (auto simp: no_panic intro: rest)
qed


subsection \<open>The keystore\<close>

lemma ok_keystore_read:
  "keeps c (srv_ok cr l0) (srv_ok cr l0) (handleKeystoreList r)" "keeps c (srv_ok cr l0) (srv_ok cr l0) (handleKeystoreGet cr r)"
  unfolding handleKeystoreList_def handleKeystoreGet_def Let_def
  by (intro keeps_keystoreRequired keeps_intro;
      auto dest: ks_GetActive_no_panic [OF srv_ok_ks])+

lemma ok_handleKeystoreGenerate: "keeps c (srv_ok cr l0) (srv_ok cr l0) (handleKeystoreGenerate cr r)"
  unfolding handleKeystoreGenerate_def Let_def
  by (intro keeps_keystoreRequired keeps_intro keeps_then keeps_storeKey ok_steps) (auto simp: no_panic)

lemma with_rand_ready:
  "store_ready ks \<Longrightarrow> with_rand (ks_Expire d k ks fs) e = (res, ks', fs', e') \<Longrightarrow> res \<noteq> Panic \<and> store_ready ks'"
  "store_ready ks \<Longrightarrow> with_rand (ks_Delete d k ks fs) e = (res, ks', fs', e') \<Longrightarrow> res \<noteq> Panic \<and> store_ready ks'"
  by (auto simp: with_rand_def split: prod.splits dest: ks_Expire_ready ks_Delete_ready)

lemma ok_keystore_change:
  "keeps c (srv_ok cr l0) (srv_ok cr l0) (handleKeystoreRotate cr r)"
  "keeps c (srv_ok cr l0) (srv_ok cr l0) (handleKeystoreExpire cr r)"
  "keeps c (srv_ok cr l0) (srv_ok cr l0) (handleKeystoreDelete cr r)"
  unfolding handleKeystoreRotate_def handleKeystoreExpire_def handleKeystoreDelete_def Let_def
  by (intro keeps_keystoreRequired keeps_asks keeps_on_ks keeps_intro ok_steps;
      auto dest!: srv_ok_ks dest: ks_Rotate_ready with_rand_ready)+

subsection \<open>Export and import\<close>

lemma keeps_export_random: "(\<And>s. P s \<Longrightarrow> srv_ok cr l0 s) \<Longrightarrow> keeps c (srv_ok cr l0) P export_random"
  by (auto simp: keeps_def export_random_def refuse_def split: option.splits)

lemma ok_handleKeyExport: "keeps c (srv_ok cr l0) (srv_ok cr l0) (handleKeyExport cr r)"
  unfolding handleKeyExport_def Let_def
  by (intro keeps_intro keeps_lookupKey keeps_then keeps_export_random ok_steps) (auto simp: no_panic)

lemma ok_import_key: "keeps c (srv_ok cr l0) (srv_ok cr l0) (import_key cr r req dk)"
  unfolding import_key_def Let_def
  by (intro keeps_intro keeps_storeKey ok_steps keeps_then) (auto simp: no_panic)

lemma ok_handleKeyImport: "c \<Longrightarrow> keeps c (srv_ok cr l0) (srv_ok cr l0) (handleKeyImport cr r)"
  unfolding handleKeyImport_def
  by (intro keeps_intro ok_steps keeps_then ok_import_key) (auto simp: no_panic)

subsection \<open>The certificate authority\<close>

lemma keeps_caStoreSave: "keeps c (srv_ok cr l0) (srv_ok cr l0) (caStoreSave cr r)"
proof (rule keepsI)
  fix s
  assume s: "srv_ok cr l0 s"
  show "(c \<or> fst (caStoreSave cr r s) \<noteq> Crash) \<and> srv_ok cr l0 (snd (caStoreSave cr r s))"
  proof (cases "sv_caStore s")
    case None
    then show ?thesis using s by (simp add: caStoreSave_def)
  next
    case (Some st0)
    obtain st res fs where *: "cs_Save cr (ar_disk r) (sv_caStorePath s) (sv_caStorePassword s) st (sv_files s) (sv_rand s) = (res, fs)"
      "caStoreSave cr r s = attempt res (\<lambda>_. give ())
          (\<lambda>_. audit_as cr ''system'' r ''ca_store_save_failed'' ''error'' (ar_err r))
          (s\<lparr>sv_caStore := Some st, sv_files := fs, sv_rand := drop (saltLen + nonceLen) (sv_rand s)\<rparr>)"
      using Some by (fastforce simp: caStoreSave_def Let_def split: prod.splits)
    have "res \<noteq> Panic" using cs_Save_no_panic *(1) by (metis fst_conv)
    then have "keeps c (srv_ok cr l0) (srv_ok cr l0) (attempt res (\<lambda>_. give ())
          (\<lambda>_. audit_as cr ''system'' r ''ca_store_save_failed'' ''error'' (ar_err r)))"
      by (intro keeps_intro ok_steps) auto
    then show ?thesis using keepsD s unfolding *(2) by fastforce
  qed
qed

lemma keeps_replicate_ca:
  "c \<or> raft_answers r \<Longrightarrow> (\<And>s. P s \<Longrightarrow> srv_ok cr l0 s) \<Longrightarrow> keeps c (srv_ok cr l0) P (replicate_ca r a)"
  unfolding replicate_ca_def replication_failed_def
  by (intro keeps_intro keeps_clusterApply) auto

lemma ok_handleCAInit: "c \<or> raft_answers r \<Longrightarrow> keeps c (srv_ok cr l0) (srv_ok cr l0) (handleCAInit cr r)"
  unfolding handleCAInit_def
  by (intro keeps_intro keeps_then srv_keeps_change keeps_caStoreSave keeps_replicate_ca ok_steps) (auto simp: no_panic)

lemma keeps_issue_leaf: "(\<And>s. P s \<Longrightarrow> srv_ok cr l0 s) \<Longrightarrow> keeps c (srv_ok cr l0) P (issue_leaf cr r action a req pk)"
  unfolding issue_leaf_def by (intro keeps_intro ok_steps) (auto simp: no_panic)

lemma ok_ca_sign:
  "keeps c (srv_ok cr l0) (srv_ok cr l0) (handleCASign cr r)"
  "keeps c (srv_ok cr l0) (srv_ok cr l0) (handleCAIntermediateSign cr r)"
  unfolding handleCASign_def handleCAIntermediateSign_def check_sign_request_def decode_pk_def ca_init_first_def
  by (intro keeps_intro keeps_issue_leaf; auto)+

text \<open>The calls that return a state beside their outcome.\<close>

lemma pair_no_panic:
  "ca_Revoke now serial ca = (res, ca') \<Longrightarrow> res \<noteq> Panic"
  "th_Submit cr co p = (out, co') \<Longrightarrow> out \<noteq> Panic"
  using ca_no_panic(6) [of now serial ca] threshold_no_panic(5) [of cr co p] by auto

lemma ok_handleCARevoke: "c \<or> raft_answers r \<Longrightarrow> keeps c (srv_ok cr l0) (srv_ok cr l0) (handleCARevoke cr r)"
  unfolding handleCARevoke_def replication_failed_def
  by (intro keeps_intro keeps_clusterApply keeps_then srv_keeps_change keeps_caStoreSave ok_steps)
    (auto dest: pair_no_panic)

lemma ok_handleCAIntermediate: "keeps c (srv_ok cr l0) (srv_ok cr l0) (handleCAIntermediate cr r)"
  unfolding handleCAIntermediate_def ca_init_first_def
  by (intro keeps_intro srv_keeps_change keeps_caStoreSave ok_steps) (auto simp: no_panic)

subsection \<open>Sessions\<close>

lemma keeps_put_initiator:
  "(\<And>s. P s \<Longrightarrow> srv_ok cr l0 s \<and> length (sv_channelInitiators s) < maxPendingChannels) \<Longrightarrow>
     keeps c (srv_ok cr l0) P (put_initiator k x)"
proof (rule keepsI)
  fix s
  assume P: "\<And>s. P s \<Longrightarrow> srv_ok cr l0 s \<and> length (sv_channelInitiators s) < maxPendingChannels" and "P s"
  then have s: "srv_ok cr l0 s" "length (sv_channelInitiators s) < maxPendingChannels" by simp_all
  then have "length (gm_put k x (sv_channelInitiators s)) \<le> maxPendingChannels"
    using length_put_le [of k x "sv_channelInitiators s"] by simp
  then show "(c \<or> fst (put_initiator k x s) \<noteq> Crash) \<and> srv_ok cr l0 (snd (put_initiator k x s))"
    using s by (simp add: put_initiator_def change_def srv_ok_def)
qed

lemma keeps_put_session:
  "length (se_sessionKey (cx_sess x)) = 16 \<Longrightarrow> (\<And>s. P s \<Longrightarrow> srv_ok cr l0 s) \<Longrightarrow> keeps c (srv_ok cr l0) P (put_session k x)"
  by (simp add: keeps_def put_session_def change_def srv_ok_def list_all_put)

lemma keeps_begin_handshake:
  assumes "\<And>s. P s \<Longrightarrow> srv_ok cr l0 s" "\<And>x i. x \<noteq> Panic \<Longrightarrow> keeps c (srv_ok cr l0) (srv_ok cr l0) (k (x, i))"
  shows "keeps c (srv_ok cr l0) P (and_then (begin_handshake cr i0) k)"
proof (rule keepsI)
  fix s
  assume s: "P s"
  obtain x i e where "chan_Begin cr i0 (sv_rand s) = (x, i, e)" using prod_cases3 by blast
  moreover from this have "x \<noteq> Panic" using channel_no_panic(2) by (metis fst_conv)
  ultimately show "(c \<or> fst (and_then (begin_handshake cr i0) k s) \<noteq> Crash) \<and> srv_ok cr l0 (snd (and_then (begin_handshake cr i0) k s))"
    using keepsD [OF assms(2), of x "s\<lparr>sv_rand := e\<rparr>" i] assms(1) [OF s] by (simp add: and_then_def begin_handshake_def)
qed

lemma ok_handleChannelInit: "keeps c (srv_ok cr l0) (srv_ok cr l0) (handleChannelInit cr r)"
  unfolding handleChannelInit_def
  by (intro keeps_intro keeps_begin_handshake keeps_then keeps_put_initiator ok_steps) (auto simp: no_panic)

lemma keeps_claim_initiator: "(\<And>s. P s \<Longrightarrow> srv_ok cr l0 s) \<Longrightarrow> keeps c (srv_ok cr l0) P (claim_initiator k)"
proof (rule keepsI)
  fix s
  assume P: "\<And>s. P s \<Longrightarrow> srv_ok cr l0 s" and "P s"
  then have s: "srv_ok cr l0 s" by simp
  then have "length (gm_del k (sv_channelInitiators s)) \<le> maxPendingChannels"
    using length_del_le [of k "sv_channelInitiators s"] by (simp add: srv_ok_def)
  then show "(c \<or> fst (claim_initiator k s) \<noteq> Crash) \<and> srv_ok cr l0 (snd (claim_initiator k s))"
    using s by (cases "gm_get (sv_channelInitiators s) k") (simp_all add: claim_initiator_def refuse_def srv_ok_def)
qed

lemma ok_handleChannelComplete:
  assumes "hash_sizes cr"
  shows "keeps c (srv_ok cr l0) (srv_ok cr l0) (handleChannelComplete cr r)"
  unfolding handleChannelComplete_def
  by (intro keeps_intro keeps_then keeps_claim_initiator keeps_put_session ok_steps)
    (auto simp: no_panic chan_Complete_key [OF assms])

lemma keeps_find_session:
  assumes "\<And>s. P s \<Longrightarrow> srv_ok cr l0 s"
    and "\<And>x. length (se_sessionKey (cx_sess x)) = 16 \<Longrightarrow> keeps c (srv_ok cr l0) P (k x)"
  shows "keeps c (srv_ok cr l0) P (and_then (find_session sid) k)"
proof (rule keepsI)
  fix s
  assume s: "P s"
  show "(c \<or> fst (and_then (find_session sid) k s) \<noteq> Crash) \<and> srv_ok cr l0 (snd (and_then (find_session sid) k s))"
  proof (cases "gm_get (sv_channelSessions s) sid")
    case None
    then show ?thesis using assms(1) [OF s] by (simp add: find_session_def and_then_def refuse_def)
  next
    case (Some x)
    then have "length (se_sessionKey (cx_sess x)) = 16" using assms(1) [OF s] by (auto simp: srv_ok_def dest: list_all_get)
    from keepsD [OF assms(2) [OF this] s] Some show ?thesis by (simp add: find_session_def and_then_def)
  qed
qed

lemma ok_channel_messages:
  "keeps c (srv_ok cr l0) (srv_ok cr l0) (handleChannelSeal cr r)" "keeps c (srv_ok cr l0) (srv_ok cr l0) (handleChannelOpen cr r)"
proof -
  have "se_sessionKey s' = se_sessionKey s" if "chan_Seal cr s p = (m, s')" for s p m s'
    using that by (auto simp: chan_Seal_def Let_def)
  then show "keeps c (srv_ok cr l0) (srv_ok cr l0) (handleChannelSeal cr r)"
    unfolding handleChannelSeal_def
    by (intro keeps_intro keeps_find_session keeps_put_session ok_steps) auto
  show "keeps c (srv_ok cr l0) (srv_ok cr l0) (handleChannelOpen cr r)"
    unfolding handleChannelOpen_def
    by (intro keeps_intro keeps_find_session keeps_then keeps_put_session ok_steps)
      (auto, (metis chan_Open_no_panic fst_conv snd_conv)+)
qed

lemma keeps_get_signer: "(\<And>s. P s \<Longrightarrow> srv_ok cr l0 s) \<Longrightarrow> keeps c (srv_ok cr l0) P (get_signer cr r k)"
  unfolding get_signer_def put_signer_def
  by (intro keeps_intro keeps_then srv_keeps_change ok_steps) (auto simp: no_panic)

lemma ok_threshold:
  "keeps c (srv_ok cr l0) (srv_ok cr l0) (handleThresholdRound cr r)"
  "keeps c (srv_ok cr l0) (srv_ok cr l0) (handleThresholdSign cr r)"
  unfolding handleThresholdRound_def handleThresholdSign_def put_round_def
  by (intro keeps_intro keeps_then keeps_get_signer srv_keeps_change ok_steps; auto simp: no_panic)+

lemma ok_handleThresholdSubmit: "keeps c (srv_ok cr l0) (srv_ok cr l0) (handleThresholdSubmit cr r)"
  unfolding handleThresholdSubmit_def put_round_def
  by (intro keeps_intro keeps_then srv_keeps_change ok_steps)
    (auto split: bool.splits intro!: keeps_intro ok_steps srv_keeps_change dest: pair_no_panic)


section \<open>The whole server\<close>

definition may_panic :: "string set" where
  "may_panic = {''/vault/reconstruct'', ''/keys/import'', ''/threshold/verify''}"

lemmas ok_plain =
  ok.keeps_public ok.keeps_handleThresholdVerify
  ok_simple_handlers ok_handleRevokeToken ok_kdf
  ok_handleGetPublicKey ok_handleSign
  ok_handleSLHDSASign ok_handleVaultSplit
  ok_handleVaultReconstruct ok_handleDecrypt
  ok_keystore_read ok_handleKeystoreGenerate
  ok_keystore_change ok_handleKeyExport
  ok_handleKeyImport ok_handleCAInit ok_ca_sign
  ok_handleCARevoke ok_handleCAIntermediate
  ok_handleChannelInit ok_handleChannelComplete
  ok_channel_messages ok_threshold
  ok_handleThresholdSubmit

lemmas ok_handlers = ok_plain [THEN keeps_first_part]

lemma routes_keep:
  assumes "(v, pat, acc, h) \<in> set (routes cr en)" and h: "hash_sizes cr"
    and "c \<or> kem_sizes cr \<and> raft_answers r \<and> pat \<notin> may_panic"
  shows "keeps c (srv_ok cr l0) (\<lambda>s. srv_ok cr l0 s \<and> (c \<or> 73 \<le> length (sv_rand s))) (h r)"
proof -
  have c: "c \<or> kem_sizes cr" "c \<or> raft_answers r" using assms(3) by auto
  have enc: "keeps c (srv_ok cr l0) (\<lambda>s. srv_ok cr l0 s \<and> (c \<or> 73 \<le> length (sv_rand s))) (handleEncrypt cr r)"
    by (rule keeps_pre [OF ok_handleEncrypt [OF c(1)]]) auto
  have gen: "keeps c (srv_ok cr l0) (\<lambda>s. srv_ok cr l0 s \<and> (c \<or> 73 \<le> length (sv_rand s))) (handleGenerateKey cr r)"
    by (rule ok_handleGenerateKey [OF c(2)])
  have "list_all (\<lambda>(v, pat, acc, h). (c \<or> pat \<notin> may_panic) \<longrightarrow>
      keeps c (srv_ok cr l0) (\<lambda>s. srv_ok cr l0 s \<and> (c \<or> 73 \<le> length (sv_rand s))) (h r)) (routes cr en)"
  proof (cases c)
    case True
    with enc gen show ?thesis by (simp add: routes_def cluster_routes_def ok_plain h)
  next
    case False
    with c enc gen show ?thesis by (simp add: routes_def cluster_routes_def may_panic_def ok_handlers h)
  qed
  then show ?thesis using assms(1,3) by (fastforce simp: list_all_iff)
qed

text \<open>Authentication, the multiplexer and the middlewares.\<close>

lemma guarded_keep:
  assumes "\<And>r'. ar_apply r' = ar_apply r \<Longrightarrow> keeps c I P (h r')"
    and "\<And>s rl. P s \<Longrightarrow> P (s\<lparr>sv_srl := rl\<rparr>)" "\<And>s. P s \<Longrightarrow> I s" "\<And>s rl. I s \<Longrightarrow> I (s\<lparr>sv_srl := rl\<rparr>)"
  shows "keeps c I P (guarded cr acc h r)"
proof (cases "acc = Public")
  case True
  then show ?thesis using assms(1) by simp
next
  case False
  show ?thesis
  proof (rule keepsI)
    fix s
    assume s: "P s"
    have "(c \<or> fst (h (as_subject tok r) (s\<lparr>sv_srl := rl\<rparr>)) \<noteq> Crash) \<and> I (snd (h (as_subject tok r) (s\<lparr>sv_srl := rl\<rparr>)))" for tok rl
      using assms(2) [OF s] by (intro keepsD [OF assms(1)]) (simp_all add: as_subject_def)
    then show "(c \<or> fst (guarded cr acc h r s) \<noteq> Crash) \<and> I (snd (guarded cr acc h r s))"
      unfolding guarded_exact [OF False] using assms(3,4) s
      by (auto split: result.splits prod.splits)
  qed
qed

lemma match_literal:
  assumes "match_segs ps xs \<noteq> None" "list_all (\<lambda>p. take 1 p \<noteq> ''{'') ps"
  shows "xs = ps"
  using assms by (induction ps xs rule: match_segs.induct) (auto split: if_splits)

lemma may_panic_pattern:
  assumes "pat \<in> may_panic" "match_pattern pat path \<noteq> None" "take 1 path = ''/''"
  shows "path \<in> may_panic"
proof -
  have "path_segs path = path_segs pat"
    using assms(1,2) unfolding may_panic_def match_pattern_def
    by (intro match_literal) (auto simp: path_segs_def)
  then have "tl path = tl pat" unfolding path_segs_def by (metis join_split)
  moreover have "hd pat = CHR ''/''" "pat \<noteq> []" using assms(1) by (auto simp: may_panic_def)
  moreover have "path \<noteq> []" "hd path = CHR ''/''" using assms(3) by (cases path; simp)+
  ultimately have "path = pat" by (metis list.collapse)
  with assms(1) show ?thesis by simp
qed

lemma find_route_pattern:
  assumes "find_route (routes cr en) verb path = Some (acc, h, pv)"
  shows "\<exists>v pat. (v, pat, acc, h) \<in> set (routes cr en) \<and> match_pattern pat path \<noteq> None"
proof -
  have "find_in rs verb path = Some (acc, h, pv) \<Longrightarrow> \<exists>v pat. (v, pat, acc, h) \<in> set rs \<and> match_pattern pat path \<noteq> None"
    for rs verb
    by (induction rs verb path rule: find_in.induct) (auto split: if_splits option.splits)
  then show ?thesis using assms by (auto simp: find_route_def split: option.splits if_splits)
qed

lemma find_in_CONNECT: "find_in (routes cr en) ''CONNECT'' path = None"
  by (simp add: routes_def cluster_routes_def)

lemma mux_path_slash:
  "find_route (routes cr en) (hr_Method r) (mux_path r) = Some x \<Longrightarrow> take 1 (mux_path r) = ''/''"
  by (auto simp: mux_path_def find_route_def find_in_CONNECT cleanPath_def Let_def split: if_splits)

lemma mux_keep:
  assumes "hash_sizes cr" "c \<or> kem_sizes cr \<and> raft_answers r \<and> hr_Path r \<notin> may_panic"
  shows "keeps c (srv_ok cr l0) (\<lambda>s. srv_ok cr l0 s \<and> (c \<or> 73 \<le> length (sv_rand s))) (mux cr r)"
proof (rule keepsI)
  fix s
  let ?rs = "routes cr (clusterEnabled s)"
  assume s: "srv_ok cr l0 s \<and> (c \<or> 73 \<le> length (sv_rand s))"
  show "(c \<or> fst (mux cr r s) \<noteq> Crash) \<and> srv_ok cr l0 (snd (mux cr r s))"
  proof (cases "mux_path r = hr_Path r \<and> find_route ?rs (hr_Method r) (mux_path r) \<noteq> None")
    case False
    then show ?thesis using s by (auto simp: mux_def and_then_def asks_def split: option.splits)
  next
    case True
    then obtain acc h pv where fr: "find_route ?rs (hr_Method r) (mux_path r) = Some (acc, h, pv)" by auto
    obtain v pat where pat: "(v, pat, acc, h) \<in> set ?rs" "match_pattern pat (mux_path r) \<noteq> None"
      using find_route_pattern [OF fr] by blast
    have safe: "c \<or> kem_sizes cr \<and> raft_answers r \<and> pat \<notin> may_panic"
      using assms(2) may_panic_pattern [OF _ pat(2) mux_path_slash [OF fr]] True by auto
    have "keeps c (srv_ok cr l0) (\<lambda>s. srv_ok cr l0 s \<and> (c \<or> 73 \<le> length (sv_rand s))) (guarded cr acc h (r\<lparr>hr_PathValue := pv\<rparr>))"
      using routes_keep [OF pat(1) assms(1)] safe by (intro guarded_keep) (auto simp: raft_answers_def)
    from keepsD [OF this s] show ?thesis using True fr by (simp add: mux_def and_then_def asks_def)
  qed
qed

lemma srv_ok_record: "srv_ok cr l0 s \<Longrightarrow> record_request v p n d (sv_metrics s) = Some m \<Longrightarrow> srv_ok cr l0 (s\<lparr>sv_metrics := m\<rparr>)"
  using record_request_ok [OF srv_okD, of cr l0 s v p n d] by (auto intro: srv_ok_metrics)

text \<open>Whatever a request does, even one that makes its handler panic, the server stays well-formed.\<close>

lemma serve_keep:
  assumes "hash_sizes cr" "srv_ok cr l0 s"
  shows "srv_ok cr l0 (snd (serve cr r s))"
proof -
  obtain ans s' where run: "serve cr r s = (ans, s')" by (cases "serve cr r s")
  obtain e rl i b t where t: "t = s\<lparr>sv_rand := e, sv_rl := rl\<rparr> \<or>
      t = snd (mux cr (r\<lparr>hr_RequestID := i, hr_Body := b\<rparr>) (s\<lparr>sv_rand := e, sv_rl := rl\<rparr>))"
    and s': "s' = t \<or> (\<exists>p n m. record_request (hr_Method r) p n (hr_Took r) (sv_metrics t) = Some m \<and> s' = t\<lparr>sv_metrics := m\<rparr>)"
    using serve_cases [OF run] by blast
  have "srv_ok cr l0 t"
    using t keepsD [OF mux_keep [OF assms(1), of True "r\<lparr>hr_RequestID := i, hr_Body := b\<rparr>" l0], of "s\<lparr>sv_rand := e, sv_rl := rl\<rparr>"] assms(2)
    by auto
  then show ?thesis using run s' srv_ok_record by auto
qed

lemma srv_step_keep:
  assumes "hash_sizes cr" "srv_ok cr l0 s"
  shows "srv_ok cr l0 (srv_step cr x s)"
proof (cases x)
  case (Request r)
  then show ?thesis using serve_keep [OF assms] by simp
next
  case (CleanState now)
  then show ?thesis
    using assms(2) length_gm_filter_le [of _ "sv_channelInitiators s"]
    by (auto simp: stateCleanup_def pruneChannelState_def pruneThresholdState_def srv_ok_def list_all_gm_filter
        intro: le_trans)
next
  case (CleanLimiters now)
  then show ?thesis using assms(2) by simp
next
  case (PruneRevoked d now)
  then show ?thesis using assms(2) by (simp split: prod.splits)
qed

section \<open>Every request is answered\<close>

lemma inner_answers:
  assumes "hash_sizes cr" "kem_sizes cr" "raft_answers r" "hr_Path r \<notin> may_panic"
    and "srv_ok cr l0 s" "73 \<le> length (sv_rand s)"
  shows "\<exists>a s'. Limit sv_rl sv_rl_update (RequireJSON (mux_handler cr)) r w s = (Some a, s') \<and> srv_ok cr l0 s'"
proof -
  have mux: "\<exists>a s'. mux_handler cr (r\<lparr>hr_Body := b\<rparr>) w t = (Some a, s') \<and> srv_ok cr l0 s'"
    if "srv_ok cr l0 t" "73 \<le> length (sv_rand t)" for t b
    using keepsD [OF mux_keep [OF assms(1), of False "r\<lparr>hr_Body := b\<rparr>" l0], of t] assms(2-4) that
    by (auto simp: mux_handler_def raft_answers_def split: prod.splits outcome.splits)
  have "\<exists>a s'. RequireJSON (mux_handler cr) r w t = (Some a, s') \<and> srv_ok cr l0 s'"
    if t: "srv_ok cr l0 t" "73 \<le> length (sv_rand t)" for t
    using mux [OF t] mux [OF t, of "hr_Body r"] t by (auto simp: RequireJSON_def Let_def)
  then show ?thesis
    using assms(5,6) by (auto simp: Limit_def split: prod.splits bool.splits)
qed

text \<open>C3. Every request to a well-formed server is answered, and leaves it well-formed: no call in a handler
  panics, no counter is missing, whatever the body, the path, the token, the disk or Raft bring. Three
  routes are excepted; the random source must be able to deliver 85 bytes.\<close>

theorem server_answers:
  assumes "srv_ok cr l0 s" and "hash_sizes cr" and "kem_sizes cr" and "raft_answers r"
    and "hr_Path r \<notin> may_panic" and "85 \<le> length (sv_rand s)"
  shows "\<exists>w resp s'. serve cr r s = (Some (w, resp), s') \<and> srv_ok cr l0 s'"
proof -
  let ?chain = "SecurityHeaders (CORS (sv_origins s) (HTTPMiddleware sv_metrics sv_metrics_update
      (Limit sv_rl sv_rl_update (RequireJSON (mux_handler cr)))))"
  have chain: "\<exists>a s'. ?chain (r\<lparr>hr_RequestID := i\<rparr>) w t = (Some a, s') \<and> srv_ok cr l0 s'"
    if t: "srv_ok cr l0 t" "73 \<le> length (sv_rand t)" for i w t
  proof -
    have inner: "\<exists>a s'. Limit sv_rl sv_rl_update (RequireJSON (mux_handler cr)) (r\<lparr>hr_RequestID := i\<rparr>) w' t = (Some a, s') \<and> srv_ok cr l0 s'"
      for w' using assms(2-5) t by (intro inner_answers) (auto simp: raft_answers_def)
    have "\<exists>a s'. HTTPMiddleware sv_metrics sv_metrics_update (Limit sv_rl sv_rl_update (RequireJSON (mux_handler cr)))
        (r\<lparr>hr_RequestID := i\<rparr>) w' t = (Some a, s') \<and> srv_ok cr l0 s'" for w'
    proof -
      obtain a s1 where a: "Limit sv_rl sv_rl_update (RequireJSON (mux_handler cr)) (r\<lparr>hr_RequestID := i\<rparr>) w' t = (Some a, s1)"
        "srv_ok cr l0 s1" using inner by blast
      obtain m where "record_request (hr_Method r) (normalizePath (sv_metrics s1) (hr_Path r)) (rs_Code (snd a)) (hr_Took r) (sv_metrics s1) = Some m"
        using record_request_ok [OF srv_okD [OF a(2)]] by blast
      with a show ?thesis by (cases a) (auto simp: HTTPMiddleware_def srv_ok_record)
    qed
    then show ?thesis using t(1) by (auto simp: SecurityHeaders_def CORS_def Let_def)
  qed
  obtain b where b: "rand_read 12 (sv_rand s) = Some (b, drop 12 (sv_rand s))"
    using assms(6) by (simp add: rand_read_def)
  have "\<exists>a s'. serve cr r s = (Some a, s') \<and> srv_ok cr l0 s'"
    using chain [of s] chain [of "s\<lparr>sv_rand := drop 12 (sv_rand s)\<rparr>"] assms(1,6) b
    by (auto simp: serve_def srv_Handler_def RequestID_def Let_def)
  then show ?thesis by fastforce
qed

section \<open>The server from its start\<close>

lemma apply_option_same:
  "sv_audit (fold apply_option opts s) = sv_audit s \<and> sv_metrics (fold apply_option opts s) = sv_metrics s \<and>
   sv_channelSessions (fold apply_option opts s) = sv_channelSessions s \<and>
   sv_channelInitiators (fold apply_option opts s) = sv_channelInitiators s \<and> sv_ks (fold apply_option opts s) = sv_ks s"
proof (induction opts arbitrary: s)
  case (Cons x opts)
  then show ?case by (cases x) simp_all
qed simp

lemma srv_New_ok:
  assumes "srv_New cr d env opts now fs e = Ok s0" "dsa_correct cr"
    and ks: "case sv_ks s0 of None \<Rightarrow> True | Some ks \<Rightarrow> store_ready ks"
  shows "srv_ok cr (sv_audit s0) s0"
proof -
  obtain a l m e1 e2 s1 where new: "NewLogger cr ''QuantumShield-API'' e1 = Ok (l, e2)" "server_metrics now = Some m"
    and s1: "open_keystore cr d env (fold apply_option opts (fresh_server env a l m fs e2)) = Ok s1"
      "open_caStore cr env s1 = Ok s0"
    using assms(1) by (auto simp: srv_New_def Let_def split: result.splits option.splits)
  have m: "metrics_ok m"
    using new(2) registration_ok [of now]
    by (auto simp: server_metrics_def SetPathNormalizer_def metrics_ok_def)
  have "sv_audit s1 = l \<and> sv_metrics s1 = m \<and> sv_channelSessions s1 = [] \<and> sv_channelInitiators s1 = []"
    using s1(1) apply_option_same [of opts "fresh_server env a l m fs e2"]
    by (auto simp: open_keystore_def fresh_server_def Let_def split: if_splits prod.splits result.splits)
  then have "sv_audit s0 = l \<and> sv_metrics s0 = m \<and> sv_channelSessions s0 = [] \<and> sv_channelInitiators s0 = []"
    using s1(2) by (auto simp: open_caStore_def Let_def split: if_splits option.splits result.splits)
  then show ?thesis
    using NewLogger_inv [OF assms(2) new(1)] m ks by (simp add: srv_ok_def maxPendingChannels_def logger_ext_def)
qed

text \<open>A running server is a system of operations whose audit log only grows.\<close>

definition srv_inv :: "crypto \<Rightarrow> srv \<Rightarrow> bool" where
  "srv_inv cr s \<longleftrightarrow> hash_sizes cr \<and> srv_ok cr (sv_audit s) s"

lemma srv_ok_here: "srv_ok cr l0 s \<Longrightarrow> srv_ok cr (sv_audit s) s"
  by (simp add: srv_ok_def logger_ext_def)

interpretation running: op_system "srv_step cr" "srv_inv cr" "\<lambda>s t. logger_ext (sv_audit s) (sv_audit t)" for cr
proof
  fix s x
  assume "srv_inv cr s"
  then have "srv_ok cr (sv_audit s) (srv_step cr x s)" "hash_sizes cr" by (simp_all add: srv_inv_def srv_step_keep)
  then show "srv_inv cr (srv_step cr x s)" "logger_ext (sv_audit s) (sv_audit (srv_step cr x s))"
    by (auto simp: srv_inv_def srv_ok_def logger_ext_def)
qed (auto simp: logger_ext_def)

text \<open>C4. However long a server has run, through whatever requests and cleanings, the audit log verifies
  under the key it was started with, no entry written before has changed or disappeared, at most 256
  handshakes are pending, and the server is still well-formed.\<close>

theorem server_run:
  assumes "srv_New cr d env opts now fs e = Ok s0" and "dsa_correct cr" and "hash_sizes cr"
    and "case sv_ks s0 of None \<Rightarrow> True | Some ks \<Rightarrow> store_ready ks"
    and "s1 = fold (srv_step cr) xs s0" and "s2 = fold (srv_step cr) ys s1"
  shows "ir_valid (VerifyChain cr (sv_audit s2)) \<and> lg_pk (sv_audit s2) = lg_pk (sv_audit s0) \<and>
    (\<exists>es. lg_entries (sv_audit s2) = lg_entries (sv_audit s1) @ es) \<and>
    length (sv_channelInitiators s2) \<le> 256 \<and> srv_ok cr (sv_audit s0) s2"
proof -
  have inv0: "srv_inv cr s0" using srv_New_ok [OF assms(1,2,4)] assms(3) by (simp add: srv_inv_def)
  then have inv1: "srv_inv cr s1" using running.run_inv assms(5) by simp
  then have inv2: "srv_inv cr s2" using running.run_inv assms(6) by simp
  have "logger_ext (sv_audit s0) (sv_audit s1)" "logger_ext (sv_audit s1) (sv_audit s2)"
    using running.run_ext inv0 inv1 assms(5,6) by simp_all
  then show ?thesis
    using inv2
    by (auto simp: srv_inv_def srv_ok_def logger_ext_def maxPendingChannels_def logger_inv_def VerifyChain_valid_iff)
qed

section \<open>Witnesses\<close>

lemma toy_kem_sizes [simp]: "kem_sizes toy_crypto"
  by (simp add: kem_sizes_def toy_crypto_def)

lemma demo_server_ok: "srv_ok toy_crypto demo_log demo_server"
proof -
  have "dsa_pair toy_crypto (lg_pk demo_log) (lg_sk demo_log)"
    by (auto simp: dsa_pair_def demo_log_def toy_crypto_def intro!: exI [of _ "replicate 32 7"])
  then have "logger_inv toy_crypto demo_log" by (simp add: logger_inv_def demo_log_def)
  then show ?thesis by (simp add: srv_ok_def demo_server_def fresh_server_def logger_ext_def)
qed

theorem server_answers_witness:
  "\<exists>w resp s'. serve toy_crypto (demo_request ''POST'' ''/keys/generate'' ''{}'') demo_server = (Some (w, resp), s') \<and>
     srv_ok toy_crypto demo_log s'"
  by (rule server_answers [OF demo_server_ok])
    (auto simp: raft_answers_def demo_request_def may_panic_def demo_server_def fresh_server_def)

lemma toy_keys: "mldsa_keys toy_crypto l s = (s, s)"
  by (simp add: toy_crypto_def)

theorem server_run_witness:
  "\<exists>s0. srv_New toy_crypto DiskOk [] [] 5 [] (replicate 200 1) = Ok s0 \<and>
     (let s2 = fold (srv_step toy_crypto) [CleanState 9] (srv_step toy_crypto (Request (demo_request ''POST'' ''/auth/token'' ''{}'')) s0) in
      ir_valid (VerifyChain toy_crypto (sv_audit s2)) \<and> length (sv_channelInitiators s2) \<le> 256)"
proof -
  obtain m where m: "server_metrics 5 = Some m"
    using registration_ok [of 5] by (auto simp: server_metrics_def)
  obtain s0 where s0: "srv_New toy_crypto DiskOk [] [] 5 [] (replicate 200 1) = Ok s0" "sv_ks s0 = None"
    using m by (simp add: srv_New_def NewAuthority_def NewLogger_def dsa_GenerateKey_def dsa_schemeFor_def rand_read_def
        toy_keys getenv_def open_keystore_def open_caStore_def secretFromEnv_def fresh_server_def Let_def)
  have one: "srv_step toy_crypto (Request r) s = fold (srv_step toy_crypto) [Request r] s" for r s by simp
  show ?thesis
    using server_run [OF s0(1) toy_dsa_correct toy_hash_sizes _ one refl, of "[CleanState 9]" "demo_request ''POST'' ''/auth/token'' ''{}''"]
      s0 unfolding Let_def by (intro exI [of _ s0]) (simp del: srv_step.simps)
qed

end
