(* ===== verification/ServerFlows.thy ===== *)
theory ServerFlows
  imports ServerInvariant
begin

text \<open>
  What a client gets through several requests: the answer of one handler, printed and sent back in the body
  of the next one. An exported key can be imported on another server, a text encrypted for a stored key can
  be decrypted once. It also shows the requests on which handlers go wrong.
\<close>

section \<open>The end of a handler\<close>

text \<open>Steps that only count and log: they touch the metrics and the audit log, and go on.\<close>

definition quiet :: "unit act \<Rightarrow> bool" where
  "quiet m \<longleftrightarrow> (\<forall>s. metrics_ok (sv_metrics s) \<longrightarrow>
     (\<exists>mt l. m s = (Next (), s\<lparr>sv_metrics := mt, sv_audit := l\<rparr>) \<and> metrics_ok mt))"

lemma quiet_inc [simp]: "name \<in> set crypto_ops \<Longrightarrow> quiet (inc name)"
  unfolding quiet_def
proof (intro allI impI)
  fix s :: srv
  assume "name \<in> set crypto_ops" "metrics_ok (sv_metrics s)"
  then obtain m where "counter_Inc name (sv_metrics s) = Some m" "metrics_ok m" using counter_Inc_ok by blast
  then show "\<exists>mt l. inc name s = (Next (), s\<lparr>sv_metrics := mt, sv_audit := l\<rparr>) \<and> metrics_ok mt"
    by (intro exI [of _ m] exI [of _ "sv_audit s"]) (simp add: inc_def)
qed

lemma quiet_audit [simp]: "quiet (audit cr r a b c)"
  unfolding quiet_def
proof (intro allI impI)
  fix s :: srv
  assume "metrics_ok (sv_metrics s)"
  then show "\<exists>mt l. audit cr r a b c s = (Next (), s\<lparr>sv_metrics := mt, sv_audit := l\<rparr>) \<and> metrics_ok mt"
    by (intro exI [of _ "sv_metrics s"] exI [of _ "sv_audit (snd (audit cr r a b c s))"])
      (simp add: audit_def audit_as_def change_def)
qed

lemma quiet_gauges [simp]: "quiet audit_gauge" "quiet keys_gauge"
proof -
  have set: "\<exists>mt l. set_gauge name n s = (Next (), s\<lparr>sv_metrics := mt, sv_audit := l\<rparr>) \<and> metrics_ok mt"
    if "metrics_ok (sv_metrics s)" "name \<in> {''qs_audit_log_entries'', ''qs_keystore_keys_total''}" for s name n
    using gauge_Set_ok [OF that, of "f64_of_int n"]
    by (auto simp: set_gauge_def intro!: exI [of _ "sv_audit s"])
  then show "quiet audit_gauge" "quiet keys_gauge"
    by (auto simp: quiet_def audit_gauge_def keys_gauge_def and_then_def asks_def)
qed

lemma quiet_answer:
  assumes "list_all quiet ms" "metrics_ok (sv_metrics s)"
  shows "\<exists>mt l. run_all (ms @ [m]) s = and_then m (\<lambda>_. give ()) (s\<lparr>sv_metrics := mt, sv_audit := l\<rparr>) \<and> metrics_ok mt"
  using assms
proof (induction ms arbitrary: s)
  case Nil
  then show ?case by (auto intro!: exI [of _ "sv_metrics s"] exI [of _ "sv_audit s"])
next
  case (Cons q ms)
  then obtain mt l where q: "q s = (Next (), s\<lparr>sv_metrics := mt, sv_audit := l\<rparr>)" "metrics_ok mt"
    by (auto simp: quiet_def)
  obtain mt' l' where "run_all (ms @ [m]) (s\<lparr>sv_metrics := mt, sv_audit := l\<rparr>) =
      and_then m (\<lambda>_. give ()) (s\<lparr>sv_metrics := mt, sv_audit := l\<rparr>\<lparr>sv_metrics := mt', sv_audit := l'\<rparr>)" "metrics_ok mt'"
    using Cons.IH [of "s\<lparr>sv_metrics := mt, sv_audit := l\<rparr>"] Cons.prems q(2) by auto
  then show ?case by (intro exI [of _ mt'] exI [of _ l']) (simp add: q(1) and_then_def [of q])
qed

lemma finish_ok:
  assumes "list_all quiet ms" "metrics_ok (sv_metrics s)"
  shows "\<exists>mt l. run_all (ms @ [ok_json v]) s = (Answer (reply StatusOK v), s\<lparr>sv_metrics := mt, sv_audit := l\<rparr>) \<and> metrics_ok mt"
  using quiet_answer [OF assms, of "ok_json v"] by (simp add: and_then_def ok_json_def answer_def)

lemma finish_refuse:
  assumes "list_all quiet ms" "metrics_ok (sv_metrics s)"
  shows "\<exists>mt l. run_all (ms @ [refuse c msg]) s = (Answer (reply_error c msg), s\<lparr>sv_metrics := mt, sv_audit := l\<rparr>) \<and> metrics_ok mt"
  using quiet_answer [OF assms, of "refuse c msg"] by (simp add: and_then_def refuse_def)

section \<open>Bodies a client sends\<close>

definition json_body :: "(string \<times> jval) list \<Rightarrow> api_request \<Rightarrow> api_request" where
  "json_body kvs r = r\<lparr>hr_Body := json_enc (JObj kvs)\<rparr>"

lemma json_body_sel [simp]:
  "hr_PathValue (json_body kvs r) = hr_PathValue r" "hr_Now (json_body kvs r) = hr_Now r"
  "hr_Subject (json_body kvs r) = hr_Subject r" "path_value k (json_body kvs r) = path_value k r"
  by (simp_all add: json_body_def path_value_def)

lemma body_obj_json:
  assumes "json_wf (JObj kvs)"
  shows "body_obj (json_body kvs r) = Some (map (\<lambda>(k, v). (sanitize k, json_sanitize v)) kvs)"
proof -
  have "json_Unmarshal (json_enc (JObj kvs)) = Some (json_sanitize (JObj kvs))"
    by (rule json_roundtrip [OF assms])
  then show ?thesis by (simp add: body_obj_def json_body_def json_Decode_of_Unmarshal del: json_enc.simps)
qed

lemma sanitize_lit [simp]:
  "sanitize ''key_id'' = ''key_id''" "sanitize ''password'' = ''password''" "sanitize ''wrapped'' = ''wrapped''"
  "sanitize ''encrypted'' = ''encrypted''" "sanitize ''plaintext'' = ''plaintext''"
  "sanitize ''version'' = ''version''" "sanitize ''algorithm'' = ''algorithm''" "sanitize ''level'' = ''level''"
  "sanitize ''kdf'' = ''kdf''" "sanitize ''salt'' = ''salt''" "sanitize ''nonce'' = ''nonce''"
  "sanitize ''wrapped_key'' = ''wrapped_key''" "sanitize ''public_key'' = ''public_key''"
  "sanitize ''kem_ciphertext'' = ''kem_ciphertext''" "sanitize ''data'' = ''data''" "sanitize ''created_at'' = ''created_at''"
  "sanitize ''argon2id'' = ''argon2id''" "sanitize ''ML-KEM-768'' = ''ML-KEM-768''" "sanitize ''ML-KEM-1024'' = ''ML-KEM-1024''"
  by (simp_all add: sanitize_ascii code_def)

lemma sanitize_b64 [simp]: "sanitize (b64std b) = b64std b"
  by (rule sanitize_ascii [OF b64_encode_ascii])

lemma isValidUserID_sanitize: "isValidUserID s \<Longrightarrow> sanitize s = s"
  by (rule sanitize_ascii) (auto simp: isValidUserID_def id_char_def code_def list_all_iff Let_def)

lemma fold_names [simp]:
  "fold_name ''key_id'' = [75, 69, 89, 95, 73, 68]"
  "fold_name ''password'' = [80, 65, 83, 83, 87, 79, 82, 68]"
  "fold_name ''wrapped'' = [87, 82, 65, 80, 80, 69, 68]"
  "fold_name ''encrypted'' = [69, 78, 67, 82, 89, 80, 84, 69, 68]"
  "fold_name ''plaintext'' = [80, 76, 65, 73, 78, 84, 69, 88, 84]"
  "fold_name ''version'' = [86, 69, 82, 83, 73, 79, 78]"
  "fold_name ''algorithm'' = [65, 76, 71, 79, 82, 73, 84, 72, 77]"
  "fold_name ''level'' = [76, 69, 86, 69, 76]"
  "fold_name ''kdf'' = [75, 68, 70]"
  "fold_name ''salt'' = [83, 65, 76, 84]"
  "fold_name ''nonce'' = [78, 79, 78, 67, 69]"
  "fold_name ''wrapped_key'' = [87, 82, 65, 80, 80, 69, 68, 95, 75, 69, 89]"
  "fold_name ''public_key'' = [80, 85, 66, 76, 73, 67, 95, 75, 69, 89]"
  "fold_name ''kem_ciphertext'' = [75, 69, 77, 95, 67, 73, 80, 72, 69, 82, 84, 69, 88, 84]"
  "fold_name ''data'' = [68, 65, 84, 65]"
  "fold_name ''created_at'' = [67, 82, 69, 65, 84, 69, 68, 95, 65, 84]"
  by (simp_all add: fold_name_def fold_code_def)

lemma envelope_back:
  assumes "int64_ok (ev_Version v)" "int64_ok (ev_Level v)"
  shows "Option.bind (obj_field ''wrapped'' [(''key_id'', a), (''password'', b), (''wrapped'', json_sanitize (enc_envelope v))]) dec_envelope =
    Some \<lparr>ev_Version = ev_Version v, ev_Algorithm = sanitize (ev_Algorithm v), ev_Level = ev_Level v, ev_KDF = sanitize (ev_KDF v),
      ev_Salt = sanitize (ev_Salt v), ev_Nonce = sanitize (ev_Nonce v), ev_WrappedKey = sanitize (ev_WrappedKey v),
      ev_PublicKey = sanitize (ev_PublicKey v)\<rparr>"
  using assms by (simp add: obj_field_def enc_envelope_def dec_envelope_def get_field_def int64_ok_def)

section \<open>Export and import\<close>

definition key_of :: "crypto \<Rightarrow> decap_key \<Rightarrow> mem_key" where
  "key_of cr dk = \<lparr>mk_EK = ek_Bytes (dk_EncapsulationKey cr dk), mk_DK = dk_Bytes dk, mk_level = dk_Level dk\<rparr>"

definition export_envelope :: "crypto \<Rightarrow> string \<Rightarrow> bytes \<Rightarrow> bytes \<Rightarrow> mem_key \<Rightarrow> envelope" where
  "export_envelope cr pw salt nonce key =
     \<lparr>ev_Version = 1, ev_Algorithm = (if mk_level key = 1024 then ''ML-KEM-1024'' else ''ML-KEM-768''),
      ev_Level = mk_level key, ev_KDF = ''argon2id'', ev_Salt = b64std salt, ev_Nonce = b64std nonce,
      ev_WrappedKey = b64std (gcm_seal cr (argon2id cr 2 (str_bytes pw) salt) nonce (mk_DK key) []),
      ev_PublicKey = b64std (mk_EK key)\<rparr>"

lemma export_runs:
  assumes "find_key cr (hr_Now r) (path_value ''key_id'' r) s = Ok (Some key)"
    and "Option.bind (body_obj r) (str_field ''password'') = Some pw" "pw \<noteq> []"
    and "metrics_ok (sv_metrics s)" "44 \<le> length (sv_rand s)" "hash_sizes cr"
  shows "\<exists>s' salt nonce. length salt = 32 \<and> length nonce = 12 \<and>
    handleKeyExport cr r s = (Answer (reply StatusOK (enc_envelope (export_envelope cr pw salt nonce key))), s')"
proof -
  have "\<not> length (sv_rand s) < 32" "\<not> length (drop 32 (sv_rand s)) < 12" using assms(5) by auto
  then have "export_random s = (Next (take 32 (sv_rand s), take 12 (drop 32 (sv_rand s))),
      s\<lparr>sv_rand := drop 12 (drop 32 (sv_rand s))\<rparr>)"
    by (simp only: export_random_def rand_read_def if_False option.case prod.case)
  moreover have "length (take 32 (sv_rand s)) = 32" "length (take 12 (drop 32 (sv_rand s))) = 12" using assms(5) by auto
  ultimately obtain salt nonce e where rnd: "export_random s = (Next (salt, nonce), s\<lparr>sv_rand := e\<rparr>)"
    and len: "length salt = 32" "length nonce = 12" by blast
  let ?s = "s\<lparr>sv_rand := e\<rparr>" and ?v = "enc_envelope (export_envelope cr pw salt nonce key)"
  obtain mt l where "run_all ([audit cr r ''key_export'' ''ok'' (path_value ''key_id'' r), audit_gauge] @ [ok_json ?v]) ?s =
      (Answer (reply StatusOK ?v), ?s\<lparr>sv_metrics := mt, sv_audit := l\<rparr>)"
    using finish_ok [of "[audit cr r ''key_export'' ''ok'' (path_value ''key_id'' r), audit_gauge]" ?s ?v] assms(4)
    by (simp del: run_all.simps) metis
  then have "handleKeyExport cr r s = (Answer (reply StatusOK ?v), ?s\<lparr>sv_metrics := mt, sv_audit := l\<rparr>)"
    using assms(1-3,6) len(1)
    by (simp add: handleKeyExport_def lookupKey_def and_then_def [of "asks _"] and_then_def [of export_random]
        and_then_def [of "and_then _ _"] asks_def attempt_def give_def rnd export_envelope_def DeriveArgon2id_def Let_def
        del: run_all.simps)
  then show ?thesis using len by blast
qed

lemma import_runs:
  assumes "dec_import_request r = Some \<lparr>iq_KeyID = kid, iq_Password = pw, iq_Wrapped = v\<rparr>"
    and "v = export_envelope cr pw salt nonce (key_of cr dk)" "dk_ok dk" "isValidUserID kid" "pw \<noteq> []"
    and "length salt = 32" "length nonce = 12" "sv_ks t = None" "metrics_ok (sv_metrics t)" "hash_sizes cr" "gcm_correct cr"
  shows "\<exists>ans t'. handleKeyImport cr r t = (Answer (reply StatusOK ans), t') \<and>
    find_key cr now kid t' = Ok (Some (key_of cr dk))"
proof -
  let ?t = "t\<lparr>sv_keypairs := gm_put kid (key_of cr dk) (sv_keypairs t)\<rparr>"
  let ?ans = "json_obj [(''key_id'', JStr kid), (''public_key'', jb64 (ek_Bytes (dk_EncapsulationKey cr dk))),
      (''algorithm'', JStr (ev_Algorithm v)), (''imported'', JBool True)]"
  have level: "(if dk_Level dk = 1024 then 1024 else 768) = dk_Level dk" by (cases dk) simp_all
  obtain mt l where "run_all ([inc ''qs_crypto_keygen_total'', keys_gauge, audit cr r ''key_import'' ''ok'' kid, audit_gauge] @ [ok_json ?ans]) ?t =
      (Answer (reply StatusOK ?ans), ?t\<lparr>sv_metrics := mt, sv_audit := l\<rparr>)"
    using finish_ok [of "[inc ''qs_crypto_keygen_total'', keys_gauge, audit cr r ''key_import'' ''ok'' kid, audit_gauge]" ?t] assms(9)
    by (simp del: run_all.simps) metis
  then have "import_key cr r \<lparr>iq_KeyID = kid, iq_Password = pw, iq_Wrapped = v\<rparr> (dk_Bytes dk) t =
      (Answer (reply StatusOK ?ans), ?t\<lparr>sv_metrics := mt, sv_audit := l\<rparr>)"
    using assms(2,3,8) level
    by (simp add: import_key_def Let_def attempt_def storeKey_def and_then_def export_envelope_def key_of_def del: run_all.simps)
  then have "handleKeyImport cr r t = (Answer (reply StatusOK ?ans), ?t\<lparr>sv_metrics := mt, sv_audit := l\<rparr>)"
    using assms(1-7,10,11)
    by (auto simp: handleKeyImport_def attempt_def DeriveArgon2id_def export_envelope_def key_of_def isValidUserID_def)
  then show ?thesis using assms(8) by (intro exI conjI) (auto simp: find_key_def)
qed

text \<open>C22. A key exported from one server under a password can be imported into another one (a server without
  an encrypted keystore) under any valid name with the same password: the client sends back the envelope
  it received, and the second server then holds the same key pair. The password is the one the first
  server decoded, whatever bytes it contains.\<close>

theorem export_import:
  assumes laws: "hash_sizes cr" "gcm_correct cr"
    and key: "dk_ok dk" "find_key cr (hr_Now r) (path_value ''key_id'' r) s = Ok (Some (key_of cr dk))"
    and s: "metrics_ok (sv_metrics s)" "44 \<le> length (sv_rand s)" and pw: "pw \<noteq> []"
    and t: "metrics_ok (sv_metrics t)" "sv_ks t = None" and kid: "isValidUserID kid"
  shows "\<exists>envelope s' ans t'.
    handleKeyExport cr (json_body [(''password'', JStr pw)] r) s = (Answer (reply StatusOK envelope), s') \<and>
    handleKeyImport cr (json_body [(''key_id'', JStr kid), (''password'', JStr pw), (''wrapped'', envelope)] q) t =
      (Answer (reply StatusOK ans), t') \<and>
    find_key cr now kid t' = Ok (Some (key_of cr dk))"
proof -
  let ?r = "json_body [(''password'', JStr pw)] r"
  have pw': "Option.bind (body_obj ?r) (str_field ''password'') = Some (sanitize pw)" "sanitize pw \<noteq> []"
    using pw by (simp_all add: body_obj_json get_field_def)
  have found: "find_key cr (hr_Now ?r) (path_value ''key_id'' ?r) s = Ok (Some (key_of cr dk))" using key(2) by simp
  obtain s' salt nonce where len: "length salt = 32" "length nonce = 12"
    and exp: "handleKeyExport cr ?r s =
      (Answer (reply StatusOK (enc_envelope (export_envelope cr (sanitize pw) salt nonce (key_of cr dk)))), s')"
    using export_runs [OF found pw' s laws(1)] by blast
  let ?ev = "export_envelope cr (sanitize pw) salt nonce (key_of cr dk)"
  let ?q = "json_body [(''key_id'', JStr kid), (''password'', JStr pw), (''wrapped'', enc_envelope ?ev)] q"
  have "body_obj ?q = Some [(''key_id'', JStr kid), (''password'', JStr (sanitize pw)), (''wrapped'', json_sanitize (enc_envelope ?ev))]"
    using isValidUserID_sanitize [OF kid] by (subst body_obj_json) (simp_all add: enc_envelope_def)
  moreover have "Option.bind (obj_field ''wrapped'' [(''key_id'', JStr kid), (''password'', JStr (sanitize pw)),
      (''wrapped'', json_sanitize (enc_envelope ?ev))]) dec_envelope = Some ?ev"
    by (subst envelope_back) (cases dk; simp add: export_envelope_def key_of_def int64_ok_def)+
  ultimately have "dec_import_request ?q = Some \<lparr>iq_KeyID = kid, iq_Password = sanitize pw, iq_Wrapped = ?ev\<rparr>"
    by (simp add: dec_import_request_def get_field_def)
  from import_runs [OF this refl key(1) kid pw'(2) len t(2,1) laws] exp show ?thesis by blast
qed

section \<open>Encryption and decryption\<close>

definition enc_encrypted :: "encrypted \<Rightarrow> jval" where
  "enc_encrypted enc = json_obj
     [(''kem_ciphertext'', jb64 (en_KEMCiphertext enc)), (''nonce'', jb64 (en_Nonce enc)),
      (''data'', jb64 (en_Data enc)), (''created_at'', JInt (en_CreatedAt enc))]"

lemma enc_encrypted_eq: "enc_encrypted enc = JObj
    [(''created_at'', JInt (en_CreatedAt enc)), (''data'', jb64 (en_Data enc)),
     (''kem_ciphertext'', jb64 (en_KEMCiphertext enc)), (''nonce'', jb64 (en_Nonce enc))]"
  by (simp add: enc_encrypted_def json_obj_def)

lemma encrypt_runs:
  assumes "dec_encrypt_request r = Some \<lparr>eq_KeyID = kid, eq_PublicKey = pub, eq_Plaintext = txt\<rparr>" "kid \<noteq> []"
    and "find_key cr (hr_Now r) kid s = Ok (Some (key_of cr dk))" "metrics_ok (sv_metrics s)"
    and "hy_Encrypt cr (sv_encLevel s) (ek_Bytes (dk_EncapsulationKey cr dk)) (str_bytes txt) (hr_Now r) (sv_rand s) = Ok (enc, e)"
  shows "\<exists>ans mt l. handleEncrypt cr r s =
      (Answer (reply StatusOK (json_obj ((''encrypted'', enc_encrypted enc) # ans))), s\<lparr>sv_rand := e, sv_metrics := mt, sv_audit := l\<rparr>) \<and>
    metrics_ok mt"
proof -
  let ?ans = "json_obj [(''encrypted'', enc_encrypted enc), (''algorithm'', JStr ''ML-KEM-768 + AES-256-GCM''), (''quantum_safe'', JBool True)]"
  obtain mt l where m: "metrics_ok mt" "run_all ([inc ''qs_crypto_encrypt_total'', audit cr r ''encrypt'' ''ok'' kid, audit_gauge] @ [ok_json ?ans]) (s\<lparr>sv_rand := e\<rparr>) =
      (Answer (reply StatusOK ?ans), s\<lparr>sv_rand := e\<rparr>\<lparr>sv_metrics := mt, sv_audit := l\<rparr>)"
    using finish_ok [of "[inc ''qs_crypto_encrypt_total'', audit cr r ''encrypt'' ''ok'' kid, audit_gauge]" "s\<lparr>sv_rand := e\<rparr>" ?ans] assms(4)
    by (simp del: run_all.simps) metis
  have rnd: "run_all (put_rand e # ms) s = run_all ms (s\<lparr>sv_rand := e\<rparr>)" for ms
    by (simp add: put_rand_def change_def and_then_def)
  have key: "encrypt_key cr r \<lparr>eq_KeyID = kid, eq_PublicKey = pub, eq_Plaintext = txt\<rparr> s = (Next (ek_Bytes (dk_EncapsulationKey cr dk)), s)"
    using assms(2,3) by (simp add: encrypt_key_def lookupKey_def and_then_def asks_def attempt_def give_def key_of_def)
  have "handleEncrypt cr r s = (Answer (reply StatusOK ?ans), s\<lparr>sv_rand := e\<rparr>\<lparr>sv_metrics := mt, sv_audit := l\<rparr>)"
    using assms(1,5) m(2)
    by (simp add: handleEncrypt_def and_then_def [of "encrypt_key _ _ _"] and_then_def [of "asks _"] key asks_def attempt_def rnd
        enc_encrypted_def del: run_all.simps)
  then show ?thesis using m(1) by (intro exI conjI) simp_all
qed

lemma decrypt_runs:
  assumes "dec_decrypt_request r = Some \<lparr>dq_KeyID = kid, dq_KEMCiphertext = b64std (en_KEMCiphertext enc), dq_Nonce = b64std (en_Nonce enc),
      dq_Data = b64std (en_Data enc), dq_CreatedAt = en_CreatedAt enc\<rparr>"
    and "find_key cr (hr_Now r) kid s = Ok (Some (key_of cr dk))" "metrics_ok (sv_metrics s)"
    and "gm_get (sv_decryptors s) (dk_Level dk) = Some d" "hy_Decrypt cr (dk_Bytes dk) (Some enc) (hr_Now r) d = (res, d')" "res \<noteq> Panic"
  shows "\<exists>mt l. handleDecrypt cr r s =
      (Answer (case res of Ok p \<Rightarrow> reply StatusOK (json_obj [(''plaintext'', JStr (bytes_str p)), (''verified'', JBool True)])
               | _ \<Rightarrow> reply_error StatusBadRequest ''Decryption failed''),
       s\<lparr>sv_decryptors := gm_put (dk_Level dk) d' (sv_decryptors s), sv_metrics := mt, sv_audit := l\<rparr>) \<and> metrics_ok mt"
proof -
  let ?s = "s\<lparr>sv_decryptors := gm_put (dk_Level dk) d' (sv_decryptors s)\<rparr>"
  have run: "run_decrypter cr r (key_of cr dk) enc s = (Next res, ?s)"
    using assms(4,5) by (simp add: run_decrypter_def key_of_def)
  have whole: "\<lparr>en_KEMCiphertext = en_KEMCiphertext enc, en_Nonce = en_Nonce enc, en_Data = en_Data enc, en_CreatedAt = en_CreatedAt enc\<rparr> = enc"
    by simp
  have look: "lookupKey cr r kid s = (Next (Some (key_of cr dk)), s)"
    using assms(2) by (simp add: lookupKey_def and_then_def asks_def attempt_def give_def)
  show ?thesis
  proof (cases res)
    case (Ok p)
    let ?v = "json_obj [(''plaintext'', JStr (bytes_str p)), (''verified'', JBool True)]"
    obtain mt l where m: "metrics_ok mt" "run_all ([inc ''qs_crypto_decrypt_total'', audit cr r ''decrypt'' ''ok'' kid, audit_gauge] @ [ok_json ?v]) ?s =
        (Answer (reply StatusOK ?v), ?s\<lparr>sv_metrics := mt, sv_audit := l\<rparr>)"
      using finish_ok [of "[inc ''qs_crypto_decrypt_total'', audit cr r ''decrypt'' ''ok'' kid, audit_gauge]" ?s ?v] assms(3)
      by (simp del: run_all.simps) metis
    then have "handleDecrypt cr r s = (Answer (reply StatusOK ?v), ?s\<lparr>sv_metrics := mt, sv_audit := l\<rparr>)"
      using assms(1) Ok
      by (simp add: handleDecrypt_def and_then_def [of "lookupKey _ _ _"] and_then_def [of "run_decrypter _ _ _ _"] look run whole attempt_def
          del: run_all.simps)
    then show ?thesis using m(1) Ok by auto
  next
    case (Err er)
    obtain mt l where m: "metrics_ok mt" "run_all ([inc ''qs_crypto_errors_total'', audit cr r ''decrypt'' ''failed'' kid] @ [refuse StatusBadRequest ''Decryption failed'']) ?s =
        (Answer (reply_error StatusBadRequest ''Decryption failed''), ?s\<lparr>sv_metrics := mt, sv_audit := l\<rparr>)"
      using finish_refuse [of "[inc ''qs_crypto_errors_total'', audit cr r ''decrypt'' ''failed'' kid]" ?s StatusBadRequest "''Decryption failed''"] assms(3)
      by (simp del: run_all.simps) metis
    then have "handleDecrypt cr r s = (Answer (reply_error StatusBadRequest ''Decryption failed''), ?s\<lparr>sv_metrics := mt, sv_audit := l\<rparr>)"
      using assms(1) Err
      by (simp add: handleDecrypt_def and_then_def [of "lookupKey _ _ _"] and_then_def [of "run_decrypter _ _ _ _"] look run whole attempt_def
          del: run_all.simps)
    then show ?thesis using m(1) Err by auto
  qed (use assms(6) in simp)
qed

lemma encrypt_ok_code:
  assumes "handleEncrypt cr r s = (Answer resp, s1)" "rs_Code resp = StatusOK"
    and "dec_encrypt_request r = Some \<lparr>eq_KeyID = kid, eq_PublicKey = pub, eq_Plaintext = txt\<rparr>" "kid \<noteq> []"
    and "find_key cr (hr_Now r) kid s = Ok (Some key)"
  shows "\<exists>enc e. hy_Encrypt cr (sv_encLevel s) (mk_EK key) (str_bytes txt) (hr_Now r) (sv_rand s) = Ok (enc, e)"
proof -
  have "encrypt_key cr r \<lparr>eq_KeyID = kid, eq_PublicKey = pub, eq_Plaintext = txt\<rparr> s = (Next (mk_EK key), s)"
    using assms(4,5) by (simp add: encrypt_key_def lookupKey_def and_then_def asks_def attempt_def give_def)
  then show ?thesis
    using assms(1-3)
    by (auto simp: handleEncrypt_def and_then_def [of "encrypt_key _ _ _"] and_then_def [of "asks _"] asks_def attempt_def
        refuse_def crash_def simp del: run_all.simps split: result.splits)
qed

lemma decrypt_request_back:
  assumes "valid_utf8 kid" "int64_ok (en_CreatedAt enc)"
  shows "dec_decrypt_request (json_body [(''key_id'', JStr kid), (''encrypted'', enc_encrypted enc)] q) =
    Some \<lparr>dq_KeyID = kid, dq_KEMCiphertext = b64std (en_KEMCiphertext enc), dq_Nonce = b64std (en_Nonce enc),
      dq_Data = b64std (en_Data enc), dq_CreatedAt = en_CreatedAt enc\<rparr>"
  using assms
  by (simp add: dec_decrypt_request_def body_obj_json enc_encrypted_eq obj_field_def get_field_def valid_utf8_def int64_ok_def)

lemma find_key_upd:
  "find_key cr now k (s\<lparr>sv_rand := e\<rparr>) = find_key cr now k s" "find_key cr now k (s\<lparr>sv_metrics := m\<rparr>) = find_key cr now k s"
  "find_key cr now k (s\<lparr>sv_audit := l\<rparr>) = find_key cr now k s" "find_key cr now k (s\<lparr>sv_decryptors := ds\<rparr>) = find_key cr now k s"
  by (simp_all add: find_key_def split: option.splits)

text \<open>A server that decrypts under a stored key with the decrypter \<open>d\<close>.\<close>

definition decrypts_with :: "crypto \<Rightarrow> decap_key \<Rightarrow> string \<Rightarrow> gotime \<Rightarrow> decrypter \<Rightarrow> srv \<Rightarrow> bool" where
  "decrypts_with cr dk kid now d s \<longleftrightarrow> metrics_ok (sv_metrics s) \<and>
     find_key cr now kid s = Ok (Some (key_of cr dk)) \<and> gm_get (sv_decryptors s) (dk_Level dk) = Some d"

lemma decrypt_first:
  assumes c: "open_encrypted cr (dk_Level dk) (dk_Bytes dk) c = Ok (str_bytes txt)" "int64_ok (en_CreatedAt c)" "0 < en_CreatedAt c"
    and kid: "valid_utf8 kid"
    and u: "decrypts_with cr dk kid (hr_Now q) d u" "de_level d = dk_Level dk" "de_maxAge d = defaultMaxAge"
      "gm_get (de_seen d) (bytes_str (en_KEMCiphertext c)) = None"
    and now: "en_CreatedAt c \<le> time_Unix (hr_Now q) + 60" "hr_Now q - en_CreatedAt c * Second \<le> defaultMaxAge"
  shows "\<exists>t. handleDecrypt cr (json_body [(''key_id'', JStr kid), (''encrypted'', enc_encrypted c)] q) u =
      (Answer (reply StatusOK (json_obj [(''plaintext'', JStr txt), (''verified'', JBool True)])), t) \<and>
    gm_get (sv_decryptors t) (dk_Level dk) = Some (remember (bytes_str (en_KEMCiphertext c)) d)"
proof -
  have "fresh_enough (de_maxAge d) (hr_Now q) (en_CreatedAt c)"
    using now c(3) u(3) by (simp add: fresh_enough_iff defaultMaxAge_def)
  then have "hy_Decrypt cr (dk_Bytes dk) (Some c) (hr_Now q) d = (Ok (str_bytes txt), remember (bytes_str (en_KEMCiphertext c)) d)"
    using hy_Decrypt_opened [of cr d "dk_Bytes dk" c] c(1) u by simp
  then show ?thesis
    using decrypt_runs [OF decrypt_request_back [OF kid c(2)], of cr q u dk d "Ok (str_bytes txt)"] u(1)
    by (fastforce simp: decrypts_with_def)
qed

lemma decrypt_later:
  assumes c: "open_encrypted cr (dk_Level dk) (dk_Bytes dk) c = Ok p" "int64_ok (en_CreatedAt c)" and kid: "valid_utf8 kid"
    and d: "cache_inv d" "de_level d = dk_Level dk" "gm_get (de_seen d) (bytes_str (en_KEMCiphertext c)) = None"
    and v: "decrypts_with cr dk kid (hr_Now q) (fold (decrypt_step cr) xs (remember (bytes_str (en_KEMCiphertext c)) d)) v"
      "length xs < 50000"
  shows "\<exists>t. handleDecrypt cr (json_body [(''key_id'', JStr kid), (''encrypted'', enc_encrypted c)] q) v =
    (Answer (reply_error StatusBadRequest ''Decryption failed''), t)"
proof -
  let ?k = "bytes_str (en_KEMCiphertext c)"
  let ?d = "fold (decrypt_step cr) xs (remember ?k d)"
  have "de_level ?d = dk_Level dk"
    using decrypting.run_ext [OF remember_spec(1) [OF d(1,3)], of cr xs] remember_spec(3) [OF d(1,3)] d(2) by simp
  then have "hy_Decrypt cr (dk_Bytes dk) (Some c) (hr_Now q) ?d = (Err HyDecryptionFailed, ?d)"
    using hy_Decrypt_opened [of cr ?d "dk_Bytes dk" c] remembered_run [OF d(1,3) v(2), of cr] c(1) by simp
  then show ?thesis
    using decrypt_runs [OF decrypt_request_back [OF kid c(2)], of cr q v dk ?d "Err HyDecryptionFailed"] v(1)
    by (fastforce simp: decrypts_with_def)
qed

text \<open>C23. A text encrypted for a stored key by \<open>/encrypt\<close> can be decrypted once. The answer contains an
  \<open>encrypted\<close> object, and the handler changes nothing but the randomness, the counters and the audit log.
  In any later state of the server that still has the key, whose decrypter for the level has any
  consistent replay cache (empty, partly filled, or full, so that the call evicts half of it) without this
  KEM ciphertext, sending the object to \<open>/decrypt\<close> within the freshness window gives the text back. From
  then on, in any state whose decrypter has meanwhile answered fewer than 50000 other calls, sending it
  again, at any time, is refused. (Every decrypter the code makes has a consistent cache, as
  \<open>hybrid_cache_bound\<close> shows; after 50000 accepted calls a ciphertext may be evicted.)\<close>

theorem encrypt_decrypt_once:
  assumes laws: "kem_correct cr" "gcm_correct cr" and dk: "dk_ok dk" "sv_encLevel s = dk_Level dk"
    and kid: "valid_utf8 kid" "kid \<noteq> []" and plain: "valid_utf8 txt"
    and s: "metrics_ok (sv_metrics s)" "find_key cr (hr_Now r) kid s = Ok (Some (key_of cr dk))"
    and enc: "handleEncrypt cr (json_body [(''key_id'', JStr kid), (''plaintext'', JStr txt)] r) s = (Answer resp, s1)"
      "rs_Code resp = StatusOK"
    and now: "0 < time_Unix (hr_Now r)" "hr_Now r < 2 ^ 63"
  shows "\<exists>c ans e mt l. rs_Body resp = JsonBody (json_obj ((''encrypted'', enc_encrypted c) # ans)) \<and>
    hy_Encrypt cr (dk_Level dk) (ek_Bytes (dk_EncapsulationKey cr dk)) (str_bytes txt) (hr_Now r) (sv_rand s) = Ok (c, e) \<and>
    s1 = s\<lparr>sv_rand := e, sv_metrics := mt, sv_audit := l\<rparr> \<and> metrics_ok mt \<and>
    (\<forall>u d q. decrypts_with cr dk kid (hr_Now q) d u \<and>
        cache_inv d \<and> de_level d = dk_Level dk \<and> de_maxAge d = defaultMaxAge \<and>
        gm_get (de_seen d) (bytes_str (en_KEMCiphertext c)) = None \<and>
        time_Unix (hr_Now r) \<le> time_Unix (hr_Now q) + 60 \<and> hr_Now q - time_Unix (hr_Now r) * Second \<le> defaultMaxAge \<longrightarrow>
      (\<exists>t d1. handleDecrypt cr (json_body [(''key_id'', JStr kid), (''encrypted'', enc_encrypted c)] q) u =
          (Answer (reply StatusOK (json_obj [(''plaintext'', JStr txt), (''verified'', JBool True)])), t) \<and>
        gm_get (sv_decryptors t) (dk_Level dk) = Some d1 \<and>
        (\<forall>v q' xs. decrypts_with cr dk kid (hr_Now q') (fold (decrypt_step cr) xs d1) v \<and> length xs < 50000 \<longrightarrow>
          (\<exists>t'. handleDecrypt cr (json_body [(''key_id'', JStr kid), (''encrypted'', enc_encrypted c)] q') v =
            (Answer (reply_error StatusBadRequest ''Decryption failed''), t')))))"
proof -
  let ?r = "json_body [(''key_id'', JStr kid), (''plaintext'', JStr txt)] r"
  have req: "dec_encrypt_request ?r = Some \<lparr>eq_KeyID = kid, eq_PublicKey = [], eq_Plaintext = txt\<rparr>"
    using kid(1) plain by (simp add: dec_encrypt_request_def body_obj_json get_field_def valid_utf8_def)
  have found: "find_key cr (hr_Now ?r) kid s = Ok (Some (key_of cr dk))" using s(2) by simp
  obtain c e where c: "hy_Encrypt cr (dk_Level dk) (ek_Bytes (dk_EncapsulationKey cr dk)) (str_bytes txt) (hr_Now r) (sv_rand s) = Ok (c, e)"
    using encrypt_ok_code [OF enc req kid(2) found] dk(2) by (auto simp: key_of_def)
  then have c': "hy_Encrypt cr (sv_encLevel s) (ek_Bytes (dk_EncapsulationKey cr dk)) (str_bytes txt) (hr_Now ?r) (sv_rand s) = Ok (c, e)"
    using dk(2) by simp
  obtain ans mt l where resp: "resp = reply StatusOK (json_obj ((''encrypted'', enc_encrypted c) # ans))"
    and s1: "s1 = s\<lparr>sv_rand := e, sv_metrics := mt, sv_audit := l\<rparr>" "metrics_ok mt"
    using encrypt_runs [OF req kid(2) found s(1) c'] enc(1) by auto
  note opens = hy_Encrypt_open [OF laws dk(1) c]
  have created: "int64_ok (en_CreatedAt c)" using opens(2) now by (simp add: int64_ok_def time_Unix_def)
  show ?thesis
  proof (intro exI [of _ c] exI [of _ ans] exI [of _ e] exI [of _ mt] exI [of _ l] conjI allI impI; (elim conjE)?)
    show "rs_Body resp = JsonBody (json_obj ((''encrypted'', enc_encrypted c) # ans))" using resp by (simp add: reply_def)
  next
    fix u d and q :: api_request
    let ?d1 = "remember (bytes_str (en_KEMCiphertext c)) d"
    assume u: "decrypts_with cr dk kid (hr_Now q) d u" and d: "cache_inv d" "de_level d = dk_Level dk" "de_maxAge d = defaultMaxAge"
      "gm_get (de_seen d) (bytes_str (en_KEMCiphertext c)) = None"
      and t: "time_Unix (hr_Now r) \<le> time_Unix (hr_Now q) + 60" "hr_Now q - time_Unix (hr_Now r) * Second \<le> defaultMaxAge"
    note later = decrypt_later [OF opens(1) created kid(1) d(1,2,4)]
    show "\<exists>t d1. handleDecrypt cr (json_body [(''key_id'', JStr kid), (''encrypted'', enc_encrypted c)] q) u =
          (Answer (reply StatusOK (json_obj [(''plaintext'', JStr txt), (''verified'', JBool True)])), t) \<and>
        gm_get (sv_decryptors t) (dk_Level dk) = Some d1 \<and>
        (\<forall>v q' xs. decrypts_with cr dk kid (hr_Now q') (fold (decrypt_step cr) xs d1) v \<and> length xs < 50000 \<longrightarrow>
          (\<exists>t'. handleDecrypt cr (json_body [(''key_id'', JStr kid), (''encrypted'', enc_encrypted c)] q') v =
            (Answer (reply_error StatusBadRequest ''Decryption failed''), t')))"
      using decrypt_first [OF opens(1) created _ kid(1) u d(2-4)] opens(2) now(1) t later by (auto simp only:) blast
  qed (use s1 c in simp_all)
qed

section \<open>A concrete server with a key\<close>

definition demo_dk :: decap_key where
  "demo_dk = DK768 (replicate 64 1)"

definition key_server :: srv where
  "key_server = demo_server\<lparr>sv_keypairs := [(''a'', key_of toy_crypto demo_dk)]\<rparr>"

lemma demo_dk_ok [simp]: "dk_ok demo_dk" "dk_Level demo_dk = 768"
  by (simp_all add: demo_dk_def dk_ok_def)

lemma key_server_sel [simp]:
  "find_key cr now ''a'' key_server = Ok (Some (key_of toy_crypto demo_dk))" "metrics_ok (sv_metrics key_server)"
  "sv_ks demo_server = None" "sv_ks key_server = None" "metrics_ok (sv_metrics demo_server)" "sv_encLevel key_server = 768"
  "sv_rand key_server = replicate 200 1" "gm_get (sv_decryptors key_server) 768 = Some (NewDecrypter 768)"
  by (simp_all add: key_server_def demo_server_def fresh_server_def find_key_def)

theorem export_import_witness:
  "\<exists>envelope s' ans t'.
    handleKeyExport toy_crypto (json_body [(''password'', JStr ''pw'')] (demo_request ''POST'' [] []\<lparr>hr_PathValue := [(''key_id'', ''a'')]\<rparr>))
      key_server = (Answer (reply StatusOK envelope), s') \<and>
    handleKeyImport toy_crypto (json_body [(''key_id'', JStr ''b''), (''password'', JStr ''pw''), (''wrapped'', envelope)] (demo_request ''POST'' [] []))
      demo_server = (Answer (reply StatusOK ans), t') \<and>
    find_key toy_crypto 0 ''b'' t' = Ok (Some (key_of toy_crypto demo_dk))"
  by (rule export_import) (simp_all add: path_value_def isValidUserID_def id_char_def)

text \<open>A decrypter whose cache is full.\<close>

definition full_decrypter :: decrypter where
  "full_decrypter =
     (let ks = map (\<lambda>n. replicate (100 + n) CHR ''x'') [0..<seenCacheMax]
      in \<lparr>de_level = 768, de_maxAge = defaultMaxAge, de_seen = map (\<lambda>k. (k, ())) ks, de_seenSeq = ks\<rparr>)"

lemma full_decrypter_facts:
  "cache_inv full_decrypter" "length (de_seen full_decrypter) = seenCacheMax" "de_level full_decrypter = 768"
  "de_maxAge full_decrypter = defaultMaxAge" "length k < 100 \<Longrightarrow> gm_get (de_seen full_decrypter) k = None"
proof -
  let ?ks = "map (\<lambda>n. replicate (100 + n) CHR ''x'') [0..<seenCacheMax]"
  have dist: "distinct ?ks" by (auto simp: distinct_map inj_on_def dest: arg_cong [where f = length])
  have get: "gm_get (map (\<lambda>k. (k, ())) ks) k \<noteq> None \<longleftrightarrow> k \<in> set ks" for ks :: "string list" and k
    by (induction ks) auto
  have fst: "map fst (map (\<lambda>k. (k, ())) ks) = ks" for ks :: "string list" by (induction ks) auto
  show "cache_inv full_decrypter" using dist get [of ?ks]
    by (simp add: cache_inv_def full_decrypter_def Let_def gm_ok_def fst del: map_map)
  show "gm_get (de_seen full_decrypter) k = None" if "length k < 100"
  proof -
    have "k \<notin> set ?ks" using that by auto
    then show ?thesis using get [of ?ks k] unfolding full_decrypter_def Let_def decrypter.simps by blast
  qed
qed (simp_all add: full_decrypter_def Let_def)

text \<open>On a server whose cache is full, the first decryption gives the text back although it evicts half
  of the cache, and after another (failing) call the same object is refused.\<close>

theorem encrypt_decrypt_once_witness:
  "\<exists>resp s1 c ans t d1 t'. length (de_seen full_decrypter) = seenCacheMax \<and>
    handleEncrypt toy_crypto (json_body [(''key_id'', JStr ''a''), (''plaintext'', JStr ''hi'')] (demo_request ''POST'' [] [])) key_server =
      (Answer resp, s1) \<and> rs_Body resp = JsonBody (json_obj ((''encrypted'', enc_encrypted c) # ans)) \<and>
    handleDecrypt toy_crypto (json_body [(''key_id'', JStr ''a''), (''encrypted'', enc_encrypted c)] (demo_request ''POST'' [] []))
        (s1\<lparr>sv_decryptors := [(768, full_decrypter)]\<rparr>) =
      (Answer (reply StatusOK (json_obj [(''plaintext'', JStr ''hi''), (''verified'', JBool True)])), t) \<and>
    gm_get (sv_decryptors t) 768 = Some d1 \<and>
    handleDecrypt toy_crypto (json_body [(''key_id'', JStr ''a''), (''encrypted'', enc_encrypted c)] (demo_request ''POST'' [] []))
        (s1\<lparr>sv_decryptors := [(768, decrypt_step toy_crypto ([], None, 0) d1)]\<rparr>) =
      (Answer (reply_error StatusBadRequest ''Decryption failed''), t')"
proof -
  let ?q = "demo_request ''POST'' [] []"
  let ?r = "json_body [(''key_id'', JStr ''a''), (''plaintext'', JStr ''hi'')] ?q"
  have utf8: "valid_utf8 ''a''" "valid_utf8 ''hi''" by (simp_all add: valid_ascii code_def)
  have req: "dec_encrypt_request ?r = Some \<lparr>eq_KeyID = ''a'', eq_PublicKey = [], eq_Plaintext = ''hi''\<rparr>"
    using utf8 by (simp add: dec_encrypt_request_def body_obj_json get_field_def valid_utf8_def)
  have "is_ok (hy_Encrypt toy_crypto 768 (ek_Bytes (dk_EncapsulationKey toy_crypto demo_dk)) (str_bytes ''hi'') (hr_Now ?q) (replicate 200 1))"
    by (simp add: demo_dk_def hy_Encrypt_def kem_ParseEncapsulationKey_def kem_Encapsulate_def rand_read_def toy_crypto_def
        keySize_def nonceSize_def aes_key_ok_def Let_def)
  then obtain enc e where enc: "hy_Encrypt toy_crypto (sv_encLevel key_server) (ek_Bytes (dk_EncapsulationKey toy_crypto demo_dk))
      (str_bytes ''hi'') (hr_Now ?r) (sv_rand key_server) = Ok (enc, e)"
    by (auto simp: is_ok_iff)
  obtain resp s1 where run: "handleEncrypt toy_crypto ?r key_server = (Answer resp, s1)" "rs_Code resp = StatusOK"
    using encrypt_runs [OF req _ _ _ enc] by auto
  have pre: "sv_encLevel key_server = dk_Level demo_dk" "''a'' \<noteq> []" "metrics_ok (sv_metrics key_server)"
    "find_key toy_crypto (hr_Now ?q) ''a'' key_server = Ok (Some (key_of toy_crypto demo_dk))"
    "0 < time_Unix (hr_Now ?q)" "hr_Now ?q < 2 ^ 63" "time_Unix (hr_Now ?q) \<le> time_Unix (hr_Now ?q) + 60"
    "hr_Now ?q - time_Unix (hr_Now ?q) * Second \<le> defaultMaxAge"
    by (simp_all add: demo_request_def time_Unix_def defaultMaxAge_def)
  show ?thesis
    using encrypt_decrypt_once [OF toy_kem_correct toy_gcm_correct demo_dk_ok(1) pre(1) utf8(1) pre(2) utf8(2) pre(3,4) run pre(5,6)]
  proof (elim exE conjE, goal_cases)
    case (1 c ans e' mt l)
    have "length (en_KEMCiphertext c) = 32"
      using 1(2) by (auto simp: demo_dk_def hy_Encrypt_def kem_ParseEncapsulationKey_def kem_Encapsulate_def rand_read_def
          toy_crypto_def keySize_def nonceSize_def aes_key_ok_def Let_def)
    then have new: "gm_get (de_seen full_decrypter) (bytes_str (en_KEMCiphertext c)) = None"
      by (intro full_decrypter_facts(5)) (simp add: bytes_str_def)
    have ready: "decrypts_with toy_crypto demo_dk ''a'' (hr_Now ?q) d (s1\<lparr>sv_decryptors := [(768, d)]\<rparr>)" for d
      using pre(4) 1(3,4) by (simp add: decrypts_with_def find_key_upd)
    obtain t d1 where t: "handleDecrypt toy_crypto (json_body [(''key_id'', JStr ''a''), (''encrypted'', enc_encrypted c)] ?q)
        (s1\<lparr>sv_decryptors := [(768, full_decrypter)]\<rparr>) =
        (Answer (reply StatusOK (json_obj [(''plaintext'', JStr ''hi''), (''verified'', JBool True)])), t)"
      "gm_get (sv_decryptors t) 768 = Some d1" and
      later: "\<forall>v q' xs. decrypts_with toy_crypto demo_dk ''a'' (hr_Now q') (fold (decrypt_step toy_crypto) xs d1) v \<and> length xs < 50000 \<longrightarrow>
          (\<exists>t'. handleDecrypt toy_crypto (json_body [(''key_id'', JStr ''a''), (''encrypted'', enc_encrypted c)] q') v =
            (Answer (reply_error StatusBadRequest ''Decryption failed''), t'))"
      using 1(5) ready [of full_decrypter] new full_decrypter_facts(1,3,4) pre(7,8) by (auto simp only: demo_dk_ok(2)) blast
    obtain t' where "handleDecrypt toy_crypto (json_body [(''key_id'', JStr ''a''), (''encrypted'', enc_encrypted c)] ?q)
        (s1\<lparr>sv_decryptors := [(768, decrypt_step toy_crypto ([], None, 0) d1)]\<rparr>) =
        (Answer (reply_error StatusBadRequest ''Decryption failed''), t')"
      using later ready [of "fold (decrypt_step toy_crypto) [([], None, 0)] d1"] by fastforce
    then show ?case using run(1) 1(1) t full_decrypter_facts(2) by blast
  qed
qed

end
