(* ===== verification/ServerFindings.thy ===== *)
theory ServerFindings
  imports ServerFlows
begin

text \<open>
  Requests on which the server does not do what it means to, or not what its documentation says: panics that
  a request body can cause, a verification that accepts nothing, a lifetime that wraps around.
\<close>

lemma b64_dec_Nil [simp]: "b64_decode e [] = Some []"
  using b64_roundtrip [of e "[]"] by simp

section \<open>Panics\<close>

lemma import_nonce_panics:
  assumes "dec_import_request r = Some req" "isValidUserID (iq_KeyID req)" "iq_Password req \<noteq> []" "ev_Version (iq_Wrapped req) = 1"
    and "b64std_dec (ev_Salt (iq_Wrapped req)) = Some salt" "16 \<le> length salt" "b64std_dec (ev_Nonce (iq_Wrapped req)) = Some nonce"
    and "length nonce \<noteq> 12" "b64std_dec (ev_WrappedKey (iq_Wrapped req)) = Some w" "hash_sizes cr"
  shows "handleKeyImport cr r s = (Crash, s)"
proof -
  have "salt \<noteq> []" "iq_KeyID req \<noteq> []" using assms(2,6) by (auto simp: isValidUserID_def)
  then show ?thesis
    using assms by (simp add: handleKeyImport_def DeriveArgon2id_def attempt_def crash_def)
qed

text \<open>The verification of a bundle is public: anybody can make it panic with a partial signature that lacks a field.\<close>

lemma threshold_verify_panics:
  "handleThresholdVerify cr (json_body
     [(''message'', JStr ''m''), (''authorised'', JObj [(''partials'', JArr [JObj []])])] q) s = (Crash, s)"
proof -
  have "sanitize ''message'' = ''message''" "sanitize ''authorised'' = ''authorised''" "sanitize ''partials'' = ''partials''"
    "sanitize ''m'' = ''m''"
    by (simp_all add: sanitize_ascii code_def)
  then have "dec_th_verify_request (json_body [(''message'', JStr ''m''), (''authorised'', JObj [(''partials'', JArr [JObj []])])] q) =
      Some \<lparr>yq_Message = ''m'', yq_Auth = Some [(''partials'', JArr [JObj []])], yq_Trusted = []\<rparr>"
    by (simp add: dec_th_verify_request_def body_obj_json get_field_def fold_name_def fold_code_def map_field_def obj_field_def
        strings_field_def merge_members_def)
  then show ?thesis
    by (simp add: handleThresholdVerify_def attempt_def authFromMap_def member_def partial_from_def merge_members_def
        crash_def Let_def)
qed

text \<open>Shards whose values differ in length do the same to a reconstruction.\<close>

lemma reconstruct_handler_panics:
  assumes "dec_reconstruct_request r = Some (reqs, k)" "those (map to_shard reqs) = Some rcv"
    and "1 \<le> k" "k \<le> int (length rcv)" "distinct (map sh_index rcv)" "0 \<notin> sh_index ` set rcv"
    and "x \<in> set (take (nat k) rcv)" "length (sh_value x) < length (sh_value (hd rcv))"
  shows "handleVaultReconstruct cr r s = (Crash, s)"
proof -
  have "rcv \<noteq> []" using assms(7) by auto
  then have "reqs \<noteq> []" using assms(2) by auto
  then show ?thesis
    using assms(1,2) vault_reconstruct_panics [OF assms(3-8)]
    by (simp add: handleVaultReconstruct_def attempt_def crash_def)
qed

section \<open>Keys of the larger level\<close>

text \<open>\<open>/keys/generate\<close> offers ML-KEM-1024, but the server encrypts with ML-KEM-768 only: a stored key of the
  larger level cannot be encrypted for.\<close>

lemma encrypt_needs_768:
  assumes "dec_encrypt_request r = Some req" "eq_KeyID req \<noteq> []" "find_key cr (hr_Now r) (eq_KeyID req) s = Ok (Some key)"
    and "sv_encLevel s = 768" "\<not> mlkem_ek_ok cr 768 (mk_EK key)"
  shows "handleEncrypt cr r s = (Answer (reply_error StatusBadRequest ''Encryption failed''), s)"
proof -
  have "encrypt_key cr r req s = (Next (mk_EK key), s)"
    using assms(2,3) by (simp add: encrypt_key_def lookupKey_def and_then_def asks_def attempt_def give_def)
  then show ?thesis
    using assms(1,4,5)
    by (simp add: handleEncrypt_def and_then_def [of "encrypt_key _ _ _"] and_then_def [of "asks _"] asks_def attempt_def
        hy_Encrypt_def kem_ParseEncapsulationKey_def refuse_def)
qed

section \<open>Verification of an empty bundle\<close>

text \<open>A bundle without signatures and with a threshold of 0 is reported as valid for its message.\<close>

lemma threshold_verify_empty:
  assumes "metrics_ok (sv_metrics s)"
    and "dec_th_verify_request r = Some \<lparr>yq_Message = msg, yq_Auth = Some [(''msg_digest'', JStr (b64std (sha256 cr (str_bytes msg))))],
      yq_Trusted = []\<rparr>" "msg \<noteq> []"
  shows "fst (handleThresholdVerify cr r s) = Answer (reply StatusOK (json_obj [(''valid'', JBool True), (''threshold'', JInt 0)]))"
proof -
  obtain m where "counter_Inc ''qs_crypto_verify_total'' (sv_metrics s) = Some m"
    using counter_Inc_ok [OF assms(1), of "''qs_crypto_verify_total''"] by auto
  then show ?thesis
    using assms(2,3)
    by (simp add: handleThresholdVerify_def attempt_def authFromMap_def member_def and_then_def inc_def f64_int_def
        th_Verify_def ok_json_def answer_def)
qed

section \<open>Lifetimes\<close>

text \<open>Only \<open>/ca/sign\<close> bounds \<open>ttl_days\<close> from above; an intermediate asked to live for 106752 days gets a
  lifetime that has wrapped around.\<close>

lemma ttl_wraps: "days_ttl 106751 > 0" "days_ttl 106752 < 0"
  by (simp_all add: days_ttl_def int64_def)

section \<open>Label values\<close>

text \<open>The path label of the metrics is not bounded: every sequence of known segments is its own label.\<close>

lemma split_known: "list_all (\<lambda>p. CHR ''/'' \<notin> set p) ps \<Longrightarrow> ps \<noteq> [] \<Longrightarrow> split_on CHR ''/'' (join_with ''/'' ps) = ps"
proof (induction ps rule: induct_list012)
  case (3 p q ps)
  then show ?case by (simp add: split_on_append)
qed (simp_all add: split_on_no_sep)

lemma metrics_paths_unbounded:
  "normalizeAPIPath (join_with ''/'' ([] # replicate n ''keys'')) = join_with ''/'' ([] # replicate n ''keys'')"
proof -
  have "split_on CHR ''/'' (join_with ''/'' ([] # replicate n ''keys'')) = [] # replicate n ''keys''"
    by (rule split_known) (simp_all add: list_all_iff)
  then show ?thesis by (simp add: normalizeAPIPath_def knownAPISegment_def)
qed

section \<open>Followers\<close>

text \<open>The options' documentation promises a redirect with status 307; a follower answers 503.\<close>

lemma follower_answers_503:
  assumes "\<not> isLeader r s"
  shows "\<exists>resp. requireLeader r s = (Answer resp, s) \<and> rs_Code resp = StatusServiceUnavailable"
  using assms by (simp add: requireLeader_def refuse_def)

end
