(* ===== verification/ServerMain.thy ===== *)
theory ServerMain
  imports ServerInvariant
begin

text \<open>
  The processes around the server: the structured log lines of \<open>pkg/logger/logger.go\<close>, start-up and shutdown
  in \<open>cmd/server/main.go\<close>, and the probe \<open>cmd/healthcheck/main.go\<close>. A run of the server process is the list
  of what it does; the libraries (TLS, Raft, the listener, the signals) answer through the environment. The
  requests of the run are one entry of the list, and the lines \<open>RequestLogger\<close> writes for them are not part
  of it.
\<close>

section \<open>Log lines\<close>

datatype log_level = LvlDebug | LvlInfo | LvlWarn | LvlError

fun severity :: "log_level \<Rightarrow> int" where
  "severity LvlDebug = - 4"
| "severity LvlInfo = 0"
| "severity LvlWarn = 4"
| "severity LvlError = 8"

definition logger_New :: "(string, string) gomap \<Rightarrow> log_level" where
  "logger_New env =
     (let v = getenv env ''LOG_LEVEL'' in
      if v = ''DEBUG'' then LvlDebug else if v = ''WARN'' then LvlWarn else if v = ''ERROR'' then LvlError else LvlInfo)"

definition log_enabled :: "log_level \<Rightarrow> log_level \<Rightarrow> bool" where
  "log_enabled lvl l \<longleftrightarrow> severity lvl \<le> severity l"

definition remoteIP :: "string \<Rightarrow> string" where
  "remoteIP addr = (case last_index (CHR '':'') addr of None \<Rightarrow> addr | Some i \<Rightarrow> take i addr)"

record log_line =
  ll_method :: string
  ll_path :: string
  ll_status :: int
  ll_latency_ms :: int
  ll_remote_ip :: string
  ll_bytes_out :: nat

text \<open>The line is written when the handler has returned; a handler that panics leaves none. \<open>wire\<close> is the
  text of an answer.\<close>

definition RequestLogger ::
    "log_level \<Rightarrow> (response \<Rightarrow> string) \<Rightarrow> ('r, 's) handler \<Rightarrow> 'r request_scheme \<Rightarrow> headers \<Rightarrow> 's \<Rightarrow>
       ((headers \<times> response) option \<times> 's) \<times> log_line list" where
  "RequestLogger lvl wire nxt r w s =
     (case nxt r w s of
        (None, s') \<Rightarrow> ((None, s'), [])
      | (Some (w', resp), s') \<Rightarrow>
          ((Some (w', resp), s'),
           if log_enabled lvl LvlInfo
           then [\<lparr>ll_method = hr_Method r, ll_path = hr_Path r, ll_status = rs_Code resp,
                  ll_latency_ms = hr_Took r div 1000000, ll_remote_ip = remoteIP (hr_RemoteAddr r),
                  ll_bytes_out = length (wire resp)\<rparr>]
           else []))"

section \<open>TLS\<close>

record x509_template =
  xt_Serial :: int
  xt_CommonName :: string
  xt_NotBefore :: gotime
  xt_NotAfter :: gotime
  xt_KeyUsage :: string
  xt_ExtKeyUsage :: string
  xt_DNSNames :: "string list"

record tls_lib =
  tl_LoadX509KeyPair :: "string \<Rightarrow> string \<Rightarrow> string + bytes"
  tl_GenerateKey :: "string + bytes"
  tl_Serial :: int
  tl_CreateCertificate :: "x509_template \<Rightarrow> bytes \<Rightarrow> string + bytes"
  tl_X509KeyPair :: "bytes \<Rightarrow> bytes \<Rightarrow> string + bytes"
  tl_ReadFile :: "string \<Rightarrow> string + string"
  tl_AppendCerts :: "string \<Rightarrow> bool"

datatype tls_error =
    TlsLoadPair string | TlsSelfSigned string | TlsNoCertificate | TlsReadCA string string | TlsNoCACerts string

record tls_config =
  tc_MinVersion :: int
  tc_CipherSuites :: "int list"
  tc_Certificate :: bytes
  tc_ClientCAs :: "string option"
  tc_RequireClientCert :: bool

abbreviation VersionTLS12 :: int where "VersionTLS12 \<equiv> 0x0303"
abbreviation VersionTLS13 :: int where "VersionTLS13 \<equiv> 0x0304"

text \<open>The suites with their numbers: ECDHE with ECDSA or RSA, AES-256-GCM or ChaCha20-Poly1305.\<close>

definition cipher_suites :: "int list" where
  "cipher_suites = [0xC02C, 0xC030, 0xCCA9, 0xCCA8]"

definition generateSelfSigned :: "tls_lib \<Rightarrow> gotime \<Rightarrow> string + bytes" where
  "generateSelfSigned lib now =
     (case tl_GenerateKey lib of
        Inl err \<Rightarrow> Inl (''generate key: '' @ err)
      | Inr pk \<Rightarrow>
          (let tmpl = \<lparr>xt_Serial = tl_Serial lib, xt_CommonName = ''QuantumShield (dev self-signed)'',
                 xt_NotBefore = now - Minute, xt_NotAfter = now + 90 * 24 * Hour,
                 xt_KeyUsage = ''DigitalSignature'', xt_ExtKeyUsage = ''ServerAuth'', xt_DNSNames = []\<rparr> in
           case tl_CreateCertificate lib tmpl pk of
             Inl err \<Rightarrow> Inl (''create cert: '' @ err)
           | Inr cert \<Rightarrow> tl_X509KeyPair lib cert pk))"

definition tls_certificate :: "tls_lib \<Rightarrow> gotime \<Rightarrow> string \<Rightarrow> string \<Rightarrow> bool \<Rightarrow> (tls_error, bytes) result" where
  "tls_certificate lib now certFile keyFile autoSelf =
     (if certFile \<noteq> [] \<and> keyFile \<noteq> [] then
        (case tl_LoadX509KeyPair lib certFile keyFile of Inl err \<Rightarrow> Err (TlsLoadPair err) | Inr cert \<Rightarrow> Ok cert)
      else if autoSelf then
        (case generateSelfSigned lib now of Inl err \<Rightarrow> Err (TlsSelfSigned err) | Inr cert \<Rightarrow> Ok cert)
      else Err TlsNoCertificate)"

definition buildTLSConfig ::
    "(string, string) gomap \<Rightarrow> tls_lib \<Rightarrow> gotime \<Rightarrow> string \<Rightarrow> string \<Rightarrow> string \<Rightarrow> bool \<Rightarrow> (tls_error, tls_config) result" where
  "buildTLSConfig env lib now certFile keyFile clientCAFile autoSelf =
     (let minVersion = (if getenv env ''TLS_MIN_VERSION'' = ''1.2'' then VersionTLS12 else VersionTLS13) in
      case tls_certificate lib now certFile keyFile autoSelf of
        Err er \<Rightarrow> Err er
      | Panic \<Rightarrow> Panic
      | Ok cert \<Rightarrow>
          (let cfg = \<lparr>tc_MinVersion = minVersion, tc_CipherSuites = cipher_suites, tc_Certificate = cert,
                 tc_ClientCAs = None, tc_RequireClientCert = False\<rparr> in
           if clientCAFile = [] then Ok cfg
           else case tl_ReadFile lib clientCAFile of
             Inl err \<Rightarrow> Err (TlsReadCA clientCAFile err)
           | Inr caPEM \<Rightarrow>
               (if \<not> tl_AppendCerts lib caPEM then Err (TlsNoCACerts clientCAFile)
                else Ok (cfg\<lparr>tc_ClientCAs := Some caPEM, tc_RequireClientCert := True\<rparr>))))"

definition tlsVersionLabel :: "(string, string) gomap \<Rightarrow> string" where
  "tlsVersionLabel env = (if getenv env ''TLS_MIN_VERSION'' = ''1.2'' then ''1.2+'' else ''1.3'')"

section \<open>The cluster node\<close>

datatype main_event =
    NodeUp node_config | Waited duration | NodeDown | Printed string | Logged log_level string "(string \<times> string) list"
  | Listening string "tls_config option" | Served "srv_event list" | Drained duration | ClusterDown | Closed srv
  | Exited int

record main_env =
  me_env :: "(string, string) gomap"
  me_now :: gotime
  me_disk :: disk
  me_files :: files
  me_rand :: entropy
  me_hostname :: string
  me_node :: node_env
  me_boot :: "(string \<times> string) list \<Rightarrow> boot_outcome"
  me_polls :: "nat \<Rightarrow> gotime \<times> string"
  me_tls :: tls_lib
  me_events :: "srv_event list"
  me_serveErr :: "string option"
  me_drainErr :: "string option"
  me_shutdown :: "string option \<times> string option \<times> string option"
  me_version :: string
  me_buildTime :: string

datatype start_error = StartNode node_error | StartBootstrap node_error | StartLeader node_error

definition or_default :: "string \<Rightarrow> string \<Rightarrow> string" where
  "or_default v d = (if v = [] then d else v)"

definition main_node_config :: "main_env \<Rightarrow> node_config" where
  "main_node_config m =
     \<lparr>nc_NodeID = or_default (getenv (me_env m) ''QS_CLUSTER_NODE_ID'') (me_hostname m),
      nc_BindAddr = or_default (getenv (me_env m) ''QS_CLUSTER_BIND_ADDR'') ''127.0.0.1:7000'',
      nc_DataDir = or_default (getenv (me_env m) ''QS_CLUSTER_DATA_DIR'') ''./data/raft'',
      nc_Bootstrap = False, nc_ApplyTimeout = 0, nc_HeartbeatTimeout = 0, nc_ElectionTimeout = 0,
      nc_LeaderLeaseTimeout = 0, nc_SnapshotInterval = 0, nc_SnapshotThreshold = 0\<rparr>"

text \<open>The result, with what was done; \<open>None\<close> when the wait for a leader does not end.\<close>

definition startCluster :: "main_env \<Rightarrow> ((start_error, node \<times> string) result \<times> main_event list) option" where
  "startCluster m =
     (let env = me_env m; httpAddr = getenv env ''QS_CLUSTER_HTTP_ADDR''; cfg = main_node_config m in
      case fst (NewNode (me_node m) cfg (Some NewFSM)) of
        Err er \<Rightarrow> Some (Err (StartNode er), [])
      | Panic \<Rightarrow> Some (Panic, [])
      | Ok n \<Rightarrow>
          (if getenv env ''QS_CLUSTER_BOOTSTRAP'' = ''true'' then
             (case node_Bootstrap (me_boot m) n of
                Err er \<Rightarrow> Some (Err (StartBootstrap er), [NodeUp cfg, NodeDown])
              | Panic \<Rightarrow> Some (Panic, [NodeUp cfg])
              | Ok _ \<Rightarrow>
                  (case WaitForLeader (me_polls m) (me_now m) (10 * Second) of
                     None \<Rightarrow> None
                   | Some (Err er) \<Rightarrow> Some (Err (StartLeader er), [NodeUp cfg, NodeDown])
                   | Some Panic \<Rightarrow> Some (Panic, [NodeUp cfg])
                   | Some (Ok _) \<Rightarrow> Some (Ok (n, httpAddr), [NodeUp cfg])))
           else if getenv env ''QS_CLUSTER_JOIN_ADDR'' \<noteq> [] then Some (Ok (n, httpAddr), [NodeUp cfg, Waited 500000000])
           else Some (Ok (n, httpAddr), [NodeUp cfg])))"

section \<open>The server process\<close>

definition tlsEnabled :: "(string, string) gomap \<Rightarrow> bool" where
  "tlsEnabled env \<longleftrightarrow>
     getenv env ''TLS_CERT_FILE'' \<noteq> [] \<and> getenv env ''TLS_KEY_FILE'' \<noteq> [] \<or> getenv env ''TLS_AUTO_SELF_SIGNED'' = ''true''"

definition listen_addr :: "(string, string) gomap \<Rightarrow> string" where
  "listen_addr env =
     (let addr = getenv env ''LISTEN_ADDR'' in
      if addr \<noteq> [] then addr else if tlsEnabled env then '':8443'' else '':8080'')"

definition log_at :: "main_env \<Rightarrow> log_level \<Rightarrow> string \<Rightarrow> (string \<times> string) list \<Rightarrow> main_event list" where
  "log_at m l msg kvs = (if log_enabled (logger_New (me_env m)) l then [Logged l msg kvs] else [])"

definition die :: "main_env \<Rightarrow> string \<Rightarrow> main_event list" where
  "die m msg = log_at m LvlError msg [] @ [Exited 1]"

abbreviation (input) mid_dot :: string where "mid_dot \<equiv> [CHR 0xC2, CHR 0xB7]"
abbreviation (input) bullet :: string where "bullet \<equiv> [CHR 0xE2, CHR 0x80, CHR 0xA2]"
abbreviation (input) em_dash :: string where "em_dash \<equiv> [CHR 0xE2, CHR 0x80, CHR 0x94]"

definition start_banner :: "main_env \<Rightarrow> bool \<Rightarrow> main_event list" where
  "start_banner m clustered =
     (let env = me_env m;
          proto = (if tlsEnabled env then
              ''HTTPS '' @ mid_dot @ '' TLS '' @ tlsVersionLabel env @
              (if getenv env ''TLS_CLIENT_CA_FILE'' \<noteq> [] then '' '' @ mid_dot @ '' mTLS'' else []) @
              (if getenv env ''TLS_AUTO_SELF_SIGNED'' = ''true'' then '' '' @ mid_dot @ '' self-signed'' else [])
            else ''HTTP (plain '' @ em_dash @ '' dev only)'');
          clusterMode = (if clustered then ''cluster node='' @ getenv env ''QS_CLUSTER_NODE_ID'' @ '' bind='' @ getenv env ''QS_CLUSTER_BIND_ADDR''
            else ''standalone'') in
      [Printed (''QuantumShield '' @ me_version m @ ''  '' @ bullet @ ''  built '' @ me_buildTime m @ nl),
       Printed (''Algorithms : ML-KEM-768 '' @ mid_dot @ '' ML-DSA-65 '' @ mid_dot @ '' SLH-DSA '' @ mid_dot @ '' AES-256-GCM'' @ nl)] @
      log_at m LvlInfo ''server starting'' [(''addr'', listen_addr env), (''proto'', proto), (''mode'', clusterMode)])"

text \<open>After the signal: the HTTP server first, then the cluster node, then the resources of the API.\<close>

definition shut_down :: "main_env \<Rightarrow> bool \<Rightarrow> srv \<Rightarrow> main_event list" where
  "shut_down m clustered s =
     log_at m LvlInfo (''shutdown signal received '' @ em_dash @ '' draining connections'') [(''timeout_s'', ''30'')] @
     [Drained (30 * Second)] @
     (if me_drainErr m \<noteq> None then log_at m LvlError ''HTTP drain failed'' [] else []) @
     (if clustered then
        [ClusterDown] @
        (case me_shutdown m of (raftErr, tmErr, boltErr) \<Rightarrow>
           if is_ok (node_Shutdown raftErr tmErr boltErr) then [] else log_at m LvlError ''cluster shutdown error'' [])
      else []) @
     [Closed (srv_Close s)] @ log_at m LvlInfo ''server stopped cleanly'' [] @ [Exited 0]"

definition run_server :: "crypto \<Rightarrow> main_env \<Rightarrow> bool \<Rightarrow> tls_config option \<Rightarrow> srv \<Rightarrow> main_event list" where
  "run_server cr m clustered tls s =
     start_banner m clustered @ [Listening (listen_addr (me_env m)) tls, Served (me_events m)] @
     (if me_serveErr m \<noteq> None then die m ''server failed''
      else shut_down m clustered (fold (srv_step cr) (me_events m) s))"

definition main_tls :: "main_env \<Rightarrow> (tls_error, tls_config option) result" where
  "main_tls m =
     (let env = me_env m in
      if \<not> tlsEnabled env then Ok None
      else map_result id Some (buildTLSConfig env (me_tls m) (me_now m) (getenv env ''TLS_CERT_FILE'') (getenv env ''TLS_KEY_FILE'')
        (getenv env ''TLS_CLIENT_CA_FILE'') (getenv env ''TLS_AUTO_SELF_SIGNED'' = ''true'')))"

text \<open>From the cluster node on; a panic ends a Go program with the code 2.\<close>

definition start_api :: "crypto \<Rightarrow> main_env \<Rightarrow> (node \<times> string) option \<Rightarrow> main_event list" where
  "start_api cr m np =
     (let opts = (case np of None \<Rightarrow> [] | Some (n, httpAddr) \<Rightarrow> [ClusterNodeOption n httpAddr]) in
      case srv_New cr (me_disk m) (me_env m) opts (me_now m) (me_files m) (me_rand m) of
        Err _ \<Rightarrow> die m ''failed to initialise server''
      | Panic \<Rightarrow> [Exited 2]
      | Ok s \<Rightarrow>
          (case main_tls m of
             Err _ \<Rightarrow> die m ''TLS configuration failed''
           | Panic \<Rightarrow> [Exited 2]
           | Ok tls \<Rightarrow> run_server cr m (np \<noteq> None) tls s))"

definition server_main :: "crypto \<Rightarrow> main_env \<Rightarrow> main_event list option" where
  "server_main cr m =
     (if getenv (me_env m) ''QS_CLUSTER_ENABLED'' = ''true'' then
        (case startCluster m of
           None \<Rightarrow> None
         | Some (Err _, evs) \<Rightarrow> Some (evs @ die m ''cluster init failed'')
         | Some (Panic, evs) \<Rightarrow> Some (evs @ [Exited 2])
         | Some (Ok np, evs) \<Rightarrow> Some (evs @ start_api cr m (Some np)))
      else Some (start_api cr m None))"

section \<open>The probe\<close>

definition health_url :: "(string, string) gomap \<Rightarrow> string" where
  "health_url env =
     (let url = getenv env ''HEALTH_URL'' in
      if url \<noteq> [] then url
      else (let addr = getenv env ''LISTEN_ADDR'';
                port = (if addr = [] then ''8080'' else or_default (last (split_on (CHR '':'') addr)) ''8080'') in
            ''http://localhost:'' @ port @ ''/health/live''))"

text \<open>\<open>fetch\<close> gives the status of the answer, or \<open>None\<close> when there is none.\<close>

definition healthcheck :: "(string, string) gomap \<Rightarrow> (string \<Rightarrow> int option) \<Rightarrow> int" where
  "healthcheck env fetch =
     (case fetch (health_url env) of None \<Rightarrow> 1 | Some status \<Rightarrow> if status \<noteq> StatusOK then 1 else 0)"

section \<open>Runs of the process\<close>

fun lifecycle :: "main_event \<Rightarrow> bool" where
  "lifecycle (Printed _) = False"
| "lifecycle (Logged _ _ _) = False"
| "lifecycle (Exited _) = False"
| "lifecycle (Waited _) = False"
| "lifecycle _ = True"

lemma log_at_facts [simp]:
  "filter lifecycle (log_at m l msg kvs) = []" "Exited n \<notin> set (log_at m l msg kvs)"
  "filter lifecycle (start_banner m b) = []" "Exited n \<notin> set (start_banner m b)"
  "filter lifecycle (die m msg) = []" "Exited 0 \<notin> set (die m msg)"
  by (simp_all add: log_at_def start_banner_def die_def Let_def)

lemma srv_Close_closed [simp]: "sv_closed (srv_Close s)"
  by (simp add: srv_Close_def)

lemma shut_down_order:
  "filter lifecycle (shut_down m b s) = [Drained (30 * Second)] @ (if b then [ClusterDown] else []) @ [Closed (srv_Close s)]"
  by (simp add: shut_down_def split: prod.split)

lemma start_api_order:
  assumes "Exited 0 \<in> set (start_api cr m np)"
  shows "\<exists>opts s0 tls. srv_New cr (me_disk m) (me_env m) opts (me_now m) (me_files m) (me_rand m) = Ok s0 \<and>
    (opts = [] \<longleftrightarrow> np = None) \<and> main_tls m = Ok tls \<and>
    filter lifecycle (start_api cr m np) =
      [Listening (listen_addr (me_env m)) tls, Served (me_events m), Drained (30 * Second)] @
      (if np \<noteq> None then [ClusterDown] else []) @ [Closed (srv_Close (fold (srv_step cr) (me_events m) s0))]"
  using assms
  by (cases np) (auto simp: start_api_def run_server_def shut_down_order Let_def split: result.splits if_splits)

lemma startCluster_order:
  assumes "startCluster m = Some (r, evs)"
  shows "Exited n \<notin> set evs" "is_ok r \<Longrightarrow> filter lifecycle evs = [NodeUp (main_node_config m)]"
  using assms by (auto simp: startCluster_def Let_def split: result.splits option.splits if_splits)

text \<open>C33. The life of the server process that ends well: with clustering the Raft node comes up first, then the
  server listens at the address of \<open>LISTEN_ADDR\<close> or the default port, with exactly the TLS configuration that
  was built, and serves every request on the state \<open>New\<close> made. After the signal the HTTP connections are drained before the cluster node goes down, and the
  cluster node goes down before the resources of the API are closed.\<close>

theorem main_lifecycle:
  assumes "server_main cr m = Some evs" and "Exited 0 \<in> set evs"
  shows "\<exists>opts s0 tls. srv_New cr (me_disk m) (me_env m) opts (me_now m) (me_files m) (me_rand m) = Ok s0 \<and>
    (opts = [] \<longleftrightarrow> getenv (me_env m) ''QS_CLUSTER_ENABLED'' \<noteq> ''true'') \<and> main_tls m = Ok tls \<and>
    filter lifecycle evs =
      (if getenv (me_env m) ''QS_CLUSTER_ENABLED'' = ''true'' then [NodeUp (main_node_config m)] else []) @
      [Listening (listen_addr (me_env m)) tls, Served (me_events m), Drained (30 * Second)] @
      (if getenv (me_env m) ''QS_CLUSTER_ENABLED'' = ''true'' then [ClusterDown] else []) @
      [Closed (srv_Close (fold (srv_step cr) (me_events m) s0))]"
proof (cases "getenv (me_env m) ''QS_CLUSTER_ENABLED'' = ''true''")
  case True
  then obtain r evs1 where r: "startCluster m = Some (r, evs1)" using assms(1) by (auto simp: server_main_def split: option.splits)
  show ?thesis
  proof (cases r)
    case (Ok np)
    then have "evs = evs1 @ start_api cr m (Some np)" using True r assms(1) by (simp add: server_main_def)
    then show ?thesis
      using True Ok startCluster_order [OF r] start_api_order [of cr m "Some np"] assms(2) by auto
  qed (use True r assms startCluster_order [OF r] in \<open>auto simp: server_main_def\<close>)
next
  case False
  then show ?thesis using assms start_api_order [of cr m None] by (simp add: server_main_def)
qed

definition demo_main :: main_env where
  "demo_main =
     \<lparr>me_env = [(''QS_CLUSTER_ENABLED'', ''true''), (''LISTEN_ADDR'', '':9000'')], me_now = 5, me_disk = DiskOk, me_files = [],
      me_rand = replicate 200 1, me_hostname = ''node-1'',
      me_node = \<lparr>env_mkdir = True, env_resolve = True, env_transport = True, env_bolt = True, env_snapstore = True, env_raft = (\<lambda>_. True)\<rparr>,
      me_boot = (\<lambda>_. BootOk), me_polls = (\<lambda>i. (0, [])),
      me_tls = \<lparr>tl_LoadX509KeyPair = (\<lambda>_ _. Inl []), tl_GenerateKey = Inl [], tl_Serial = 0, tl_CreateCertificate = (\<lambda>_ _. Inl []),
        tl_X509KeyPair = (\<lambda>_ _. Inl []), tl_ReadFile = (\<lambda>_. Inl []), tl_AppendCerts = (\<lambda>_. False)\<rparr>,
      me_events = [CleanState 9], me_serveErr = None, me_drainErr = None, me_shutdown = (None, None, None),
      me_version = ''dev'', me_buildTime = ''unknown''\<rparr>"

theorem main_lifecycle_witness:
  "\<exists>evs s0. server_main toy_crypto demo_main = Some evs \<and>
     filter lifecycle evs =
       [NodeUp (main_node_config demo_main), Listening '':9000'' None, Served [CleanState 9], Drained (30 * Second), ClusterDown,
        Closed (srv_Close (stateCleanup 9 s0))]"
proof -
  obtain mt where mt: "server_metrics 5 = Some mt"
    using registration_ok [of 5] by (auto simp: server_metrics_def)
  have new: "is_ok (srv_New toy_crypto DiskOk (me_env demo_main) opts 5 [] (replicate 200 1))" if "opts = [ClusterNodeOption n a]" for opts n a
    using mt by (simp add: that srv_New_def NewAuthority_def NewLogger_def dsa_GenerateKey_def dsa_schemeFor_def rand_read_def
        toy_keys getenv_def open_keystore_def open_caStore_def secretFromEnv_def fresh_server_def demo_main_def Let_def)
  obtain np where up: "startCluster demo_main = Some (Ok np, [NodeUp (main_node_config demo_main)])"
    by (simp add: startCluster_def demo_main_def NewNode_def main_node_config_def applyDefaults_def raft_conf_def or_default_def
        getenv_def Let_def)
  have on: "getenv (me_env demo_main) ''QS_CLUSTER_ENABLED'' = ''true''" by (simp add: demo_main_def getenv_def)
  have addr: "listen_addr (me_env demo_main) = '':9000''" "main_tls demo_main = Ok None" "me_events demo_main = [CleanState 9]"
    "me_serveErr demo_main = None" "me_disk demo_main = DiskOk" "me_now demo_main = 5" "me_files demo_main = []"
    "me_rand demo_main = replicate 200 1"
    by (simp_all add: listen_addr_def main_tls_def tlsEnabled_def demo_main_def getenv_def)
  obtain s0 where "srv_New toy_crypto DiskOk (me_env demo_main) [ClusterNodeOption (fst np) (snd np)] 5 [] (replicate 200 1) = Ok s0"
    using new [OF refl, of "fst np" "snd np"] by (auto simp: is_ok_iff)
  then have "Exited 0 \<in> set (start_api toy_crypto demo_main (Some np))"
    by (simp add: start_api_def addr case_prod_unfold run_server_def shut_down_def)
  then show ?thesis
    using main_lifecycle [of toy_crypto demo_main] by (auto simp: server_main_def up on addr)
qed

text \<open>What is known about the TLS configuration: there is one exactly when TLS is enabled, it never accepts
  less than TLS 1.2, it accepts 1.2 only on request, and with a client CA it requires a client certificate.
  The case without a certificate, which \<open>buildTLSConfig\<close> refuses, does not arise.\<close>

lemma main_tls_secure:
  assumes "main_tls m = Ok tls"
  shows "tls = None \<longleftrightarrow> \<not> tlsEnabled (me_env m)"
    and "tls = Some cfg \<Longrightarrow> VersionTLS12 \<le> tc_MinVersion cfg \<and>
      (getenv (me_env m) ''TLS_MIN_VERSION'' \<noteq> ''1.2'' \<longrightarrow> tc_MinVersion cfg = VersionTLS13) \<and>
      (tc_RequireClientCert cfg \<longleftrightarrow> getenv (me_env m) ''TLS_CLIENT_CA_FILE'' \<noteq> [])"
  using assms
  by (auto simp: main_tls_def buildTLSConfig_def Let_def split: if_splits result.splits sum.splits)

lemma main_tls_certificate: "main_tls m \<noteq> Err TlsNoCertificate"
  by (auto simp: main_tls_def buildTLSConfig_def tls_certificate_def tlsEnabled_def Let_def
      split: if_splits result.splits sum.splits)

text \<open>One of the two files is not enough: the server then listens without TLS, and a client CA is ignored.\<close>

lemma half_tls_is_plain:
  assumes "getenv (me_env m) ''TLS_KEY_FILE'' = []" "getenv (me_env m) ''TLS_AUTO_SELF_SIGNED'' \<noteq> ''true''"
  shows "main_tls m = Ok None"
  using assms by (simp add: main_tls_def tlsEnabled_def)

text \<open>Without \<open>LISTEN_ADDR\<close> a server with TLS listens on port 8443, and the probe asks port 8080; with it, the
  probe still speaks plain HTTP.\<close>

lemma probe_misses_tls:
  assumes "tlsEnabled env" "getenv env ''LISTEN_ADDR'' = []" "getenv env ''HEALTH_URL'' = []"
  shows "listen_addr env = '':8443''" "health_url env = ''http://localhost:8080/health/live''"
  using assms by (simp_all add: listen_addr_def health_url_def Let_def)

lemma probe_is_plain: "getenv env ''HEALTH_URL'' = [] \<Longrightarrow> take 7 (health_url env) = ''http://''"
  by (simp add: health_url_def Let_def)

text \<open>A failure after the cluster node is up ends the process without shutting the node down.\<close>

lemma failed_start_leaves_node:
  assumes "getenv (me_env m) ''QS_CLUSTER_ENABLED'' = ''true''" "startCluster m = Some (Ok np, evs)"
    and "srv_New cr (me_disk m) (me_env m) [ClusterNodeOption (fst np) (snd np)] (me_now m) (me_files m) (me_rand m) = Err er"
  shows "\<exists>rest. server_main cr m = Some (evs @ rest) \<and> filter lifecycle rest = [] \<and> Exited 1 \<in> set rest"
  using assms by (cases np) (simp add: server_main_def start_api_def, simp add: die_def)

text \<open>A line of the request log depends on nothing of the request but its method, path and address: the
  headers, the query and the body are not logged.\<close>

lemma log_ignores_secrets:
  assumes "nxt r w s = (Some (w1, resp), s1)" "nxt' (r\<lparr>hr_Header := h, hr_Body := b\<rparr>) w' s' = (Some (w2, resp), s2)"
  shows "snd (RequestLogger lvl wire nxt' (r\<lparr>hr_Header := h, hr_Body := b\<rparr>) w' s') = snd (RequestLogger lvl wire nxt r w s)"
  using assms by (simp add: RequestLogger_def)

text \<open>The start returns: the wait for a leader ends, since each of its polls takes time.\<close>

lemma server_main_returns:
  assumes "\<And>i. fst (me_polls m (Suc i)) \<ge> fst (me_polls m i) + 25000000"
  shows "server_main cr m \<noteq> None"
proof -
  obtain n where n: "fst (me_polls m n) \<ge> me_now m + 10 * Second" "\<And>j. j < n \<Longrightarrow> fst (me_polls m j) < me_now m + 10 * Second"
    using polls_stop [of "me_polls m" "me_now m + 10 * Second"] assms by blast
  have "WaitForLeader (me_polls m) (me_now m) (10 * Second) \<noteq> None"
    using wait_loop_steps [of "me_now m + 10 * Second" "me_polls m" 0 n "10 * Second"] n
    by (simp add: WaitForLeader_def split: option.splits)
  then show ?thesis
    by (auto simp: server_main_def startCluster_def Let_def split: option.splits result.splits)
qed

end
