(* ===== verification/Flags.thy ===== *)
theory Flags
  imports Json Float64
begin

text \<open>
  What the command-line programs use of Go's packages \<open>flag\<close> and \<open>time\<close>: the parser of a flag set and the
  parser of durations.
\<close>

section \<open>Package flag\<close>

text \<open>A flag set lists the names of its flags, with \<open>True\<close> for a boolean one. The text that \<open>flag\<close> prints about
  an error is left out.\<close>

type_synonym flag_set = "(string \<times> bool) list"
type_synonym flag_values = "(string, string) gomap"

datatype flag_outcome = Parsed flag_values "string list" | HelpAsked | BadFlag

definition ParseBool :: "string \<Rightarrow> bool option" where
  "ParseBool s =
     (if s \<in> set [''1'', ''t'', ''T'', ''true'', ''TRUE'', ''True''] then Some True
      else if s \<in> set [''0'', ''f'', ''F'', ''false'', ''FALSE'', ''False''] then Some False
      else None)"

definition split_flag :: "string \<Rightarrow> string \<times> string option" where
  "split_flag body =
     (let name = takeWhile (\<lambda>c. c \<noteq> CHR ''='') body in
      (name, if length name < length body then Some (drop (Suc (length name)) body) else None))"

text \<open>Parsing stops at the first argument that is not a flag, or after \<open>--\<close>.\<close>

fun parse_flags :: "flag_set \<Rightarrow> flag_values \<Rightarrow> string list \<Rightarrow> flag_outcome" where
  "parse_flags fs m [] = Parsed m []"
| "parse_flags fs m (s # args) =
     (if length s < 2 \<or> hd s \<noteq> CHR ''-'' then Parsed m (s # args)
      else if s = ''--'' then Parsed m args
      else (let body = (if take 2 s = ''--'' then drop 2 s else tl s) in
        if hd body \<in> set ''-='' then BadFlag
        else (let (name, val) = split_flag body in
          case map_of fs name of
            None \<Rightarrow> if name = ''help'' \<or> name = ''h'' then HelpAsked else BadFlag
          | Some True \<Rightarrow>
              (case val of
                 None \<Rightarrow> parse_flags fs (gm_put name ''true'' m) args
               | Some v \<Rightarrow>
                   (case ParseBool v of
                      None \<Rightarrow> BadFlag
                    | Some b \<Rightarrow> parse_flags fs (gm_put name (if b then ''true'' else ''false'') m) args))
          | Some False \<Rightarrow>
              (case val of
                 Some v \<Rightarrow> parse_flags fs (gm_put name v m) args
               | None \<Rightarrow> (case args of [] \<Rightarrow> BadFlag | v # rest \<Rightarrow> parse_flags fs (gm_put name v m) rest)))))"

definition flag_value :: "flag_values \<Rightarrow> string \<Rightarrow> string \<Rightarrow> string" where
  "flag_value m name dflt = (case gm_get m name of None \<Rightarrow> dflt | Some v \<Rightarrow> v)"

section \<open>time.ParseDuration\<close>

text \<open>The digits at the front, refused above 2^63, and the digits of a fraction, cut off where they no
  longer fit, with their number.\<close>

definition digit :: "char \<Rightarrow> nat" where
  "digit c = code c - 48"

fun leadingInt :: "nat \<Rightarrow> string \<Rightarrow> (nat \<times> string) option" where
  "leadingInt x [] = Some (x, [])"
| "leadingInt x (c # s) =
     (if \<not> is_digit c then Some (x, c # s)
      else if x > 2 ^ 63 div 10 then None
      else let y = x * 10 + digit c in if y > 2 ^ 63 then None else leadingInt y s)"

fun leadingFraction :: "nat \<Rightarrow> nat \<Rightarrow> bool \<Rightarrow> string \<Rightarrow> nat \<times> nat \<times> string" where
  "leadingFraction x k over [] = (x, k, [])"
| "leadingFraction x k over (c # s) =
     (if \<not> is_digit c then (x, k, c # s)
      else if over \<or> x > (2 ^ 63 - 1) div 10 then leadingFraction x k True s
      else let y = x * 10 + digit c in
        if y > 2 ^ 63 then leadingFraction x k True s else leadingFraction y (Suc k) False s)"

definition unitMap :: "(string \<times> nat) list" where
  "unitMap = [(''ns'', 1), (''us'', 1000), ([CHR 0xC2, CHR 0xB5, CHR ''s''], 1000), ([CHR 0xCE, CHR 0xBC, CHR ''s''], 1000),
     (''ms'', 1000000), (''s'', 1000000000), (''m'', 60000000000), (''h'', 3600000000000)]"

fun f64_rat :: "float64 \<Rightarrow> rat" where
  "f64_rat (Fin q) = q"
| "f64_rat _ = 0"

text \<open>A number and its unit, in nanoseconds; the fraction goes through \<open>float64\<close>.\<close>

definition dur_item :: "string \<Rightarrow> (nat \<times> string) option" where
  "dur_item s =
     (case leadingInt 0 s of
        None \<Rightarrow> None
      | Some (v, s1) \<Rightarrow>
          (let (f, k, s2) = (if take 1 s1 = ''.'' then leadingFraction 0 0 False (tl s1) else (0, 0, s1));
               post = (take 1 s1 = ''.'' \<and> s2 \<noteq> tl s1);
               u = takeWhile (\<lambda>c. c \<noteq> CHR ''.'' \<and> \<not> is_digit c) s2 in
           if s1 = s \<and> \<not> post then None
           else case map_of unitMap u of
             None \<Rightarrow> None
           | Some unit \<Rightarrow>
               (if v > 2 ^ 63 div unit then None
                else let v1 = v * unit + (if f = 0 then 0 else nat \<lfloor>f64_rat (f64_of (f64_rat (f64_of_int (int f)) *
                         f64_rat (f64_of (of_nat unit / 10 ^ k))))\<rfloor>) in
                  if v1 > 2 ^ 63 then None else Some (v1, drop (length u) s2))))"

fun dur_items :: "nat \<Rightarrow> nat \<Rightarrow> string \<Rightarrow> nat option" where
  "dur_items fuel d [] = Some d"
| "dur_items 0 d (c # s) = None"
| "dur_items (Suc fuel) d (c # s) =
     (if c \<noteq> CHR ''.'' \<and> \<not> is_digit c then None
      else case dur_item (c # s) of
        None \<Rightarrow> None
      | Some (v, rest) \<Rightarrow> if d + v > 2 ^ 63 then None else dur_items fuel (d + v) rest)"

definition ParseDuration :: "string \<Rightarrow> duration option" where
  "ParseDuration s =
     (let neg = (take 1 s = ''-''); s1 = (if take 1 s = ''-'' \<or> take 1 s = ''+'' then tl s else s) in
      if s1 = ''0'' then Some 0
      else if s1 = [] then None
      else case dur_items (length s1) 0 s1 of
        None \<Rightarrow> None
      | Some d \<Rightarrow> if neg then Some (- int d) else if d > 2 ^ 63 - 1 then None else Some (int d))"

text \<open>Every item is at least one character long, so the length of the text is enough fuel.\<close>

lemma leadingInt_length: "leadingInt x s = Some (v, r) \<Longrightarrow> length r \<le> length s"
  by (induction x s rule: leadingInt.induct) (auto simp: Let_def split: if_splits)

lemma leadingFraction_length: "leadingFraction x k ov s = (v, n, r) \<Longrightarrow> length r \<le> length s"
  by (induction x k ov s rule: leadingFraction.induct) (auto simp: Let_def split: if_splits)

lemma unit_not_Nil: "map_of unitMap u = Some n \<Longrightarrow> u \<noteq> []"
  by (auto simp: unitMap_def)

lemma dur_item_length:
  assumes "dur_item s = Some (v, r)"
  shows "length r < length s"
proof -
  obtain x s1 where s1: "leadingInt 0 s = Some (x, s1)" using assms by (auto simp: dur_item_def split: option.splits)
  obtain f k s2 where s2: "(if take 1 s1 = ''.'' then leadingFraction 0 0 False (tl s1) else (0, 0, s1)) = (f, k, s2)"
    using prod_cases3 by blast
  let ?u = "takeWhile (\<lambda>c. c \<noteq> CHR ''.'' \<and> \<not> is_digit c) s2"
  have "map_of unitMap ?u \<noteq> None" "r = drop (length ?u) s2"
    using assms s1 s2 by (auto simp: dur_item_def Let_def split: option.splits if_splits)
  moreover from this(1) have "?u \<noteq> []" using unit_not_Nil by blast
  moreover have "length ?u \<le> length s2" by (rule length_takeWhile_le)
  moreover have "length s2 \<le> length s1"
    using s2 leadingFraction_length [of 0 0 False "tl s1"] by (cases s1) (auto split: if_splits)
  moreover have "length s1 \<le> length s" using s1 by (rule leadingInt_length)
  moreover have "s2 \<noteq> []" using calculation(3) by auto
  ultimately show ?thesis by (cases ?u) auto
qed

lemma dur_items_fuel: "length s \<le> n \<Longrightarrow> dur_items (n + k) d s = dur_items n d s"
proof (induction n d s rule: dur_items.induct)
  case (3 fuel d c s)
  then show ?case
    using dur_item_length [of "c # s"] by (auto split: option.splits)
qed simp_all

lemma ParseDuration_examples:
  "ParseDuration ''8760h'' = Some (8760 * 3600 * Second)" "ParseDuration ''1h30m'' = Some (5400 * Second)"
  "ParseDuration ''5'' = None" "ParseDuration ''-2s'' = Some (- 2 * Second)" "ParseDuration [] = None"
  by (simp_all add: ParseDuration_def dur_item_def unitMap_def digit_def is_digit_def code_def Let_def)

end
