(* ===== verification/Cli.thy ===== *)
theory Cli
  imports ServerSessions Flags
begin

text \<open>
  The command-line client \<open>cmd/qs/main.go\<close>. A command is a program that prompts its environment: it sends
  a request and goes on with the answer, prints, or exits. \<open>run_cli\<close> runs a program against a server, which
  may be any function that keeps a state. What the libraries decide or write (the text of errors, how
  \<open>fmt\<close> prints a number, a map or a list, how \<open>http.NewRequest\<close> judges a URL, how a location is resolved and
  whether a URL names the host of another one or a subdomain of it) is part of the environment.
\<close>

section \<open>Programs\<close>

record cli_request =
  cq_Method :: string
  cq_URL :: string
  cq_Header :: headers
  cq_Body :: string

text \<open>An error, or a status with the header \<open>Location\<close> (empty when there is none) and the body.\<close>

datatype cli_answer = Failed string | Replied int string string

datatype prog = Exit int | Fetch cli_request "cli_answer \<Rightarrow> prog" | Out string prog | ErrOut string prog

record cli_env =
  ce_env :: "(string, string) gomap"
  ce_args :: "string list"
  ce_readFile :: "string \<Rightarrow> string + string"
  ce_stdin :: "string + string"
  ce_badURL :: "string \<Rightarrow> string option"
  ce_resolve :: "string \<Rightarrow> string \<Rightarrow> string option"
  ce_trusted :: "string \<Rightarrow> string \<Rightarrow> bool"
  ce_referer :: "string \<Rightarrow> string \<Rightarrow> string"
  ce_redirectErr :: "string \<Rightarrow> string \<Rightarrow> string"
  ce_decodeErr :: "string \<Rightarrow> string"
  ce_durationErr :: "string \<Rightarrow> string"
  ce_quote :: "string \<Rightarrow> string"
  ce_fmt_s :: "jval \<Rightarrow> string"
  ce_fmt_v :: "jval \<Rightarrow> string"
  ce_reprint :: "jval \<Rightarrow> jval"
  ce_version :: string

text \<open>A \<open>map[string]any\<close>, nil when the document is null.\<close>

type_synonym any_map = "(string \<times> jval) list option"

definition any_json :: "any_map \<Rightarrow> jval" where
  "any_json m = (case m of None \<Rightarrow> JNull | Some kvs \<Rightarrow> JObj (sort_key fst kvs))"

definition any_get :: "any_map \<Rightarrow> string \<Rightarrow> jval option" where
  "any_get m k = (case m of None \<Rightarrow> None | Some kvs \<Rightarrow> gm_get kvs k)"

definition any_str :: "any_map \<Rightarrow> string \<Rightarrow> string" where
  "any_str m k = (case any_get m k of Some (JStr s) \<Rightarrow> s | _ \<Rightarrow> [])"

text \<open>\<open>json.Unmarshal\<close> of a document into such a map.\<close>

definition decode_any :: "cli_env \<Rightarrow> string \<Rightarrow> any_map option" where
  "decode_any e raw =
     (case json_Unmarshal raw of
        Some JNull \<Rightarrow> Some None
      | Some (JObj kvs) \<Rightarrow>
          (if any_ok (JObj kvs)
           then Some (Some (merge_members (map (\<lambda>(k, v). (k, any_value (ce_reprint e) v)) kvs))) else None)
      | _ \<Rightarrow> None)"

text \<open>What \<open>%s\<close> and \<open>%v\<close> print for a value.\<close>

definition fmt_s :: "cli_env \<Rightarrow> jval option \<Rightarrow> string" where
  "fmt_s e v =
     (case v of
        Some (JStr s) \<Rightarrow> s
      | Some (JBool b) \<Rightarrow> ''%!s(bool='' @ (if b then ''true'' else ''false'') @ '')''
      | None \<Rightarrow> ''%!s(<nil>)''
      | Some JNull \<Rightarrow> ''%!s(<nil>)''
      | Some w \<Rightarrow> ce_fmt_s e w)"

definition fmt_v :: "cli_env \<Rightarrow> jval \<Rightarrow> string" where
  "fmt_v e v =
     (case v of
        JStr s \<Rightarrow> s
      | JBool b \<Rightarrow> (if b then ''true'' else ''false'')
      | w \<Rightarrow> ce_fmt_v e w)"

abbreviation (input) dots :: string where "dots \<equiv> [CHR 0xE2, CHR 0x80, CHR 0xA6]"
abbreviation (input) check_mark :: string where "check_mark \<equiv> [CHR 0xE2, CHR 0x9C, CHR 0x93]"
abbreviation (input) cross_mark :: string where "cross_mark \<equiv> [CHR 0xE2, CHR 0x9C, CHR 0x97]"

definition shorten :: "string \<Rightarrow> string" where
  "shorten s = (if length s > 64 then take 64 s @ dots else s)"

section \<open>The client\<close>

record client =
  cc_server :: string
  cc_token :: string
  cc_insecure :: bool
  cc_rawJSON :: bool

definition newClient :: "string \<Rightarrow> string \<Rightarrow> bool \<Rightarrow> bool \<Rightarrow> client" where
  "newClient server token insecure rawJSON =
     \<lparr>cc_server = trim_right_set server ''/'', cc_token = token, cc_insecure = insecure, cc_rawJSON = rawJSON\<rparr>"

definition envOr :: "cli_env \<Rightarrow> string \<Rightarrow> string \<Rightarrow> string" where
  "envOr e key fallback =
     (case gm_get (ce_env e) key of Some v \<Rightarrow> if v \<noteq> [] then v else fallback | None \<Rightarrow> fallback)"

definition fatalf :: "string \<Rightarrow> prog" where
  "fatalf msg = ErrOut (''qs: '' @ msg @ nl) (Exit 1)"

definition cli_headers :: "client \<Rightarrow> bool \<Rightarrow> headers" where
  "cli_headers c body =
     (let h = (if body then h_Set ''Content-Type'' ''application/json'' [] else []) in
      if cc_token c \<noteq> [] then h_Set ''Authorization'' (''Bearer '' @ cc_token c) h else h)"

definition cli_request_of :: "client \<Rightarrow> string \<Rightarrow> string \<Rightarrow> jval option \<Rightarrow> cli_request" where
  "cli_request_of c verb path body =
     \<lparr>cq_Method = verb, cq_URL = cc_server c @ path, cq_Header = cli_headers c (body \<noteq> None),
      cq_Body = (case body of None \<Rightarrow> [] | Some v \<Rightarrow> json_enc v @ nl)\<rparr>"

text \<open>
  \<open>http.Client\<close> without \<open>CheckRedirect\<close>: \<open>Do\<close> follows a redirection that has a \<open>Location\<close>, to whatever URL
  that names, and gives up instead of an eleventh request. After 301, 302 and 303 it goes on with \<open>GET\<close> (a
  \<open>HEAD\<close> stays) and without the body, after 307 and 308 with the same method and body. The header
  \<open>Authorization\<close> is dropped for good once a URL is neither on the host of the first one nor on a subdomain
  (\<open>ce_trusted\<close>); \<open>ce_resolve\<close> is \<open>Parse\<close> of the current URL on the location, \<open>ce_referer\<close> the \<open>Referer\<close> that is
  sent, and \<open>ce_redirectErr\<close> the text of the error when the location is bad or the tenth answer redirects.
\<close>

definition h_Del :: "string \<Rightarrow> headers \<Rightarrow> headers" where
  "h_Del k h = gm_del (CanonicalHeaderKey k) h"

definition redirectBehavior :: "string \<Rightarrow> int \<Rightarrow> (string \<times> bool) option" where
  "redirectBehavior verb status =
     (if status \<in> {301, 302, 303} then Some (if verb = ''GET'' \<or> verb = ''HEAD'' then verb else ''GET'', False)
      else if status \<in> {307, 308} then Some (verb, True)
      else None)"

definition next_hop :: "cli_env \<Rightarrow> string \<Rightarrow> cli_request \<Rightarrow> string \<Rightarrow> string \<Rightarrow> bool \<Rightarrow> cli_request" where
  "next_hop e first q u verb withBody =
     (let h = h_Del ''Referer'' (cq_Header q);
          h1 = (if ce_trusted e first u then h else h_Del ''Authorization'' h);
          ref = ce_referer e (cq_URL q) u
      in \<lparr>cq_Method = verb, cq_URL = u, cq_Header = (if ref = [] then h1 else h_Set ''Referer'' ref h1),
          cq_Body = (if withBody then cq_Body q else [])\<rparr>)"

text \<open>The number is that of the requests that may still follow this one.\<close>

fun http_Do :: "cli_env \<Rightarrow> nat \<Rightarrow> string \<Rightarrow> cli_request \<Rightarrow> (cli_answer \<Rightarrow> prog) \<Rightarrow> prog" where
  "http_Do e n first q k =
     Fetch q (\<lambda>a. case a of
       Failed err \<Rightarrow> k a
     | Replied status loc raw \<Rightarrow>
         (case redirectBehavior (cq_Method q) status of
            None \<Rightarrow> k a
          | Some (verb, withBody) \<Rightarrow>
              (if loc = [] then k a
               else case ce_resolve e (cq_URL q) loc of
                 None \<Rightarrow> k (Failed (''request failed: '' @ ce_redirectErr e (cq_URL q) loc))
               | Some u \<Rightarrow>
                   (case n of
                      0 \<Rightarrow> k (Failed (''request failed: '' @ ce_redirectErr e (cq_URL q) loc))
                    | Suc m \<Rightarrow> http_Do e m first (next_hop e first q u verb withBody) k))))"

declare http_Do.simps [simp del]

definition maxRedirects :: nat where
  "maxRedirects = 9"

text \<open>The answer \<open>Failed\<close> is an error of \<open>Do\<close> or of reading the body, with its text. A body the program builds
  can always be encoded. \<open>do\<close> ends with an error text, or with the map and the status code of the answer.\<close>

definition cli_do ::
    "cli_env \<Rightarrow> client \<Rightarrow> string \<Rightarrow> string \<Rightarrow> jval option \<Rightarrow> (string + any_map \<times> int \<Rightarrow> prog) \<Rightarrow> prog" where
  "cli_do e c verb path body k =
     (case ce_badURL e (cc_server c @ path) of
        Some err \<Rightarrow> k (Inl (''build request: '' @ err))
      | None \<Rightarrow>
          http_Do e maxRedirects (cc_server c @ path) (cli_request_of c verb path body)
            (\<lambda>a. case a of
               Failed err \<Rightarrow> k (Inl err)
             | Replied status loc raw \<Rightarrow>
                 (if raw = [] then k (Inr (None, status))
                  else case decode_any e raw of
                    None \<Rightarrow> k (Inl (''decode response (status='' @ dec_int status @ '' body='' @ raw @ ''): '' @ ce_decodeErr e raw))
                  | Some m \<Rightarrow> k (Inr (m, status)))))"

definition dieOnErr :: "string + 'a \<Rightarrow> ('a \<Rightarrow> prog) \<Rightarrow> prog" where
  "dieOnErr r k = (case r of Inl err \<Rightarrow> fatalf err | Inr x \<Rightarrow> k x)"

definition require2xx :: "int \<Rightarrow> any_map \<Rightarrow> string \<Rightarrow> prog \<Rightarrow> prog" where
  "require2xx status m what p =
     (if 200 \<le> status \<and> status < 300 then p
      else fatalf (what @ '': HTTP '' @ dec_int status @ '' '' @ [CHR 0xE2, CHR 0x80, CHR 0x94] @ '' '' @ any_str m ''error''))"

text \<open>The three calls every command makes in this order.\<close>

definition ask :: "cli_env \<Rightarrow> client \<Rightarrow> string \<Rightarrow> string \<Rightarrow> string \<Rightarrow> jval option \<Rightarrow> (any_map \<Rightarrow> prog) \<Rightarrow> prog" where
  "ask e c what verb path body k =
     cli_do e c verb path body (\<lambda>r. dieOnErr r (\<lambda>(m, status). require2xx status m what (k m)))"

definition cli_print :: "client \<Rightarrow> any_map \<Rightarrow> prog \<Rightarrow> prog" where
  "cli_print c m format = (if cc_rawJSON c then Out (json_indent (any_json m) @ nl) (Exit 0) else format)"

definition outs :: "string list \<Rightarrow> prog" where
  "outs ts = foldr (\<lambda>t p. Out (t @ nl) p) ts (Exit 0)"

text \<open>A command whose output is lines of text.\<close>

definition show_lines :: "client \<Rightarrow> (any_map \<Rightarrow> string list) \<Rightarrow> any_map \<Rightarrow> prog" where
  "show_lines c f m = cli_print c m (outs (f m))"

text \<open>The flags of a command; an error of the flag set ends the program with 2, a request for help with 0.\<close>

definition with_flags :: "flag_set \<Rightarrow> string list \<Rightarrow> (flag_values \<Rightarrow> string list \<Rightarrow> prog) \<Rightarrow> prog" where
  "with_flags fs args k =
     (case parse_flags fs [] args of Parsed m rest \<Rightarrow> k m rest | HelpAsked \<Rightarrow> Exit 0 | BadFlag \<Rightarrow> Exit 2)"

definition str_flags :: "string list \<Rightarrow> flag_set" where
  "str_flags names = map (\<lambda>n. (n, False)) names"

definition readArgOrStdin :: "cli_env \<Rightarrow> string list \<Rightarrow> string \<Rightarrow> (string \<Rightarrow> prog) \<Rightarrow> prog" where
  "readArgOrStdin e args what k =
     (case args of
        v # _ \<Rightarrow>
          (if has_prefix v ''@'' then
             (case ce_readFile e (tl v) of
                Inl err \<Rightarrow> fatalf (''read '' @ what @ '' file '' @ tl v @ '': '' @ err)
              | Inr b \<Rightarrow> k (trim_right_set b nl))
           else k v)
      | [] \<Rightarrow>
          (case ce_stdin e of
             Inl err \<Rightarrow> fatalf (''read '' @ what @ '' from stdin: '' @ err)
           | Inr b \<Rightarrow> k (trim_right_set b nl)))"

section \<open>The commands\<close>

abbreviation (input) long_dash :: string where "long_dash \<equiv> [CHR 0xE2, CHR 0x80, CHR 0x94]"
abbreviation (input) apos :: string where "apos \<equiv> [CHR 0x27]"

text \<open>A \<open>map[string]any\<close> literal as it is encoded: its members in the order of their names.\<close>

definition body_of :: "(string \<times> jval) list \<Rightarrow> jval option" where
  "body_of kvs = Some (JObj (sort_key fst kvs))"

definition as_any_map :: "jval \<Rightarrow> any_map option" where
  "as_any_map v = (case v of JObj kvs \<Rightarrow> Some (Some kvs) | _ \<Rightarrow> None)"

definition cmdHealth :: "cli_env \<Rightarrow> client \<Rightarrow> prog" where
  "cmdHealth e c =
     ask e c ''health'' ''GET'' ''/health/live'' None
       (show_lines c (\<lambda>d. [''status: '' @ any_str d ''status'']))"

definition cmdKeyGenerate :: "cli_env \<Rightarrow> client \<Rightarrow> string list \<Rightarrow> prog" where
  "cmdKeyGenerate e c args =
     with_flags (str_flags [''algorithm'', ''name'']) args (\<lambda>fl _.
       let algorithm = flag_value fl ''algorithm'' ''ML-KEM-768''; name = flag_value fl ''name'' [] in
       ask e c ''key generate'' ''POST'' ''/keys/generate''
         (body_of ((''algorithm'', JStr algorithm) # (if name \<noteq> [] then [(''key_id'', JStr name)] else [])))
         (show_lines c (\<lambda>d.
            [''key_id:    '' @ fmt_s e (any_get d ''key_id''), ''algorithm: '' @ fmt_s e (any_get d ''algorithm'')] @
            (case any_get d ''public_key'' of Some (JStr pk) \<Rightarrow> [''public_key: '' @ shorten pk] | _ \<Rightarrow> []))))"

definition any_count :: "any_map \<Rightarrow> string \<Rightarrow> int" where
  "any_count d k =
     (case Option.bind (any_get d k) as_float64 of None \<Rightarrow> 0 | Some x \<Rightarrow> f64_int x)"

definition cmdKeyList :: "cli_env \<Rightarrow> client \<Rightarrow> prog" where
  "cmdKeyList e c =
     ask e c ''key list'' ''GET'' ''/keys'' None
       (show_lines c (\<lambda>d.
          [''count:   '' @ dec_int (any_count d ''count''), ''backend: '' @ any_str d ''backend''] @
          (case any_get d ''keys'' of
             Some (JArr ks) \<Rightarrow> map (\<lambda>k. ''  - '' @ fmt_s e (Some k)) ks | _ \<Rightarrow> [])))"

definition cmdKey :: "cli_env \<Rightarrow> client \<Rightarrow> string list \<Rightarrow> prog" where
  "cmdKey e c args =
     (case args of
        [] \<Rightarrow> fatalf ''usage: qs key <generate|list>''
      | sub # rest \<Rightarrow>
          (if sub = ''generate'' then cmdKeyGenerate e c rest
           else if sub = ''list'' then cmdKeyList e c
           else fatalf (''unknown key sub-command '' @ ce_quote e sub)))"

definition cmdSign :: "cli_env \<Rightarrow> client \<Rightarrow> string list \<Rightarrow> prog" where
  "cmdSign e c args =
     with_flags (str_flags [''key'', ''algorithm'']) args (\<lambda>fl rest.
       let keyID = flag_value fl ''key'' []; algorithm = flag_value fl ''algorithm'' ''ML-DSA-65'' in
       if keyID = [] then fatalf ''sign: --key is required''
       else readArgOrStdin e rest ''message'' (\<lambda>msg.
         ask e c ''sign'' ''POST'' ''/sign''
           (body_of [(''key_id'', JStr keyID), (''algorithm'', JStr algorithm), (''message'', JStr msg)])
           (show_lines c (\<lambda>d.
              [''key_id:    '' @ fmt_s e (any_get d ''key_id''), ''algorithm: '' @ fmt_s e (any_get d ''algorithm''),
               ''signature: '' @ fmt_s e (any_get d ''signature'')]))))"

definition show_verdict :: "client \<Rightarrow> string \<Rightarrow> (any_map \<Rightarrow> string) \<Rightarrow> any_map \<Rightarrow> prog" where
  "show_verdict c good bad d =
     cli_print c d
       (if any_get d ''valid'' = Some (JBool True) then Out (check_mark @ good @ nl) (Exit 0)
        else ErrOut (cross_mark @ bad d @ nl) (Exit 1))"

definition cmdVerify :: "cli_env \<Rightarrow> client \<Rightarrow> string list \<Rightarrow> prog" where
  "cmdVerify e c args =
     with_flags (str_flags [''key'', ''sig'']) args (\<lambda>fl rest.
       let keyID = flag_value fl ''key'' []; sig = flag_value fl ''sig'' [] in
       if keyID = [] \<or> sig = [] then fatalf ''verify: --key and --sig are required''
       else readArgOrStdin e rest ''message'' (\<lambda>msg.
         ask e c ''verify'' ''POST'' ''/verify-signature''
           (body_of [(''key_id'', JStr keyID), (''message'', JStr msg), (''signature'', JStr sig)])
           (show_verdict c '' signature valid'' (\<lambda>_. '' signature INVALID''))))"

definition cmdEncrypt :: "cli_env \<Rightarrow> client \<Rightarrow> string list \<Rightarrow> prog" where
  "cmdEncrypt e c args =
     with_flags (str_flags [''key'']) args (\<lambda>fl rest.
       let keyID = flag_value fl ''key'' [] in
       if keyID = [] then fatalf ''encrypt: --key is required''
       else readArgOrStdin e rest ''data'' (\<lambda>plaintext.
         ask e c ''encrypt'' ''POST'' ''/encrypt''
           (body_of [(''key_id'', JStr keyID), (''plaintext'', JStr plaintext)])
           (show_lines c (\<lambda>d.
              (''ciphertext: '' @ fmt_s e (any_get d ''ciphertext'')) #
              (case any_get d ''ciphertext_type'' of Some (JStr ct) \<Rightarrow> [''type:       '' @ ct] | _ \<Rightarrow> [])))))"

definition cmdDecrypt :: "cli_env \<Rightarrow> client \<Rightarrow> string list \<Rightarrow> prog" where
  "cmdDecrypt e c args =
     with_flags (str_flags [''key'']) args (\<lambda>fl rest.
       let keyID = flag_value fl ''key'' [] in
       if keyID = [] then fatalf ''decrypt: --key is required''
       else readArgOrStdin e rest ''ciphertext'' (\<lambda>ciphertext.
         ask e c ''decrypt'' ''POST'' ''/decrypt''
           (body_of [(''key_id'', JStr keyID), (''ciphertext'', JStr ciphertext)])
           (show_lines c (\<lambda>d. [''plaintext: '' @ fmt_s e (any_get d ''plaintext'')]))))"

text \<open>\<open>printCert\<close>: the present members of a certificate, each label padded to twelve characters.\<close>

definition pad12 :: "string \<Rightarrow> string" where
  "pad12 label = label @ replicate (12 - length label) (CHR '' '')"

definition cert_labels :: "(string \<times> string) list" where
  "cert_labels =
     [(''serial'', ''serial''), (''subject'', ''subject''), (''issuer'', ''issuer''), (''algorithm'', ''algorithm''),
      (''public_key_type'', ''key_type''), (''is_ca'', ''is_ca''), (''not_before'', ''not_before''),
      (''not_after'', ''not_after''), (''version'', ''version'')]"

definition printCert :: "cli_env \<Rightarrow> any_map \<Rightarrow> string list" where
  "printCert e cert =
     concat (map (\<lambda>(k, label).
       case any_get cert k of
         None \<Rightarrow> []
       | Some v \<Rightarrow> if v = JNull then [] else [pad12 (label @ '':'') @ '' '' @ fmt_v e v]) cert_labels) @
     (case any_get cert ''signature'' of Some (JStr sg) \<Rightarrow> [pad12 ''signature:'' @ '' '' @ shorten sg] | _ \<Rightarrow> [])"

definition inner_cert :: "cli_env \<Rightarrow> any_map \<Rightarrow> string list" where
  "inner_cert e d =
     (case Option.bind (any_get d ''certificate'') as_any_map of None \<Rightarrow> printCert e d | Some cert \<Rightarrow> printCert e cert)"

definition cmdCAInit :: "cli_env \<Rightarrow> client \<Rightarrow> string list \<Rightarrow> prog" where
  "cmdCAInit e c args =
     with_flags (str_flags [''subject'']) args (\<lambda>fl _.
       let subject = flag_value fl ''subject'' [] in
       if subject = [] then fatalf ''ca init: --subject is required''
       else ask e c ''ca init'' ''POST'' ''/ca/init'' (body_of [(''subject'', JStr subject)])
         (show_lines c (inner_cert e)))"

definition ca_sign_key ::
    "cli_env \<Rightarrow> client \<Rightarrow> string \<Rightarrow> string \<Rightarrow> (string \<Rightarrow> prog) \<Rightarrow> prog" where
  "ca_sign_key e c publicKey keyID k =
     (if publicKey \<noteq> [] then k publicKey
      else if keyID \<noteq> [] then
        ask e c ''key/public'' ''GET'' (''/keys/'' @ keyID @ ''/public'') None (\<lambda>d.
          let pk = any_str d ''public_key'' in
          if pk = [] then fatalf (''ca sign: could not retrieve public key for '' @ keyID) else k pk)
      else fatalf ''ca sign: either --key or --public-key is required'')"

definition ca_sign_ttl :: "cli_env \<Rightarrow> string \<Rightarrow> ((string \<times> jval) list \<Rightarrow> prog) \<Rightarrow> prog" where
  "ca_sign_ttl e ttl k =
     (if ttl = [] then k []
      else case ParseDuration ttl of
        None \<Rightarrow> fatalf (''ca sign: invalid --ttl '' @ ce_quote e ttl @ '': '' @ ce_durationErr e ttl)
      | Some d \<Rightarrow> k [(''ttl_seconds'', JInt (f64_int (dur_Seconds d)))])"

definition cmdCASign :: "cli_env \<Rightarrow> client \<Rightarrow> string list \<Rightarrow> prog" where
  "cmdCASign e c args =
     with_flags (str_flags [''subject'', ''key'', ''key-type'', ''ttl'', ''public-key'']) args (\<lambda>fl _.
       let subject = flag_value fl ''subject'' []; keyType = flag_value fl ''key-type'' ''ML-KEM-768'' in
       if subject = [] then fatalf ''ca sign: --subject is required''
       else ca_sign_key e c (flag_value fl ''public-key'' []) (flag_value fl ''key'' []) (\<lambda>pk.
         ca_sign_ttl e (flag_value fl ''ttl'' []) (\<lambda>ttl.
           ask e c ''ca sign'' ''POST'' ''/ca/sign''
             (body_of ([(''subject'', JStr subject), (''public_key_type'', JStr keyType), (''public_key'', JStr pk)] @ ttl))
             (show_lines c (inner_cert e)))))"

definition cmdCAVerify :: "cli_env \<Rightarrow> client \<Rightarrow> string list \<Rightarrow> prog" where
  "cmdCAVerify e c args =
     with_flags [] args (\<lambda>fl rest.
       readArgOrStdin e rest ''certificate JSON'' (\<lambda>certJSON.
         case decode_any e certJSON of
           None \<Rightarrow> fatalf (''ca verify: invalid certificate JSON: '' @ ce_decodeErr e certJSON)
         | Some certObj \<Rightarrow>
             ask e c ''ca verify'' ''POST'' ''/ca/verify'' (body_of [(''certificate'', any_json certObj)])
               (show_verdict c '' certificate valid'' (\<lambda>d. '' certificate INVALID: '' @ any_str d ''error''))))"

definition any_entries :: "any_map \<Rightarrow> jval list" where
  "any_entries d = (case any_get d ''entries'' of Some (JArr es) \<Rightarrow> es | _ \<Rightarrow> [])"

definition cmdCACRL :: "cli_env \<Rightarrow> client \<Rightarrow> prog" where
  "cmdCACRL e c =
     ask e c ''ca crl'' ''GET'' ''/ca/crl'' None
       (show_lines c (\<lambda>d.
          [''issuer: '' @ any_str d ''issuer'',
           ''revoked: '' @ dec_int (int (length (any_entries d))) @ '' certificate(s)''] @
          concat (map (\<lambda>x. case as_any_map x of
            None \<Rightarrow> []
          | Some entry \<Rightarrow>
              [''  serial='' @ fmt_s e (any_get entry ''serial'') @
               ''  revoked_at='' @ fmt_s e (any_get entry ''revoked_at'')]) (any_entries d))))"

definition cmdCACert :: "cli_env \<Rightarrow> client \<Rightarrow> prog" where
  "cmdCACert e c =
     ask e c ''ca certificate'' ''GET'' ''/ca/certificate'' None (show_lines c (printCert e))"

definition cmdCA :: "cli_env \<Rightarrow> client \<Rightarrow> string list \<Rightarrow> prog" where
  "cmdCA e c args =
     (case args of
        [] \<Rightarrow> fatalf ''usage: qs ca <init|sign|verify>''
      | sub # rest \<Rightarrow>
          (if sub = ''init'' then cmdCAInit e c rest
           else if sub = ''sign'' then cmdCASign e c rest
           else if sub = ''verify'' then cmdCAVerify e c rest
           else if sub = ''crl'' then cmdCACRL e c
           else if sub = ''cert'' \<or> sub = ''certificate'' then cmdCACert e c
           else fatalf (''unknown ca sub-command '' @ ce_quote e sub)))"

definition cmdTokenIssue :: "cli_env \<Rightarrow> client \<Rightarrow> string list \<Rightarrow> prog" where
  "cmdTokenIssue e c args =
     with_flags (str_flags [''user'', ''roles'']) args (\<lambda>fl _.
       let userID = flag_value fl ''user'' []; roles = flag_value fl ''roles'' ''read'' in
       if userID = [] then fatalf ''token issue: --user is required''
       else ask e c ''token issue'' ''POST'' ''/auth/token''
         (body_of [(''user_id'', JStr userID), (''roles'', JArr (map (JStr \<circ> trim_space) (split_on (CHR '','') roles)))])
         (show_lines c (\<lambda>d.
            [''token:   '' @ fmt_s e (any_get d ''token''), ''expires: '' @ fmt_s e (any_get d ''expires_at''),
             ''subject: '' @ fmt_s e (any_get d ''subject'')])))"

definition cmdToken :: "cli_env \<Rightarrow> client \<Rightarrow> string list \<Rightarrow> prog" where
  "cmdToken e c args =
     (case args of
        [] \<Rightarrow> fatalf ''usage: qs token issue --user ID --roles ROLES''
      | sub # rest \<Rightarrow>
          (if sub = ''issue'' then cmdTokenIssue e c rest
           else fatalf (''unknown token sub-command '' @ ce_quote e sub)))"

section \<open>The program\<close>

text \<open>The help text.\<close>

definition usage :: "cli_env \<Rightarrow> string" where
  "usage e =
     concat (map (\<lambda>l. l @ nl)
       [''qs '' @ ce_version e @ '' '' @ long_dash @ '' QuantumShield command-line client'',
        [],
        ''Usage:'',
        ''  qs [global flags] <command> [command flags]'',
        [],
        ''Global flags:'',
        ''  --server URL     Server base URL (default: $QS_SERVER or http://localhost:8080)'',
        ''  --token TOKEN    Bearer token   (default: $QS_TOKEN)'',
        ''  --insecure       Skip TLS certificate verification'',
        ''  --json           Output raw JSON'',
        ''  --version        Print version and exit'',
        [],
        ''Commands:'',
        ''  health                                  Check server liveness'',
        ''  key generate [--algorithm A] [--name N] Generate a key pair'',
        ''  key list                                List stored key IDs'',
        ''  sign --key ID [--algorithm A] <msg>     Sign a message'',
        ''  verify --key ID --sig SIG <msg>         Verify a signature'',
        ''  encrypt --key ID <data>                 Encrypt data'',
        ''  decrypt --key ID <ciphertext>           Decrypt data'',
        ''  ca init --subject DN                    Initialise the CA'',
        ''  ca sign --subject DN --key ID           Issue a certificate'',
        ''  ca verify <cert-json>                   Verify a certificate'',
        ''  ca crl                                  Show the certificate revocation list'',
        ''  ca cert                                 Show the CA root certificate'',
        ''  token issue --user ID --roles ROLES     Issue a bearer token'',
        [],
        ''Use '' @ apos @ ''@path'' @ apos @ '' to read arguments from a file (e.g. qs sign --key k1 @message.b64).''])"

definition global_flags :: flag_set where
  "global_flags = [(''server'', False), (''token'', False), (''insecure'', True), (''json'', True), (''version'', True)]"

definition flag_bool :: "flag_values \<Rightarrow> string \<Rightarrow> bool" where
  "flag_bool fl name \<longleftrightarrow> flag_value fl name ''false'' = ''true''"

definition run_command :: "cli_env \<Rightarrow> client \<Rightarrow> string \<Rightarrow> string list \<Rightarrow> prog" where
  "run_command e c cmd args =
     (if cmd = ''health'' then cmdHealth e c
      else if cmd = ''key'' then cmdKey e c args
      else if cmd = ''sign'' then cmdSign e c args
      else if cmd = ''verify'' then cmdVerify e c args
      else if cmd = ''encrypt'' then cmdEncrypt e c args
      else if cmd = ''decrypt'' then cmdDecrypt e c args
      else if cmd = ''ca'' then cmdCA e c args
      else if cmd = ''token'' then cmdToken e c args
      else fatalf (''unknown command '' @ ce_quote e cmd @ '' '' @ long_dash @ '' run '' @ apos @ ''qs --help'' @ apos @ '' for usage''))"

definition qs_client :: "cli_env \<Rightarrow> flag_values \<Rightarrow> client" where
  "qs_client e fl =
     newClient (flag_value fl ''server'' (envOr e ''QS_SERVER'' ''http://localhost:8080''))
       (flag_value fl ''token'' (envOr e ''QS_TOKEN'' [])) (flag_bool fl ''insecure'') (flag_bool fl ''json'')"

text \<open>\<open>main\<close>; for a flag it does not accept, \<open>flag\<close> prints its own error text before the help.\<close>

definition qs_main :: "cli_env \<Rightarrow> prog" where
  "qs_main e =
     (case parse_flags global_flags [] (ce_args e) of
        HelpAsked \<Rightarrow> ErrOut (usage e) (Exit 0)
      | BadFlag \<Rightarrow> ErrOut (usage e) (Exit 2)
      | Parsed fl args \<Rightarrow>
          (if flag_bool fl ''version'' then Out (''qs '' @ ce_version e @ nl) (Exit 0)
           else case args of
             [] \<Rightarrow> ErrOut (usage e) (Exit 1)
           | cmd # rest \<Rightarrow> run_command e (qs_client e fl) cmd rest))"

section \<open>Running a program\<close>

record cli_result =
  cl_Code :: int
  cl_Stdout :: string
  cl_Stderr :: string
  cl_Log :: "(cli_request \<times> cli_answer) list"

primrec run_cli :: "('s \<Rightarrow> cli_request \<Rightarrow> cli_answer \<times> 's) \<Rightarrow> prog \<Rightarrow> 's \<Rightarrow> cli_result \<times> 's" where
  "run_cli srv (Exit n) s = (\<lparr>cl_Code = n, cl_Stdout = [], cl_Stderr = [], cl_Log = []\<rparr>, s)"
| "run_cli srv (Fetch q k) s =
     (let (a, s1) = srv s q; (r, s2) = run_cli srv (k a) s1 in (r\<lparr>cl_Log := (q, a) # cl_Log r\<rparr>, s2))"
| "run_cli srv (Out t p) s = (let (r, s1) = run_cli srv p s in (r\<lparr>cl_Stdout := t @ cl_Stdout r\<rparr>, s1))"
| "run_cli srv (ErrOut t p) s = (let (r, s1) = run_cli srv p s in (r\<lparr>cl_Stderr := t @ cl_Stderr r\<rparr>, s1))"

end
