(* ===== verification/CliSafety.thy ===== *)
theory CliSafety
  imports Cli
begin

text \<open>
  What the command-line client does whatever the server answers: how it exits, what it prints, and which
  requests it makes.
\<close>

named_theorems cli_safe

text \<open>An answer with a status of the 200s and a body that is empty or a JSON object or null.\<close>

definition answer_ok :: "cli_env \<Rightarrow> cli_answer \<Rightarrow> bool" where
  "answer_ok e a =
     (case a of
        Failed _ \<Rightarrow> False
      | Replied status loc raw \<Rightarrow> 200 \<le> status \<and> status < 300 \<and> (raw = [] \<or> decode_any e raw \<noteq> None))"

text \<open>A request to the configured server with the configured token, if there is one.\<close>

definition own_request :: "client \<Rightarrow> cli_request \<Rightarrow> bool" where
  "own_request c q \<longleftrightarrow>
     take (Suc (length (cc_server c))) (cq_URL q) = cc_server c @ ''/'' \<and>
     h_Get ''Authorization'' (cq_Header q) = (if cc_token c = [] then [] else ''Bearer '' @ cc_token c)"

text \<open>The exchange \<open>(q, a)\<close> leads to the request \<open>q'\<close>: the answer redirects to its URL.\<close>

fun leads_to :: "cli_env \<Rightarrow> cli_request \<times> cli_answer \<Rightarrow> cli_request \<times> cli_answer \<Rightarrow> bool" where
  "leads_to e (q, Failed err) (q', a') \<longleftrightarrow> False"
| "leads_to e (q, Replied status loc raw) (q', a') \<longleftrightarrow>
     (\<exists>verb withBody. redirectBehavior (cq_Method q) status = Some (verb, withBody) \<and> loc \<noteq> [] \<and>
        ce_resolve e (cq_URL q) loc = Some (cq_URL q') \<and> cq_Method q' = verb \<and> cq_Body q' = (if withBody then cq_Body q else []))"

text \<open>A request that carries the header \<open>Authorization\<close> carries that of the first one, and goes to its
  URL, its host or a subdomain.\<close>

definition token_kept :: "cli_env \<Rightarrow> cli_request \<Rightarrow> cli_request \<Rightarrow> bool" where
  "token_kept e q0 q \<longleftrightarrow> h_Get ''Authorization'' (cq_Header q) = [] \<or>
     h_Get ''Authorization'' (cq_Header q) = h_Get ''Authorization'' (cq_Header q0) \<and>
     (cq_URL q = cq_URL q0 \<or> ce_trusted e (cq_URL q0) (cq_URL q))"

text \<open>The exchanges of one call of \<open>Do\<close>: at most ten, from a request to the configured server on along the
  redirections.\<close>

definition call_ok :: "cli_env \<Rightarrow> client \<Rightarrow> (cli_request \<times> cli_answer) list \<Rightarrow> bool" where
  "call_ok e c xs \<longleftrightarrow> xs \<noteq> [] \<and> length xs \<le> 10 \<and> own_request c (fst (hd xs)) \<and> successively (leads_to e) xs \<and>
     list_all (\<lambda>x. token_kept e (fst (hd xs)) (fst x)) xs"

definition safe_run :: "cli_env \<Rightarrow> client \<Rightarrow> nat \<Rightarrow> cli_result \<Rightarrow> bool" where
  "safe_run e c n r \<longleftrightarrow>
     cl_Code r \<in> {0, 1, 2} \<and>
     (\<exists>calls. cl_Log r = concat calls \<and> length calls \<le> n \<and> list_all (call_ok e c) calls \<and>
        (cl_Code r = 0 \<longrightarrow> list_all (\<lambda>xs. answer_ok e (snd (last xs))) calls)) \<and>
     (cl_Code r \<noteq> 0 \<longrightarrow> cl_Stdout r = []) \<and>
     (cl_Code r = 1 \<longrightarrow> cl_Stderr r \<noteq> [])"

section \<open>One call of Do\<close>

lemma redirect_headers:
  "h_Get ''Authorization'' (cq_Header (next_hop e u0 q u verb b)) =
    (if ce_trusted e u0 u then h_Get ''Authorization'' (cq_Header q) else [])"
  by (simp add: next_hop_def h_Get_def h_Set_def h_Del_def CanonicalHeaderKey_def upper_char_def lower_char_def Let_def)

text \<open>One exchange: the call is over, or it goes on with the request that the answer redirects to.\<close>

lemma http_Do_step:
  assumes "run_cli srv (http_Do e n u0 q k) s = (r, s')"
  obtains (over) a s1 r1 a' where "srv s q = (a, s1)" "r = r1\<lparr>cl_Log := (q, a) # cl_Log r1\<rparr>"
      "a' = a \<or> (\<exists>err. a' = Failed err)" "run_cli srv (k a') s1 = (r1, s')"
  | (hop) a s1 r1 m u verb b where "srv s q = (a, s1)" "r = r1\<lparr>cl_Log := (q, a) # cl_Log r1\<rparr>" "n = Suc m"
      "\<And>a'. leads_to e (q, a) (next_hop e u0 q u verb b, a')"
      "run_cli srv (http_Do e m u0 (next_hop e u0 q u verb b) k) s1 = (r1, s')"
proof -
  obtain a s1 where a: "srv s q = (a, s1)" by force
  have finish: thesis if "run_cli srv (k a') s1 = (r1, s')" "r = r1\<lparr>cl_Log := (q, a) # cl_Log r1\<rparr>" "a' = a \<or> (\<exists>err. a' = Failed err)" for a' r1
    by (rule over [OF a that(2,3,1)])
  have run: "(case run_cli srv (case a of Failed err \<Rightarrow> k a
     | Replied status loc raw \<Rightarrow>
         (case redirectBehavior (cq_Method q) status of
            None \<Rightarrow> k a
          | Some (verb, withBody) \<Rightarrow>
              (if loc = [] then k a
               else case ce_resolve e (cq_URL q) loc of
                 None \<Rightarrow> k (Failed (''request failed: '' @ ce_redirectErr e (cq_URL q) loc))
               | Some u \<Rightarrow>
                   (case n of
                      0 \<Rightarrow> k (Failed (''request failed: '' @ ce_redirectErr e (cq_URL q) loc))
                    | Suc m \<Rightarrow> http_Do e m u0 (next_hop e u0 q u verb withBody) k)))) s1 of
       (r, s2) \<Rightarrow> (r\<lparr>cl_Log := (q, a) # cl_Log r\<rparr>, s2)) = (r, s')"
    using assms by (simp add: http_Do.simps [of e n] a)
  show thesis
  proof (cases a)
    case (Failed err)
    then show thesis using run finish [of a] by (auto split: prod.splits)
  next
    case (Replied status loc raw)
    show thesis
    proof (cases "redirectBehavior (cq_Method q) status")
      case None
      then show thesis using run finish [of a] Replied by (auto split: prod.splits)
    next
      case (Some vb)
      obtain verb b where vb: "vb = (verb, b)" by (cases vb)
      show thesis
      proof (cases "loc = [] \<or> ce_resolve e (cq_URL q) loc = None \<or> n = 0")
        case True
        then show thesis using run finish Replied Some vb
          by (auto split: prod.splits if_splits option.splits)
      next
        case False
        then obtain u m where u: "ce_resolve e (cq_URL q) loc = Some u" "n = Suc m" "loc \<noteq> []"
          by (cases n) auto
        show thesis using run hop [OF a _ u(2)] Replied Some vb u
          by (auto simp: next_hop_def Let_def split: prod.splits)
      qed
    qed
  qed
qed

lemma http_Do_run:
  assumes "run_cli srv (http_Do e n (cq_URL q0) q k) s = (r, s')" and "token_kept e q0 q"
  shows "\<exists>xs a s1 r1. xs \<noteq> [] \<and> length xs \<le> Suc n \<and> fst (hd xs) = q \<and> successively (leads_to e) xs \<and>
    list_all (\<lambda>x. token_kept e q0 (fst x)) xs \<and> ((\<exists>err. a = Failed err) \<or> a = snd (last xs)) \<and>
    run_cli srv (k a) s1 = (r1, s') \<and> r = r1\<lparr>cl_Log := xs @ cl_Log r1\<rparr>"
  using assms
proof (induction n arbitrary: q s r)
  case 0
  from 0(1) show ?case
  proof (cases rule: http_Do_step)
    case (over a s1 r1 a')
    then show ?thesis using 0(2) by (intro exI [of _ "[(q, a)]"] exI [of _ a'] exI [of _ s1] exI [of _ r1]) auto
  qed simp
next
  case (Suc n)
  from Suc.prems(1) show ?case
  proof (cases rule: http_Do_step)
    case (over a s1 r1 a')
    then show ?thesis using Suc.prems(2)
      by (intro exI [of _ "[(q, a)]"] exI [of _ a'] exI [of _ s1] exI [of _ r1]) auto
  next
    case (hop a s1 r1 m u verb b)
    let ?q = "next_hop e (cq_URL q0) q u verb b"
    have "cq_URL ?q = u" by (simp add: next_hop_def Let_def)
    then have "token_kept e q0 ?q" using Suc.prems(2) by (auto simp: token_kept_def redirect_headers)
    moreover have "run_cli srv (http_Do e n (cq_URL q0) ?q k) s1 = (r1, s')" using hop(3,5) by simp
    ultimately obtain xs a2 s2 r2 where xs: "xs \<noteq> []" "length xs \<le> Suc n" "fst (hd xs) = ?q" "successively (leads_to e) xs"
      "list_all (\<lambda>x. token_kept e q0 (fst x)) xs" "(\<exists>err. a2 = Failed err) \<or> a2 = snd (last xs)"
      "run_cli srv (k a2) s2 = (r2, s')" "r1 = r2\<lparr>cl_Log := xs @ cl_Log r2\<rparr>"
      using Suc.IH by blast
    have "leads_to e (q, a) (hd xs)" using hop(4) [of "snd (hd xs)"] xs(3) by (metis prod.collapse)
    then show ?thesis using xs hop(2) Suc.prems(2)
      by (intro exI [of _ "(q, a) # xs"] exI [of _ a2] exI [of _ s2] exI [of _ r2]) (auto simp: successively_Cons)
  qed
qed

text \<open>An answer that \<open>Do\<close> follows to another URL.\<close>

definition redirects :: "cli_answer \<Rightarrow> bool" where
  "redirects a = (case a of Failed _ \<Rightarrow> False | Replied status loc raw \<Rightarrow> status \<in> {301, 302, 303, 307, 308} \<and> loc \<noteq> [])"

lemma http_Do_final:
  "srv s q = (a, s1) \<Longrightarrow> \<not> redirects a \<Longrightarrow>
     run_cli srv (http_Do e n u q k) s = (case run_cli srv (k a) s1 of (r, s2) \<Rightarrow> (r\<lparr>cl_Log := (q, a) # cl_Log r\<rparr>, s2))"
  by (cases a) (auto simp: http_Do.simps [of e n] redirects_def redirectBehavior_def)

lemma http_Do_hop:
  "srv s q = (Replied status loc raw, s1) \<Longrightarrow> redirectBehavior (cq_Method q) status = Some (verb, b) \<Longrightarrow>
     loc \<noteq> [] \<Longrightarrow> ce_resolve e (cq_URL q) loc = Some u \<Longrightarrow>
     run_cli srv (http_Do e (Suc n) u0 q k) s =
       (case run_cli srv (http_Do e n u0 (next_hop e u0 q u verb b) k) s1 of
          (r, s2) \<Rightarrow> (r\<lparr>cl_Log := (q, Replied status loc raw) # cl_Log r\<rparr>, s2))"
  by (simp add: http_Do.simps [of e "Suc n"])

section \<open>Safe programs\<close>

text \<open>A program that may still make \<open>n\<close> calls of \<open>Do\<close>, where \<open>good\<close> says that the final answer of every call
  so far was accepted and \<open>out\<close> and \<open>err\<close> say whether it has printed.\<close>

definition ends_well :: "cli_env \<Rightarrow> client \<Rightarrow> nat \<Rightarrow> bool \<Rightarrow> bool \<Rightarrow> bool \<Rightarrow> cli_result \<Rightarrow> bool" where
  "ends_well e c n good out err r \<longleftrightarrow>
     cl_Code r \<in> {0, 1, 2} \<and>
     (\<exists>calls. cl_Log r = concat calls \<and> length calls \<le> n \<and> list_all (call_ok e c) calls \<and>
        (cl_Code r = 0 \<longrightarrow> good \<and> list_all (\<lambda>xs. answer_ok e (snd (last xs))) calls)) \<and>
     (cl_Code r \<noteq> 0 \<longrightarrow> \<not> out \<and> cl_Stdout r = []) \<and> (cl_Code r = 1 \<longrightarrow> err \<or> cl_Stderr r \<noteq> [])"

definition cli_safe ::
    "('s \<Rightarrow> cli_request \<Rightarrow> cli_answer \<times> 's) \<Rightarrow> cli_env \<Rightarrow> client \<Rightarrow> prog \<Rightarrow> nat \<Rightarrow> bool \<Rightarrow> bool \<Rightarrow> bool \<Rightarrow> bool" where
  "cli_safe srv e c p n good out err \<longleftrightarrow> (\<forall>s. ends_well e c n good out err (fst (run_cli srv p s)))"

lemma cli_safe_run: "cli_safe srv e c p n True False False \<Longrightarrow> run_cli srv p s = (r, s') \<Longrightarrow> safe_run e c n r"
  unfolding cli_safe_def ends_well_def safe_run_def by (metis fst_conv)

lemma ends_well_simps [simp]:
  "ends_well e c n good out err (r\<lparr>cl_Stdout := t @ cl_Stdout r\<rparr>) = ends_well e c n good (out \<or> t \<noteq> []) err r"
  "ends_well e c n good out err (r\<lparr>cl_Stderr := t @ cl_Stderr r\<rparr>) = ends_well e c n good out (err \<or> t \<noteq> []) r"
  by (auto simp: ends_well_def)

lemma exit_safe [simp]: "cli_safe srv e c (Exit x) n good out err \<longleftrightarrow> x = 0 \<and> good \<or> x = 1 \<and> \<not> out \<and> err \<or> x = 2 \<and> \<not> out"
proof -
  have "(\<exists>calls. [] = concat calls \<and> length calls \<le> n \<and> list_all (call_ok e c) calls \<and>
      (x = 0 \<longrightarrow> good \<and> list_all (\<lambda>xs. answer_ok e (snd (last xs))) calls)) \<longleftrightarrow> (x = 0 \<longrightarrow> good)"
    by (auto intro: exI [of _ "[]"])
  then show ?thesis by (auto simp: cli_safe_def ends_well_def)
qed

lemma out_safe [simp]: "cli_safe srv e c (Out t p) n good out err = cli_safe srv e c p n good (out \<or> t \<noteq> []) err"
  by (simp add: cli_safe_def case_prod_unfold Let_def)

lemma err_safe [simp]: "cli_safe srv e c (ErrOut t p) n good out err = cli_safe srv e c p n good out (err \<or> t \<noteq> [])"
  by (simp add: cli_safe_def case_prod_unfold Let_def)

lemma Do_safe:
  assumes q: "own_request c q" and n: "0 < n"
    and k: "\<And>a. cli_safe srv e c (k a) (n - 1) (good \<and> answer_ok e a) out err"
  shows "cli_safe srv e c (http_Do e maxRedirects (cq_URL q) q k) n good out err"
  unfolding cli_safe_def
proof
  fix s
  obtain r s' where run: "run_cli srv (http_Do e maxRedirects (cq_URL q) q k) s = (r, s')" by fastforce
  have "token_kept e q q" by (simp add: token_kept_def)
  then obtain xs a s1 r1 where xs: "xs \<noteq> []" "length xs \<le> Suc maxRedirects" "fst (hd xs) = q" "successively (leads_to e) xs"
      "list_all (\<lambda>x. token_kept e q (fst x)) xs" and a: "(\<exists>err. a = Failed err) \<or> a = snd (last xs)"
    and r1: "run_cli srv (k a) s1 = (r1, s')" "r = r1\<lparr>cl_Log := xs @ cl_Log r1\<rparr>"
    using http_Do_run [OF run] by blast
  have call: "call_ok e c xs" using xs q by (simp add: call_ok_def maxRedirects_def)
  have ans: "answer_ok e a \<Longrightarrow> answer_ok e (snd (last xs))" using a by (auto simp: answer_ok_def)
  have "ends_well e c (n - 1) (good \<and> answer_ok e a) out err r1" using k [of a] r1(1) unfolding cli_safe_def by (metis fst_conv)
  then obtain calls where c: "cl_Code r1 \<in> {0, 1, 2}" "cl_Log r1 = concat calls" "length calls \<le> n - 1" "list_all (call_ok e c) calls"
    "cl_Code r1 = 0 \<longrightarrow> (good \<and> answer_ok e a) \<and> list_all (\<lambda>xs. answer_ok e (snd (last xs))) calls"
    "cl_Code r1 \<noteq> 0 \<longrightarrow> \<not> out \<and> cl_Stdout r1 = []" "cl_Code r1 = 1 \<longrightarrow> err \<or> cl_Stderr r1 \<noteq> []"
    unfolding ends_well_def by blast
  have "cl_Log r = concat (xs # calls)" "length (xs # calls) \<le> n" "list_all (call_ok e c) (xs # calls)"
    "cl_Code r = 0 \<longrightarrow> good \<and> list_all (\<lambda>xs. answer_ok e (snd (last xs))) (xs # calls)"
    using c(2-5) n call ans by (auto simp: r1(2))
  moreover have same: "cl_Code r = cl_Code r1" "cl_Stdout r = cl_Stdout r1" "cl_Stderr r = cl_Stderr r1"
    by (simp_all add: r1(2))
  ultimately have "ends_well e c n good out err r" using c(1,6,7) unfolding ends_well_def same by blast
  then show "ends_well e c n good out err (fst (run_cli srv (http_Do e maxRedirects (cq_URL q) q k) s))" by (simp add: run)
qed

section \<open>The building blocks\<close>

lemma fatalf_safe [cli_safe]: "\<not> out \<Longrightarrow> cli_safe srv e c (fatalf msg) n good out err"
  by (simp add: fatalf_def)

lemma outs_safe [cli_safe]: "cli_safe srv e c (outs ts) n True out err"
proof -
  have "cli_safe srv e c (foldr (\<lambda>t p. Out (t @ nl) p) ts (Exit 0)) n True out err" for out
    by (induction ts arbitrary: out) (simp_all add: nl_def)
  then show ?thesis by (simp add: outs_def)
qed

lemma print_safe [cli_safe]:
  "cli_safe srv e c p n True False False \<Longrightarrow> cli_safe srv e c (cli_print c m p) n True False False"
  by (simp add: cli_print_def)

lemma show_lines_safe [cli_safe]: "cli_safe srv e c (show_lines c f m) n True False False"
  by (simp add: show_lines_def cli_safe)

lemma show_verdict_safe [cli_safe]: "cli_safe srv e c (show_verdict c a b m) n True False False"
  by (simp add: show_verdict_def cli_print_def)

lemma with_flags_safe [cli_safe]:
  assumes "\<And>fl rest. cli_safe srv e c (k fl rest) n True False False"
  shows "cli_safe srv e c (with_flags fs args k) n True False False"
  using assms by (simp add: with_flags_def split: flag_outcome.split)

lemma readArg_safe [cli_safe]:
  assumes "\<And>msg. cli_safe srv e c (k msg) n True False False"
  shows "cli_safe srv e c (readArgOrStdin e args what k) n True False False"
  using assms by (auto simp: readArgOrStdin_def cli_safe split: list.split sum.split)

lemma own_headers: "h_Get ''Authorization'' (cli_headers c b) = (if cc_token c = [] then [] else ''Bearer '' @ cc_token c)"
  by (simp add: cli_headers_def h_Get_def h_Set_def CanonicalHeaderKey_def upper_char_def lower_char_def Let_def)

lemma ask_safe [cli_safe]:
  assumes "0 < n" "take 1 path = ''/''" "\<And>m. cli_safe srv e c (k m) (n - 1) True False False"
  shows "cli_safe srv e c (ask e c what verb path body k) n True False False"
proof -
  let ?q = "cli_request_of c verb path body"
  have own: "own_request c ?q" using assms(2) by (cases path) (simp_all add: own_request_def cli_request_of_def own_headers)
  have url: "cc_server c @ path = cq_URL ?q" by (simp add: cli_request_of_def)
  show ?thesis unfolding ask_def cli_do_def url dieOnErr_def
    by (auto simp: require2xx_def answer_ok_def fatalf_def assms(3) [unfolded One_nat_def] split: option.split cli_answer.split intro!: Do_safe [OF own assms(1)])
qed

section \<open>The commands\<close>

lemma ca_sign_key_safe [cli_safe]:
  assumes "0 < n" "\<And>pk. cli_safe srv e c (k pk) n True False False" "\<And>pk. cli_safe srv e c (k pk) (n - 1) True False False"
  shows "cli_safe srv e c (ca_sign_key e c pk ident k) n True False False"
  using assms by (simp add: ca_sign_key_def cli_safe Let_def)

lemma ca_sign_ttl_safe [cli_safe]:
  assumes "\<And>t. cli_safe srv e c (k t) n True False False"
  shows "cli_safe srv e c (ca_sign_ttl e ttl k) n True False False"
  using assms by (simp add: ca_sign_ttl_def cli_safe split: option.split)

lemma keys_safe [cli_safe]: "cli_safe srv e c (cmdKey e c args) 2 True False False"
  by (simp add: cmdKey_def cmdKeyGenerate_def cmdKeyList_def cli_safe Let_def split: list.split)

lemma crypto_safe [cli_safe]:
  "cli_safe srv e c (cmdSign e c args) 2 True False False"
  "cli_safe srv e c (cmdVerify e c args) 2 True False False"
  "cli_safe srv e c (cmdEncrypt e c args) 2 True False False"
  "cli_safe srv e c (cmdDecrypt e c args) 2 True False False"
  by (simp_all add: cmdSign_def cmdVerify_def cmdEncrypt_def cmdDecrypt_def cli_safe Let_def)

lemma ca_safe [cli_safe]: "cli_safe srv e c (cmdCA e c args) 2 True False False"
  by (simp add: cmdCA_def cmdCAInit_def cmdCASign_def cmdCAVerify_def cmdCACRL_def cmdCACert_def cli_safe Let_def
      split: list.split option.split)

lemma token_safe [cli_safe]: "cli_safe srv e c (cmdToken e c args) 2 True False False"
  by (simp add: cmdToken_def cmdTokenIssue_def cli_safe Let_def split: list.split)

lemma run_command_safe [cli_safe]: "cli_safe srv e c (run_command e c cmd args) 2 True False False"
  by (simp add: run_command_def cmdHealth_def cli_safe)

lemma main_safe:
  assumes "\<And>fl args. parse_flags global_flags [] (ce_args e) = Parsed fl args \<Longrightarrow> qs_client e fl = c"
  shows "cli_safe srv e c (qs_main e) 2 True False False"
  using assms by (fastforce simp: qs_main_def usage_def nl_def cli_safe split: flag_outcome.split list.split)

text \<open>C34. Whatever the server answers, \<open>qs\<close> ends with the exit code 0, 1 or 2 after at most two calls of
  \<open>http.Client.Do\<close>. Each call starts with a request to the configured server, which carries the token in
  the header \<open>Authorization\<close> exactly if there is one, and makes at most ten requests, each after the first
  to the URL to which the answer before redirects (which may be any host, since \<open>qs\<close> leaves redirections to
  \<open>net/http\<close>); one that still carries the header goes to the host of the server or a subdomain of it. The
  code 0 means that the answer each call ended with had a status of the 200s and a body that could be
  decoded. Any other code leaves the standard output empty, and the code 1 comes with a message on the
  standard error.\<close>

theorem cli_exit:
  assumes "parse_flags global_flags [] (ce_args e) = Parsed fl args"
    and "run_cli srv (qs_main e) s = (r, s')"
  shows "safe_run e (qs_client e fl) 2 r"
  using cli_safe_run [OF main_safe [of e "qs_client e fl"] assms(2)] assms(1) by simp

text \<open>Showing an answer makes no request.\<close>

lemma outs_log: "cl_Log (fst (run_cli srv (outs ts) s)) = []"
proof -
  have "cl_Log (fst (run_cli srv (foldr (\<lambda>t p. Out (t @ nl) p) ts (Exit 0)) s)) = []" by (induction ts) (auto split: prod.split)
  then show ?thesis by (simp add: outs_def)
qed

lemma show_log: "cl_Log (fst (run_cli srv (show_lines c f m) s)) = []" "cl_Log (fst (run_cli srv (show_verdict c a b m) s)) = []"
  using outs_log [of srv "f m" s] by (auto simp: show_lines_def show_verdict_def cli_print_def split: prod.split)

text \<open>An environment for examples: one call of the program, without variables, files or input.\<close>

definition cli_demo :: "string list \<Rightarrow> cli_env" where
  "cli_demo args =
     \<lparr>ce_env = [], ce_args = args, ce_readFile = (\<lambda>f. Inl ''no such file''), ce_stdin = Inr [], ce_badURL = (\<lambda>u. None),
      ce_resolve = (\<lambda>u l. Some l), ce_trusted = (\<lambda>u v. u = v), ce_referer = (\<lambda>u v. []), ce_redirectErr = (\<lambda>u l. ''stopped after 10 redirects''),
      ce_decodeErr = (\<lambda>t. ''bad JSON''), ce_durationErr = (\<lambda>t. ''bad duration''), ce_quote = id, ce_fmt_s = (\<lambda>v. []),
      ce_fmt_v = (\<lambda>v. []), ce_reprint = id, ce_version = ''dev''\<rparr>"

definition demo_call :: "string list" where
  "demo_call = [''--token=t'', ''verify'', ''--key'', ''k'', ''--sig'', ''s'', ''m'']"

lemma demo_parse:
  "parse_flags global_flags [] demo_call = Parsed [(''token'', ''t'')] [''verify'', ''--key'', ''k'', ''--sig'', ''s'', ''m'']"
  by (simp add: demo_call_def global_flags_def split_flag_def Let_def)

text \<open>A server that sends the client on to another host first.\<close>

definition moved_server :: "nat \<Rightarrow> cli_request \<Rightarrow> cli_answer \<times> nat" where
  "moved_server n q = (if n = 0 then Replied 307 ''http://other/'' [] else Replied 200 [] [], n + 1)"

lemma demo_main:
  assumes "c = qs_client (cli_demo demo_call) [(''token'', ''t'')]"
  shows "qs_main (cli_demo demo_call) = ask (cli_demo demo_call) c ''verify'' ''POST'' ''/verify-signature''
      (body_of [(''key_id'', JStr ''k''), (''message'', JStr ''m''), (''signature'', JStr ''s'')])
      (show_verdict c '' signature valid'' (\<lambda>_. '' signature INVALID''))"
    and "cc_server c = ''http://localhost:8080''" "cc_token c = ''t''"
proof -
  have "ce_args (cli_demo demo_call) = demo_call" by (simp add: cli_demo_def)
  then show "qs_main (cli_demo demo_call) = ask (cli_demo demo_call) c ''verify'' ''POST'' ''/verify-signature''
      (body_of [(''key_id'', JStr ''k''), (''message'', JStr ''m''), (''signature'', JStr ''s'')])
      (show_verdict c '' signature valid'' (\<lambda>_. '' signature INVALID''))"
    by (simp add: qs_main_def demo_parse assms run_command_def cmdVerify_def with_flags_def str_flags_def split_flag_def
        readArgOrStdin_def flag_value_def flag_bool_def Let_def)
  show "cc_server c = ''http://localhost:8080''" "cc_token c = ''t''"
    by (simp_all add: assms qs_client_def cli_demo_def flag_value_def envOr_def newClient_def trim_right_set_def)
qed

lemma moved_hops:
  assumes "cq_Method q = ''POST''" "q2 = next_hop (cli_demo args) (cq_URL q) q ''http://other/'' ''POST'' True"
  shows "run_cli moved_server (http_Do (cli_demo args) maxRedirects (cq_URL q) q k) 0 =
      (case run_cli moved_server (k (Replied 200 [] [])) 2 of
         (r, s2) \<Rightarrow> (r\<lparr>cl_Log := (q, Replied 307 ''http://other/'' []) # (q2, Replied 200 [] []) # cl_Log r\<rparr>, s2))"
proof -
  have first: "moved_server 0 q = (Replied 307 ''http://other/'' [], 1)" "redirectBehavior (cq_Method q) 307 = Some (''POST'', True)"
    "ce_resolve (cli_demo args) (cq_URL q) ''http://other/'' = Some ''http://other/''"
    by (simp_all add: moved_server_def redirectBehavior_def assms(1) cli_demo_def)
  have second: "moved_server 1 q2 = (Replied 200 [] [], 2)" "\<not> redirects (Replied 200 [] [])"
    by (simp_all add: moved_server_def redirects_def)
  have nine: "maxRedirects = Suc 8" by (simp add: maxRedirects_def)
  show ?thesis
    unfolding nine http_Do_hop [where srv = moved_server, OF first(1,2) list.distinct(2) first(3)] assms(2) [symmetric]
      http_Do_final [where srv = moved_server, OF second]
    by (simp split: prod.split)
qed

theorem cli_exit_witness:
  "\<exists>r q1 q2. fst (run_cli moved_server (qs_main (cli_demo demo_call)) 0) = r \<and>
     safe_run (cli_demo demo_call) (qs_client (cli_demo demo_call) [(''token'', ''t'')]) 2 r \<and>
     map fst (cl_Log r) = [q1, q2] \<and> h_Get ''Authorization'' (cq_Header q1) = ''Bearer t'' \<and>
     cq_URL q2 = ''http://other/'' \<and> h_Get ''Authorization'' (cq_Header q2) = []"
proof -
  let ?e = "cli_demo demo_call" and ?c = "qs_client (cli_demo demo_call) [(''token'', ''t'')]"
  let ?q1 = "cli_request_of ?c ''POST'' ''/verify-signature''
    (body_of [(''key_id'', JStr ''k''), (''message'', JStr ''m''), (''signature'', JStr ''s'')])"
  let ?q2 = "next_hop ?e (cq_URL ?q1) ?q1 ''http://other/'' ''POST'' True"
  obtain r s' where run: "run_cli moved_server (qs_main ?e) 0 = (r, s')" by fastforce
  have flags: "parse_flags global_flags [] (ce_args ?e) = Parsed [(''token'', ''t'')] [''verify'', ''--key'', ''k'', ''--sig'', ''s'', ''m'']"
    by (simp add: cli_demo_def demo_parse)
  have safe: "safe_run ?e ?c 2 r" by (rule cli_exit [OF flags run])
  have q1: "cq_Method ?q1 = ''POST''" "cq_URL ?q1 = ''http://localhost:8080/verify-signature''"
      "cc_server ?c @ ''/verify-signature'' = cq_URL ?q1"
    and q2: "cq_URL ?q2 = ''http://other/''" and good: "ce_badURL ?e u = None" for u
    by (simp_all add: cli_request_of_def demo_main(2) next_hop_def cli_demo_def Let_def)
  have "map fst (cl_Log r) = [?q1, ?q2]"
    using run show_log(2) [of moved_server ?c]
    unfolding demo_main(1) [OF refl] ask_def cli_do_def dieOnErr_def require2xx_def q1(3)
    by (auto simp: good moved_hops [OF q1(1) refl] split: prod.splits) (metis fst_conv)+
  moreover have "h_Get ''Authorization'' (cq_Header ?q1) = ''Bearer t''"
    by (simp add: cli_request_of_def own_headers demo_main(3))
  moreover have "h_Get ''Authorization'' (cq_Header ?q2) = []"
    unfolding redirect_headers q1(2) by (simp add: cli_demo_def)
  ultimately show ?thesis using run safe q2 by fastforce
qed

section \<open>Verdicts\<close>

definition says_valid :: "cli_env \<Rightarrow> cli_answer \<Rightarrow> bool" where
  "says_valid e a \<longleftrightarrow>
     (case a of
        Failed _ \<Rightarrow> False
      | Replied _ _ raw \<Rightarrow>
          (case decode_any e raw of None \<Rightarrow> False | Some m \<Rightarrow> raw \<noteq> [] \<and> any_get m ''valid'' = Some (JBool True)))"

text \<open>The exit code of a verdict: 0 for a valid signature or certificate, and with \<open>--json\<close> for every
  accepted answer, also one that says the signature is invalid.\<close>

lemma ask_verdict:
  assumes "ce_badURL e (cc_server c @ path) = None" "srv s (cli_request_of c verb path body) = (a, s1)" "\<not> redirects a"
  shows "cl_Code (fst (run_cli srv (ask e c what verb path body (show_verdict c good bad)) s)) =
    (if answer_ok e a \<and> (cc_rawJSON c \<or> says_valid e a) then 0 else 1)"
  using assms(1)
  by (auto simp: ask_def cli_do_def http_Do_final [where srv = srv, OF assms(2,3)] dieOnErr_def require2xx_def answer_ok_def says_valid_def
      show_verdict_def cli_print_def fatalf_def any_get_def split: option.split cli_answer.split prod.split)

lemma verify_exit:
  assumes "parse_flags (str_flags [''key'', ''sig'']) [] args = Parsed fl (msg # rest)"
    and "flag_value fl ''key'' [] = k" "flag_value fl ''sig'' [] = g" "k \<noteq> []" "g \<noteq> []" "\<not> has_prefix msg ''@''"
    and "ce_badURL e (cc_server c @ ''/verify-signature'') = None"
    and "srv s (cli_request_of c ''POST'' ''/verify-signature''
      (body_of [(''key_id'', JStr k), (''message'', JStr msg), (''signature'', JStr g)])) = (a, s1)"
    and "\<not> redirects a"
  shows "cl_Code (fst (run_cli srv (cmdVerify e c args) s)) =
    (if answer_ok e a \<and> (cc_rawJSON c \<or> says_valid e a) then 0 else 1)"
  using ask_verdict [where srv = srv, OF assms(7,8,9)] assms(1-6)
  by (simp add: cmdVerify_def with_flags_def readArgOrStdin_def)

end
