(* ===== verification/ClientServer.thy ===== *)
theory ClientServer
  imports CliSafety ServerFlows
begin

text \<open>
  The command-line client against the server of the model: the request goes through the middlewares, the
  multiplexer and the handler, and the answer back to the program. Some commands send a body that the
  handler does not understand, and so they never succeed.
\<close>

section \<open>The server as seen by the client\<close>

text \<open>The bytes of an answer.\<close>

definition wire_body :: "response \<Rightarrow> string" where
  "wire_body resp =
     (case rs_Body resp of
        JsonBody v \<Rightarrow> json_enc v @ nl
      | ErrorBody msg \<Rightarrow> json_enc (JObj [(''error'', JStr msg)]) @ nl
      | PlainBody t \<Rightarrow> t
      | NoBody \<Rightarrow> [])"

text \<open>The request as it arrives; the address of the client, the clock and the disk are those of \<open>r0\<close>.\<close>

definition arriving :: "client \<Rightarrow> api_request \<Rightarrow> cli_request \<Rightarrow> api_request" where
  "arriving c r0 q =
     r0\<lparr>hr_Method := cq_Method q, hr_Path := drop (length (cc_server c)) (cq_URL q),
        hr_Header := cq_Header q, hr_Body := cq_Body q\<rparr>"

definition qs_server :: "crypto \<Rightarrow> client \<Rightarrow> api_request \<Rightarrow> srv \<Rightarrow> cli_request \<Rightarrow> cli_answer \<times> srv" where
  "qs_server cr c r0 s q =
     (case serve cr (arriving c r0 q) s of
        (None, s') \<Rightarrow> (Failed ''request failed: EOF'', s')
      | (Some (w, resp), s') \<Rightarrow> (Replied (rs_Code resp) (h_Get ''Location'' w) (wire_body resp), s'))"

section \<open>Handlers that refuse\<close>

text \<open>A step that never answers with a status below 400, and a handler that never does and always answers.\<close>

definition no_ok :: "'a act \<Rightarrow> bool" where
  "no_ok m \<longleftrightarrow> (\<forall>s. case fst (m s) of Answer resp \<Rightarrow> 400 \<le> rs_Code resp | _ \<Rightarrow> True)"

definition refuses :: "'a act \<Rightarrow> bool" where
  "refuses m \<longleftrightarrow> (\<forall>s. case fst (m s) of Answer resp \<Rightarrow> 400 \<le> rs_Code resp | Next _ \<Rightarrow> False | Crash \<Rightarrow> True)"

named_theorems refusal

lemma no_ok_steps [refusal]:
  "no_ok (give x)" "no_ok (asks f)" "no_ok (change g)" "no_ok (put_rand e)" "no_ok (inc name)" "no_ok audit_gauge"
  "no_ok (audit cr r a res b)" "400 \<le> n \<Longrightarrow> no_ok (refuse n msg)" "no_ok crash"
  by (auto simp: no_ok_def give_def asks_def change_def put_rand_def inc_def audit_gauge_def set_gauge_def and_then_def
      audit_def audit_as_def refuse_def crash_def split: option.split)

lemma no_ok_and_then [refusal]: "no_ok m \<Longrightarrow> (\<And>x. no_ok (k x)) \<Longrightarrow> no_ok (and_then m k)"
  by (auto simp: no_ok_def and_then_def split: prod.split outcome.split) (metis fst_conv outcome.simps(10))+

lemma no_ok_attempt [refusal]: "(\<And>x. no_ok (k x)) \<Longrightarrow> (\<And>x. no_ok (h x)) \<Longrightarrow> no_ok (attempt res k h)"
  by (cases res) (simp_all add: attempt_def refusal)

lemma refuses_refuse [refusal]: "400 \<le> n \<Longrightarrow> refuses (refuse n msg)" "refuses crash"
  by (simp_all add: refuses_def refuse_def crash_def)

lemma refuses_and_then:
  assumes "no_ok m" "\<And>s x s'. m s = (Next x, s') \<Longrightarrow> refuses (k x)"
  shows "refuses (and_then m k)"
  unfolding refuses_def
proof
  fix s
  obtain res s' where m: "m s = (res, s')" by force
  then show "case fst (and_then m k s) of Answer resp \<Rightarrow> 400 \<le> rs_Code resp | Next _ \<Rightarrow> False | Crash \<Rightarrow> True"
    using assms(1) assms(2) [of s _ s'] by (cases res) (auto simp: and_then_def no_ok_def refuses_def dest: spec [of _ s])
qed

lemma refuses_then [refusal]: "no_ok m \<Longrightarrow> (\<And>x. refuses (k x)) \<Longrightarrow> refuses (and_then m k)"
  by (rule refuses_and_then) auto

lemma refuses_attempt [refusal]: "(\<And>x. refuses (k x)) \<Longrightarrow> (\<And>x. refuses (h x)) \<Longrightarrow> refuses (attempt res k h)"
  by (cases res) (simp_all add: attempt_def refusal)

lemma refuses_first [refusal]:
  assumes "refuses m"
  shows "refuses (and_then m k)"
  unfolding refuses_def
proof
  fix s
  show "case fst (and_then m k s) of Answer resp \<Rightarrow> 400 \<le> rs_Code resp | Next _ \<Rightarrow> False | Crash \<Rightarrow> True"
    using assms [unfolded refuses_def, rule_format, of s] by (auto simp: and_then_def split: prod.split outcome.split)
qed

section \<open>A refusal reaches the client\<close>

text \<open>The middlewares change the body and the identifier of a request, and may refuse it themselves.\<close>

lemma limit_refuses:
  assumes "hr_Method r = ''POST''" "\<And>b. b = take maxBodyBytes (hr_Body r) \<Longrightarrow> refuses (mux cr (r\<lparr>hr_Body := b\<rparr>))"
    and "Limit sv_rl sv_rl_update (RequireJSON (mux_handler cr)) r w s = (Some (w', resp), s')"
  shows "400 \<le> rs_Code resp"
proof -
  have "400 \<le> rs_Code resp" if m: "mux_handler cr (r\<lparr>hr_Body := take maxBodyBytes (hr_Body r)\<rparr>) w t = (Some (w', resp), s')" for t
    using assms(2) [OF refl, unfolded refuses_def, rule_format, of t] m
    by (auto simp: mux_handler_def split: prod.splits outcome.splits)
  then show ?thesis
    using assms(1,3) by (auto simp: Limit_def RequireJSON_def JSONError_def Let_def split: prod.splits bool.splits if_splits)
qed

lemma serve_refuses:
  assumes "hr_Method r = ''POST''" "\<And>i. refuses (mux cr (r\<lparr>hr_RequestID := i, hr_Body := take maxBodyBytes (hr_Body r)\<rparr>))"
    and "serve cr r s = (Some (w, resp), s')"
  shows "400 \<le> rs_Code resp"
proof -
  let ?lim = "Limit sv_rl sv_rl_update (RequireJSON (mux_handler cr))"
  have lim: "400 \<le> rs_Code resp" if "?lim (r\<lparr>hr_RequestID := i\<rparr>) v t = (Some (w, resp), u)" for i v t u
    using assms(1,2) that by (intro limit_refuses [of "r\<lparr>hr_RequestID := i\<rparr>"]) simp_all
  have http: "400 \<le> rs_Code resp"
    if "HTTPMiddleware sv_metrics sv_metrics_update ?lim (r\<lparr>hr_RequestID := i\<rparr>) v t = (Some (w, resp), u)" for i v t u
    using that lim by (auto simp: HTTPMiddleware_def split: prod.splits option.splits)
  show ?thesis
    using assms(1,3) http
    by (auto simp: serve_def srv_Handler_def RequestID_def SecurityHeaders_def CORS_def Let_def
        split: option.splits prod.splits if_splits)
qed

section \<open>Bodies the client sends\<close>

lemma sent_body:
  assumes "json_wf (JObj kvs)" "hr_Body r = json_enc (JObj kvs) @ nl"
  shows "body_obj r = Some (map (\<lambda>(k, v). (sanitize k, json_sanitize v)) kvs)"
proof -
  have "json_stop nl" by (simp add: json_stop_def nl_def is_ws_def code_def)
  moreover have "compact.enc 0 (JObj kvs) = json_enc (JObj kvs)" by (simp only: compact.enc_def json_pretty_compact)
  ultimately have "dec_value (length (json_enc (JObj kvs) @ nl) + 3) (json_enc (JObj kvs) @ nl) = Some (json_sanitize (JObj kvs), nl)"
    using compact.value_backD [OF compact.value_back [OF assms(1)], of 0 "length (json_enc (JObj kvs) @ nl) + 3" nl]
    by (simp del: json_enc.simps)
  then show ?thesis using assms(2) by (simp add: body_obj_def json_Decode_def del: json_enc.simps)
qed

lemma sanitize_member_names [simp]:
  "sanitize ''message'' = ''message''" "sanitize ''signature'' = ''signature''" "sanitize ''ciphertext'' = ''ciphertext''"
  by (simp_all add: sanitize_ascii code_def)

lemma fold_body_names [simp]:
  "fold_name ''message'' = [77, 69, 83, 83, 65, 71, 69]"
  "fold_name ''signature'' = [83, 73, 71, 78, 65, 84, 85, 82, 69]"
  "fold_name ''ciphertext'' = [67, 73, 80, 72, 69, 82, 84, 69, 88, 84]"
  by (simp_all add: fold_name_def fold_code_def)

lemma b64_Nil [simp]: "b64std_dec [] = Some []" "b64std_lax [] = []"
  by (simp_all add: b64_decode_def b64_decode_lax_def b64_decode_part_def)

text \<open>\<open>qs decrypt\<close> sends \<open>ciphertext\<close> where the server reads \<open>encrypted\<close>.\<close>

lemma decrypt_body:
  assumes "hr_Body r = json_enc (JObj [(''ciphertext'', JStr t), (''key_id'', JStr k)]) @ nl"
  shows "dec_decrypt_request r =
    Some \<lparr>dq_KeyID = sanitize k, dq_KEMCiphertext = [], dq_Nonce = [], dq_Data = [], dq_CreatedAt = 0\<rparr>"
  using sent_body [OF _ assms] by (simp add: dec_decrypt_request_def get_field_def obj_field_def del: json_enc.simps)

lemma decrypt_refuses:
  assumes "hr_Body r = json_enc (JObj [(''ciphertext'', JStr t), (''key_id'', JStr k)]) @ nl"
  shows "refuses (handleDecrypt cr r)"
proof -
  let ?enc = "\<lparr>en_KEMCiphertext = [], en_Nonce = [], en_Data = [], en_CreatedAt = 0\<rparr>"
  have run: "fst (run_decrypter cr r key ?enc s) = Next (Err HyDecryptionFailed)" for key s
    by (simp add: run_decrypter_def hy_Decrypt_def open_encrypted_def split: option.split)
  have "no_ok (run_decrypter cr r key ?enc)" for key by (simp add: no_ok_def run)
  moreover have look: "no_ok (lookupKey cr r x)" for x
    by (simp add: lookupKey_def refusal)
  moreover have fin: "refuses (run_all [inc n, audit cr r a b d, refuse StatusBadRequest msg])" for n a b d msg
    by (simp add: refusal)
  moreover have "refuses (attempt x f (\<lambda>_. run_all [inc n, audit cr r a b d, refuse StatusBadRequest msg]))"
    if "run_decrypter cr r key ?enc s = (Next x, s')" for key s x s' f n a b d msg
  proof -
    have "x = Err HyDecryptionFailed" using run [of key s] that by simp
    then show ?thesis using fin by (simp add: attempt_def del: run_all.simps)
  qed
  ultimately have "refuses (and_then (run_decrypter cr r key ?enc) (\<lambda>res. attempt res f
      (\<lambda>_. run_all [inc n, audit cr r a b d, refuse StatusBadRequest msg])))" for key f n a b d msg
    by (intro refuses_and_then)
  then show ?thesis
    using look by (auto simp: handleDecrypt_def decrypt_body [OF assms] refusal
        simp del: json_enc.simps run_all.simps intro!: refuses_then [of "lookupKey _ _ _"] split: option.split)
qed

text \<open>\<open>qs verify\<close> sends no \<open>public_key\<close>, and the server looks up none for the \<open>key_id\<close>.\<close>

lemma verify_refuses:
  assumes "hr_Body r = json_enc (JObj [(''key_id'', JStr k), (''message'', JStr m), (''signature'', JStr g)]) @ nl"
    and "\<not> mldsa_pk_ok cr 65 []"
  shows "refuses (handleVerifySignature cr r)"
proof -
  have "dec_verify_request r = Some \<lparr>vq_Message = sanitize m, vq_Signature = sanitize g, vq_PublicKey = [], vq_Level = []\<rparr>"
    using sent_body [OF _ assms(1)] by (simp add: dec_verify_request_def get_field_def del: json_enc.simps)
  then show ?thesis
    using assms(2) by (auto simp: handleVerifySignature_def dsa_ParsePublicKey_def dsa_schemeFor_def attempt_def
        intro!: refusal split: option.split)
qed

section \<open>Members the server does not read\<close>

lemma more_sanitize [simp]:
  "sanitize ''subject'' = ''subject''" "sanitize ''public_key_type'' = ''public_key_type''" "sanitize ''ttl_seconds'' = ''ttl_seconds''"
  by (simp_all add: sanitize_ascii code_def)

lemma fold_more_names [simp]:
  "fold_name ''subject'' = [83, 85, 66, 74, 69, 67, 84]"
  "fold_name ''public_key_type'' = [80, 85, 66, 76, 73, 67, 95, 75, 69, 89, 95, 84, 89, 80, 69]"
  "fold_name ''ttl_seconds'' = [84, 84, 76, 95, 83, 69, 67, 79, 78, 68, 83]"
  "fold_name ''ttl_days'' = [84, 84, 76, 95, 68, 65, 89, 83]"
  by (simp_all add: fold_name_def fold_code_def)

text \<open>\<open>qs key generate --algorithm A --name N\<close>: the level the server reads is the empty one, whatever A is.\<close>

lemma generate_ignores_algorithm:
  assumes "hr_Body r = json_enc (JObj (sort_key fst ((''algorithm'', JStr a) # (if n \<noteq> [] then [(''key_id'', JStr n)] else [])))) @ nl"
  shows "Option.bind (body_obj r) (str_field ''level'') = Some []"
  using assms sent_body [of "sort_key fst [(''algorithm'', JStr a)]" r]
    sent_body [of "sort_key fst [(''algorithm'', JStr a), (''key_id'', JStr n)]" r]
  by (auto simp: get_field_def simp del: json_enc.simps split: if_splits)

text \<open>\<open>qs sign --key K --algorithm A\<close>: the server reads the message only and signs with the default level.\<close>

lemma sign_ignores_key:
  assumes "hr_Body r = json_enc (JObj [(''algorithm'', JStr a), (''key_id'', JStr k), (''message'', JStr m)]) @ nl"
  shows "lax_str ''level'' (lax_body r) = []" "lax_str ''message'' (lax_body r) = sanitize m"
  using sent_body [OF _ assms] by (simp_all add: lax_body_def lax_str_def del: json_enc.simps)

text \<open>\<open>qs ca sign --ttl T\<close>: the lifetime the server reads is 0, for which it takes its default.\<close>

lemma ca_sign_ignores_ttl:
  assumes "hr_Body r = json_enc (JObj [(''public_key'', JStr p), (''public_key_type'', JStr t), (''subject'', JStr u), (''ttl_seconds'', JInt d)]) @ nl"
  shows "dec_sign_request r =
    Some \<lparr>gq_Subject = sanitize u, gq_PublicKey = sanitize p, gq_PublicKeyType = sanitize t, gq_TTLDays = 0\<rparr>"
  using sent_body [OF _ assms] by (simp add: dec_sign_request_def get_field_def del: json_enc.simps)

section \<open>The commands that never succeed\<close>

lemma guarded_refuses:
  assumes "\<And>r'. hr_Body r' = hr_Body r \<Longrightarrow> refuses (h r')"
  shows "refuses (guarded cr acc h r)"
proof -
  have "no_ok (allow_subject u now)" for u now
    by (simp add: allow_subject_def no_ok_def split: prod.split)
  then show ?thesis
    using assms by (cases acc) (auto simp: requireRole_def requireAuth_def Let_def intro!: refuses_refuse refuses_then refuses_attempt no_ok_steps)
qed

lemma mux_refuses:
  assumes "hr_Method r = ''POST''" "hr_Path r = path"
    and "(path, h) \<in> set [(''/decrypt'', handleDecrypt cr), (''/verify-signature'', handleVerifySignature cr)]"
    and "\<And>r'. hr_Body r' = hr_Body r \<Longrightarrow> refuses (h r')"
  shows "refuses (mux cr r)"
proof -
  have path: "mux_path r = path" using assms(1-3) by (auto simp: mux_path_def cleanPath_def)
  have route: "\<exists>acc. find_route (routes cr b) ''POST'' path = Some (acc, h, [])" for b
    using assms(3) by (auto simp: find_route_def routes_def match_pattern_def path_segs_def)
  show ?thesis
    unfolding mux_def path
  proof (rule refuses_and_then)
    fix s rs s'
    assume "asks (\<lambda>s. routes cr (clusterEnabled s)) s = (Next rs, s')"
    then obtain acc where "find_route rs ''POST'' path = Some (acc, h, [])"
      using route [of "clusterEnabled s"] by (auto simp: asks_def)
    then show "refuses (if path \<noteq> hr_Path r then (\<lambda>s. (Answer \<lparr>rs_Code = StatusMovedPermanently, rs_Body = NoBody\<rparr>, s))
       else case find_route rs (hr_Method r) path of
         Some (acc, h, pv) \<Rightarrow> guarded cr acc h (r\<lparr>hr_PathValue := pv\<rparr>)
       | None \<Rightarrow>
           (if allowed_methods rs path = [] then (\<lambda>s. (Answer (plain_error StatusNotFound ''404 page not found''), s))
            else (\<lambda>s. (Answer (plain_error StatusMethodNotAllowed ''Method Not Allowed''), s))))"
      using assms(1,2,4) by (simp add: guarded_refuses)
  qed (rule no_ok_steps)
qed

lemma ask_code:
  assumes "run_cli srv (ask e c what verb path body k) s = (r, s')" "cl_Code r \<noteq> 1"
  shows "\<exists>a as. cl_Log r = (cli_request_of c verb path body, a) # as \<and> a = fst (srv s (cli_request_of c verb path body)) \<and>
    (answer_ok e a \<or> redirects a)"
proof -
  let ?q = "cli_request_of c verb path body"
  obtain a s1 where a: "srv s ?q = (a, s1)" by force
  have url: "ce_badURL e (cc_server c @ path) = None"
    using assms by (auto simp: ask_def cli_do_def dieOnErr_def fatalf_def split: option.splits)
  have "cl_Code r = 1" if "\<not> redirects a" "\<not> answer_ok e a"
    using assms(1) url that
    by (auto simp: ask_def cli_do_def http_Do_final [where srv = srv, OF a that(1)] dieOnErr_def require2xx_def fatalf_def answer_ok_def
        split: option.splits cli_answer.splits if_splits prod.splits)
  moreover have "\<exists>as. cl_Log r = (?q, a) # as"
    using assms(1) url by (auto simp: ask_def cli_do_def http_Do.simps [of e maxRedirects] a split: prod.splits)
  ultimately show ?thesis using assms(2) a by auto
qed

lemma refused_request:
  assumes "run_cli (qs_server cr c r0) (ask e c what ''POST'' path (body_of kvs) k) s = (r, s')"
    and "list_all (\<lambda>x. length (cq_Body (fst x)) \<le> maxBodyBytes) (cl_Log r)"
    and "(path, h) \<in> set [(''/decrypt'', handleDecrypt cr), (''/verify-signature'', handleVerifySignature cr)]"
    and "\<And>r'. hr_Body r' = json_enc (JObj (sort_key fst kvs)) @ nl \<Longrightarrow> refuses (h r')"
  shows "cl_Code r = 1"
proof (rule ccontr)
  let ?q = "cli_request_of c ''POST'' path (body_of kvs)"
  assume "cl_Code r \<noteq> 1"
  then obtain a as where a: "cl_Log r = (?q, a) # as" "a = fst (qs_server cr c r0 s ?q)" "answer_ok e a \<or> redirects a"
    using ask_code [OF assms(1)] by blast
  have len: "length (cq_Body ?q) \<le> maxBodyBytes" using assms(2) a(1) by simp
  have "refuses (mux cr (arriving c r0 ?q\<lparr>hr_RequestID := i, hr_Body := take maxBodyBytes (cq_Body ?q)\<rparr>))" for i
    using len by (intro mux_refuses [OF _ _ assms(3)] assms(4)) (simp_all add: arriving_def cli_request_of_def body_of_def)
  then have "400 \<le> rs_Code resp" if "serve cr (arriving c r0 ?q) s = (Some (w, resp), t)" for w resp t
    using that by (intro serve_refuses [OF _ _ that]) (simp_all add: arriving_def cli_request_of_def)
  then show False
    using a(2,3) by (fastforce simp: qs_server_def answer_ok_def redirects_def split: prod.splits option.splits)
qed

text \<open>C35. \<open>qs decrypt\<close> never succeeds against this server, whatever the state of the server and whatever text
  is decrypted: the client sends the member \<open>ciphertext\<close>, the server reads the ciphertext from the member
  \<open>encrypted\<close> and refuses the request, and the client exits with 1.\<close>

theorem qs_decrypt_fails:
  assumes "parse_flags (str_flags [''key'']) [] args = Parsed fl rest"
    and "run_cli (qs_server cr c r0) (cmdDecrypt e c args) s = (r, s')"
    and "list_all (\<lambda>x. length (cq_Body (fst x)) \<le> maxBodyBytes) (cl_Log r)"
  shows "cl_Code r = 1"
proof -
  have "cl_Code r = 1"
    if "run_cli (qs_server cr c r0) (ask e c what ''POST'' ''/decrypt''
      (body_of [(''key_id'', JStr k), (''ciphertext'', JStr t)]) f) s = (r, s')" for what k t f
    by (rule refused_request [OF that assms(3), of "handleDecrypt cr"]) (simp_all add: decrypt_refuses del: json_enc.simps)
  then show ?thesis
    using assms(1,2)
    by (auto simp: cmdDecrypt_def with_flags_def readArgOrStdin_def fatalf_def Let_def
        split: list.splits sum.splits if_splits)
qed

text \<open>\<open>qs verify\<close> never succeeds against this server, not even for a signature the server has made: the
  client sends the identifier of a key and no \<open>public_key\<close>, the server looks at no other member and an empty
  key is not one, so it refuses the request and the client exits with 1.\<close>

theorem qs_verify_fails:
  assumes "\<not> mldsa_pk_ok cr 65 []"
    and "parse_flags (str_flags [''key'', ''sig'']) [] args = Parsed fl rest"
    and "run_cli (qs_server cr c r0) (cmdVerify e c args) s = (r, s')"
    and "list_all (\<lambda>x. length (cq_Body (fst x)) \<le> maxBodyBytes) (cl_Log r)"
  shows "cl_Code r = 1"
proof -
  have "cl_Code r = 1"
    if "run_cli (qs_server cr c r0) (ask e c what ''POST'' ''/verify-signature''
      (body_of [(''key_id'', JStr k), (''message'', JStr m), (''signature'', JStr g)]) f) s = (r, s')" for what k m g f
    by (rule refused_request [OF that assms(4), of "handleVerifySignature cr"])
      (simp_all add: verify_refuses assms(1) del: json_enc.simps)
  then show ?thesis
    using assms(2,3)
    by (auto simp: cmdVerify_def with_flags_def readArgOrStdin_def fatalf_def Let_def
        split: list.splits sum.splits if_splits)
qed

text \<open>A redirection never makes the body longer, so the bound on the bodies is one on the first.\<close>

lemma hop_bodies: "successively (leads_to e) xs \<Longrightarrow> xs \<noteq> [] \<Longrightarrow> length (cq_Body (fst (hd xs))) \<le> n \<Longrightarrow>
  list_all (\<lambda>x. length (cq_Body (fst x)) \<le> n) xs"
proof (induction xs)
  case (Cons x xs)
  then show ?case
    by (cases "xs = []"; cases x; cases "snd x"; cases "hd xs") (auto simp: successively_Cons split: if_splits)
qed simp

lemma ask_log:
  assumes "length (cq_Body (cli_request_of c verb path body)) \<le> n" "\<And>m s. cl_Log (fst (run_cli srv (k m) s)) = []"
  shows "list_all (\<lambda>x. length (cq_Body (fst x)) \<le> n) (cl_Log (fst (run_cli srv (ask e c what verb path body k) s)))"
proof -
  let ?q = "cli_request_of c verb path body"
  have k: "cl_Log r = []" if "run_cli srv (k m) s = (r, s')" for m s r s' using assms(2) [of m s] that by simp
  obtain r s' where run: "run_cli srv (ask e c what verb path body k) s = (r, s')" by force
  have url: "cc_server c @ path = cq_URL ?q" by (simp add: cli_request_of_def)
  show ?thesis
  proof (cases "ce_badURL e (cc_server c @ path)")
    case None
    then obtain xs where "xs \<noteq> []" "fst (hd xs) = ?q" "successively (leads_to e) xs" "cl_Log r = xs"
      using run http_Do_run [of srv e maxRedirects ?q ?q _ s r s'] k
      by (fastforce simp: ask_def cli_do_def url token_kept_def dieOnErr_def require2xx_def fatalf_def
        split: option.splits cli_answer.splits prod.splits if_splits)
    then show ?thesis using hop_bodies [of e xs n] assms(1) run by simp
  qed (simp add: ask_def cli_do_def dieOnErr_def fatalf_def)
qed

lemma esc_plain: "code c < 128 \<Longrightarrow> esc (c # s) = esc_ascii c @ esc s"
proof -
  assume "code c < 128"
  then have "utf8_len (c # s) = 1" by (simp add: utf8_len.simps Let_def)
  then show ?thesis by (simp add: esc.simps [of "c # s"] esc_rune_def rune_width_def del: utf8_len.simps)
qed

lemma esc_Nil: "esc [] = []"
  by (simp add: esc.simps)

definition demo_client :: client where
  "demo_client = newClient ''http://localhost:8080/'' ''t'' False True"

theorem qs_decrypt_fails_witness:
  "cl_Code (fst (run_cli (qs_server toy_crypto demo_client (demo_request [] [] []))
     (cmdDecrypt (cli_demo []) demo_client [''--key=a'', ''AAAA'']) demo_server)) = 1"
proof -
  let ?kvs = "[(''key_id'', JStr ''a''), (''ciphertext'', JStr ''AAAA'')]"
  have parse: "parse_flags (str_flags [''key'']) [] [''--key=a'', ''AAAA''] = Parsed [(''key'', ''a'')] [''AAAA'']"
    by (simp add: str_flags_def split_flag_def Let_def)
  have "length (cq_Body (cli_request_of demo_client ''POST'' ''/decrypt'' (body_of ?kvs))) \<le> maxBodyBytes"
    by (simp add: cli_request_of_def body_of_def maxBodyBytes_def nl_def quote_def code_def esc_plain esc_Nil esc_ascii_def Let_def)
  moreover have "\<exists>f. cmdDecrypt (cli_demo []) demo_client [''--key=a'', ''AAAA''] =
      ask (cli_demo []) demo_client ''decrypt'' ''POST'' ''/decrypt'' (body_of ?kvs) (show_lines demo_client f)"
    unfolding cmdDecrypt_def with_flags_def parse by (auto simp: readArgOrStdin_def flag_value_def)
  ultimately have "list_all (\<lambda>x. length (cq_Body (fst x)) \<le> maxBodyBytes) (cl_Log (fst
      (run_cli (qs_server toy_crypto demo_client (demo_request [] [] [])) (cmdDecrypt (cli_demo []) demo_client [''--key=a'', ''AAAA'']) demo_server)))"
    by (metis ask_log show_log(1))
  then show ?thesis by (rule qs_decrypt_fails [OF parse prod.collapse [symmetric]])
qed

theorem qs_verify_fails_witness:
  "cl_Code (fst (run_cli (qs_server toy_crypto demo_client (demo_request [] [] []))
     (cmdVerify (cli_demo []) demo_client [''--key=a'', ''--sig=AAAA'', ''hi'']) demo_server)) = 1"
proof -
  let ?kvs = "[(''key_id'', JStr ''a''), (''message'', JStr ''hi''), (''signature'', JStr ''AAAA'')]"
  have parse: "parse_flags (str_flags [''key'', ''sig'']) [] [''--key=a'', ''--sig=AAAA'', ''hi''] =
      Parsed [(''key'', ''a''), (''sig'', ''AAAA'')] [''hi'']"
    by (simp add: str_flags_def split_flag_def Let_def)
  have "length (cq_Body (cli_request_of demo_client ''POST'' ''/verify-signature'' (body_of ?kvs))) \<le> maxBodyBytes"
    by (simp add: cli_request_of_def body_of_def maxBodyBytes_def nl_def quote_def code_def esc_plain esc_Nil esc_ascii_def Let_def)
  moreover have "\<exists>f g. cmdVerify (cli_demo []) demo_client [''--key=a'', ''--sig=AAAA'', ''hi''] =
      ask (cli_demo []) demo_client ''verify'' ''POST'' ''/verify-signature'' (body_of ?kvs) (show_verdict demo_client f g)"
    unfolding cmdVerify_def with_flags_def parse by (auto simp: readArgOrStdin_def flag_value_def)
  ultimately have "list_all (\<lambda>x. length (cq_Body (fst x)) \<le> maxBodyBytes) (cl_Log (fst
      (run_cli (qs_server toy_crypto demo_client (demo_request [] [] [])) (cmdVerify (cli_demo []) demo_client [''--key=a'', ''--sig=AAAA'', ''hi'']) demo_server)))"
    by (metis ask_log show_log(2))
  moreover have "\<not> mldsa_pk_ok toy_crypto 65 []" by (simp add: toy_crypto_def)
  ultimately show ?thesis using qs_verify_fails [OF _ parse prod.collapse [symmetric]] by blast
qed

end
