(* ===== verification/Hsm.thy ===== *)
theory Hsm
  imports Keystore
begin

text \<open>
  The providers of the keystore's master key: \<open>internal/hsm/hsm.go\<close> (a password) and
  \<open>internal/hsm/pkcs11.go\<close> (a hardware module). The interface \<open>MasterKeyProvider\<close> is the locale
  \<open>master_key_provider\<close>; both implementations interpret it. A PKCS#11 library is not code of the
  repository: what it answers during one call of \<open>MasterKey\<close> is an argument, and the calls the provider
  makes are recorded.
\<close>

section \<open>The interface\<close>

datatype ('a, 'b) provider_op = GetKey 'a | CloseProvider 'b

locale master_key_provider =
  fixes key :: "'w \<Rightarrow> 'p \<Rightarrow> ('e, bytes) result \<times> 'p"
    and shut :: "'c \<Rightarrow> 'p \<Rightarrow> 'p"
    and closed :: "'p \<Rightarrow> bool"
    and good :: "'p \<Rightarrow> bool"
  assumes key_good: "good p \<Longrightarrow> good (snd (key w p))"
    and key_cached: "good p \<Longrightarrow> key w p = (Ok k, p') \<Longrightarrow> length k = 32 \<and> key w' p' = (Ok k, p')"
    and key_open: "good p \<Longrightarrow> closed (snd (key w p)) = closed p"
    and shut_closed: "closed (shut c p)"
    and shut_good: "good p \<Longrightarrow> good (shut c p)"
    and closed_key: "closed p \<Longrightarrow> \<exists>er. key w p = (Err er, p)"
begin

fun run :: "('w, 'c) provider_op list \<Rightarrow> 'p \<Rightarrow> ('e, bytes) result list" where
  "run [] p = []"
| "run (GetKey w # xs) p = fst (key w p) # run xs (snd (key w p))"
| "run (CloseProvider c # xs) p = run xs (shut c p)"

lemma run_closed: "closed p \<Longrightarrow> Ok k \<notin> set (run xs p)"
proof (induction xs arbitrary: p)
  case (Cons x xs)
  show ?case
  proof (cases x)
    case (GetKey w)
    obtain er where "key w p = (Err er, p)" using closed_key Cons.prems by blast
    then show ?thesis using Cons by (simp add: GetKey)
  qed (use Cons shut_closed in simp)
qed simp

lemma run_cached: "good p \<Longrightarrow> key w p = (Ok k, p) \<Longrightarrow> Ok k' \<in> set (run xs p) \<Longrightarrow> k' = k"
proof (induction xs)
  case (Cons x xs)
  show ?case
  proof (cases x)
    case (GetKey w')
    have "key w' p = (Ok k, p)" using key_cached Cons.prems(1,2) by blast
    then show ?thesis using Cons by (auto simp: GetKey)
  next
    case (CloseProvider c)
    then show ?thesis using Cons.prems run_closed [OF shut_closed] by simp
  qed
qed simp

lemma run_ok_length: "good p \<Longrightarrow> Ok k \<in> set (run xs p) \<Longrightarrow> length k = 32"
proof (induction xs arbitrary: p)
  case (Cons x xs)
  show ?case
  proof (cases x)
    case (GetKey w)
    then show ?thesis using Cons key_good key_cached
      by (metis list.set_intros prod.collapse run.simps(2) set_ConsD)
  next
    case (CloseProvider c)
    then show ?thesis using Cons.prems run_closed [OF shut_closed] by simp
  qed
qed simp

lemma one_key: "good p \<Longrightarrow> Ok k \<in> set (run xs p) \<Longrightarrow> Ok k' \<in> set (run xs p) \<Longrightarrow> k' = k"
proof (induction xs arbitrary: p)
  case (Cons x xs)
  show ?case
  proof (cases x)
    case (GetKey w)
    obtain r p' where rp: "key w p = (r, p')" by fastforce
    have g: "good p'" using key_good [OF Cons.prems(1), of w] rp by simp
    show ?thesis
    proof (cases r)
      case (Ok k0)
      then have "key w p' = (Ok k0, p')" using key_cached [OF Cons.prems(1)] rp by blast
      then have "k = k0" "k' = k0" using Cons.prems(2,3) run_cached [OF g] by (auto simp: GetKey rp Ok)
      then show ?thesis by simp
    qed (use Cons g in \<open>auto simp: GetKey rp\<close>)
  next
    case (CloseProvider c)
    then show ?thesis using Cons.prems run_closed [OF shut_closed] by simp
  qed
qed simp

end

section \<open>A password: EnvProvider\<close>

datatype hsm_error =
    HsmEmptyPassword | HsmEmptySalt | HsmClosed | HsmDerive kdf_error | HsmKeySize nat
  | HsmNoLib | HsmNoLabel | HsmNew | HsmInitialize | HsmOpenSession | HsmLogin
  | HsmFindInit | HsmFind | HsmNotFound | HsmAmbiguous nat | HsmGetAttribute | HsmEmptyValue

record env_provider =
  ep_password :: bytes
  ep_domainSalt :: string
  ep_derived :: "bytes option"
  ep_closed :: bool
  ep_err :: "hsm_error option"

definition NewEnvProvider :: "string \<Rightarrow> string \<Rightarrow> (hsm_error, env_provider) result" where
  "NewEnvProvider password domainSalt =
     (if password = [] then Err HsmEmptyPassword
      else if domainSalt = [] then Err HsmEmptySalt
      else Ok \<lparr>ep_password = str_bytes password, ep_domainSalt = domainSalt, ep_derived = None,
               ep_closed = False, ep_err = None\<rparr>)"

definition env_MasterKey :: "crypto \<Rightarrow> env_provider \<Rightarrow> (hsm_error, bytes) result \<times> env_provider" where
  "env_MasterKey cr p =
     (if ep_closed p then (Err HsmClosed, p)
      else case ep_err p of
        Some er \<Rightarrow> (Err er, p)
      | None \<Rightarrow>
          (case ep_derived p of
             Some k \<Rightarrow> (Ok k, p)
           | None \<Rightarrow>
               (case DeriveArgon2id cr (ep_password p) (DomainSalt cr (ep_domainSalt p)) of
                  Ok k \<Rightarrow>
                    (if length k \<noteq> 32 then (Err (HsmKeySize (length k)), p\<lparr>ep_err := Some (HsmKeySize (length k))\<rparr>)
                     else (Ok k, p\<lparr>ep_derived := Some k\<rparr>))
                | Err er \<Rightarrow> (Err (HsmDerive er), p\<lparr>ep_err := Some (HsmDerive er)\<rparr>)
                | Panic \<Rightarrow> (Panic, p))))"

text \<open>\<open>Close\<close> overwrites the password and the key before it drops them.\<close>

definition env_Close :: "env_provider \<Rightarrow> env_provider" where
  "env_Close p = (if ep_closed p then p else p\<lparr>ep_closed := True, ep_password := [], ep_derived := None\<rparr>)"

definition env_good :: "crypto \<Rightarrow> env_provider \<Rightarrow> bool" where
  "env_good cr p \<longleftrightarrow> (\<forall>k. ep_derived p = Some k \<longrightarrow>
     length k = 32 \<and> \<not> ep_closed p \<and> ep_err p = None \<and>
     DeriveArgon2id cr (ep_password p) (DomainSalt cr (ep_domainSalt p)) = Ok k)"

lemma DeriveArgon2id_no_panic [simp]: "DeriveArgon2id cr p s \<noteq> Panic"
  by (simp add: DeriveArgon2id_def)

interpretation env: master_key_provider "\<lambda>_ :: unit. env_MasterKey cr" "\<lambda>_ :: unit. env_Close" ep_closed "env_good cr"
proof
  fix w w' p k p'
  show "env_good cr p \<Longrightarrow> env_good cr (snd (env_MasterKey cr p))"
    by (auto simp: env_MasterKey_def env_good_def split: option.splits result.splits)
  show "env_good cr p \<Longrightarrow> env_MasterKey cr p = (Ok k, p') \<Longrightarrow> length k = 32 \<and> env_MasterKey cr p' = (Ok k, p')"
    by (auto simp: env_MasterKey_def env_good_def split: option.splits result.splits if_splits)
qed (auto simp: env_MasterKey_def env_Close_def env_good_def split: option.splits result.splits)

lemma env_key_derived:
  "env_good cr p \<Longrightarrow> env_MasterKey cr p = (Ok k, p') \<Longrightarrow>
     DeriveArgon2id cr (ep_password p) (DomainSalt cr (ep_domainSalt p)) = Ok k"
  by (auto simp: env_MasterKey_def env_good_def split: option.splits result.splits if_splits)

lemma NewEnvProvider_good: "NewEnvProvider pw salt = Ok p \<Longrightarrow> env_good cr p"
  by (auto simp: NewEnvProvider_def env_good_def split: if_splits)

section \<open>A hardware module: PKCS11Provider\<close>

text \<open>The calls of the library, with the session they are made on.\<close>

datatype p11_call =
    P11New | P11Initialize | P11Destroy | P11OpenSession nat | P11Login nat | P11CloseSession nat
  | P11FindObjectsInit nat | P11FindObjects nat | P11FindObjectsFinal nat | P11GetAttributeValue nat nat
  | P11Logout nat | P11Finalize

text \<open>What the library answers during one \<open>MasterKey\<close>: \<open>pa_find\<close> is the list of at most two handles,
  \<open>pa_value\<close> the values of the returned attributes.\<close>

record p11_answers =
  pa_new :: bool
  pa_initialize :: bool
  pa_session :: "nat option"
  pa_login :: bool
  pa_findInit :: bool
  pa_find :: "nat list option"
  pa_findFinal :: bool
  pa_value :: "bytes list option"

record p11_provider =
  pp_lib :: string
  pp_slot :: nat
  pp_pin :: string
  pp_keyLabel :: string
  pp_ctx :: bool
  pp_session :: nat
  pp_derived :: "bytes option"
  pp_initErr :: "hsm_error option"
  pp_closed :: bool
  pp_calls :: "p11_call list"

definition NewPKCS11Provider :: "string \<Rightarrow> nat \<Rightarrow> string \<Rightarrow> string \<Rightarrow> (hsm_error, p11_provider) result" where
  "NewPKCS11Provider lib slot pin keyLabel =
     (if lib = [] then Err HsmNoLib
      else if keyLabel = [] then Err HsmNoLabel
      else Ok \<lparr>pp_lib = lib, pp_slot = slot, pp_pin = pin, pp_keyLabel = keyLabel, pp_ctx = False, pp_session = 0,
               pp_derived = None, pp_initErr = None, pp_closed = False, pp_calls = []\<rparr>)"

definition called :: "p11_call list \<Rightarrow> p11_provider \<Rightarrow> p11_provider" where
  "called cs p = p\<lparr>pp_calls := pp_calls p @ cs\<rparr>"

definition sticky :: "hsm_error \<Rightarrow> p11_provider \<Rightarrow> (hsm_error, bytes) result \<times> p11_provider" where
  "sticky er p = (Err er, p\<lparr>pp_initErr := Some er\<rparr>)"

text \<open>Step 1 leaves an initialised context; steps 2 and 3 open the session and log in; steps 4 and 5
  find the key and read it.\<close>

definition p11_library :: "p11_answers \<Rightarrow> p11_provider \<Rightarrow> (hsm_error, unit) result \<times> p11_provider" where
  "p11_library a p =
     (if pp_ctx p then (Ok (), p)
      else if \<not> pa_new a then (Err HsmNew, (called [P11New] p)\<lparr>pp_initErr := Some HsmNew\<rparr>)
      else if \<not> pa_initialize a
      then (Err HsmInitialize, (called [P11New, P11Initialize, P11Destroy] p)\<lparr>pp_initErr := Some HsmInitialize\<rparr>)
      else (Ok (), (called [P11New, P11Initialize] p)\<lparr>pp_ctx := True\<rparr>))"

definition p11_read :: "p11_answers \<Rightarrow> p11_provider \<Rightarrow> (hsm_error, bytes) result \<times> p11_provider" where
  "p11_read a p =
     (let s = pp_session p in
      if \<not> pa_findInit a then (Err HsmFindInit, called [P11FindObjectsInit s] p)
      else (let p1 = called [P11FindObjectsInit s, P11FindObjects s, P11FindObjectsFinal s] p in
        case pa_find a of
          None \<Rightarrow> (Err HsmFind, p1)
        | Some handles \<Rightarrow>
            (if \<not> pa_findFinal a then (Err HsmFind, p1)
             else case handles of
               [] \<Rightarrow> (Err HsmNotFound, p1)
             | [h] \<Rightarrow>
                 (let p2 = called [P11GetAttributeValue s h] p1 in
                  case pa_value a of
                    None \<Rightarrow> (Err HsmGetAttribute, p2)
                  | Some [] \<Rightarrow> (Err HsmEmptyValue, p2)
                  | Some (v # _) \<Rightarrow>
                      (if length v = 0 then (Err HsmEmptyValue, p2)
                       else if length v \<noteq> 32 then (Err (HsmKeySize (length v)), p2)
                       else (Ok v, p2\<lparr>pp_derived := Some v\<rparr>)))
             | _ \<Rightarrow> (Err (HsmAmbiguous (length handles)), p1))))"

definition p11_MasterKey :: "p11_answers \<Rightarrow> p11_provider \<Rightarrow> (hsm_error, bytes) result \<times> p11_provider" where
  "p11_MasterKey a p =
     (if pp_closed p then (Err HsmClosed, p)
      else case pp_initErr p of
        Some er \<Rightarrow> (Err er, p)
      | None \<Rightarrow>
          (case pp_derived p of
             Some k \<Rightarrow> (Ok k, p)
           | None \<Rightarrow>
               (case p11_library a p of
                  (Ok _, p1) \<Rightarrow>
                    (case pa_session a of
                       None \<Rightarrow> sticky HsmOpenSession p1
                     | Some s \<Rightarrow>
                         (let p2 = (called [P11OpenSession s] p1)\<lparr>pp_session := s\<rparr> in
                          if pp_pin p2 \<noteq> [] \<and> \<not> pa_login a
                          then sticky HsmLogin (called [P11Login s, P11CloseSession s] p2)
                          else p11_read a (if pp_pin p2 \<noteq> [] then called [P11Login s] p2 else p2)))
                | (Err er, p1) \<Rightarrow> (Err er, p1)
                | (Panic, p1) \<Rightarrow> (Panic, p1))))"

definition p11_Close :: "p11_provider \<Rightarrow> p11_provider" where
  "p11_Close p =
     (if pp_closed p then p
      else (let p1 = p\<lparr>pp_closed := True, pp_derived := None\<rparr> in
        if \<not> pp_ctx p1 then p1
        else (called ((if pp_pin p1 \<noteq> [] then [P11Logout (pp_session p1)] else []) @
                [P11CloseSession (pp_session p1), P11Finalize, P11Destroy]) p1)\<lparr>pp_ctx := False\<rparr>))"

text \<open>\<open>Close\<close> reports the library's errors; its effect on the provider does not depend on them.\<close>

definition p11_good :: "p11_provider \<Rightarrow> bool" where
  "p11_good p \<longleftrightarrow> (\<forall>k. pp_derived p = Some k \<longrightarrow> length k = 32 \<and> \<not> pp_closed p \<and> pp_initErr p = None)"

lemma called_sel [simp]:
  "pp_derived (called cs p) = pp_derived p" "pp_closed (called cs p) = pp_closed p" "pp_initErr (called cs p) = pp_initErr p"
  "pp_ctx (called cs p) = pp_ctx p" "pp_pin (called cs p) = pp_pin p" "pp_session (called cs p) = pp_session p"
  "pp_calls (called cs p) = pp_calls p @ cs"
  by (simp_all add: called_def)

lemma p11_library_frame:
  "p11_library a p = (r, p1) \<Longrightarrow> pp_derived p1 = pp_derived p \<and> pp_closed p1 = pp_closed p \<and>
     (is_ok r \<longrightarrow> pp_initErr p1 = pp_initErr p) \<and> r \<noteq> Panic"
  by (auto simp: p11_library_def split: if_splits)

lemma p11_read_frame:
  assumes "p11_read a p = (r, p1)" "pp_derived p = None"
  shows "pp_closed p1 = pp_closed p \<and> pp_initErr p1 = pp_initErr p \<and>
    (case r of Ok k \<Rightarrow> length k = 32 \<and> pp_derived p1 = Some k | _ \<Rightarrow> pp_derived p1 = None)"
  using assms by (auto simp: p11_read_def Let_def split: if_splits option.splits list.splits)

lemma p11_MasterKey_frame:
  assumes "p11_good p" "p11_MasterKey a p = (r, p1)"
  shows "p11_good p1 \<and> pp_closed p1 = pp_closed p \<and>
    (\<forall>k. r = Ok k \<longrightarrow> length k = 32 \<and> pp_derived p1 = Some k \<and> \<not> pp_closed p1 \<and> pp_initErr p1 = None)"
  using assms
  by (auto simp: p11_MasterKey_def p11_good_def sticky_def Let_def
      split: if_splits option.splits prod.splits result.splits
      dest!: p11_library_frame p11_read_frame)

interpretation p11: master_key_provider p11_MasterKey "\<lambda>_ :: unit. p11_Close" pp_closed p11_good
proof
  fix p a k p' b
  show "p11_good p \<Longrightarrow> p11_good (snd (p11_MasterKey a p))"
    using p11_MasterKey_frame by (metis prod.collapse)
  show "p11_good p \<Longrightarrow> pp_closed (snd (p11_MasterKey a p)) = pp_closed p"
    using p11_MasterKey_frame by (metis prod.collapse)
  assume "p11_good p" "p11_MasterKey a p = (Ok k, p')"
  then have "length k = 32 \<and> pp_derived p' = Some k \<and> \<not> pp_closed p' \<and> pp_initErr p' = None"
    using p11_MasterKey_frame by blast
  then show "length k = 32 \<and> p11_MasterKey b p' = (Ok k, p')" by (simp add: p11_MasterKey_def)
qed (auto simp: p11_Close_def p11_good_def p11_MasterKey_def Let_def)

section \<open>What the providers promise\<close>

text \<open>C39. However \<open>MasterKey\<close> and \<open>Close\<close> are called on a password provider, every key handed out is the
  one 32-byte key that Argon2id derives from the password and the domain salt.\<close>

theorem env_one_key:
  assumes "NewEnvProvider pw salt = Ok p" and "Ok k \<in> set (env.run cr xs p)"
  shows "length k = 32 \<and> DeriveArgon2id cr (str_bytes pw) (DomainSalt cr salt) = Ok k"
proof -
  have good: "env_good cr p" using assms(1) by (rule NewEnvProvider_good)
  have fields: "ep_password p = str_bytes pw" "ep_domainSalt p = salt" "ep_derived p = None"
    using assms(1) by (auto simp: NewEnvProvider_def split: if_splits)
  have "Ok k \<in> set (env.run cr xs q) \<Longrightarrow> env_good cr q \<Longrightarrow> ep_password q = str_bytes pw \<Longrightarrow> ep_domainSalt q = salt \<Longrightarrow>
      DeriveArgon2id cr (str_bytes pw) (DomainSalt cr salt) = Ok k" for q
  proof (induction xs arbitrary: q)
    case (Cons x xs)
    show ?case
    proof (cases x)
      case (GetKey w)
      have frame: "ep_password (snd (env_MasterKey cr q)) = ep_password q" "ep_domainSalt (snd (env_MasterKey cr q)) = ep_domainSalt q"
        by (auto simp: env_MasterKey_def split: option.splits result.splits)
      show ?thesis
      proof (cases "fst (env_MasterKey cr q) = Ok k")
        case True
        then show ?thesis using env_key_derived [OF Cons.prems(2)] Cons.prems(3,4) by (metis prod.collapse)
      next
        case False
        then show ?thesis using Cons frame env.key_good [OF Cons.prems(2)] by (auto simp: GetKey)
      qed
    next
      case (CloseProvider c)
      then show ?thesis using Cons.prems(1) env.run_closed [OF env.shut_closed] by simp
    qed
  qed simp
  then show ?thesis using assms(2) good fields env.run_ok_length [OF good] by blast
qed

definition demo_env :: env_provider where
  "demo_env = \<lparr>ep_password = str_bytes ''pw'', ep_domainSalt = ''s'', ep_derived = None, ep_closed = False, ep_err = None\<rparr>"

definition demo_key :: bytes where
  "demo_key = argon2id toy_crypto 2 (str_bytes ''pw'') (DomainSalt toy_crypto ''s'')"

theorem env_one_key_witness:
  "Ok demo_key \<in> set (env.run toy_crypto [GetKey (), GetKey (), CloseProvider (), GetKey ()] demo_env) \<and>
   length demo_key = 32 \<and> DeriveArgon2id toy_crypto (str_bytes ''pw'') (DomainSalt toy_crypto ''s'') = Ok demo_key"
proof -
  have new: "NewEnvProvider ''pw'' ''s'' = Ok demo_env" by (simp add: NewEnvProvider_def demo_env_def)
  have len: "length demo_key = 32" "length (DomainSalt toy_crypto ''s'') = 32"
    by (simp_all add: demo_key_def DomainSalt_def)
  then have "DeriveArgon2id toy_crypto (str_bytes ''pw'') (DomainSalt toy_crypto ''s'') = Ok demo_key"
    by (simp add: DeriveArgon2id_def demo_key_def)
  then have "env_MasterKey toy_crypto demo_env = (Ok demo_key, demo_env\<lparr>ep_derived := Some demo_key\<rparr>)"
    using len by (simp add: env_MasterKey_def demo_env_def)
  then have "Ok demo_key \<in> set (env.run toy_crypto [GetKey (), GetKey (), CloseProvider (), GetKey ()] demo_env)"
    by simp
  with env_one_key [OF new this] show ?thesis by blast
qed

text \<open>
  A key that is not found is not a sticky error: the call can be repeated. But the session of the failed
  call stays open and logged in, and the next call opens another one in its place; only the last one is
  closed. Libraries refuse a second login of the same user, which then is a sticky error: a key created
  after the first attempt is never found.
\<close>

definition demo_answers :: "nat \<Rightarrow> bool \<Rightarrow> p11_answers" where
  "demo_answers s login =
     \<lparr>pa_new = True, pa_initialize = True, pa_session = Some s, pa_login = login, pa_findInit = True,
      pa_find = Some [], pa_findFinal = True, pa_value = None\<rparr>"

lemma p11_session_leak:
  assumes "NewPKCS11Provider lib slot pin label = Ok p" "pin \<noteq> []"
  shows "pp_calls (p11_Close (snd (p11_MasterKey (demo_answers 2 True) (snd (p11_MasterKey (demo_answers 1 True) p))))) =
      [P11New, P11Initialize, P11OpenSession 1, P11Login 1, P11FindObjectsInit 1, P11FindObjects 1, P11FindObjectsFinal 1,
       P11OpenSession 2, P11Login 2, P11FindObjectsInit 2, P11FindObjects 2, P11FindObjectsFinal 2,
       P11Logout 2, P11CloseSession 2, P11Finalize, P11Destroy]"
    and "fst (p11_MasterKey a (snd (p11_MasterKey (demo_answers 2 False) (snd (p11_MasterKey (demo_answers 1 True) p))))) = Err HsmLogin"
  using assms
  by (auto simp: NewPKCS11Provider_def p11_MasterKey_def p11_library_def p11_read_def p11_Close_def demo_answers_def
      sticky_def called_def Let_def split: if_splits)

text \<open>A provider hands its key to \<open>OpenWithProvider\<close>, which needs 32 bytes: it never refuses the size.\<close>

lemma env_provider_opens:
  assumes "env_good cr p" "env_MasterKey cr p = (Ok k, p')"
  shows "OpenWithProvider d path (Some (Some k)) fs = openWithKey d path k fs"
  using env.key_cached [OF assms] by (simp add: OpenWithProvider_def)

end
