(* ===== verification/Scanner.thy ===== *)
theory Scanner
  imports Json "HOL-Library.Product_Lexorder"
begin

text \<open>
  The migration scanner of \<open>cmd/scanner/main.go\<close>: it walks a directory tree and reports the lines that
  match one of its patterns. The patterns are regular expressions over a small syntax with a matcher on
  byte strings; the file system is a tree whose directories list their entries in the order \<open>ReadDir\<close>
  returns them. The text report and the program itself are in \<open>ScannerMain\<close>.
\<close>

section \<open>Regular expressions\<close>

text \<open>What package regexp offers of the syntax the patterns use. A state of the matcher is the byte before
  the position, if any, and the rest of the text; \<open>WordEnd\<close> is the assertion \<open>\b\<close>.\<close>

datatype rx =
    Byte char | OneOf string | AnyByte | Empty | Cat rx rx | Alt rx rx | Many rx | WordEnd

type_synonym rx_pos = "char option \<times> string"

definition word_char :: "char \<Rightarrow> bool" where
  "word_char c = (let n = of_char c :: nat in
     48 \<le> n \<and> n \<le> 57 \<or> 65 \<le> n \<and> n \<le> 90 \<or> n = 95 \<or> 97 \<le> n \<and> n \<le> 122)"

definition at_boundary :: "rx_pos \<Rightarrow> bool" where
  "at_boundary st =
     (case st of (prev, s) \<Rightarrow>
        (case prev of None \<Rightarrow> False | Some c \<Rightarrow> word_char c) \<noteq> (case s of [] \<Rightarrow> False | c # _ \<Rightarrow> word_char c))"

function (sequential) ends :: "rx \<Rightarrow> rx_pos \<Rightarrow> rx_pos list" where
  "ends (Byte c) (p, s) = (case s of [] \<Rightarrow> [] | x # xs \<Rightarrow> if x = c then [(Some x, xs)] else [])"
| "ends (OneOf cs) (p, s) = (case s of [] \<Rightarrow> [] | x # xs \<Rightarrow> if x \<in> set cs then [(Some x, xs)] else [])"
| "ends AnyByte (p, s) = (case s of [] \<Rightarrow> [] | x # xs \<Rightarrow> [(Some x, xs)])"
| "ends Empty st = [st]"
| "ends (Cat r q) st = concat (map (ends q) (ends r st))"
| "ends (Alt r q) st = ends r st @ ends q st"
| "ends (Many r) st =
     st # concat (map (ends (Many r)) (filter (\<lambda>t. length (snd t) < length (snd st)) (ends r st)))"
| "ends WordEnd st = (if at_boundary st then [st] else [])"
  by pat_completeness auto
termination
  by (relation "measures [size \<circ> fst, length \<circ> snd \<circ> snd]") auto

text \<open>\<open>MatchString\<close>: the expression matches somewhere in the text.\<close>

fun search :: "rx \<Rightarrow> char option \<Rightarrow> string \<Rightarrow> bool" where
  "search r p [] = (ends r (p, []) \<noteq> [])"
| "search r p (c # s) = (ends r (p, c # s) \<noteq> [] \<or> search r (Some c) s)"

definition MatchString :: "rx \<Rightarrow> string \<Rightarrow> bool" where
  "MatchString r s = search r None s"

text \<open>Literals, exact and with \<open>(?i)\<close>: under case folding the letters k and s also stand for the Kelvin
  sign and the long s.\<close>

definition lit :: "string \<Rightarrow> rx" where
  "lit s = foldr (\<lambda>c r. Cat (Byte c) r) s Empty"

definition lower1 :: "char \<Rightarrow> char" where
  "lower1 c = (let n = of_char c :: nat in if 65 \<le> n \<and> n \<le> 90 then char_of (n + 32) else c)"

definition fold_char :: "char \<Rightarrow> rx" where
  "fold_char c =
     (let l = lower1 c; both = OneOf [l, upper_char l] in
      if l = CHR ''k'' then Alt both (lit [CHR 0xE2, CHR 0x84, CHR 0xAA])
      else if l = CHR ''s'' then Alt both (lit [CHR 0xC5, CHR 0xBF])
      else both)"

definition ilit :: "string \<Rightarrow> rx" where
  "ilit s = foldr (\<lambda>c r. Cat (fold_char c) r) s Empty"

definition alts :: "rx list \<Rightarrow> rx" where
  "alts rs = foldr Alt (butlast rs) (last rs)"

definition cats :: "rx list \<Rightarrow> rx" where
  "cats rs = foldr Cat rs Empty"

definition many1 :: "rx \<Rightarrow> rx" where
  "many1 r = Cat r (Many r)"

definition at_least :: "nat \<Rightarrow> rx \<Rightarrow> rx" where
  "at_least n r = foldr Cat (replicate n r) (Many r)"

definition opt :: "rx \<Rightarrow> rx" where
  "opt r = Alt r Empty"

definition blank :: rx where
  "blank = OneOf [CHR 0x09, CHR 0x0A, CHR 0x0C, CHR 0x0D, CHR '' '']"

definition quote :: string where "quote = [CHR 0x22]"
definition anyquote :: rx where "anyquote = OneOf [CHR 0x22, CHR 0x27]"

definition folded :: "string \<Rightarrow> rx" where
  "folded cs = alts [OneOf cs, lit [CHR 0xE2, CHR 0x84, CHR 0xAA], lit [CHR 0xC5, CHR 0xBF]]"

definition alnum :: string where
  "alnum = ''ABCDEFGHIJKLMNOPQRSTUVWXYZabcdefghijklmnopqrstuvwxyz0123456789''"

section \<open>The patterns\<close>

record pattern =
  pt_id :: string
  pt_description :: string
  pt_severity :: string
  pt_pqReplacement :: string
  pt_re :: rx

definition dash :: string where "dash = [CHR 0x20, CHR 0xE2, CHR 0x80, CHR 0x94, CHR 0x20]"

definition apostrophe :: string where "apostrophe = [CHR 0x27]"

definition pat_rsa_keygen :: pattern where
  "pat_rsa_keygen = \<lparr>pt_id = ''RSA-KEYGEN'',
     pt_description = ''RSA key generation'' @ dash @ ''vulnerable to Shor'' @ apostrophe @ ''s algorithm'', pt_severity = ''critical'',
     pt_pqReplacement = ''ML-KEM-768 (crypto/mlkem) for encryption, ML-DSA-65 (circl) for signatures'',
     pt_re = alts [ilit ''rsa.GenerateKey'', ilit ''RSA_generate_key'', ilit ''generateRSAKey'',
       cats [ilit ''new'', many1 blank, ilit ''RSAKey''], ilit (''KeyPairGenerator.getInstance('' @ quote @ ''RSA'' @ quote @ '')'')]\<rparr>"

definition pat_rsa_encrypt :: pattern where
  "pat_rsa_encrypt = \<lparr>pt_id = ''RSA-ENCRYPT'', pt_description = ''RSA encryption (PKCS1v15 / OAEP)'', pt_severity = ''critical'',
     pt_pqReplacement = ''ML-KEM-768 + AES-256-GCM hybrid encryption'',
     pt_re = alts [ilit ''rsa.EncryptOAEP'', ilit ''rsa.EncryptPKCS1v15'', ilit ''RSA_public_encrypt'',
       ilit (''Cipher.getInstance('' @ quote @ ''RSA'')]\<rparr>"

definition pat_rsa_sign :: pattern where
  "pat_rsa_sign = \<lparr>pt_id = ''RSA-SIGN'',
     pt_description = ''RSA signature'' @ dash @ ''vulnerable to Shor'' @ apostrophe @ ''s algorithm'', pt_severity = ''critical'',
     pt_pqReplacement = ''ML-DSA-65 (NIST FIPS 204)'',
     pt_re = alts [ilit ''rsa.SignPKCS1v15'', ilit ''rsa.SignPSS'', ilit ''RSA_sign'',
       cats [ilit ''.sign('', Many AnyByte, ilit ''RSA'']]\<rparr>"

definition pat_ecdsa :: pattern where
  "pat_ecdsa = \<lparr>pt_id = ''ECDSA'',
     pt_description = ''ECDSA signature'' @ dash @ ''vulnerable to Shor'' @ apostrophe @ ''s algorithm'', pt_severity = ''critical'',
     pt_pqReplacement = ''ML-DSA-65 (NIST FIPS 204)'',
     pt_re = alts [ilit ''ecdsa.Sign'', ilit ''ecdsa.Verify'', ilit ''EC_sign'', ilit ''EC_verify'',
       cats [ilit (''Signature.getInstance('' @ quote @ ''SHA''), Many AnyByte, ilit (''withECDSA'' @ quote @ '')'')]]\<rparr>"

definition pat_ecdh :: pattern where
  "pat_ecdh = \<lparr>pt_id = ''ECDH'',
     pt_description = ''ECDH key exchange'' @ dash @ ''vulnerable to Shor'' @ apostrophe @ ''s algorithm'', pt_severity = ''critical'',
     pt_pqReplacement = ''ML-KEM-768 (NIST FIPS 203)'',
     pt_re = alts [ilit ''ecdh.'', Cat (ilit ''ECDH'') WordEnd, ilit ''elliptic.P256'', ilit ''elliptic.P384'', ilit ''elliptic.P521'',
       ilit (''KeyAgreement.getInstance('' @ quote @ ''ECDH'' @ quote @ '')'')]\<rparr>"

definition pat_des :: pattern where
  "pat_des = \<lparr>pt_id = ''DES'', pt_description = ''DES/3DES'' @ dash @ ''broken (56-bit key, Sweet32 attack)'', pt_severity = ''critical'',
     pt_pqReplacement = ''AES-256-GCM'',
     pt_re = alts [ilit ''des.New'', ilit ''triple_des'', ilit ''3des'', ilit ''DESKeySpec'', ilit (quote @ ''DES'' @ quote),
       ilit (quote @ ''DESede'' @ quote)]\<rparr>"

definition pat_aes128 :: pattern where
  "pat_aes128 = \<lparr>pt_id = ''AES-128'',
     pt_description = ''AES-128'' @ dash @ ''Grover'' @ apostrophe @ ''s algorithm halves security to 64-bit'', pt_severity = ''high'',
     pt_pqReplacement = ''AES-256-GCM (doubles Grover cost to 128-bit quantum security)'',
     pt_re = Alt (lit ''AES-128'') (Cat (lit ''aes.NewCipher'') WordEnd)\<rparr>"

definition pat_md5 :: pattern where
  "pat_md5 = \<lparr>pt_id = ''MD5'', pt_description = ''MD5 hash'' @ dash @ ''collision attacks, broken for security'', pt_severity = ''high'',
     pt_pqReplacement = ''SHA-256 or SHA3-256'',
     pt_re = alts [ilit ''md5.New'', ilit ''MD5.digest'', ilit (''MessageDigest.getInstance('' @ quote @ ''MD5'' @ quote @ '')''),
       ilit ''crypto/md5'']\<rparr>"

definition pat_sha1 :: pattern where
  "pat_sha1 = \<lparr>pt_id = ''SHA1'', pt_description = ''SHA-1'' @ dash @ ''SHAttered collision attack (2017)'', pt_severity = ''high'',
     pt_pqReplacement = ''SHA-256 or SHA3-256'',
     pt_re = alts [ilit ''sha1.New'', Cat (ilit ''SHA1'') WordEnd, ilit ''sha-1'',
       ilit (''MessageDigest.getInstance('' @ quote @ ''SHA-1'' @ quote @ '')''), ilit ''crypto/sha1'']\<rparr>"

definition pat_weak_rng :: pattern where
  "pat_weak_rng = \<lparr>pt_id = ''WEAK-RNG'',
     pt_description = ''Non-cryptographic RNG'' @ dash @ ''predictable, must not be used for keys/nonces'', pt_severity = ''critical'',
     pt_pqReplacement = ''crypto/rand (Go) / os.urandom (Python) / /dev/urandom'',
     pt_re = alts [ilit ''math/rand'', ilit ''rand.Seed'', ilit ''rand.Intn'', ilit ''random.random()'', ilit ''Random()'',
       cats [ilit ''new'', many1 blank, ilit ''Random()'']]\<rparr>"

definition pat_hardcoded :: pattern where
  "pat_hardcoded = \<lparr>pt_id = ''HARDCODED-KEY'', pt_description = ''Potential hardcoded secret key'', pt_severity = ''critical'',
     pt_pqReplacement = ''Environment variable or secrets manager'',
     pt_re = alts
       [cats [ilit ''private'', opt (lit ''_''), ilit ''key'', Many blank, lit ''='', Many blank, anyquote],
        cats [ilit ''secret'', Many blank, lit ''='', Many blank, anyquote, at_least 16 (folded (alnum @ ''+/''))],
        cats [ilit ''api'', opt (lit ''_''), ilit ''key'', Many blank, lit ''='', Many blank, anyquote, at_least 16 (folded alnum)]]\<rparr>"

definition patterns :: "pattern list" where
  "patterns = [pat_rsa_keygen, pat_rsa_encrypt, pat_rsa_sign, pat_ecdsa, pat_ecdh, pat_des, pat_aes128, pat_md5,
     pat_sha1, pat_weak_rng, pat_hardcoded]"

section \<open>Scanning a tree\<close>

record finding =
  fd_File :: string
  fd_Line :: nat
  fd_PatternID :: string
  fd_Severity :: string
  fd_Description :: string
  fd_Snippet :: string
  fd_PQReplacement :: string

text \<open>A file is its name and its content, if it can be read; a directory its name and what \<open>ReadDir\<close> lists.\<close>

datatype fsnode = FFile string "string option" | FDir string "fsnode list"

fun node_name :: "fsnode \<Rightarrow> string" where
  "node_name (FFile n _) = n"
| "node_name (FDir n _) = n"

definition skipDirs :: "string list" where
  "skipDirs = [''.git'', ''vendor'', ''node_modules'', ''.venv'', ''__pycache__'', ''dist'', ''build'']"

definition scanExts :: "string list" where
  "scanExts = [''.go'', ''.py'', ''.js'', ''.ts'', ''.java'', ''.cs'', ''.cpp'', ''.c'', ''.rs'', ''.rb'', ''.php'', ''.kt'', ''.swift'']"

text \<open>\<open>filepath.Ext\<close>, \<open>strings.ToLower\<close> as far as it gives ASCII, and \<open>filepath.Join\<close> of a clean path
  with a name.\<close>

definition path_Ext :: "string \<Rightarrow> string" where
  "path_Ext path =
     (let tl = takeWhile (\<lambda>c. c \<noteq> CHR ''/'') (rev path); e = takeWhile (\<lambda>c. c \<noteq> CHR ''.'') tl in
      if e = tl then [] else CHR ''.'' # rev e)"

fun to_lower :: "string \<Rightarrow> string" where
  "to_lower (a # b # c # s) =
     (if a = CHR 0xE2 \<and> b = CHR 0x84 \<and> c = CHR 0xAA then CHR ''k'' # to_lower s
      else if a = CHR 0xC4 \<and> b = CHR 0xB0 then CHR ''i'' # to_lower (c # s)
      else lower1 a # to_lower (b # c # s))"
| "to_lower [a, b] = (if a = CHR 0xC4 \<and> b = CHR 0xB0 then ''i'' else [lower1 a, lower1 b])"
| "to_lower [a] = [lower1 a]"
| "to_lower [] = []"

definition path_Join :: "string \<Rightarrow> string \<Rightarrow> string" where
  "path_Join dir name =
     (if dir = ''.'' then name else if dir = ''/'' then ''/'' @ name else dir @ ''/'' @ name)"

definition comment_line :: "string \<Rightarrow> bool" where
  "comment_line line =
     (let t = trim_space line in has_prefix t ''//'' \<or> has_prefix t ''#'' \<or> has_prefix t ''*'')"

definition snippet_of :: "string \<Rightarrow> string" where
  "snippet_of line =
     (let s = trim_space line in
      if length s > 120 then take 120 s @ [CHR 0xE2, CHR 0x80, CHR 0xA6] else s)"

definition mk_finding :: "string \<Rightarrow> nat \<Rightarrow> string \<Rightarrow> pattern \<Rightarrow> finding" where
  "mk_finding path n line p =
     \<lparr>fd_File = path, fd_Line = n, fd_PatternID = pt_id p, fd_Severity = pt_severity p,
      fd_Description = pt_description p, fd_Snippet = snippet_of line, fd_PQReplacement = pt_pqReplacement p\<rparr>"

fun scan_lines :: "string \<Rightarrow> nat \<Rightarrow> string list \<Rightarrow> finding list" where
  "scan_lines path n [] = []"
| "scan_lines path n (line # rest) =
     (if comment_line line then []
      else map (mk_finding path n line) (filter (\<lambda>p. MatchString (pt_re p) line) patterns)) @
     scan_lines path (Suc n) rest"

definition scan_file :: "string \<Rightarrow> string option \<Rightarrow> finding list" where
  "scan_file path content =
     (if to_lower (path_Ext path) \<notin> set scanExts then []
      else case content of None \<Rightarrow> [] | Some data \<Rightarrow> scan_lines path 1 (split_on (CHR 0x0A) data))"

fun scan_node :: "string \<Rightarrow> fsnode \<Rightarrow> finding list" where
  "scan_node path (FFile n content) = scan_file path content"
| "scan_node path (FDir n entries) =
     (if n \<in> set skipDirs then []
      else concat (map (\<lambda>x. scan_node (path_Join path (node_name x)) x) entries))"

text \<open>\<open>scan\<close> of a root that cannot be opened finds nothing.\<close>

definition scan :: "string \<Rightarrow> fsnode option \<Rightarrow> finding list" where
  "scan root node = (case node of None \<Rightarrow> [] | Some x \<Rightarrow> scan_node root x)"

section \<open>The report\<close>

definition sevOrder :: "string \<Rightarrow> nat" where
  "sevOrder s = (if s = ''critical'' then 0 else if s = ''high'' then 1 else if s = ''medium'' then 2 else 0)"

definition report_key :: "finding \<Rightarrow> nat \<times> string \<times> nat" where
  "report_key f = (sevOrder (fd_Severity f), fd_File f, fd_Line f)"

text \<open>\<open>sort.Slice\<close> may order findings of the same line in any way; the model keeps their order.\<close>

definition scanner_report :: "(string \<times> fsnode option) list \<Rightarrow> finding list" where
  "scanner_report roots = sort_key report_key (concat (map (\<lambda>(root, node). scan root node) roots))"

definition enc_finding :: "finding \<Rightarrow> jval" where
  "enc_finding f = JObj
     [(''file'', JStr (fd_File f)), (''line'', JInt (int (fd_Line f))), (''pattern_id'', JStr (fd_PatternID f)),
      (''severity'', JStr (fd_Severity f)), (''description'', JStr (fd_Description f)),
      (''snippet'', JStr (fd_Snippet f)), (''pq_replacement'', JStr (fd_PQReplacement f))]"

definition report_json :: "finding list \<Rightarrow> string" where
  "report_json fs =
     json_indent (JObj [(''findings'', if fs = [] then JNull else JArr (map enc_finding fs)),
       (''total'', JInt (int (length fs)))]) @ [CHR 0x0A]"

definition exit_code :: "bool \<Rightarrow> finding list \<Rightarrow> int" where
  "exit_code strict fs = (if strict \<and> length fs > 0 then 1 else 0)"

section \<open>What is reported\<close>

text \<open>The files a scan reads: those reached from the root through directories that are not skipped.\<close>

inductive visited :: "string \<Rightarrow> fsnode \<Rightarrow> string \<Rightarrow> string option \<Rightarrow> bool" where
  Here: "visited path (FFile n content) path content"
| Below: "n \<notin> set skipDirs \<Longrightarrow> x \<in> set entries \<Longrightarrow> visited (path_Join path (node_name x)) x p content \<Longrightarrow>
    visited path (FDir n entries) p content"

inductive_simps visited_file: "visited path (FFile n c) p content"
inductive_simps visited_dir: "visited path (FDir n es) p content"

lemma scan_node_visited:
  "f \<in> set (scan_node path x) \<longleftrightarrow> (\<exists>p content. visited path x p content \<and> f \<in> set (scan_file p content))"
proof (induction path x rule: scan_node.induct)
  case (2 path n entries)
  have "f \<in> set (scan_node path (FDir n entries)) \<longleftrightarrow>
      n \<notin> set skipDirs \<and> (\<exists>x \<in> set entries. f \<in> set (scan_node (path_Join path (node_name x)) x))"
    by simp
  also have "\<dots> \<longleftrightarrow> (\<exists>p content. visited path (FDir n entries) p content \<and> f \<in> set (scan_file p content))"
    unfolding visited_dir using 2 by blast
  finally show ?case .
qed (simp add: visited_file)

lemma scan_lines_exact:
  "f \<in> set (scan_lines path n ls) \<longleftrightarrow>
     (\<exists>i < length ls. \<not> comment_line (ls ! i) \<and>
        (\<exists>p \<in> set patterns. MatchString (pt_re p) (ls ! i) \<and> f = mk_finding path (n + i) (ls ! i) p))"
proof (induction ls arbitrary: n)
  case (Cons l ls)
  show ?case
    unfolding scan_lines.simps Cons.IH set_append Un_iff length_Cons Ex_less_Suc2 nth_Cons_0 nth_Cons_Suc
    by auto
qed simp

text \<open>C40. The report is sorted by severity, file and line and contains exactly the matches: a finding for a
  pattern and a line when the line is in a readable file with a scanned extension, reached from a root
  outside the skipped directories, is not a comment line and contains a match of the pattern.\<close>

theorem scanner_exact:
  "sorted (map report_key (scanner_report roots)) \<and>
   (f \<in> set (scanner_report roots) \<longleftrightarrow>
     (\<exists>root node path data i p. (root, Some node) \<in> set roots \<and> visited root node path (Some data) \<and>
        to_lower (path_Ext path) \<in> set scanExts \<and> i < length (split_on (CHR 0x0A) data) \<and>
        \<not> comment_line (split_on (CHR 0x0A) data ! i) \<and> p \<in> set patterns \<and>
        MatchString (pt_re p) (split_on (CHR 0x0A) data ! i) \<and>
        f = mk_finding path (i + 1) (split_on (CHR 0x0A) data ! i) p))"
proof -
  have here: "f \<in> set (scan_file path content) \<longleftrightarrow>
      (\<exists>data. content = Some data \<and> to_lower (path_Ext path) \<in> set scanExts \<and>
        f \<in> set (scan_lines path 1 (split_on (CHR 0x0A) data)))" for path content
    by (auto simp: scan_file_def split: option.splits)
  have "f \<in> set (scanner_report roots) \<longleftrightarrow>
      (\<exists>root node. (root, Some node) \<in> set roots \<and> f \<in> set (scan_node root node))"
    by (force simp: scanner_report_def scan_def split: option.splits)
  then show ?thesis
    unfolding scan_node_visited here scan_lines_exact
    by (auto simp: scanner_report_def) blast+
qed

text \<open>A literal matches itself, and an expression that matches at a position matches the text.\<close>

lemma fold_char_self: "(Some c, s) \<in> set (ends (fold_char c) (p, c # s))"
proof -
  have "c = lower1 c \<or> c = upper_char (lower1 c)"
    by (auto simp: lower1_def upper_char_def Let_def of_char_of)
  then show ?thesis by (auto simp: fold_char_def Let_def)
qed

lemma ilit_self: "\<exists>q. (q, s) \<in> set (ends (ilit w) (p, w @ s))"
proof (induction w arbitrary: p)
  case (Cons c w)
  obtain q where "(q, s) \<in> set (ends (ilit w) (Some c, w @ s))" using Cons.IH by blast
  moreover have "(Some c, w @ s) \<in> set (ends (fold_char c) (p, c # w @ s))" by (rule fold_char_self)
  ultimately show ?case by (auto simp: ilit_def)
qed (simp add: ilit_def)

lemma alts_first: "ends r st \<noteq> [] \<Longrightarrow> ends (alts (r # rs)) st \<noteq> []"
  by (cases rs) (auto simp: alts_def)

lemma search_append: "ends r (if u = [] then p else Some (last u), s) \<noteq> [] \<Longrightarrow> search r p (u @ s)"
proof (induction u arbitrary: p)
  case Nil
  then show ?case by (cases s) simp_all
qed (simp split: if_splits)

text \<open>A line that assigns through a pointer starts with an asterisk and passes for a comment: its match is
  not reported.\<close>

definition pointer_line :: string where
  "pointer_line = ''*k = rsa.GenerateKey(r, n)''"

lemma pointer_line_matches: "MatchString (pt_re pat_rsa_keygen) pointer_line"
proof -
  have "ends (alts (ilit ''rsa.GenerateKey'' # rs)) (Some (CHR '' ''), ''rsa.GenerateKey'' @ ''(r, n)'') \<noteq> []" for rs
    using ilit_self [of "''(r, n)''" "''rsa.GenerateKey''" "Some (CHR '' '')"] by (intro alts_first) force
  then have "search (pt_re pat_rsa_keygen) None (''*k = '' @ ''rsa.GenerateKey'' @ ''(r, n)'')"
    unfolding pat_rsa_keygen_def by (intro search_append) simp_all
  then show ?thesis by (simp add: MatchString_def pointer_line_def)
qed

lemma pointer_line_missed: "scan_file ''a.go'' (Some pointer_line) = []"
proof -
  have "split_on (CHR 0x0A) pointer_line = [pointer_line]" by (simp add: pointer_line_def)
  moreover have "comment_line pointer_line" by code_simp
  ultimately show ?thesis by (simp add: scan_file_def)
qed

end
