(* ===== verification/ScannerMain.thy ===== *)
theory ScannerMain
  imports Scanner Flags
begin

text \<open>
  The rest of \<open>cmd/scanner/main.go\<close>: the report as text and the program with its flags. A root is looked up
  by the environment; \<open>scan\<close> itself never fails, so its error branch is not reached.
\<close>

section \<open>The text report\<close>

definition newline :: string where "newline = [CHR 0x0A]"

definition count_severity :: "string \<Rightarrow> finding list \<Rightarrow> nat" where
  "count_severity s fs = length (filter (\<lambda>f. fd_Severity f = s) fs)"

definition severity_label :: "string \<Rightarrow> string" where
  "severity_label s =
     (if s = ''critical'' then [CHR 0xF0, CHR 0x9F, CHR 0x94, CHR 0xB4] @ '' CRITICAL''
      else if s = ''high'' then [CHR 0xF0, CHR 0x9F, CHR 0x9F, CHR 0xA0] @ '' HIGH    ''
      else if s = ''medium'' then [CHR 0xF0, CHR 0x9F, CHR 0x9F, CHR 0xA1] @ '' MEDIUM  ''
      else [])"

definition pad5 :: "string \<Rightarrow> string" where
  "pad5 s = s @ replicate (5 - length s) (CHR '' '')"

definition finding_text :: "finding \<Rightarrow> string" where
  "finding_text f =
     ''   '' @ severity_label (fd_Severity f) @ ''  line '' @ pad5 (dec_int (int (fd_Line f))) @ '' ['' @ fd_PatternID f @ '']'' @ newline @
     ''              '' @ fd_Description f @ newline @
     ''              Snippet: '' @ fd_Snippet f @ newline @
     ''              '' @ [CHR 0xE2, CHR 0x86, CHR 0x92] @ '' Replace with: '' @ fd_PQReplacement f @ newline @ newline"

text \<open>The name of a file is printed when it is not that of the finding before.\<close>

fun findings_text :: "string \<Rightarrow> finding list \<Rightarrow> string" where
  "findings_text prevFile [] = []"
| "findings_text prevFile (f # fs) =
     (if fd_File f \<noteq> prevFile then [CHR 0xF0, CHR 0x9F, CHR 0x93, CHR 0x84] @ '' '' @ fd_File f @ newline else []) @
     finding_text f @ findings_text (fd_File f) fs"

definition printText :: "finding list \<Rightarrow> string" where
  "printText fs =
     (if fs = [] then [CHR 0xE2, CHR 0x9C, CHR 0x85] @ ''  No quantum-vulnerable primitives found.'' @ newline
      else newline @ [CHR 0xF0, CHR 0x9F, CHR 0x94, CHR 0x8D] @ '' QuantumShield Migration Scanner'' @ newline @
        ''   '' @ dec_int (int (length fs)) @ '' finding(s): '' @ dec_int (int (count_severity ''critical'' fs)) @ '' critical  '' @
        dec_int (int (count_severity ''high'' fs)) @ '' high  '' @ dec_int (int (count_severity ''medium'' fs)) @ '' medium'' @
        newline @ newline @ findings_text [] fs)"

section \<open>The program\<close>

text \<open>The exit code and the standard output.\<close>

definition scanner_main :: "(string \<Rightarrow> fsnode option) \<Rightarrow> string list \<Rightarrow> int \<times> string" where
  "scanner_main fs args =
     (case parse_flags [(''json'', True), (''strict'', True)] [] args of
        HelpAsked \<Rightarrow> (0, [])
      | BadFlag \<Rightarrow> (2, [])
      | Parsed fl rest \<Rightarrow>
          (let roots = (if rest = [] then [''.''] else rest);
               found = scanner_report (map (\<lambda>root. (root, fs root)) roots) in
           (exit_code (flag_value fl ''strict'' ''false'' = ''true'') found,
            if flag_value fl ''json'' ''false'' = ''true'' then report_json found else printText found)))"

text \<open>Every severity the patterns have is counted: the three numbers of the head line add up to the total.\<close>

lemma pattern_severities: "p \<in> set patterns \<Longrightarrow> pt_severity p \<in> {''critical'', ''high'', ''medium''}"
  by (auto simp: patterns_def pat_rsa_keygen_def pat_rsa_encrypt_def pat_rsa_sign_def pat_ecdsa_def pat_ecdh_def
      pat_des_def pat_aes128_def pat_md5_def pat_sha1_def pat_weak_rng_def pat_hardcoded_def)

lemma scan_lines_severity: "f \<in> set (scan_lines path n ls) \<Longrightarrow> fd_Severity f \<in> {''critical'', ''high'', ''medium''}"
proof -
  assume "f \<in> set (scan_lines path n ls)"
  then obtain p where "p \<in> set patterns" "fd_Severity f = pt_severity p" by (auto simp: scan_lines_exact mk_finding_def)
  then show ?thesis using pattern_severities by simp
qed

lemma report_severity: "f \<in> set (scanner_report roots) \<Longrightarrow> fd_Severity f \<in> {''critical'', ''high'', ''medium''}"
  using scan_lines_severity
  by (fastforce simp: scanner_report_def scan_def scan_node_visited scan_file_def split: option.splits if_splits)

lemma counts_add_up:
  assumes "\<And>f. f \<in> set fs \<Longrightarrow> fd_Severity f \<in> {''critical'', ''high'', ''medium''}"
  shows "count_severity ''critical'' fs + count_severity ''high'' fs + count_severity ''medium'' fs = length fs"
  using assms by (induction fs) (auto simp: count_severity_def)

lemma report_counts:
  "count_severity ''critical'' (scanner_report roots) + count_severity ''high'' (scanner_report roots) +
   count_severity ''medium'' (scanner_report roots) = length (scanner_report roots)"
  by (rule counts_add_up) (rule report_severity)

text \<open>No pattern has the severity medium, so its count is always 0.\<close>

lemma no_medium: "p \<in> set patterns \<Longrightarrow> pt_severity p \<noteq> ''medium''"
  by (auto simp: patterns_def pat_rsa_keygen_def pat_rsa_encrypt_def pat_rsa_sign_def pat_ecdsa_def pat_ecdh_def
      pat_des_def pat_aes128_def pat_md5_def pat_sha1_def pat_weak_rng_def pat_hardcoded_def)

text \<open>With \<open>-strict\<close> the program fails exactly when it reports something, without it never.\<close>

lemma scanner_exit:
  assumes "parse_flags [(''json'', True), (''strict'', True)] [] args = Parsed fl rest" "rest \<noteq> []"
  shows "fst (scanner_main fs args) =
    (if flag_value fl ''strict'' ''false'' = ''true'' \<and> scanner_report (map (\<lambda>root. (root, fs root)) rest) \<noteq> [] then 1 else 0)"
  using assms by (simp add: scanner_main_def exit_code_def Let_def)

end
