(* ===== verification/Spec2Isabelle.thy ===== *)
theory Spec2Isabelle
  imports ServerFindings ServerMain ClientServer Hsm ScannerMain
begin

text \<open>
  A verification development for QuantumShield (\<open>quantum-shield-go\<close>), a Go service for post-quantum
  cryptography, with its command-line client, its container probe and its source scanner.

  \<^bold>\<open>The program.\<close> The server (\<open>pkg/api/server.go\<close>, started by \<open>cmd/server/main.go\<close>) answers HTTP requests.
  A request passes the middlewares (\<open>pkg/middleware\<close>, \<open>pkg/metrics\<close>), then the authentication of its route
  (\<open>internal/auth\<close>), then a handler, which calls the packages under \<open>internal/\<close>: encryption (\<open>hybrid\<close> over
  \<open>kem\<close>), signatures (\<open>dsa\<close>, \<open>slhdsa\<close>), secret sharing (\<open>vault\<close>), secure channels (\<open>channel\<close>), committee
  approval (\<open>threshold\<close>), stored keys (\<open>keystore\<close>, whose master key comes from \<open>hsm\<close>), certificates (\<open>ca\<close>,
  saved by \<open>castore\<close>) and the audit log (\<open>audit\<close>). With clustering, keys and certificate authorities are
  replicated through Raft (\<open>internal/cluster\<close>). \<open>cmd/qs\<close> is a client of the HTTP interface,
  \<open>cmd/healthcheck\<close> probes it, \<open>cmd/scanner\<close> searches source trees for old cryptography.

  \<^bold>\<open>How code is rendered.\<close> Definitions keep the names of the Go functions, with a prefix where names of
  packages clash (\<open>auth_Verify\<close>, \<open>ca_Verify\<close>). A struct is a record, its methods are functions that take and
  return it. A Go string and a \<open>[]byte\<close> are lists of bytes; a map is an association list (\<open>gomap\<close>); sizes that
  can wrap around are 64-bit words or \<open>int\<close> with the wrap-around written out; a \<open>float64\<close> is a rational or a
  special value, with the rounding of IEEE 754. A function that can fail returns \<open>result\<close>: \<open>Ok\<close>, \<open>Err\<close>
  with the error of its package, or \<open>Panic\<close>. The random source is a list of bytes that is read from its
  front, the clock is an argument, the file system is a map of files with an argument \<open>disk\<close> that says at
  which step a write fails. A mutex is the order in which operations run.

  \<^bold>\<open>The theories\<close>, in the order they build on each other:
  \<^item> \<open>Prelude\<close>: strings, words, times, maps, results and randomness, and the interface \<open>op_system\<close> of a component
    whose operations run one after another (an invariant, and a relation of earlier to later states).
    \<open>Encoding\<close>: base64, hex and big-endian integers with their round trips. \<open>Json\<close>, \<open>JsonClean\<close>:
    \<open>encoding/json\<close>; decoding what was encoded gives the value back, proved once for the compact and the
    indented layout (locale \<open>json_layout\<close>). \<open>Rfc3339\<close>: the text of times. \<open>Float64\<close>, \<open>Flags\<close>: arithmetic of
    \<open>float64\<close>, package \<open>flag\<close>, \<open>time.ParseDuration\<close>. \<open>Storage\<close>: files and atomic replacement, and the
    interface \<open>revocation\<close> shared by tokens and certificates.
  \<^item> \<open>Crypto\<close>: the primitives as the parameter \<open>crypto\<close>, the laws the program relies on, and the wrappers
    \<open>internal/kem\<close>, \<open>dsa\<close>, \<open>slhdsa\<close>, \<open>kdf\<close>. \<open>toy_crypto\<close> satisfies the laws and serves the witnesses.
  \<^item> \<open>GF256\<close>, \<open>Interpolation\<close>, \<open>Vault\<close>: \<open>internal/vault\<close>. The constant-time multiplication equals the textbook
    one and makes the bytes a field (an instance of the class \<open>field\<close>); sharing is interpolation over it,
    which gives the round trip, perfect secrecy and what a successful reconstruction means.
  \<^item> \<open>AuditLog\<close>, \<open>Auth\<close>, \<open>Channel\<close>, \<open>Threshold\<close>, \<open>Hybrid\<close>: one package each, with its state, every operation,
    an invariant kept by all operations, the behaviour of every operation on success and on each error, and
    the guarantee the package exists for (a chain that verifies and only grows; tokens that verify exactly
    while valid and stay revoked across restarts; delivery without replay; a bundle that holds the
    signatures of distinct members; no second decryption of a ciphertext).
  \<^item> \<open>Keystore\<close>, \<open>Hsm\<close>, \<open>CertAuth\<close>, \<open>CAStore\<close>: keys, master keys (locale \<open>master_key_provider\<close>, with both providers
    as interpretations), certificates and their encrypted file. The keystore is shown to refine a table of
    numbered versions; a process that starts again finds exactly what was durable before, wherever the disk
    failed during the run. Chains of certificates are
    accepted exactly when they satisfy the declarative definition.
  \<^item> \<open>Cluster\<close>, \<open>ClusterNode\<close>: the replicated state machine and the node. The cluster is a step relation over a
    committed log; every node is shown to hold the state that its prefix of the log determines, whatever the
    local clocks, snapshots and restarts are, except for the revocation times that a node takes from its clock.
  \<^item> \<open>Http\<close>, \<open>Middleware\<close>, \<open>Metrics\<close>, \<open>Fips\<close>: answers, middlewares, the registry, the self-tests. The rate limiter
    equals a reference that never forgets a request; a second model interleaves requests and the cleaner at
    the granularity of the locks, gives the bound on every window for the runs in which the clock is read in
    order, and shows the two races outside them.
  \<^item> \<open>ServerState\<close>, \<open>ServerKeys\<close>, \<open>ServerCA\<close>, \<open>ServerSessions\<close>, \<open>Server\<close>: the struct \<open>Server\<close>, every handler, the
    routes and the chain of middlewares. A handler is a sequence of steps (\<open>act\<close>) on the record \<open>srv\<close>; a step
    goes on, answers, or panics. The order of the steps is that of the source, audit entries and counters
    included.
  \<^item> \<open>ServerSafety\<close>, \<open>ServerInvariant\<close>: a small logic for steps (\<open>keeps\<close>, with the interface \<open>public_inv\<close> of what
    an invariant must allow) gives the properties of all handlers at once: data change only behind
    authorisation, requests are answered without panic, the invariant \<open>srv_ok\<close> holds over any run.
  \<^item> \<open>ServerFlows\<close>, \<open>ServerFindings\<close>: what a client gets through several requests, and the requests on which the
    server goes wrong.
  \<^item> \<open>ServerMain\<close>: \<open>cmd/server/main.go\<close>, \<open>pkg/logger\<close> and \<open>cmd/healthcheck\<close>; a run of a process is the list of
    its effects. \<open>Cli\<close>, \<open>CliSafety\<close>: \<open>cmd/qs\<close> as a program that prompts its environment, with the
    redirections \<open>http.Client.Do\<close> follows, and what holds of it for every server. \<open>ClientServer\<close>: the client run against the server of the model.
  \<^item> \<open>Scanner\<close>, \<open>ScannerMain\<close>: \<open>cmd/scanner\<close>, with a matcher for its regular expressions.

  \<^bold>\<open>Bounds and fuel.\<close> Recursion is structural or has a measure, with these exceptions. The JSON decoder
  starts with a fuel of the length of its input plus 3 and uses one unit per nesting or element, each of
  which takes at least one character; the round trips show it is enough for every text the encoder writes. The
  duration parser starts with the length of its input, and more never changes its result. The loop of
  \<open>WaitForLeader\<close> is partial and shown to end when every poll takes time. The bounds of the program itself
  (256 pending handshakes, 100000 cached ciphertexts, 1 MiB of a body, 255 shards) appear as constants where
  the code has them; the round trip of the vault is stated for up to 127 shards, beyond which the coordinates
  of the code repeat.

  \<^bold>\<open>What is assumed.\<close> The laws of the primitives are hypotheses of the theorems that need them
  (\<open>kem_correct\<close>, \<open>dsa_correct\<close>, \<open>slh_correct\<close>, \<open>gcm_correct\<close>, \<open>hash_sizes\<close>): decapsulation inverts encapsulation, a
  signature that was made verifies, opening inverts sealing, digests have their length. Unforgeability and
  collision resistance are never assumed: theorems that need them say which forgery or collision the
  exception would be. Raft appears through what it commits and reports, the PKCS#11 library through what it
  answers.

  \<^bold>\<open>Not modelled.\<close> Requests are served one after another, with one reading of the clock and one outcome of the
  disk each; interleaving is modelled for the rate limiter, where it matters. The random source of a running
  server does not fail quietly: a short read is a panic of the handler, as in \<open>crypto/rand\<close>. Left out are
  percent-escapes in paths and the page of a redirection, the text of errors made by libraries (an argument
  where the program prints it), the stderr texts of package \<open>flag\<close>, the timeouts and the transport of
  \<open>net/http\<close>, the zeroing of memory that no operation reads again, and the handling of \<open>null\<close> entries in a
  keystore file the program never writes. The JavaScript and Python clients, the web application and the
  deployment files are not part of the Go program.
\<close>

end
